(* ===== verification/Prelude.thy ===== *)
theory Prelude
  imports Main "HOL-Library.AList" "HOL-Library.Sublist"
begin

text \<open>
  The vocabulary every component of the model shares: Python exceptions as values, the
  state-and-exception actions the effectful code is written in, dictionaries as association
  lists in insertion order, and the small calculus (\<open>wp\<close>, \<open>wlp\<close>) the proofs
  about actions use.
\<close>

section \<open>Collections\<close>

named_theorems act_defs "unfolding rules of the state-and-exception actions"
named_theorems dict_simps "lookup rules of Python dictionaries"

section \<open>Python exceptions\<close>

text \<open>
  An exception is its class name and its \<open>str()\<close>. \<open>Exn\<close> stands for a subclass of
  \<open>Exception\<close>, which \<open>except Exception\<close> catches; \<open>BaseExn\<close> for the rest of
  \<open>BaseException\<close> (\<open>CancelledError\<close>, \<open>KeyboardInterrupt\<close>, ...), which it does not.
\<close>

datatype exn =
    Exn (exn_class: string) (exn_text: string)
  | BaseExn (exn_class: string) (exn_text: string)

type_synonym 'a outcome = "exn + 'a"

definition value_error :: "string \<Rightarrow> exn" where
  "value_error s = Exn ''ValueError'' s"

definition runtime_error :: "string \<Rightarrow> exn" where
  "runtime_error s = Exn ''RuntimeError'' s"

text \<open>A text between apostrophes, as the messages of the code write it.\<close>

definition quoted :: "string \<Rightarrow> string" where
  "quoted s = CHR 0x27 # s @ [CHR 0x27]"

fun bindE :: "'e + 'a \<Rightarrow> ('a \<Rightarrow> 'e + 'b) \<Rightarrow> 'e + 'b" where
  "bindE (Inl e) f = Inl e"
| "bindE (Inr a) f = f a"

lemma bindE_eq_Inr_iff: "bindE m f = Inr b \<longleftrightarrow> (\<exists>a. m = Inr a \<and> f a = Inr b)"
  by (cases m) auto

fun mapE :: "('a \<Rightarrow> 'e + 'b) \<Rightarrow> 'a list \<Rightarrow> 'e + 'b list" where
  "mapE f [] = Inr []"
| "mapE f (x # xs) = bindE (f x) (\<lambda>y. bindE (mapE f xs) (\<lambda>ys. Inr (y # ys)))"

lemma mapE_length: "mapE f xs = Inr ys \<Longrightarrow> length ys = length xs"
  by (induction xs arbitrary: ys) (auto simp: bindE_eq_Inr_iff)

lemma mapE_Inr: "mapE (\<lambda>x. Inr (g x)) xs = Inr (map g xs)"
  by (induction xs) auto

lemma mapE_cong_Inr:
  "(\<And>x. x \<in> set xs \<Longrightarrow> f x = Inr (g x)) \<Longrightarrow> mapE f xs = Inr (map g xs)"
  by (induction xs) auto

section \<open>Actions\<close>

text \<open>
  An effectful method is an action: from a state, it either never returns (\<open>None\<close>) or ends
  in a state with a value (\<open>Inr\<close>) or a raised exception (\<open>Inl\<close>).
\<close>

type_synonym ('s, 'a) act = "'s \<Rightarrow> ((exn + 'a) \<times> 's) option"

definition ret :: "'a \<Rightarrow> ('s, 'a) act" where
  "ret a s = Some (Inr a, s)"

definition raise :: "exn \<Rightarrow> ('s, 'a) act" where
  "raise e s = Some (Inl e, s)"

definition bindA :: "('s, 'a) act \<Rightarrow> ('a \<Rightarrow> ('s, 'b) act) \<Rightarrow> ('s, 'b) act" where
  "bindA m f s =
     (case m s of
        None \<Rightarrow> None
      | Some (Inl e, t) \<Rightarrow> Some (Inl e, t)
      | Some (Inr a, t) \<Rightarrow> f a t)"

abbreviation thenA :: "('s, 'a) act \<Rightarrow> ('s, 'b) act \<Rightarrow> ('s, 'b) act" where
  "thenA m n \<equiv> bindA m (\<lambda>_. n)"

definition get :: "('s \<Rightarrow> 'a) \<Rightarrow> ('s, 'a) act" where
  "get f s = Some (Inr (f s), s)"

definition modify :: "('s \<Rightarrow> 's) \<Rightarrow> ('s, unit) act" where
  "modify f s = Some (Inr (), f s)"

text \<open>\<open>try: m except Exception as exc: h exc\<close>.\<close>

definition try_except :: "('s, 'a) act \<Rightarrow> (exn \<Rightarrow> ('s, 'a) act) \<Rightarrow> ('s, 'a) act" where
  "try_except m h s =
     (case m s of
        None \<Rightarrow> None
      | Some (Inl (Exn c x), t) \<Rightarrow> h (Exn c x) t
      | Some (Inl (BaseExn c x), t) \<Rightarrow> Some (Inl (BaseExn c x), t)
      | Some (Inr a, t) \<Rightarrow> Some (Inr a, t))"

text \<open>
  \<open>try: x = ... except Exception as exc:\<close>, when what follows differs on the two
  paths: the exception becomes a value.
\<close>

definition caught :: "('s, 'a) act \<Rightarrow> ('s, exn + 'a) act" where
  "caught m = try_except (bindA m (\<lambda>a. ret (Inr a))) (\<lambda>e. ret (Inl e))"

text \<open>
  Sequential iteration, \<open>for x in xs: f x\<close>, where the body decides whether the loop goes on
  (\<open>None\<close>) or the enclosing function returns (\<open>Some b\<close>).
\<close>

fun for_each :: "('x \<Rightarrow> ('s, 'b option) act) \<Rightarrow> 'x list \<Rightarrow> ('s, 'b option) act" where
  "for_each f [] = ret None"
| "for_each f (x # xs) =
     bindA (f x) (\<lambda>r. case r of None \<Rightarrow> for_each f xs | Some b \<Rightarrow> ret (Some b))"

lemma bind_assoc: "bindA (bindA m f) g = bindA m (\<lambda>a. bindA (f a) g)"
  by (rule ext) (simp add: bindA_def split: option.split sum.split prod.split)

lemma bind_ret [simp]: "bindA (ret a) f = f a"
  by (rule ext) (simp add: bindA_def ret_def)

text \<open>A call of a library on the world, and a pure computation that may raise.\<close>

definition call :: "('w \<Rightarrow> 'a outcome \<times> 'w) \<Rightarrow> ('w, 'a) act" where
  "call f w = Some (f w)"

definition lift :: "'a outcome \<Rightarrow> ('w, 'a) act" where
  "lift r w = Some (r, w)"

section \<open>Total and partial correctness of actions\<close>

text \<open>
  \<open>wp m Q E s\<close>: from \<open>s\<close>, \<open>m\<close> returns, with \<open>Q\<close> of a value and the final
  state, or \<open>E\<close> of an exception and the final state. \<open>wlp\<close> is the same for the runs that
  return.
\<close>

definition wp :: "('s, 'a) act \<Rightarrow> ('a \<Rightarrow> 's \<Rightarrow> bool) \<Rightarrow> (exn \<Rightarrow> 's \<Rightarrow> bool) \<Rightarrow> 's \<Rightarrow> bool" where
  "wp m Q E s \<longleftrightarrow>
     (case m s of None \<Rightarrow> False | Some (Inl e, t) \<Rightarrow> E e t | Some (Inr a, t) \<Rightarrow> Q a t)"

definition wlp :: "('s, 'a) act \<Rightarrow> ('a \<Rightarrow> 's \<Rightarrow> bool) \<Rightarrow> (exn \<Rightarrow> 's \<Rightarrow> bool) \<Rightarrow> 's \<Rightarrow> bool" where
  "wlp m Q E s \<longleftrightarrow>
     (case m s of None \<Rightarrow> True | Some (Inl e, t) \<Rightarrow> E e t | Some (Inr a, t) \<Rightarrow> Q a t)"

lemma wp_ret [simp]: "wp (ret a) Q E = Q a"
  by (rule ext) (simp add: wp_def ret_def)

lemma wp_raise [simp]: "wp (raise e) Q E = E e"
  by (rule ext) (simp add: wp_def raise_def)

lemma wp_get [simp]: "wp (get f) Q E s = Q (f s) s"
  by (simp add: wp_def get_def)

lemma wp_modify [simp]: "wp (modify f) Q E s = Q () (f s)"
  by (simp add: wp_def modify_def)

lemma wp_bindA [simp]: "wp (bindA m f) Q E s = wp m (\<lambda>a. wp (f a) Q E) E s"
  by (simp add: wp_def bindA_def split: option.split sum.split prod.split)

lemma wp_try_except [simp]:
  "wp (try_except m h) Q E s =
     wp m Q (\<lambda>e. case e of Exn c x \<Rightarrow> wp (h (Exn c x)) Q E | BaseExn c x \<Rightarrow> E (BaseExn c x)) s"
  by (simp add: wp_def try_except_def split: option.split sum.split prod.split exn.split)

lemma wp_if: "wp (if b then m else n) Q E s = (if b then wp m Q E s else wp n Q E s)"
  by simp

lemma wp_mono:
  "wp m Q E s \<Longrightarrow> (\<And>a t. Q a t \<Longrightarrow> Q' a t) \<Longrightarrow> (\<And>e t. E e t \<Longrightarrow> E' e t) \<Longrightarrow> wp m Q' E' s"
  by (auto simp: wp_def split: option.splits sum.splits prod.splits)

lemma wlp_ret [simp]: "wlp (ret a) Q E = Q a"
  by (rule ext) (simp add: wlp_def ret_def)

lemma wlp_raise [simp]: "wlp (raise e) Q E = E e"
  by (rule ext) (simp add: wlp_def raise_def)

lemma wlp_get [simp]: "wlp (get f) Q E s = Q (f s) s"
  by (simp add: wlp_def get_def)

lemma wlp_modify [simp]: "wlp (modify f) Q E s = Q () (f s)"
  by (simp add: wlp_def modify_def)

lemma wlp_bindA [simp]: "wlp (bindA m f) Q E s = wlp m (\<lambda>a. wlp (f a) Q E) E s"
  by (simp add: wlp_def bindA_def split: option.split sum.split prod.split)

lemma wlp_try_except [simp]:
  "wlp (try_except m h) Q E s =
     wlp m Q (\<lambda>e. case e of Exn c x \<Rightarrow> wlp (h (Exn c x)) Q E | BaseExn c x \<Rightarrow> E (BaseExn c x)) s"
  by (simp add: wlp_def try_except_def split: option.split sum.split prod.split exn.split)

lemma wlp_call:
  "wlp (call f) Q E w = (case f w of (Inl e, t) \<Rightarrow> E e t | (Inr a, t) \<Rightarrow> Q a t)"
  by (simp add: call_def wlp_def split: prod.split sum.split)

lemma wlp_lift [simp]: "wlp (lift r) Q E w = (case r of Inl e \<Rightarrow> E e w | Inr a \<Rightarrow> Q a w)"
  by (simp add: lift_def wlp_def split: sum.split)

lemma wp_call:
  "wp (call f) Q E w = (case f w of (Inl e, t) \<Rightarrow> E e t | (Inr a, t) \<Rightarrow> Q a t)"
  by (simp add: call_def wp_def split: prod.split sum.split)

lemma wp_lift [simp]: "wp (lift r) Q E w = (case r of Inl e \<Rightarrow> E e w | Inr a \<Rightarrow> Q a w)"
  by (simp add: lift_def wp_def split: sum.split)

lemma wlp_mono:
  "wlp m Q E s \<Longrightarrow> (\<And>a t. Q a t \<Longrightarrow> Q' a t) \<Longrightarrow> (\<And>e t. E e t \<Longrightarrow> E' e t) \<Longrightarrow> wlp m Q' E' s"
  by (auto simp: wlp_def split: option.splits sum.splits prod.splits)

lemma wlp_conj:
  "wlp m Q E s \<Longrightarrow> wlp m Q' E' s \<Longrightarrow> wlp m (\<lambda>a t. Q a t \<and> Q' a t) (\<lambda>e t. E e t \<and> E' e t) s"
  by (auto simp: wlp_def split: option.splits sum.splits prod.splits)

lemma wp_conj:
  "wp m Q E s \<Longrightarrow> wp m Q' E' s \<Longrightarrow> wp m (\<lambda>a t. Q a t \<and> Q' a t) (\<lambda>e t. E e t \<and> E' e t) s"
  by (auto simp: wp_def split: option.splits sum.splits prod.splits)

lemma wp_iff_wlp_returns: "wp m Q E s \<longleftrightarrow> m s \<noteq> None \<and> wlp m Q E s"
  by (auto simp: wp_def wlp_def split: option.splits)

lemma wp_wlp: "wp m Q E s \<Longrightarrow> wlp m Q E s"
  by (simp add: wp_iff_wlp_returns)

lemma wp_returns: "wp m Q E s \<Longrightarrow> \<exists>r t. m s = Some (r, t)"
  by (auto simp: wp_def split: option.splits)

lemma wp_same: "wp m (\<lambda>_. Q) (\<lambda>_. Q) s \<longleftrightarrow> (\<exists>r t. m s = Some (r, t) \<and> Q t)"
  by (auto simp: wp_def split: option.split sum.split prod.split)

lemma wp_Inr: "wp m Q E s \<Longrightarrow> m s = Some (Inr a, t) \<Longrightarrow> Q a t"
  by (simp add: wp_def)

lemma wlp_Inr: "wlp m Q E s \<Longrightarrow> m s = Some (Inr a, t) \<Longrightarrow> Q a t"
  by (simp add: wlp_def)

lemma wlp_Inl: "wlp m Q E s \<Longrightarrow> m s = Some (Inl e, t) \<Longrightarrow> E e t"
  by (simp add: wlp_def)

lemma caught_wlp [simp]:
  "wlp (caught m) Q E s =
     wlp m (\<lambda>a. Q (Inr a)) (\<lambda>e. case e of Exn c t \<Rightarrow> Q (Inl (Exn c t)) | BaseExn c t \<Rightarrow> E (BaseExn c t)) s"
  by (simp add: wlp_def caught_def try_except_def bindA_def ret_def split: option.split sum.split prod.split exn.split)

lemma caught_wp [simp]:
  "wp (caught m) Q E s =
     wp m (\<lambda>a. Q (Inr a)) (\<lambda>e. case e of Exn c t \<Rightarrow> Q (Inl (Exn c t)) | BaseExn c t \<Rightarrow> E (BaseExn c t)) s"
  by (simp add: wp_def caught_def try_except_def bindA_def ret_def split: option.split sum.split prod.split exn.split)

lemma wlp_for_each:
  assumes inv: "\<And>x t. x \<in> set xs \<Longrightarrow> I t \<Longrightarrow>
      wlp (f x) (\<lambda>r t'. case r of None \<Rightarrow> I t' | Some b \<Rightarrow> R b t') E t"
    and start: "I s"
  shows "wlp (for_each f xs) (\<lambda>r t. case r of None \<Rightarrow> I t | Some b \<Rightarrow> R b t) E s"
  using inv start
proof (induction xs arbitrary: s)
  case Nil
  then show ?case by simp
next
  case (Cons x xs)
  have body: "wlp (f x) (\<lambda>r t'. case r of None \<Rightarrow> I t' | Some b \<Rightarrow> R b t') E s"
    using Cons.prems by simp
  have rest: "wlp (for_each f xs) (\<lambda>r t. case r of None \<Rightarrow> I t | Some b \<Rightarrow> R b t) E t" if "I t" for t
    using Cons.IH [OF _ that] Cons.prems(1) by auto
  show ?case
    unfolding for_each.simps wlp_bindA
  proof (rule wlp_mono [OF body])
    fix r t
    assume "case r of None \<Rightarrow> I t | Some b \<Rightarrow> R b t"
    then show "wlp (case r of None \<Rightarrow> for_each f xs | Some b \<Rightarrow> ret (Some b))
        (\<lambda>r t. case r of None \<Rightarrow> I t | Some b \<Rightarrow> R b t) E t"
      by (cases r) (simp_all add: rest)
  qed simp
qed

section \<open>Dictionaries\<close>

text \<open>
  A Python dict keeps insertion order: assigning to a present key replaces the value in place,
  to a new key appends. That is \<^const>\<open>AList.update\<close>.
\<close>

type_synonym ('k, 'v) dict = "('k \<times> 'v) list"

definition dict_pop :: "'k \<Rightarrow> ('k, 'v) dict \<Rightarrow> 'v option \<times> ('k, 'v) dict" where
  "dict_pop k d = (map_of d k, AList.delete k d)"

lemma dict_update_lookup [dict_simps]:
  "map_of (AList.update k v d) k' = (if k' = k then Some v else map_of d k')"
  by (simp add: update_conv')

lemma dict_delete_lookup [dict_simps]:
  "map_of (AList.delete k d) k' = (if k' = k then None else map_of d k')"
  by (simp add: delete_conv')

lemma dict_delete_idem: "AList.delete k (AList.delete k d) = AList.delete k d"
  by (simp add: delete_idem)

lemma dict_update_mem: "(k, v) \<in> set (AList.update k v d)"
  by (induction d) auto

section \<open>Keyed stores\<close>

text \<open>
  What a client may rely on of anything that maps keys to values: a lookup sees the last write
  to its own key and nothing else. The processing context, the provider registry and the
  dictionaries of the hooks provide it.
\<close>

locale keyed_store =
  fixes put :: "'k \<Rightarrow> 'v \<Rightarrow> 's \<Rightarrow> 's"
    and drop_key :: "'k \<Rightarrow> 's \<Rightarrow> 's"
    and look :: "'s \<Rightarrow> 'k \<Rightarrow> 'v option"
  assumes look_put: "look (put k v s) k' = (if k' = k then Some v else look s k')"
    and look_drop: "look (drop_key k s) k' = (if k' = k then None else look s k')"
begin

definition put_all :: "('k \<times> 'v) list \<Rightarrow> 's \<Rightarrow> 's" where
  "put_all kvs s = fold (\<lambda>(k, v). put k v) kvs s"

lemma look_put_all:
  "look (put_all kvs s) k = (case map_of (rev kvs) k of None \<Rightarrow> look s k | Some v \<Rightarrow> Some v)"
proof (induction kvs arbitrary: s)
  case Nil
  then show ?case by (simp add: put_all_def)
next
  case (Cons kv kvs)
  then show ?case
    by (cases kv) (auto simp: put_all_def look_put map_add_def split: option.splits)
qed

lemma put_all_frame: "k \<notin> fst ` set kvs \<Longrightarrow> look (put_all kvs s) k = look s k"
  by (auto simp: look_put_all map_of_eq_None_iff split: option.splits dest: map_of_SomeD)
     (metis fst_conv image_eqI map_of_SomeD set_rev)

lemma put_all_last: "distinct (map fst kvs) \<Longrightarrow> (k, v) \<in> set kvs \<Longrightarrow> look (put_all kvs s) k = Some v"
  by (simp add: look_put_all rev_map [symmetric])

lemma put_commute:
  "k \<noteq> k' \<Longrightarrow> look (put k v (put k' v' s)) = look (put k' v' (put k v s))"
  by (rule ext) (simp add: look_put)

lemma put_drop: "look (drop_key k (put k v s)) = look (drop_key k s)"
  by (rule ext) (simp add: look_put look_drop)

end

interpretation dict_store: keyed_store AList.update AList.delete map_of
  by unfold_locales (simp_all add: dict_simps)

section \<open>Lists\<close>

lemma take_minus_length_append: "drop (length (xs @ ys) - length ys) (xs @ ys) = ys"
  by simp

lemma list_all_suffix: "suffix xs ys \<Longrightarrow> list_all P ys \<Longrightarrow> list_all P xs"
  by (auto simp: suffix_def)

end
