(* ===== verification/Core_Model.thy ===== *)
theory Core_Model
  imports Prelude
begin

text \<open>
  The data model of the processing framework (\<open>processing/core\<close>): execution status and
  metadata, the results of stages and pipelines, and the processing context with its enumerated
  keys. Record fields carry a two-letter prefix
  because field names are global constants; inheritance of result classes is record extension.
\<close>

section \<open>Values\<close>

text \<open>The Python values the model stores under \<open>Any\<close>.\<close>

datatype py_value = PyNone | PyBool bool | PyInt int | PyStr string

fun py_opt_str :: "string option \<Rightarrow> py_value" where
  "py_opt_str None = PyNone"
| "py_opt_str (Some s) = PyStr s"

section \<open>Execution status\<close>

datatype execution_status =
    PENDING | RUNNING | COMPLETED | FAILED | CANCELLED | SKIPPED | TIMEOUT | RETRYING

fun status_value :: "execution_status \<Rightarrow> string" where
  "status_value PENDING = ''PENDING''"
| "status_value RUNNING = ''RUNNING''"
| "status_value COMPLETED = ''COMPLETED''"
| "status_value FAILED = ''FAILED''"
| "status_value CANCELLED = ''CANCELLED''"
| "status_value SKIPPED = ''SKIPPED''"
| "status_value TIMEOUT = ''TIMEOUT''"
| "status_value RETRYING = ''RETRYING''"

definition is_finished :: "execution_status \<Rightarrow> bool" where
  "is_finished s \<longleftrightarrow> s \<in> {COMPLETED, FAILED, CANCELLED, SKIPPED, TIMEOUT}"

definition is_success :: "execution_status \<Rightarrow> bool" where
  "is_success s \<longleftrightarrow> s = COMPLETED"

definition is_failure :: "execution_status \<Rightarrow> bool" where
  "is_failure s \<longleftrightarrow> s \<in> {FAILED, TIMEOUT}"

definition can_retry :: "execution_status \<Rightarrow> bool" where
  "can_retry s \<longleftrightarrow> s \<in> {FAILED, TIMEOUT}"

lemma status_value_inj: "inj status_value"
proof (rule injI)
  fix x y :: execution_status
  show "status_value x = status_value y \<Longrightarrow> x = y"
    by (cases x; cases y) simp_all
qed

lemma failure_is_finished: "is_failure s \<Longrightarrow> is_finished s \<and> \<not> is_success s"
  by (auto simp: is_failure_def is_finished_def is_success_def)

section \<open>Metadata and results\<close>

text \<open>Instants and durations are integers: microseconds, the resolution of \<open>datetime\<close>.\<close>

record execution_metadata =
  em_execution_id :: string
  em_pipeline_id :: "string option"
  em_stage_id :: "string option"
  em_correlation_id :: "string option"
  em_parent_execution_id :: "string option"
  em_started_at :: "int option"
  em_attributes :: "(string, py_value) dict"

definition new_metadata :: "string \<Rightarrow> execution_metadata" where
  "new_metadata eid =
     \<lparr> em_execution_id = eid, em_pipeline_id = None, em_stage_id = None,
       em_correlation_id = None, em_parent_execution_id = None, em_started_at = None,
       em_attributes = [] \<rparr>"

definition with_attribute :: "string \<Rightarrow> py_value \<Rightarrow> execution_metadata \<Rightarrow> execution_metadata" where
  "with_attribute key v m = m \<lparr> em_attributes := AList.update key v (em_attributes m) \<rparr>"

record processing_result =
  pr_status :: execution_status
  pr_metadata :: execution_metadata
  pr_error_type :: "string option"
  pr_error_message :: "string option"

definition succeeded :: "'a processing_result_scheme \<Rightarrow> bool" where
  "succeeded r \<longleftrightarrow> pr_status r = COMPLETED"

definition failed :: "'a processing_result_scheme \<Rightarrow> bool" where
  "failed r \<longleftrightarrow> \<not> succeeded r"

record stage_result = processing_result +
  sr_stage_id :: string
  sr_stage_name :: string
  sr_attempt :: int
  sr_output :: "(string, py_value) dict"

record pipeline_result = processing_result +
  pl_stage_results :: "stage_result list"

definition base_result :: "stage_result \<Rightarrow> processing_result" where
  "base_result r = processing_result.truncate r"

definition total_stages :: "pipeline_result \<Rightarrow> nat" where
  "total_stages r = length (pl_stage_results r)"

definition successful_stages :: "pipeline_result \<Rightarrow> nat" where
  "successful_stages r = sum_list (map (\<lambda>_. 1) (filter succeeded (pl_stage_results r)))"

definition failed_stages :: "pipeline_result \<Rightarrow> nat" where
  "failed_stages r = sum_list (map (\<lambda>_. 1) (filter failed (pl_stage_results r)))"

definition last_result :: "pipeline_result \<Rightarrow> stage_result option" where
  "last_result r =
     (if pl_stage_results r = [] then None else Some (last (pl_stage_results r)))"

definition has_failures :: "pipeline_result \<Rightarrow> bool" where
  "has_failures r \<longleftrightarrow> failed_stages r > 0"

lemma base_result_status [simp]: "pr_status (base_result r) = pr_status r"
  by (simp add: base_result_def processing_result.truncate_def)

lemma count_ones: "(\<Sum>_\<leftarrow>xs. Suc 0) = length xs"
  by (induction xs) auto

lemma stage_counts_partition: "successful_stages r + failed_stages r = total_stages r"
  using sum_length_filter_compl [of succeeded "pl_stage_results r"]
  by (simp add: successful_stages_def failed_stages_def total_stages_def count_ones failed_def [abs_def])

lemma has_failures_iff: "has_failures r \<longleftrightarrow> (\<exists>x \<in> set (pl_stage_results r). failed x)"
  by (simp add: has_failures_def failed_stages_def count_ones filter_empty_conv)

section \<open>Context keys\<close>

text \<open>One datatype per \<open>StrEnum\<close> of \<open>context_keys\<close>, and their disjoint union.\<close>

datatype cache_keys =
    Cache_LOCK_ID | Cache_LEASE_ID | Cache_TTL

fun cache_keys_value :: "cache_keys \<Rightarrow> string" where
  "cache_keys_value Cache_LOCK_ID = ''cache.lock_id''"
| "cache_keys_value Cache_LEASE_ID = ''cache.lease_id''"
| "cache_keys_value Cache_TTL = ''cache.ttl''"

datatype catalog_keys =
    Catalog_CATALOG | Catalog_DATABASE | Catalog_SCHEMA | Catalog_TABLE | Catalog_VIEW

fun catalog_keys_value :: "catalog_keys \<Rightarrow> string" where
  "catalog_keys_value Catalog_CATALOG = ''catalog.catalog''"
| "catalog_keys_value Catalog_DATABASE = ''catalog.database''"
| "catalog_keys_value Catalog_SCHEMA = ''catalog.schema''"
| "catalog_keys_value Catalog_TABLE = ''catalog.table''"
| "catalog_keys_value Catalog_VIEW = ''catalog.view''"

datatype compute_keys =
    Compute_JOB_ID | Compute_JOB_NAME | Compute_RUN_ID | Compute_SESSION_ID |
  Compute_APPLICATION_ID | Compute_CLUSTER_ID

fun compute_keys_value :: "compute_keys \<Rightarrow> string" where
  "compute_keys_value Compute_JOB_ID = ''compute.job_id''"
| "compute_keys_value Compute_JOB_NAME = ''compute.job_name''"
| "compute_keys_value Compute_RUN_ID = ''compute.run_id''"
| "compute_keys_value Compute_SESSION_ID = ''compute.session_id''"
| "compute_keys_value Compute_APPLICATION_ID = ''compute.application_id''"
| "compute_keys_value Compute_CLUSTER_ID = ''compute.cluster_id''"

datatype dataset_keys =
    Dataset_DATASET | Dataset_DOMAIN | Dataset_LAYER | Dataset_FORMAT | Dataset_VERSION |
  Dataset_PARTITION | Dataset_LOCATION

fun dataset_keys_value :: "dataset_keys \<Rightarrow> string" where
  "dataset_keys_value Dataset_DATASET = ''dataset.dataset''"
| "dataset_keys_value Dataset_DOMAIN = ''dataset.domain''"
| "dataset_keys_value Dataset_LAYER = ''dataset.layer''"
| "dataset_keys_value Dataset_FORMAT = ''dataset.format''"
| "dataset_keys_value Dataset_VERSION = ''dataset.version''"
| "dataset_keys_value Dataset_PARTITION = ''dataset.partition''"
| "dataset_keys_value Dataset_LOCATION = ''dataset.location''"

datatype execution_keys =
    Execution_EXECUTION_ID | Execution_PARENT_EXECUTION_ID | Execution_CORRELATION_ID |
  Execution_STATUS | Execution_START_TIME | Execution_END_TIME | Execution_DURATION

fun execution_keys_value :: "execution_keys \<Rightarrow> string" where
  "execution_keys_value Execution_EXECUTION_ID = ''execution.execution_id''"
| "execution_keys_value Execution_PARENT_EXECUTION_ID = ''execution.parent_execution_id''"
| "execution_keys_value Execution_CORRELATION_ID = ''execution.correlation_id''"
| "execution_keys_value Execution_STATUS = ''execution.status''"
| "execution_keys_value Execution_START_TIME = ''execution.start_time''"
| "execution_keys_value Execution_END_TIME = ''execution.end_time''"
| "execution_keys_value Execution_DURATION = ''execution.duration''"

datatype messaging_keys =
    Messaging_MESSAGE_ID | Messaging_KEY | Messaging_TOPIC | Messaging_PARTITION |
  Messaging_OFFSET | Messaging_CONSUMER_GROUP

fun messaging_keys_value :: "messaging_keys \<Rightarrow> string" where
  "messaging_keys_value Messaging_MESSAGE_ID = ''messaging.message_id''"
| "messaging_keys_value Messaging_KEY = ''messaging.key''"
| "messaging_keys_value Messaging_TOPIC = ''messaging.topic''"
| "messaging_keys_value Messaging_PARTITION = ''messaging.partition''"
| "messaging_keys_value Messaging_OFFSET = ''messaging.offset''"
| "messaging_keys_value Messaging_CONSUMER_GROUP = ''messaging.consumer_group''"

datatype monitoring_keys =
    Monitoring_TRACE_ID | Monitoring_SPAN_ID | Monitoring_REQUEST_ID |
  Monitoring_METRIC_NAMESPACE

fun monitoring_keys_value :: "monitoring_keys \<Rightarrow> string" where
  "monitoring_keys_value Monitoring_TRACE_ID = ''monitoring.trace_id''"
| "monitoring_keys_value Monitoring_SPAN_ID = ''monitoring.span_id''"
| "monitoring_keys_value Monitoring_REQUEST_ID = ''monitoring.request_id''"
| "monitoring_keys_value Monitoring_METRIC_NAMESPACE = ''monitoring.metric_namespace''"

datatype processing_keys =
    Processing_CURRENT_STAGE | Processing_CURRENT_ATTEMPT | Processing_MAX_ATTEMPTS |
  Processing_EXCEPTION | Processing_PIPELINE_RESULT | Processing_STAGE_RESULT |
  Processing_INPUT | Processing_OUTPUT | Processing_CANCELLED

fun processing_keys_value :: "processing_keys \<Rightarrow> string" where
  "processing_keys_value Processing_CURRENT_STAGE = ''processing.current_stage''"
| "processing_keys_value Processing_CURRENT_ATTEMPT = ''processing.current_attempt''"
| "processing_keys_value Processing_MAX_ATTEMPTS = ''processing.max_attempts''"
| "processing_keys_value Processing_EXCEPTION = ''processing.exception''"
| "processing_keys_value Processing_PIPELINE_RESULT = ''processing.pipeline_result''"
| "processing_keys_value Processing_STAGE_RESULT = ''processing.stage_result''"
| "processing_keys_value Processing_INPUT = ''processing.input''"
| "processing_keys_value Processing_OUTPUT = ''processing.output''"
| "processing_keys_value Processing_CANCELLED = ''processing.cancelled''"

datatype storage_keys =
    Storage_URI | Storage_PATH | Storage_BUCKET | Storage_OBJECT_KEY | Storage_VERSION |
  Storage_ETAG

fun storage_keys_value :: "storage_keys \<Rightarrow> string" where
  "storage_keys_value Storage_URI = ''storage.uri''"
| "storage_keys_value Storage_PATH = ''storage.path''"
| "storage_keys_value Storage_BUCKET = ''storage.bucket''"
| "storage_keys_value Storage_OBJECT_KEY = ''storage.object_key''"
| "storage_keys_value Storage_VERSION = ''storage.version''"
| "storage_keys_value Storage_ETAG = ''storage.etag''"

datatype workflow_keys =
    Workflow_WORKFLOW_ID | Workflow_WORKFLOW_NAME | Workflow_RUN_ID | Workflow_TASK_ID |
  Workflow_TASK_NAME | Workflow_EXECUTION_URL | Workflow_SCHEDULE_ID

fun workflow_keys_value :: "workflow_keys \<Rightarrow> string" where
  "workflow_keys_value Workflow_WORKFLOW_ID = ''workflow.workflow_id''"
| "workflow_keys_value Workflow_WORKFLOW_NAME = ''workflow.workflow_name''"
| "workflow_keys_value Workflow_RUN_ID = ''workflow.run_id''"
| "workflow_keys_value Workflow_TASK_ID = ''workflow.task_id''"
| "workflow_keys_value Workflow_TASK_NAME = ''workflow.task_name''"
| "workflow_keys_value Workflow_EXECUTION_URL = ''workflow.execution_url''"
| "workflow_keys_value Workflow_SCHEDULE_ID = ''workflow.schedule_id''"

datatype context_key =
    CacheKey cache_keys
  | CatalogKey catalog_keys
  | ComputeKey compute_keys
  | DatasetKey dataset_keys
  | ExecutionKey execution_keys
  | MessagingKey messaging_keys
  | MonitoringKey monitoring_keys
  | ProcessingKey processing_keys
  | StorageKey storage_keys
  | WorkflowKey workflow_keys

fun key_value :: "context_key \<Rightarrow> string" where
  "key_value (CacheKey k) = cache_keys_value k"
| "key_value (CatalogKey k) = catalog_keys_value k"
| "key_value (ComputeKey k) = compute_keys_value k"
| "key_value (DatasetKey k) = dataset_keys_value k"
| "key_value (ExecutionKey k) = execution_keys_value k"
| "key_value (MessagingKey k) = messaging_keys_value k"
| "key_value (MonitoringKey k) = monitoring_keys_value k"
| "key_value (ProcessingKey k) = processing_keys_value k"
| "key_value (StorageKey k) = storage_keys_value k"
| "key_value (WorkflowKey k) = workflow_keys_value k"

text \<open>
  The context stores values under the string of a key, so two keys share a slot when they have
  the same string. No two of the sixty have: the part before the dot tells the enums apart.
\<close>

fun key_namespace :: "context_key \<Rightarrow> string" where
  "key_namespace (CacheKey k) = ''cache''"
| "key_namespace (CatalogKey k) = ''catalog''"
| "key_namespace (ComputeKey k) = ''compute''"
| "key_namespace (DatasetKey k) = ''dataset''"
| "key_namespace (ExecutionKey k) = ''execution''"
| "key_namespace (MessagingKey k) = ''messaging''"
| "key_namespace (MonitoringKey k) = ''monitoring''"
| "key_namespace (ProcessingKey k) = ''processing''"
| "key_namespace (StorageKey k) = ''storage''"
| "key_namespace (WorkflowKey k) = ''workflow''"

lemma key_value_namespace: "takeWhile (\<lambda>c. c \<noteq> CHR ''.'') (key_value k) = key_namespace k"
proof (cases k)
  case (CacheKey x)
  then show ?thesis by (cases x) simp_all
next
  case (CatalogKey x)
  then show ?thesis by (cases x) simp_all
next
  case (ComputeKey x)
  then show ?thesis by (cases x) simp_all
next
  case (DatasetKey x)
  then show ?thesis by (cases x) simp_all
next
  case (ExecutionKey x)
  then show ?thesis by (cases x) simp_all
next
  case (MessagingKey x)
  then show ?thesis by (cases x) simp_all
next
  case (MonitoringKey x)
  then show ?thesis by (cases x) simp_all
next
  case (ProcessingKey x)
  then show ?thesis by (cases x) simp_all
next
  case (StorageKey x)
  then show ?thesis by (cases x) simp_all
next
  case (WorkflowKey x)
  then show ?thesis by (cases x) simp_all
qed

lemma cache_keys_value_inj [simp]: "(cache_keys_value x = cache_keys_value y) = (x = y)"
  by (cases x; cases y) simp_all

lemma catalog_keys_value_inj [simp]: "(catalog_keys_value x = catalog_keys_value y) = (x = y)"
  by (cases x; cases y) simp_all

lemma compute_keys_value_inj [simp]: "(compute_keys_value x = compute_keys_value y) = (x = y)"
  by (cases x; cases y) simp_all

lemma dataset_keys_value_inj [simp]: "(dataset_keys_value x = dataset_keys_value y) = (x = y)"
  by (cases x; cases y) simp_all

lemma execution_keys_value_inj [simp]: "(execution_keys_value x = execution_keys_value y) = (x = y)"
  by (cases x; cases y) simp_all

lemma messaging_keys_value_inj [simp]: "(messaging_keys_value x = messaging_keys_value y) = (x = y)"
  by (cases x; cases y) simp_all

lemma monitoring_keys_value_inj [simp]: "(monitoring_keys_value x = monitoring_keys_value y) = (x = y)"
  by (cases x; cases y) simp_all

lemma processing_keys_value_inj [simp]: "(processing_keys_value x = processing_keys_value y) = (x = y)"
  by (cases x; cases y) simp_all

lemma storage_keys_value_inj [simp]: "(storage_keys_value x = storage_keys_value y) = (x = y)"
  by (cases x; cases y) simp_all

lemma workflow_keys_value_inj [simp]: "(workflow_keys_value x = workflow_keys_value y) = (x = y)"
  by (cases x; cases y) simp_all

lemma key_value_inj: "inj key_value"
proof (rule injI)
  fix x y
  assume eq: "key_value x = key_value y"
  then have "key_namespace x = key_namespace y"
    by (metis key_value_namespace)
  with eq show "x = y"
    by (cases x; cases y) simp_all
qed

lemma key_value_eq_iff [simp]: "key_value x = key_value y \<longleftrightarrow> x = y"
  using key_value_inj by (auto simp: inj_eq)

section \<open>Processing context\<close>

datatype ctx_value =
    CVStatus execution_status
  | CVTime int
  | CVDelta int
  | CVResult pipeline_result
  | CVPy py_value

record processing_context =
  cx_id :: string
  cx_metadata :: execution_metadata
  cx_values :: "(string, ctx_value) dict"

definition new_context :: "string \<Rightarrow> execution_metadata \<Rightarrow> processing_context" where
  "new_context i m = \<lparr> cx_id = i, cx_metadata = m, cx_values = [] \<rparr>"

definition ctx_set :: "context_key \<Rightarrow> ctx_value \<Rightarrow> processing_context \<Rightarrow> processing_context" where
  "ctx_set k v c = c \<lparr> cx_values := AList.update (key_value k) v (cx_values c) \<rparr>"

definition ctx_get :: "processing_context \<Rightarrow> context_key \<Rightarrow> ctx_value option" where
  "ctx_get c k = map_of (cx_values c) (key_value k)"

definition ctx_get_default :: "processing_context \<Rightarrow> context_key \<Rightarrow> ctx_value \<Rightarrow> ctx_value" where
  "ctx_get_default c k d = (case ctx_get c k of None \<Rightarrow> d | Some v \<Rightarrow> v)"

definition ctx_remove :: "context_key \<Rightarrow> processing_context \<Rightarrow> processing_context" where
  "ctx_remove k c = c \<lparr> cx_values := snd (dict_pop (key_value k) (cx_values c)) \<rparr>"

definition ctx_contains :: "processing_context \<Rightarrow> context_key \<Rightarrow> bool" where
  "ctx_contains c k \<longleftrightarrow> key_value k \<in> fst ` set (cx_values c)"

definition ctx_clear :: "processing_context \<Rightarrow> processing_context" where
  "ctx_clear c = c \<lparr> cx_values := [] \<rparr>"

lemma ctx_contains_iff: "ctx_contains c k \<longleftrightarrow> ctx_get c k \<noteq> None"
  by (simp add: ctx_contains_def ctx_get_def map_of_eq_None_iff)

lemma ctx_metadata_frame [simp]:
  "cx_metadata (ctx_set k v c) = cx_metadata c"
  "cx_metadata (ctx_remove k c) = cx_metadata c"
  "cx_metadata (ctx_clear c) = cx_metadata c"
  by (simp_all add: ctx_set_def ctx_remove_def ctx_clear_def)

lemma ctx_get_set [simp]: "ctx_get (ctx_set k v c) k' = (if k' = k then Some v else ctx_get c k')"
  by (simp add: ctx_get_def ctx_set_def dict_simps)

lemma ctx_get_remove [simp]: "ctx_get (ctx_remove k c) k' = (if k' = k then None else ctx_get c k')"
  by (simp add: ctx_get_def ctx_remove_def dict_pop_def dict_simps)

lemma ctx_get_clear [simp]: "ctx_get (ctx_clear c) k = None"
  by (simp add: ctx_get_def ctx_clear_def)

interpretation ctx: keyed_store ctx_set ctx_remove ctx_get
  by unfold_locales simp_all

end
