(* ===== verification/Pipelines.thy ===== *)
theory Pipelines
  imports Core_Model
begin

text \<open>
  Stages, pipelines and the pipeline builder (\<open>core/stage.py\<close>, \<open>core/pipeline.py\<close>,
  \<open>core/pipeline_builder.py\<close>). A stage's \<open>execute\<close> is a function of the shared context
  and of the world \<open>'e\<close> the stages act on: it returns a result or raises, and leaves a context
  and a world. \<open>None\<close> among the stages is Python's \<open>None\<close>, which validation must reject.
\<close>

section \<open>Stages\<close>

type_synonym 'e stage_body =
  "processing_context \<Rightarrow> 'e \<Rightarrow> stage_result outcome \<times> processing_context \<times> 'e"

record 'e stage =
  st_id :: string
  st_name :: string
  st_max_attempts :: int
  st_execute :: "'e stage_body"

definition default_max_attempts :: int where
  "default_max_attempts = 3"

section \<open>Pipelines\<close>

text \<open>An element of \<open>Pipeline.stages\<close>: a lone stage, or a nested tuple to run concurrently.\<close>

datatype 'e pipeline_item = Lone "'e stage option" | Group "'e stage option list"

record 'e pipeline =
  pp_id :: string
  pp_name :: string
  pp_stages :: "'e pipeline_item list"

fun item_members :: "'e pipeline_item \<Rightarrow> 'e stage option list" where
  "item_members (Lone x) = [x]"
| "item_members (Group xs) = xs"

definition flatten :: "'e pipeline_item list \<Rightarrow> 'e stage option list" where
  "flatten items = concat (map item_members items)"

definition null_stage_message :: string where
  "null_stage_message = ''Pipeline cannot contain null stages.''"

fun check_stages :: "string set \<Rightarrow> 'e stage option list \<Rightarrow> unit outcome" where
  "check_stages seen [] = Inr ()"
| "check_stages seen (None # xs) = Inl (value_error null_stage_message)"
| "check_stages seen (Some st # xs) =
     (if st_id st \<in> seen
      then Inl (value_error (''Duplicate stage id detected: '' @ quoted (st_id st) @ ''.''))
      else check_stages (insert (st_id st) seen) xs)"

definition pipeline_post_init :: "'e pipeline \<Rightarrow> unit outcome" where
  "pipeline_post_init p =
     (if pp_id p = [] then Inl (value_error ''Pipeline id cannot be empty.'')
      else if pp_name p = [] then Inl (value_error ''Pipeline name cannot be empty.'')
      else if pp_stages p = [] then Inl (value_error ''A pipeline must contain at least one stage.'')
      else check_stages {} (flatten (pp_stages p)))"

definition make_pipeline :: "string \<Rightarrow> string \<Rightarrow> 'e pipeline_item list \<Rightarrow> 'e pipeline outcome" where
  "make_pipeline i n items =
     (let p = \<lparr> pp_id = i, pp_name = n, pp_stages = items \<rparr>
      in bindE (pipeline_post_init p) (\<lambda>_. Inr p))"

text \<open>
  \<open>__iter__\<close> is a generator: it yields the stages one by one and raises \<open>AssertionError\<close> when it
  reaches a \<open>None\<close>. Its value is the list of stages it yields and how it ends.
\<close>

fun flatten_validated :: "'e stage option list \<Rightarrow> 'e stage list \<times> exn option" where
  "flatten_validated [] = ([], None)"
| "flatten_validated (None # xs) = ([], Some (Exn ''AssertionError'' null_stage_message))"
| "flatten_validated (Some st # xs) =
     (let (ys, e) = flatten_validated xs in (st # ys, e))"

definition pipeline_iter :: "'e pipeline \<Rightarrow> 'e stage list \<times> exn option" where
  "pipeline_iter p = flatten_validated (flatten (pp_stages p))"

definition pipeline_len :: "'e pipeline \<Rightarrow> nat outcome" where
  "pipeline_len p =
     (case pipeline_iter p of (ys, None) \<Rightarrow> Inr (length ys) | (ys, Some e) \<Rightarrow> Inl e)"

definition pipeline_is_empty :: "'e pipeline \<Rightarrow> bool" where
  "pipeline_is_empty p \<longleftrightarrow> length (pp_stages p) = 0"

definition pipeline_groups :: "'e pipeline \<Rightarrow> 'e stage option list list" where
  "pipeline_groups p = map item_members (pp_stages p)"

section \<open>Pipeline builder\<close>

record 'e pipeline_builder =
  pb_id :: string
  pb_name :: string
  pb_stages :: "'e stage list"

definition new_builder :: "string \<Rightarrow> 'e pipeline_builder" where
  "new_builder i = \<lparr> pb_id = i, pb_name = i, pb_stages = [] \<rparr>"

definition pb_named :: "string \<Rightarrow> 'e pipeline_builder \<Rightarrow> 'e pipeline_builder" where
  "pb_named n b = b \<lparr> pb_name := n \<rparr>"

fun pb_add_stage :: "'e stage option \<Rightarrow> 'e pipeline_builder \<Rightarrow> 'e pipeline_builder outcome" where
  "pb_add_stage None b = Inl (value_error ''Stage cannot be None.'')"
| "pb_add_stage (Some st) b = Inr (b \<lparr> pb_stages := pb_stages b @ [st] \<rparr>)"

text \<open>The builder after an exception is the builder with the stages added before it.\<close>

fun pb_add_stages :: "'e stage option list \<Rightarrow> 'e pipeline_builder \<Rightarrow> exn option \<times> 'e pipeline_builder" where
  "pb_add_stages [] b = (None, b)"
| "pb_add_stages (x # xs) b =
     (case pb_add_stage x b of Inl e \<Rightarrow> (Some e, b) | Inr b' \<Rightarrow> pb_add_stages xs b')"

definition pb_build :: "'e pipeline_builder \<Rightarrow> 'e pipeline outcome" where
  "pb_build b = make_pipeline (pb_id b) (pb_name b) (map (\<lambda>st. Lone (Some st)) (pb_stages b))"

section \<open>What validation guarantees\<close>

lemma check_stages_iff:
  "check_stages seen xs = Inr u \<longleftrightarrow>
     (\<exists>sts. xs = map Some sts \<and> distinct (map st_id sts) \<and> set (map st_id sts) \<inter> seen = {})"
proof (induction seen xs rule: check_stages.induct)
  case (1 seen)
  then show ?case by simp
next
  case (2 seen xs)
  then show ?case by auto
next
  case (3 seen st xs)
  then show ?case
    by (auto simp: Cons_eq_map_conv)
qed

definition valid_pipeline :: "'e pipeline \<Rightarrow> bool" where
  "valid_pipeline p \<longleftrightarrow> pipeline_post_init p = Inr ()"

lemma valid_pipeline_iff:
  "valid_pipeline p \<longleftrightarrow>
     pp_id p \<noteq> [] \<and> pp_name p \<noteq> [] \<and> pp_stages p \<noteq> [] \<and>
     (\<exists>sts. flatten (pp_stages p) = map Some sts \<and> distinct (map st_id sts))"
  by (simp add: valid_pipeline_def pipeline_post_init_def check_stages_iff)

lemma make_pipeline_Inr_iff:
  "make_pipeline i n items = Inr p \<longleftrightarrow>
     p = \<lparr> pp_id = i, pp_name = n, pp_stages = items \<rparr> \<and> valid_pipeline p"
  unfolding make_pipeline_def valid_pipeline_def Let_def bindE_eq_Inr_iff by auto

lemma flatten_validated_map_Some [simp]: "flatten_validated (map Some sts) = (sts, None)"
  by (induction sts) auto

lemma flatten_validated_error_iff: "snd (flatten_validated xs) = None \<longleftrightarrow> None \<notin> set xs"
  by (induction xs rule: flatten_validated.induct) (auto split: prod.splits)

lemma flatten_lone [simp]: "flatten (map (\<lambda>st. Lone (Some st)) sts) = map Some sts"
  by (induction sts) (auto simp: flatten_def)

lemma flatten_groups: "concat (pipeline_groups p) = flatten (pp_stages p)"
  by (simp add: pipeline_groups_def flatten_def)

lemma valid_pipeline_iter:
  assumes "valid_pipeline p"
  obtains sts where "pipeline_iter p = (sts, None)" "flatten (pp_stages p) = map Some sts"
    "distinct (map st_id sts)"
  using assms by (auto simp: valid_pipeline_iff pipeline_iter_def)

lemma valid_pipeline_len:
  assumes "valid_pipeline p"
  shows "pipeline_len p = Inr (length (flatten (pp_stages p)))"
  using assms by (auto simp: valid_pipeline_iff pipeline_len_def pipeline_iter_def)

lemma pb_add_stages_some:
  "pb_add_stages (map Some sts) b = (None, b \<lparr> pb_stages := pb_stages b @ sts \<rparr>)"
  by (induction sts arbitrary: b) auto

lemma pb_add_stages_stops:
  "pb_add_stages (map Some sts @ None # xs) b =
     (Some (value_error ''Stage cannot be None.''), b \<lparr> pb_stages := pb_stages b @ sts \<rparr>)"
  by (induction sts arbitrary: b) auto

end
