(* ===== verification/Runtime_State.thy ===== *)
theory Runtime_State
  imports Pipelines
begin

text \<open>
  \<open>runtime/execution_runtime.py\<close>: the stage-level state, held in five \<open>ContextVar\<close>s, and
  \<open>ExecutionRuntime\<close>, the single writer of those and of the pipeline-level keys of the
  processing context. The state is a pair of the context and the variables; the executor's
  state extends it, so the operations are defined on every extension. The clock reading an
  operation makes is its argument \<open>now\<close>.
\<close>

section \<open>Stage-level state\<close>

record stage_vars =
  cv_current_stage :: "string option"
  cv_current_attempt :: "int option"
  cv_max_attempts :: "int option"
  cv_stage_result :: "stage_result option"
  cv_stage_exception :: "exn option"

definition default_vars :: stage_vars where
  "default_vars =
     \<lparr> cv_current_stage = None, cv_current_attempt = None, cv_max_attempts = None,
       cv_stage_result = None, cv_stage_exception = None \<rparr>"

text \<open>Python's \<open>x or 1\<close> on an optional integer: \<open>None\<close> and 0 are both falsy.\<close>

definition or_one :: "int option \<Rightarrow> int" where
  "or_one x = (case x of None \<Rightarrow> 1 | Some n \<Rightarrow> if n = 0 then 1 else n)"

definition current_stage_id :: "stage_vars \<Rightarrow> string option" where
  "current_stage_id v = cv_current_stage v"

definition current_attempt :: "stage_vars \<Rightarrow> int" where
  "current_attempt v = or_one (cv_current_attempt v)"

definition current_max_attempts :: "stage_vars \<Rightarrow> int" where
  "current_max_attempts v = or_one (cv_max_attempts v)"

definition current_stage_result :: "stage_vars \<Rightarrow> stage_result option" where
  "current_stage_result v = cv_stage_result v"

definition current_stage_exception :: "stage_vars \<Rightarrow> exn option" where
  "current_stage_exception v = cv_stage_exception v"

record runtime_state =
  rt_ctx :: processing_context
  rt_vars :: stage_vars

section \<open>Pipeline lifecycle\<close>

abbreviation on_ctx ::
  "(processing_context \<Rightarrow> processing_context) \<Rightarrow> 'a runtime_state_scheme \<Rightarrow> 'a runtime_state_scheme" where
  "on_ctx f s \<equiv> s \<lparr> rt_ctx := f (rt_ctx s) \<rparr>"

abbreviation on_vars ::
  "(stage_vars \<Rightarrow> stage_vars) \<Rightarrow> 'a runtime_state_scheme \<Rightarrow> 'a runtime_state_scheme" where
  "on_vars f s \<equiv> s \<lparr> rt_vars := f (rt_vars s) \<rparr>"

definition execution_started :: "int \<Rightarrow> 'a runtime_state_scheme \<Rightarrow> 'a runtime_state_scheme" where
  "execution_started now s =
     (let s = on_ctx (ctx_set (ExecutionKey Execution_STATUS) (CVStatus RUNNING)) s;
          s = on_ctx (ctx_set (ExecutionKey Execution_START_TIME) (CVTime now)) s;
          s = on_ctx (ctx_remove (ExecutionKey Execution_END_TIME)) s;
          s = on_ctx (ctx_remove (ExecutionKey Execution_DURATION)) s;
          s = on_vars (cv_stage_exception_update (\<lambda>_. None)) s;
          s = on_ctx (ctx_remove (ProcessingKey Processing_PIPELINE_RESULT)) s;
          s = on_vars (cv_stage_result_update (\<lambda>_. None)) s
      in on_ctx (ctx_set (ProcessingKey Processing_CANCELLED) (CVPy (PyBool False))) s)"

text \<open>
  \<open>finished_at - started_at\<close>, where \<open>started_at\<close> is whatever the context holds: stages share the
  context and may have replaced it.
\<close>

fun time_since :: "int \<Rightarrow> ctx_value \<Rightarrow> ctx_value outcome" where
  "time_since now (CVTime t) = Inr (CVDelta (now - t))"
| "time_since now (CVDelta d) = Inr (CVTime (now - d))"
| "time_since now v = Inl (Exn ''TypeError'' ''unsupported operand type(s) for -'')"

definition record_duration :: "int \<Rightarrow> ('a runtime_state_scheme, unit) act" where
  "record_duration now s =
     (case ctx_get (rt_ctx s) (ExecutionKey Execution_START_TIME) of
        None \<Rightarrow> ret () s
      | Some (CVPy PyNone) \<Rightarrow> ret () s
      | Some v \<Rightarrow>
          (case time_since now v of
             Inl e \<Rightarrow> raise e s
           | Inr d \<Rightarrow> modify (on_ctx (ctx_set (ExecutionKey Execution_DURATION) d)) s))"

definition execution_completed :: "int \<Rightarrow> ('a runtime_state_scheme, unit) act" where
  "execution_completed now =
     thenA (modify (on_ctx (ctx_set (ExecutionKey Execution_STATUS) (CVStatus COMPLETED))))
    (thenA (modify (on_ctx (ctx_set (ExecutionKey Execution_END_TIME) (CVTime now))))
    (thenA (record_duration now)
           (modify (on_vars (cv_stage_exception_update (\<lambda>_. None))))))"

definition execution_failed :: "int \<Rightarrow> exn option \<Rightarrow> ('a runtime_state_scheme, unit) act" where
  "execution_failed now exc =
     thenA (modify (on_ctx (ctx_set (ExecutionKey Execution_STATUS) (CVStatus FAILED))))
    (thenA (modify (on_ctx (ctx_set (ExecutionKey Execution_END_TIME) (CVTime now))))
    (thenA (record_duration now)
           (case exc of
              None \<Rightarrow> ret ()
            | Some e \<Rightarrow> modify (on_vars (cv_stage_exception_update (\<lambda>_. Some e))))))"

definition execution_cancelled :: "'a runtime_state_scheme \<Rightarrow> 'a runtime_state_scheme" where
  "execution_cancelled s =
     on_ctx (ctx_set (ProcessingKey Processing_CANCELLED) (CVPy (PyBool True))) s"

section \<open>Stage lifecycle\<close>

definition stage_started :: "string \<Rightarrow> stage_vars \<Rightarrow> stage_vars" where
  "stage_started i v =
     v \<lparr> cv_current_stage := Some i, cv_current_attempt := Some 1,
         cv_stage_result := None, cv_stage_exception := None \<rparr>"

definition stage_finished :: "stage_vars \<Rightarrow> stage_vars" where
  "stage_finished v = v \<lparr> cv_current_stage := None, cv_current_attempt := None \<rparr>"

definition retry_started :: "int \<Rightarrow> stage_vars \<Rightarrow> stage_vars" where
  "retry_started n v =
     v \<lparr> cv_current_attempt := Some n, cv_stage_result := None, cv_stage_exception := None \<rparr>"

definition set_max_attempts :: "int \<Rightarrow> stage_vars \<Rightarrow> stage_vars" where
  "set_max_attempts n v = v \<lparr> cv_max_attempts := Some n \<rparr>"

definition set_stage_result :: "stage_result \<Rightarrow> stage_vars \<Rightarrow> stage_vars" where
  "set_stage_result r v = v \<lparr> cv_stage_result := Some r \<rparr>"

definition set_pipeline_result :: "pipeline_result \<Rightarrow> 'a runtime_state_scheme \<Rightarrow> 'a runtime_state_scheme" where
  "set_pipeline_result r s = on_ctx (ctx_set (ProcessingKey Processing_PIPELINE_RESULT) (CVResult r)) s"

definition set_stage_failed :: "exn \<Rightarrow> stage_vars \<Rightarrow> stage_vars" where
  "set_stage_failed e v = v \<lparr> cv_stage_exception := Some e \<rparr>"

lemmas stage_ops = stage_started_def stage_finished_def retry_started_def set_max_attempts_def
  set_stage_result_def set_stage_failed_def

section \<open>Facts\<close>

lemma or_one_pos: "0 < n \<Longrightarrow> or_one (Some n) = n"
  by (simp add: or_one_def)

definition ctx_status :: "processing_context \<Rightarrow> ctx_value option" where
  "ctx_status c = ctx_get c (ExecutionKey Execution_STATUS)"

text \<open>The start time the context holds is one a duration can be computed from.\<close>

definition start_ok :: "processing_context \<Rightarrow> bool" where
  "start_ok c \<longleftrightarrow>
     (case ctx_get c (ExecutionKey Execution_START_TIME) of
        None \<Rightarrow> True | Some v \<Rightarrow> v = CVPy PyNone \<or> (\<exists>d. time_since 0 v = Inr d))"

lemma time_since_total: "time_since now v = Inr d \<Longrightarrow> \<exists>d'. time_since now' v = Inr d'"
  by (cases v) auto

lemma execution_started_simps [simp]:
  "ctx_get (rt_ctx (execution_started now s)) k =
     (if k = ProcessingKey Processing_CANCELLED then Some (CVPy (PyBool False))
      else if k \<in> {ProcessingKey Processing_PIPELINE_RESULT, ExecutionKey Execution_END_TIME,
                   ExecutionKey Execution_DURATION} then None
      else if k = ExecutionKey Execution_START_TIME then Some (CVTime now)
      else if k = ExecutionKey Execution_STATUS then Some (CVStatus RUNNING)
      else ctx_get (rt_ctx s) k)"
  "runtime_state.more (execution_started now s) = runtime_state.more s"
  "cx_metadata (rt_ctx (execution_started now s)) = cx_metadata (rt_ctx s)"
  by (auto simp: execution_started_def Let_def)

text \<open>The context at the start of an execution.\<close>

definition started_ctx :: "int \<Rightarrow> processing_context \<Rightarrow> processing_context" where
  "started_ctx now c =
     ctx_set (ProcessingKey Processing_CANCELLED) (CVPy (PyBool False))
    (ctx_remove (ProcessingKey Processing_PIPELINE_RESULT)
    (ctx_remove (ExecutionKey Execution_DURATION)
    (ctx_remove (ExecutionKey Execution_END_TIME)
    (ctx_set (ExecutionKey Execution_START_TIME) (CVTime now)
    (ctx_set (ExecutionKey Execution_STATUS) (CVStatus RUNNING) c)))))"

lemma execution_started_ctx: "rt_ctx (execution_started now s) = started_ctx now (rt_ctx s)"
  by (simp add: execution_started_def started_ctx_def Let_def)

lemma started_ctx_start_ok: "start_ok (started_ctx now c)"
  by (simp add: started_ctx_def start_ok_def)

lemma wlp_record_duration:
  assumes "\<And>d. Q () (on_ctx (ctx_set (ExecutionKey Execution_DURATION) d) s)"
    and "Q () s" and "\<And>x. E (Exn ''TypeError'' x) s"
  shows "wlp (record_duration now) Q E s"
  using assms
  by (auto simp: record_duration_def wlp_def ret_def raise_def modify_def split: option.splits ctx_value.splits py_value.splits)

end
