(* ===== verification/Policies.thy ===== *)
theory Policies
  imports Runtime_State
begin

text \<open>
  The policy engine (\<open>processing/policies\<close>): policy events and results, the read model a policy
  sees, the failure, retry and timeout policies, and \<open>PolicyManager.evaluate\<close>, which merges the
  answers of its policies. A policy is a function of its context; the stage-level variables and
  the clock it reads through module-level functions are part of that context here.
\<close>

section \<open>Events and results\<close>

datatype policy_event =
    PE_BEFORE_PIPELINE | PE_AFTER_PIPELINE | PE_BEFORE_STAGE | PE_AFTER_STAGE
  | PE_PIPELINE_FAILED | PE_STAGE_FAILED

record policy_result =
  po_continue :: bool
  po_retry :: bool
  po_cancel :: bool
  po_reason :: "string option"

definition policy_post_init :: "policy_result \<Rightarrow> policy_result outcome" where
  "policy_post_init r =
     (if po_cancel r \<and> po_continue r
        then Inl (value_error ''A cancelled pipeline cannot continue execution.'')
      else if po_cancel r \<and> po_retry r
        then Inl (value_error ''A cancelled pipeline cannot request a retry.'')
      else if po_retry r \<and> \<not> po_continue r
        then Inl (value_error ''Retry requires execution to continue.'')
      else Inr r)"

definition mk_policy_result :: "bool \<Rightarrow> bool \<Rightarrow> bool \<Rightarrow> string option \<Rightarrow> policy_result outcome" where
  "mk_policy_result c r x reason =
     policy_post_init \<lparr> po_continue = c, po_retry = r, po_cancel = x, po_reason = reason \<rparr>"

abbreviation neutral_result :: "policy_result outcome" where
  "neutral_result \<equiv> mk_policy_result True False False None"

definition consistent :: "policy_result \<Rightarrow> bool" where
  "consistent r \<longleftrightarrow>
     (po_cancel r \<longrightarrow> \<not> po_continue r \<and> \<not> po_retry r) \<and> (po_retry r \<longrightarrow> po_continue r)"

lemma policy_post_init_Inr_iff: "policy_post_init r = Inr r' \<longleftrightarrow> r' = r \<and> consistent r"
  by (auto simp: policy_post_init_def consistent_def)

section \<open>The policy context\<close>

record 'e policy_context =
  pc_processing_context :: processing_context
  pc_pipeline :: "'e pipeline option"
  pc_stage :: "'e stage option"
  pc_event :: policy_event
  pc_vars :: stage_vars
  pc_now :: int

definition pc_exception :: "'e policy_context \<Rightarrow> exn option" where
  "pc_exception c = current_stage_exception (pc_vars c)"

definition pc_stage_result :: "'e policy_context \<Rightarrow> stage_result option" where
  "pc_stage_result c = current_stage_result (pc_vars c)"

definition pc_current_attempt :: "'e policy_context \<Rightarrow> int" where
  "pc_current_attempt c = current_attempt (pc_vars c)"

definition pc_max_attempts :: "'e policy_context \<Rightarrow> int" where
  "pc_max_attempts c = current_max_attempts (pc_vars c)"

definition pc_cancelled :: "'e policy_context \<Rightarrow> ctx_value" where
  "pc_cancelled c =
     ctx_get_default (pc_processing_context c) (ProcessingKey Processing_CANCELLED) (CVPy (PyBool False))"

definition pc_failed :: "'e policy_context \<Rightarrow> bool" where
  "pc_failed c = (case pc_stage_result c of None \<Rightarrow> False | Some r \<Rightarrow> failed r)"

section \<open>The policies\<close>

type_synonym 'e policy = "'e policy_context \<Rightarrow> policy_result outcome"

definition failure_policy :: "bool \<Rightarrow> 'e policy" where
  "failure_policy fail_fast c =
     (if pc_event c \<noteq> PE_STAGE_FAILED then neutral_result
      else if pc_exception c \<noteq> None then neutral_result
      else if \<not> pc_failed c then neutral_result
      else if fail_fast
        then mk_policy_result False False True (Some ''Pipeline interrupted due to stage failure.'')
      else mk_policy_result True False False (Some ''Stage failure ignored by policy.''))"

definition retry_policy :: "'e policy" where
  "retry_policy c =
     (if pc_event c \<noteq> PE_STAGE_FAILED then neutral_result
      else if pc_exception c = None then neutral_result
      else if pc_current_attempt c < pc_max_attempts c
        then mk_policy_result True True False (Some ''Retry allowed.'')
      else mk_policy_result True False False (Some ''Maximum retry attempts reached.''))"

text \<open>The timeout is in microseconds, like every duration of the model.\<close>

definition timeout_policy :: "int \<Rightarrow> 'e policy" where
  "timeout_policy timeout c =
     (case em_started_at (cx_metadata (pc_processing_context c)) of
        None \<Rightarrow> neutral_result
      | Some started \<Rightarrow>
          if pc_now c - started \<le> timeout then neutral_result
          else mk_policy_result False False True (Some ''Execution timeout exceeded.''))"

section \<open>The policy manager\<close>

fun evaluate_loop :: "'e policy list \<Rightarrow> 'e policy_context \<Rightarrow> policy_result \<Rightarrow> policy_result outcome" where
  "evaluate_loop [] c acc =
     mk_policy_result (po_continue acc) (po_retry acc) (po_cancel acc) (po_reason acc)"
| "evaluate_loop (p # ps) c acc =
     bindE (p c) (\<lambda>r.
       let acc' = \<lparr> po_continue = po_continue acc \<and> po_continue r,
                    po_retry = po_retry acc \<or> po_retry r,
                    po_cancel = po_cancel acc \<or> po_cancel r,
                    po_reason = (if po_reason acc = None \<and> po_reason r \<noteq> None
                                 then po_reason r else po_reason acc) \<rparr>
       in if po_cancel acc' then mk_policy_result False False True (po_reason acc')
          else evaluate_loop ps c acc')"

definition manager_evaluate :: "'e policy list \<Rightarrow> 'e policy_context \<Rightarrow> policy_result outcome" where
  "manager_evaluate ps c =
     evaluate_loop ps c \<lparr> po_continue = True, po_retry = False, po_cancel = False, po_reason = None \<rparr>"

definition default_policies :: "'e policy list" where
  "default_policies = [failure_policy True, retry_policy]"

section \<open>Facts about the policies\<close>

lemma mk_policy_result_Inr:
  "mk_policy_result c r x reason = Inr p \<longleftrightarrow>
     p = \<lparr> po_continue = c, po_retry = r, po_cancel = x, po_reason = reason \<rparr> \<and>
     (x \<longrightarrow> \<not> c \<and> \<not> r) \<and> (r \<longrightarrow> c)"
  by (auto simp: mk_policy_result_def policy_post_init_Inr_iff consistent_def)

lemma mk_cancel [simp]:
  "mk_policy_result False False True reason =
     Inr \<lparr> po_continue = False, po_retry = False, po_cancel = True, po_reason = reason \<rparr>"
  by (simp add: mk_policy_result_Inr)

lemma mk_continue [simp]:
  "mk_policy_result True r False reason =
     Inr \<lparr> po_continue = True, po_retry = r, po_cancel = False, po_reason = reason \<rparr>"
  by (simp add: mk_policy_result_Inr)

lemma mk_stop [simp]:
  "mk_policy_result False False False reason =
     Inr \<lparr> po_continue = False, po_retry = False, po_cancel = False, po_reason = reason \<rparr>"
  by (simp add: mk_policy_result_Inr)

lemma evaluate_loop_consistent: "evaluate_loop ps c acc = Inr r \<Longrightarrow> consistent r"
  by (induction ps arbitrary: acc)
     (auto simp: mk_policy_result_Inr consistent_def bindE_eq_Inr_iff Let_def split: if_splits)

lemma evaluate_loop_cancel_iff:
  assumes "evaluate_loop ps c acc = Inr r" and "\<not> po_cancel acc"
  shows "po_cancel r \<longleftrightarrow> (\<exists>p \<in> set ps. \<exists>q. p c = Inr q \<and> po_cancel q)"
  using assms
proof (induction ps arbitrary: acc)
  case Nil
  then show ?case by (auto simp: mk_policy_result_Inr)
next
  case (Cons p ps)
  obtain q where q: "p c = Inr q"
    using Cons.prems(1) by (cases "p c") auto
  show ?case
  proof (cases "po_cancel q")
    case True
    with Cons.prems q show ?thesis by (auto simp: Let_def)
  next
    case False
    with Cons.prems q show ?thesis by (auto simp: Let_def dest: Cons.IH)
  qed
qed

section \<open>Bounded retries\<close>

text \<open>
  What an executor needs of the policies to finish a stage: they answer, and they ask for a
  retry only while attempts are left.
\<close>

locale bounded_retry =
  fixes decide :: "'e policy_context \<Rightarrow> policy_result outcome"
  assumes decides: "\<exists>r. decide c = Inr r"
    and retry_bounded: "decide c = Inr r \<Longrightarrow> po_retry r \<Longrightarrow> pc_current_attempt c < pc_max_attempts c"
begin

lemma no_retry_at_max:
  assumes "pc_max_attempts c \<le> pc_current_attempt c"
  obtains r where "decide c = Inr r" "\<not> po_retry r"
  using decides [of c] retry_bounded [of c] assms by (metis linorder_not_less)

end

definition builtin_policies :: "'e policy set" where
  "builtin_policies = range failure_policy \<union> {retry_policy} \<union> range timeout_policy"

lemma builtin_answer:
  assumes "p \<in> builtin_policies"
  obtains q where "p c = Inr q" "po_continue q \<or> po_cancel q" "consistent q"
    "po_retry q \<Longrightarrow> pc_event c = PE_STAGE_FAILED \<and> pc_exception c \<noteq> None \<and>
       pc_current_attempt c < pc_max_attempts c"
proof -
  consider b where "p = failure_policy b" | "p = retry_policy" | t where "p = timeout_policy t"
    using assms by (auto simp: builtin_policies_def)
  then have "\<exists>q. p c = Inr q \<and> (po_continue q \<or> po_cancel q) \<and> consistent q \<and>
      (po_retry q \<longrightarrow> pc_event c = PE_STAGE_FAILED \<and> pc_exception c \<noteq> None \<and>
         pc_current_attempt c < pc_max_attempts c)"
  proof cases
    case 1
    then show ?thesis by (auto simp: failure_policy_def consistent_def)
  next
    case 2
    then show ?thesis by (auto simp: retry_policy_def consistent_def)
  next
    case 3
    then show ?thesis by (auto simp: timeout_policy_def consistent_def split: option.split)
  qed
  then show ?thesis using that by blast
qed

lemma evaluate_loop_builtin:
  assumes "set ps \<subseteq> builtin_policies" and "po_continue acc" and "\<not> po_cancel acc"
    and "po_retry acc \<Longrightarrow> B" and "\<And>q. po_retry q \<Longrightarrow> (\<exists>p \<in> set ps. p c = Inr q) \<Longrightarrow> B"
  shows "\<exists>r. evaluate_loop ps c acc = Inr r \<and> (po_retry r \<longrightarrow> B)"
  using assms
proof (induction ps arbitrary: acc)
  case Nil
  then show ?case by (cases "po_retry acc") auto
next
  case (Cons p ps)
  obtain q where q: "p c = Inr q" "po_continue q \<or> po_cancel q"
    using Cons.prems(1) by (auto elim: builtin_answer [of p c])
  show ?case
  proof (cases "po_cancel q")
    case True
    with Cons.prems q show ?thesis by (simp add: Let_def)
  next
    case False
    with q Cons.prems show ?thesis
      by (auto simp: Let_def intro!: Cons.IH)
  qed
qed

lemma builtin_bounded_retry:
  assumes "set ps \<subseteq> builtin_policies"
  shows "bounded_retry (manager_evaluate ps)"
proof
  fix c r
  have *: "\<exists>r. manager_evaluate ps c = Inr r \<and>
      (po_retry r \<longrightarrow> pc_current_attempt c < pc_max_attempts c)" for c
    unfolding manager_evaluate_def
  proof (rule evaluate_loop_builtin [OF assms])
    fix q
    assume "po_retry q" "\<exists>p \<in> set ps. p c = Inr q"
    with assms show "pc_current_attempt c < pc_max_attempts c"
      by (metis Inr_inject builtin_answer subsetD)
  qed simp_all
  show "\<exists>r. manager_evaluate ps c = Inr r"
    using * [of c] by blast
  show "manager_evaluate ps c = Inr r \<Longrightarrow> po_retry r \<Longrightarrow> pc_current_attempt c < pc_max_attempts c"
    using * [of c] by auto
qed

interpretation default_manager: bounded_retry "manager_evaluate default_policies"
  by (rule builtin_bounded_retry) (auto simp: default_policies_def builtin_policies_def)

interpretation lenient_manager: bounded_retry "manager_evaluate [failure_policy False, retry_policy]"
  by (rule builtin_bounded_retry) (auto simp: builtin_policies_def)

text \<open>What the two standard compositions decide when a stage failed.\<close>

lemma default_manager_exception:
  assumes "pc_event c = PE_STAGE_FAILED" "pc_exception c = Some e"
  shows "\<exists>r. manager_evaluate [failure_policy b, retry_policy] c = Inr r \<and>
    po_retry r = (pc_current_attempt c < pc_max_attempts c) \<and> \<not> po_cancel r"
  using assms by (simp add: manager_evaluate_def failure_policy_def retry_policy_def)

lemma default_manager_failure:
  assumes "pc_event c = PE_STAGE_FAILED" "pc_exception c = None" "pc_failed c"
  shows "\<exists>r. manager_evaluate [failure_policy b, retry_policy] c = Inr r \<and>
    po_cancel r = b \<and> \<not> po_retry r"
  using assms by (simp add: manager_evaluate_def failure_policy_def retry_policy_def)

end
