(* ===== verification/Hooks.thy ===== *)
theory Hooks
  imports Runtime_State
begin

text \<open>
  Lifecycle events and their dispatch (\<open>processing/events\<close>, \<open>processing/hooks\<close>). A hook is named
  by an identifier \<open>'h\<close>; what it does with an event is a function of the event and of the state
  \<open>'o\<close> the hooks keep, which may raise. The manager is the dictionary of hook lists.
\<close>

section \<open>Hook types\<close>

datatype hook_type =
    BEFORE_PIPELINE | AFTER_PIPELINE | PIPELINE_FAILED | BEFORE_STAGE | AFTER_STAGE | STAGE_FAILED

instantiation hook_type :: enum
begin

definition enum_hook_type :: "hook_type list" where
  "enum_hook_type =
     [BEFORE_PIPELINE, AFTER_PIPELINE, PIPELINE_FAILED, BEFORE_STAGE, AFTER_STAGE, STAGE_FAILED]"

definition enum_all_hook_type :: "(hook_type \<Rightarrow> bool) \<Rightarrow> bool" where
  "enum_all_hook_type P \<longleftrightarrow> list_all P enum_class.enum"

definition enum_ex_hook_type :: "(hook_type \<Rightarrow> bool) \<Rightarrow> bool" where
  "enum_ex_hook_type P \<longleftrightarrow> list_ex P enum_class.enum"

instance
proof
  have univ: "x \<in> set (enum_class.enum :: hook_type list)" for x
    by (cases x) (simp_all add: enum_hook_type_def)
  then show "UNIV = set (enum_class.enum :: hook_type list)" by auto
  show "distinct (enum_class.enum :: hook_type list)" by (simp add: enum_hook_type_def)
  show "enum_class.enum_all P \<longleftrightarrow> Ball UNIV P" for P :: "hook_type \<Rightarrow> bool"
    using univ by (auto simp: enum_all_hook_type_def list_all_iff)
  show "enum_class.enum_ex P \<longleftrightarrow> Bex UNIV P" for P :: "hook_type \<Rightarrow> bool"
    using univ by (auto simp: enum_ex_hook_type_def list_ex_iff)
qed

end

section \<open>Hook contexts\<close>

record 'e hook_context =
  hc_type :: hook_type
  hc_pipeline :: "'e pipeline"
  hc_context :: processing_context
  hc_stage :: "'e stage option"
  hc_result :: "processing_result option"
  hc_exception :: "exn option"
  hc_timestamp :: int

section \<open>The hook manager\<close>

type_synonym 'h hook_table = "(hook_type, 'h list) dict"

definition hooks_of :: "'h hook_table \<Rightarrow> hook_type \<Rightarrow> 'h list" where
  "hooks_of t ty = (case map_of t ty of None \<Rightarrow> [] | Some hs \<Rightarrow> hs)"

definition hook_register :: "hook_type \<Rightarrow> 'h \<Rightarrow> 'h hook_table \<Rightarrow> 'h hook_table" where
  "hook_register ty h t = AList.update ty (hooks_of t ty @ [h]) t"

definition hook_unregister :: "hook_type \<Rightarrow> 'h \<Rightarrow> 'h hook_table \<Rightarrow> 'h hook_table" where
  "hook_unregister ty h t =
     (case map_of t ty of
        None \<Rightarrow> t
      | Some hs \<Rightarrow> if h \<in> set hs then AList.update ty (remove1 h hs) t else t)"

definition hook_clear :: "'h hook_table \<Rightarrow> 'h hook_table" where
  "hook_clear t = []"

definition register_hooks :: "'h \<Rightarrow> 'h hook_table \<Rightarrow> 'h hook_table" where
  "register_hooks h t = fold (\<lambda>ty. hook_register ty h) enum_class.enum t"

type_synonym ('h, 'o, 'e) hook_run = "'h \<Rightarrow> 'e hook_context \<Rightarrow> 'o \<Rightarrow> exn option \<times> 'o"

text \<open>The first hook that raises ends the dispatch; the hooks after it are not notified.\<close>

fun dispatch_to :: "('h, 'o, 'e) hook_run \<Rightarrow> 'h list \<Rightarrow> 'e hook_context \<Rightarrow> 'o \<Rightarrow> exn option \<times> 'o" where
  "dispatch_to run [] c ob = (None, ob)"
| "dispatch_to run (h # hs) c ob =
     (case run h c ob of
        (Some e, ob') \<Rightarrow> (Some e, ob')
      | (None, ob') \<Rightarrow> dispatch_to run hs c ob')"

definition hook_dispatch ::
  "('h, 'o, 'e) hook_run \<Rightarrow> 'h hook_table \<Rightarrow> 'e hook_context \<Rightarrow> 'o \<Rightarrow> exn option \<times> 'o" where
  "hook_dispatch run t c ob = dispatch_to run (hooks_of t (hc_type c)) c ob"

section \<open>Facts\<close>

lemma hooks_of_register [simp]:
  "hooks_of (hook_register ty h t) ty' = (if ty' = ty then hooks_of t ty @ [h] else hooks_of t ty')"
  by (simp add: hooks_of_def hook_register_def dict_simps)

lemma hooks_of_unregister [simp]:
  "hooks_of (hook_unregister ty h t) ty' =
     (if ty' = ty then remove1 h (hooks_of t ty) else hooks_of t ty')"
  by (auto simp: hooks_of_def hook_unregister_def dict_simps remove1_idem split: option.split)

lemma hooks_of_clear [simp]: "hooks_of (hook_clear t) ty = []"
  by (simp add: hooks_of_def hook_clear_def)

lemma hooks_of_register_hooks [simp]: "hooks_of (register_hooks h t) ty = hooks_of t ty @ [h]"
  by (cases ty) (simp_all add: register_hooks_def enum_hook_type_def)

lemma unregister_register: "h \<notin> set (hooks_of t ty) \<Longrightarrow>
  hooks_of (hook_unregister ty h (hook_register ty h t)) = hooks_of t"
  by (auto simp: remove1_append)

lemma dispatch_to_append:
  "dispatch_to run (hs @ hs') c ob =
     (case dispatch_to run hs c ob of
        (Some e, ob') \<Rightarrow> (Some e, ob') | (None, ob') \<Rightarrow> dispatch_to run hs' c ob')"
  by (induction hs arbitrary: ob) (auto split: prod.split option.split)

definition hooks_quiet :: "('h, 'o, 'e) hook_run \<Rightarrow> 'h hook_table \<Rightarrow> bool" where
  "hooks_quiet run t \<longleftrightarrow> (\<forall>ty. \<forall>h \<in> set (hooks_of t ty). \<forall>c ob. fst (run h c ob) = None)"

lemma dispatch_to_quiet:
  "(\<And>h c ob. h \<in> set hs \<Longrightarrow> fst (run h c ob) = None) \<Longrightarrow> fst (dispatch_to run hs c ob) = None"
  by (induction hs arbitrary: ob) (auto split: prod.split option.split, metis fst_conv option.simps(3))

lemma hook_dispatch_quiet: "hooks_quiet run t \<Longrightarrow> fst (hook_dispatch run t c ob) = None"
  unfolding hook_dispatch_def by (rule dispatch_to_quiet) (auto simp: hooks_quiet_def)

end
