(* ===== verification/Executor_Base.thy ===== *)
theory Executor_Base
  imports Policies Hooks
begin

text \<open>
  \<open>executor/base_executor.py\<close>: the state of one execution, hook dispatch, policy evaluation and
  \<open>execute\<close>, which runs a strategy and turns how it ended into a \<open>PipelineResult\<close>. The strategies
  are in \<open>Executor_Sequential\<close> and \<open>Executor_Parallel\<close>.
\<close>

section \<open>Executors and the state of an execution\<close>

text \<open>
  The clock of an executor maps the number of readings made so far to the next reading; nothing
  is assumed of it. \<open>rs_results\<close> is the list \<open>execute\<close> passes to the strategy, which survives an
  exception. \<open>rs_trace\<close> is a history variable for the proofs: the stage bodies called and the
  events emitted, in order; no operation reads it.
\<close>

datatype exec_event = Called string | Emitted hook_type "string option"

record ('o, 'e) run_state = runtime_state +
  rs_results :: "stage_result list"
  rs_obs :: 'o
  rs_env :: 'e
  rs_ticks :: nat
  rs_trace :: "exec_event list"

record ('h, 'o, 'e) executor =
  ex_hooks :: "'h hook_table"
  ex_run :: "('h, 'o, 'e) hook_run"
  ex_policies :: "'e policy list"
  ex_clock :: "nat \<Rightarrow> int"

definition new_executor ::
  "('h, 'o, 'e) hook_run \<Rightarrow> (nat \<Rightarrow> int) \<Rightarrow> 'e policy list option \<Rightarrow> ('h, 'o, 'e) executor" where
  "new_executor run clock policies =
     \<lparr> ex_hooks = [], ex_run = run,
       ex_policies = (case policies of None \<Rightarrow> default_policies | Some ps \<Rightarrow> ps),
       ex_clock = clock \<rparr>"

definition ex_register_hook :: "hook_type \<Rightarrow> 'h \<Rightarrow> ('h, 'o, 'e) executor \<Rightarrow> ('h, 'o, 'e) executor" where
  "ex_register_hook ty h x = x \<lparr> ex_hooks := hook_register ty h (ex_hooks x) \<rparr>"

definition ex_register_hooks :: "'h \<Rightarrow> ('h, 'o, 'e) executor \<Rightarrow> ('h, 'o, 'e) executor" where
  "ex_register_hooks h x = x \<lparr> ex_hooks := register_hooks h (ex_hooks x) \<rparr>"

definition ex_unregister_hook :: "hook_type \<Rightarrow> 'h \<Rightarrow> ('h, 'o, 'e) executor \<Rightarrow> ('h, 'o, 'e) executor" where
  "ex_unregister_hook ty h x = x \<lparr> ex_hooks := hook_unregister ty h (ex_hooks x) \<rparr>"

definition ex_clear_hooks :: "('h, 'o, 'e) executor \<Rightarrow> ('h, 'o, 'e) executor" where
  "ex_clear_hooks x = x \<lparr> ex_hooks := hook_clear (ex_hooks x) \<rparr>"

type_synonym ('o, 'e, 'a) exec = "(('o, 'e) run_state, 'a) act"

definition read_clock :: "('h, 'o, 'e) executor \<Rightarrow> ('o, 'e, int) exec" where
  "read_clock x s = Some (Inr (ex_clock x (rs_ticks s)), s \<lparr> rs_ticks := Suc (rs_ticks s) \<rparr>)"

section \<open>Hook dispatch and policies\<close>

definition emit ::
  "('h, 'o, 'e) executor \<Rightarrow> hook_type \<Rightarrow> 'e pipeline \<Rightarrow> 'e stage option \<Rightarrow> processing_result option
     \<Rightarrow> exn option \<Rightarrow> ('o, 'e, unit) exec" where
  "emit x ty p st res exc =
     bindA (read_clock x) (\<lambda>now s.
       let c = \<lparr> hc_type = ty, hc_pipeline = p, hc_context = rt_ctx s, hc_stage = st,
                 hc_result = res, hc_exception = exc, hc_timestamp = now \<rparr>;
           (e, ob) = hook_dispatch (ex_run x) (ex_hooks x) c (rs_obs s);
           s' = s \<lparr> rs_obs := ob, rs_trace := rs_trace s @ [Emitted ty (map_option st_id st)] \<rparr>
       in case e of None \<Rightarrow> ret () s' | Some exn \<Rightarrow> raise exn s')"

definition emit_before_pipeline :: "('h, 'o, 'e) executor \<Rightarrow> 'e pipeline \<Rightarrow> ('o, 'e, unit) exec" where
  "emit_before_pipeline x p = emit x BEFORE_PIPELINE p None None None"

definition emit_after_pipeline :: "('h, 'o, 'e) executor \<Rightarrow> 'e pipeline \<Rightarrow> ('o, 'e, unit) exec" where
  "emit_after_pipeline x p = emit x AFTER_PIPELINE p None None None"

definition emit_pipeline_failed ::
  "('h, 'o, 'e) executor \<Rightarrow> 'e pipeline \<Rightarrow> processing_result option \<Rightarrow> exn option \<Rightarrow> ('o, 'e, unit) exec" where
  "emit_pipeline_failed x p res exc = emit x PIPELINE_FAILED p None res exc"

definition emit_before_stage :: "('h, 'o, 'e) executor \<Rightarrow> 'e pipeline \<Rightarrow> 'e stage \<Rightarrow> ('o, 'e, unit) exec" where
  "emit_before_stage x p st = emit x BEFORE_STAGE p (Some st) None None"

definition emit_after_stage ::
  "('h, 'o, 'e) executor \<Rightarrow> 'e pipeline \<Rightarrow> 'e stage \<Rightarrow> stage_result \<Rightarrow> ('o, 'e, unit) exec" where
  "emit_after_stage x p st r = emit x AFTER_STAGE p (Some st) (Some (base_result r)) None"

definition emit_stage_failed ::
  "('h, 'o, 'e) executor \<Rightarrow> 'e pipeline \<Rightarrow> 'e stage \<Rightarrow> stage_result option \<Rightarrow> exn option \<Rightarrow>
     ('o, 'e, unit) exec" where
  "emit_stage_failed x p st r exc = emit x STAGE_FAILED p (Some st) (map_option base_result r) exc"

definition build_policy_context ::
  "processing_context \<Rightarrow> 'e pipeline \<Rightarrow> policy_event \<Rightarrow> 'e stage option \<Rightarrow> stage_vars \<Rightarrow> int \<Rightarrow>
     'e policy_context" where
  "build_policy_context c p ev st v now =
     \<lparr> pc_processing_context = c, pc_pipeline = Some p, pc_stage = st, pc_event = ev,
       pc_vars = v, pc_now = now \<rparr>"

definition evaluate_policies ::
  "('h, 'o, 'e) executor \<Rightarrow> 'e pipeline \<Rightarrow> 'e stage option \<Rightarrow> policy_event \<Rightarrow>
     ('o, 'e, policy_result) exec" where
  "evaluate_policies x p st ev =
     bindA (read_clock x) (\<lambda>now s.
       Some (manager_evaluate (ex_policies x)
               (build_policy_context (rt_ctx s) p ev st (rt_vars s) now), s))"

definition execute_stage :: "'e stage \<Rightarrow> ('o, 'e, stage_result) exec" where
  "execute_stage st s =
     (let (r, c, env) = st_execute st (rt_ctx s) (rs_env s)
      in Some (r, s \<lparr> rt_ctx := c, rs_env := env, rs_trace := rs_trace s @ [Called (st_id st)] \<rparr>))"

section \<open>Execute\<close>

definition close_pipeline ::
  "execution_status \<Rightarrow> string option \<Rightarrow> string option \<Rightarrow> ('o, 'e, pipeline_result) exec" where
  "close_pipeline status ety emsg s =
     (let r = \<lparr> pr_status = status, pr_metadata = cx_metadata (rt_ctx s), pr_error_type = ety,
                pr_error_message = emsg, pl_stage_results = rs_results s \<rparr>
      in Some (Inr r, set_pipeline_result r s))"

definition execute_with :: "('o, 'e, execution_status) exec \<Rightarrow> ('o, 'e, pipeline_result) exec" where
  "execute_with strategy =
     thenA (modify (\<lambda>s. s \<lparr> rs_results := [] \<rparr>))
       (try_except
          (bindA strategy (\<lambda>status s.
             if status = FAILED then
               let last_r = (if rs_results s = [] then None else Some (last (rs_results s)))
               in close_pipeline FAILED
                    (Option.bind last_r pr_error_type) (Option.bind last_r pr_error_message) s
             else close_pipeline COMPLETED None None s))
          (\<lambda>exc. close_pipeline FAILED (Some (exn_class exc)) (Some (exn_text exc))))"

section \<open>Facts\<close>

lemma read_clock_wlp [simp]:
  "wlp (read_clock x) Q E s = Q (ex_clock x (rs_ticks s)) (s \<lparr> rs_ticks := Suc (rs_ticks s) \<rparr>)"
  by (simp add: wlp_def read_clock_def)

lemma read_clock_wp [simp]:
  "wp (read_clock x) Q E s = Q (ex_clock x (rs_ticks s)) (s \<lparr> rs_ticks := Suc (rs_ticks s) \<rparr>)"
  by (simp add: wp_def read_clock_def)

lemma wp_emit:
  "wp (emit x ty p st res exc) Q E s \<longleftrightarrow>
     (let (e, ob) = hook_dispatch (ex_run x) (ex_hooks x)
            \<lparr> hc_type = ty, hc_pipeline = p, hc_context = rt_ctx s, hc_stage = st, hc_result = res,
              hc_exception = exc, hc_timestamp = ex_clock x (rs_ticks s) \<rparr> (rs_obs s);
          t = s \<lparr> rs_ticks := Suc (rs_ticks s), rs_obs := ob,
                  rs_trace := rs_trace s @ [Emitted ty (map_option st_id st)] \<rparr>
      in case e of None \<Rightarrow> Q () t | Some exn \<Rightarrow> E exn t)"
  by (simp add: emit_def wp_def bindA_def read_clock_def Let_def ret_def raise_def
      split: prod.split option.split)

lemma wlp_emit:
  "wlp (emit x ty p st res exc) Q E s \<longleftrightarrow> wp (emit x ty p st res exc) Q E s"
  by (simp add: emit_def wp_def wlp_def bindA_def read_clock_def Let_def ret_def raise_def
      split: prod.split option.split)

lemma wp_emit_quiet:
  assumes "hooks_quiet (ex_run x) (ex_hooks x)"
    and "\<And>ob. Q () (s \<lparr> rs_ticks := Suc (rs_ticks s), rs_obs := ob,
                        rs_trace := rs_trace s @ [Emitted ty (map_option st_id st)] \<rparr>)"
  shows "wp (emit x ty p st res exc) Q E s"
  using assms(2) hook_dispatch_quiet [OF assms(1)]
  by (auto simp: wp_emit Let_def split: prod.split option.split) (metis fst_conv option.simps(3))

lemmas emit_defs = emit_before_pipeline_def emit_after_pipeline_def emit_pipeline_failed_def
  emit_before_stage_def emit_after_stage_def emit_stage_failed_def

lemma wp_evaluate_policies:
  "wp (evaluate_policies x p st ev) Q E s \<longleftrightarrow>
     (case manager_evaluate (ex_policies x)
             (build_policy_context (rt_ctx s) p ev st (rt_vars s) (ex_clock x (rs_ticks s))) of
        Inl e \<Rightarrow> E e (s \<lparr> rs_ticks := Suc (rs_ticks s) \<rparr>)
      | Inr r \<Rightarrow> Q r (s \<lparr> rs_ticks := Suc (rs_ticks s) \<rparr>))"
  by (simp add: evaluate_policies_def wp_def bindA_def read_clock_def split: sum.split)

lemma wp_execute_stage:
  "wp (execute_stage st) Q E s \<longleftrightarrow>
     (case st_execute st (rt_ctx s) (rs_env s) of
        (r, c, env) \<Rightarrow>
          let t = s \<lparr> rt_ctx := c, rs_env := env, rs_trace := rs_trace s @ [Called (st_id st)] \<rparr>
          in (case r of Inl e \<Rightarrow> E e t | Inr a \<Rightarrow> Q a t))"
  by (simp add: execute_stage_def wp_def Let_def split: prod.split sum.split)

lemma wp_record_duration_ok:
  assumes "start_ok (rt_ctx s)"
    and "\<And>d. Q () (on_ctx (ctx_set (ExecutionKey Execution_DURATION) d) s)" and "Q () s"
  shows "wp (record_duration now) Q E s"
proof -
  note [simp] = record_duration_def wp_def ret_def modify_def
  show ?thesis
  proof (cases "ctx_get (rt_ctx s) (ExecutionKey Execution_START_TIME)")
    case (Some v)
    with assms(1) consider "v = CVPy PyNone" | d where "time_since 0 v = Inr d"
      by (auto simp: start_ok_def)
    then show ?thesis
    proof cases
      case 2
      then obtain d' where "time_since now v = Inr d'"
        using time_since_total by blast
      with Some 2 assms show ?thesis
        by (auto split: ctx_value.splits py_value.splits)
    qed (use Some assms in simp)
  qed (use assms in simp)
qed

end
