(* ===== verification/Executor_Sequential.thy ===== *)
theory Executor_Sequential
  imports Executor_Base
begin

text \<open>
  \<open>executor/sequential_executor.py\<close>. \<open>seq_attempt\<close> is one turn of the \<open>while True\<close> of a stage,
  \<open>seq_loop\<close> the loop itself (a partial function: nothing in the loop bounds it, the policies
  do), \<open>seq_stage\<close> the body of the \<open>for\<close> over the stages, \<open>sequential_pipeline\<close> the whole
  \<open>_execute_pipeline\<close>.
\<close>

section \<open>The strategy\<close>

text \<open>
  How the work on one stage ends when it does not raise: the loop over the stages goes on, and
  the flag says whether a failure was tolerated, or the method returns a status.
\<close>

datatype stage_end = Next bool | Return_status execution_status

datatype attempt_end = Again int | Leave stage_end

definition cancelled_error :: exn where
  "cancelled_error = runtime_error ''Pipeline cancelled by FailurePolicy.''"

definition seq_attempt ::
  "('h, 'o, 'e) executor \<Rightarrow> 'e pipeline \<Rightarrow> 'e stage \<Rightarrow> int \<Rightarrow> ('o, 'e, attempt_end) exec" where
  "seq_attempt x p st attempt =
     bindA (caught (execute_stage st)) (\<lambda>outcome. case outcome of
       Inl exc \<Rightarrow>
         thenA (modify (on_vars (set_stage_failed exc)))
        (thenA (emit_stage_failed x p st None (Some exc))
        (bindA (evaluate_policies x p (Some st) PE_STAGE_FAILED) (\<lambda>policy.
           if po_retry policy then
             thenA (modify (on_vars (retry_started (attempt + 1))))
                   (ret (Again (attempt + 1)))
           else
             bindA (read_clock x) (\<lambda>now.
               thenA (execution_failed now (Some exc))
              (thenA (modify (on_vars stage_finished))
              (thenA (emit_pipeline_failed x p None (Some exc))
                     (raise exc)))))))
     | Inr result \<Rightarrow>
         thenA (modify (on_vars (set_stage_result result)))
          (if succeeded result then
             thenA (modify (\<lambda>s. s \<lparr> rs_results := rs_results s @ [result] \<rparr>))
            (thenA (modify (on_vars stage_finished))
            (thenA (emit_after_stage x p st result)
                   (ret (Leave (Next False)))))
           else
             thenA (emit_stage_failed x p st (Some result) None)
            (bindA (evaluate_policies x p (Some st) PE_STAGE_FAILED) (\<lambda>policy.
               thenA (modify (\<lambda>s. s \<lparr> rs_results := rs_results s @ [result] \<rparr>))
              (thenA (modify (on_vars stage_finished))
                (if po_cancel policy then
                   bindA (read_clock x) (\<lambda>now.
                     thenA (execution_failed now (Some cancelled_error))
                    (thenA (emit_pipeline_failed x p None (Some cancelled_error))
                           (ret (Leave (Return_status FAILED)))))
                 else ret (Leave (Next True))))))))"

partial_function (option) seq_loop ::
  "('h, 'o, 'e) executor \<Rightarrow> 'e pipeline \<Rightarrow> 'e stage \<Rightarrow> int \<Rightarrow> ('o, 'e) run_state \<Rightarrow>
     ((exn + stage_end) \<times> ('o, 'e) run_state) option" where
  "seq_loop x p st attempt s =
     (case seq_attempt x p st attempt s of
        None \<Rightarrow> None
      | Some (Inl e, t) \<Rightarrow> Some (Inl e, t)
      | Some (Inr (Leave r), t) \<Rightarrow> Some (Inr r, t)
      | Some (Inr (Again n), t) \<Rightarrow> seq_loop x p st n t)"

definition seq_stage ::
  "('h, 'o, 'e) executor \<Rightarrow> 'e pipeline \<Rightarrow> 'e stage \<Rightarrow> ('o, 'e, stage_end) exec" where
  "seq_stage x p st =
     thenA (modify (on_vars (stage_started (st_id st))))
    (thenA (modify (on_vars (set_max_attempts (st_max_attempts st))))
    (thenA (emit_before_stage x p st)
           (seq_loop x p st 1)))"

fun seq_stages ::
  "('h, 'o, 'e) executor \<Rightarrow> 'e pipeline \<Rightarrow> 'e stage list \<Rightarrow> bool \<Rightarrow> ('o, 'e, stage_end) exec" where
  "seq_stages x p [] tolerated = ret (Next tolerated)"
| "seq_stages x p (st # sts) tolerated =
     bindA (seq_stage x p st) (\<lambda>r. case r of
       Return_status status \<Rightarrow> ret (Return_status status)
     | Next t \<Rightarrow> seq_stages x p sts (tolerated \<or> t))"

definition sequential_pipeline ::
  "('h, 'o, 'e) executor \<Rightarrow> 'e pipeline \<Rightarrow> ('o, 'e, execution_status) exec" where
  "sequential_pipeline x p =
     bindA (read_clock x) (\<lambda>now.
       thenA (modify (execution_started now))
      (thenA (emit_before_pipeline x p)
      (bindA (seq_stages x p (fst (pipeline_iter p)) False) (\<lambda>r. case r of
         Return_status status \<Rightarrow> ret status
       | Next tolerated \<Rightarrow>
           (case snd (pipeline_iter p) of
              Some e \<Rightarrow> raise e
            | None \<Rightarrow>
                bindA (read_clock x) (\<lambda>now.
                  thenA (if tolerated then execution_failed now None else execution_completed now)
                 (thenA (emit_after_pipeline x p)
                        (ret (if tolerated then FAILED else COMPLETED)))))))))"

definition execute_sequential ::
  "('h, 'o, 'e) executor \<Rightarrow> 'e pipeline \<Rightarrow> ('o, 'e, pipeline_result) exec" where
  "execute_sequential x p = execute_with (sequential_pipeline x p)"

definition new_run :: "processing_context \<Rightarrow> 'o \<Rightarrow> 'e \<Rightarrow> ('o, 'e) run_state" where
  "new_run c ob env =
     \<lparr> rt_ctx = c, rt_vars = default_vars, rs_results = [], rs_obs = ob, rs_env = env,
       rs_ticks = 0, rs_trace = [] \<rparr>"

end
