(* ===== verification/Executor_Spec.thy ===== *)
theory Executor_Spec
  imports Executor_Sequential
begin

text \<open>
  What running a pipeline means, without hooks, policies, context variables or clocks: run each
  stage until it answers or its attempts are used up, then go on or stop. The sequential executor
  refines it, for the two standard compositions of policies and hooks that do not raise.
\<close>

section \<open>The specification\<close>

text \<open>The retries a stage has after its first attempt.\<close>

definition budget :: "'e stage \<Rightarrow> nat" where
  "budget st = nat (or_one (Some (st_max_attempts st)) - 1)"

fun spec_attempts :: "nat \<Rightarrow> 'e stage \<Rightarrow> 'e stage_body" where
  "spec_attempts 0 st c env = st_execute st c env"
| "spec_attempts (Suc k) st c env =
     (case st_execute st c env of
        (Inl (Exn _ _), c', env') \<Rightarrow> spec_attempts k st c' env'
      | other \<Rightarrow> other)"

datatype spec_end = All_run bool | Stopped | Raised exn

fun spec_stages ::
  "bool \<Rightarrow> 'e stage list \<Rightarrow> stage_result list \<Rightarrow> bool \<Rightarrow> processing_context \<Rightarrow> 'e \<Rightarrow>
     spec_end \<times> stage_result list \<times> processing_context \<times> 'e" where
  "spec_stages fail_fast [] rs tolerated c env = (All_run tolerated, rs, c, env)"
| "spec_stages fail_fast (st # sts) rs tolerated c env =
     (case spec_attempts (budget st) st c env of
        (Inl e, c', env') \<Rightarrow> (Raised e, rs, c', env')
      | (Inr r, c', env') \<Rightarrow>
          if succeeded r then spec_stages fail_fast sts (rs @ [r]) tolerated c' env'
          else if fail_fast then (Stopped, rs @ [r], c', env')
          else spec_stages fail_fast sts (rs @ [r]) True c' env')"

text \<open>Stages that leave the start time alone, or replace it by a time.\<close>

definition keeps_start :: "'e stage \<Rightarrow> bool" where
  "keeps_start st \<longleftrightarrow> (\<forall>c env. start_ok c \<longrightarrow> start_ok (fst (snd (st_execute st c env))))"

section \<open>The stage loop\<close>

lemma wp_seq_loop:
  "wp (seq_loop x p st n) Q E s \<longleftrightarrow>
     wp (seq_attempt x p st n)
        (\<lambda>r t. case r of Leave l \<Rightarrow> Q l t | Again m \<Rightarrow> wp (seq_loop x p st m) Q E t) E s"
  by (subst (1) wp_def, subst seq_loop.simps)
     (auto simp: wp_def split: option.split prod.split sum.split attempt_end.split)

lemma or_one_Some_ge: "n < or_one (Some m) \<longleftrightarrow> (if m = 0 then n < 1 else n < m)"
  by (simp add: or_one_def)

text \<open>The variables of the current task while its attempt \<open>n\<close> runs.\<close>

definition attempt_vars :: "'e stage \<Rightarrow> int \<Rightarrow> stage_vars \<Rightarrow> bool" where
  "attempt_vars st n v \<longleftrightarrow>
     cv_current_attempt v = Some n \<and> cv_max_attempts v = Some (st_max_attempts st) \<and>
     cv_stage_exception v = None \<and> cv_stage_result v = None \<and> 1 \<le> n"

lemma keeps_start_apply:
  "keeps_start st \<Longrightarrow> start_ok c \<Longrightarrow> st_execute st c env = (r, c', env') \<Longrightarrow> start_ok c'"
  unfolding keeps_start_def by (metis fst_conv snd_conv)

lemma start_ok_frame [simp]:
  "k \<noteq> ExecutionKey Execution_START_TIME \<Longrightarrow> start_ok (ctx_set k v c) = start_ok c"
  "k \<noteq> ExecutionKey Execution_START_TIME \<Longrightarrow> start_ok (ctx_remove k c) = start_ok c"
  by (simp_all add: start_ok_def)

text \<open>The status the context shows, and what an exception leaves there.\<close>

definition marked :: "execution_status \<Rightarrow> ('o, 'e) run_state \<Rightarrow> bool" where
  "marked status s \<longleftrightarrow> ctx_status (rt_ctx s) = Some (CVStatus status)"

definition failure_marked :: "exn \<Rightarrow> ('o, 'e) run_state \<Rightarrow> bool" where
  "failure_marked e s \<longleftrightarrow> (is_Exn e \<longrightarrow> marked FAILED s)"

lemma wp_execution_failed:
  assumes "start_ok (rt_ctx s)"
    and "\<And>c v. ctx_status c = Some (CVStatus FAILED) \<Longrightarrow> Q () (s \<lparr> rt_ctx := c, rt_vars := v \<rparr>)"
  shows "wp (execution_failed now exc) Q E s"
proof -
  have keep: "ctx_status c = Some (CVStatus FAILED) \<Longrightarrow> Q () (s \<lparr> rt_ctx := c \<rparr>)" for c
    using assms(2) [of c "rt_vars s"] by (cases s) simp
  show ?thesis
    using assms(1)
    by (auto simp: execution_failed_def assms(2) keep ctx_status_def
        intro!: wp_record_duration_ok split: option.split)
qed

lemma wp_execution_completed:
  assumes "start_ok (rt_ctx s)"
    and "\<And>c v. ctx_status c = Some (CVStatus COMPLETED) \<Longrightarrow> Q () (s \<lparr> rt_ctx := c, rt_vars := v \<rparr>)"
  shows "wp (execution_completed now) Q E s"
  using assms by (auto simp: execution_completed_def ctx_status_def intro!: wp_record_duration_ok)

section \<open>One attempt\<close>

definition standard :: "('h, 'o, 'e) executor \<Rightarrow> bool \<Rightarrow> bool" where
  "standard x ff \<longleftrightarrow>
     ex_policies x = [failure_policy ff, retry_policy] \<and> hooks_quiet (ex_run x) (ex_hooks x)"

text \<open>What an attempt leaves, by what the stage body answered.\<close>

definition attempt_post ::
  "bool \<Rightarrow> 'e stage \<Rightarrow> int \<Rightarrow> stage_result list \<Rightarrow> stage_result outcome \<Rightarrow> processing_context \<Rightarrow> 'e \<Rightarrow>
     attempt_end \<Rightarrow> ('o, 'e) run_state \<Rightarrow> bool" where
  "attempt_post ff st n rs r c env l t \<longleftrightarrow>
     rs_env t = env \<and>
     (case r of
        Inl _ \<Rightarrow>
          n < or_one (Some (st_max_attempts st)) \<and> l = Again (n + 1) \<and>
          attempt_vars st (n + 1) (rt_vars t) \<and> rt_ctx t = c \<and> rs_results t = rs
      | Inr a \<Rightarrow>
          rs_results t = rs @ [a] \<and>
          (if succeeded a then l = Leave (Next False) \<and> rt_ctx t = c
           else if ff then l = Leave (Return_status FAILED) \<and> marked FAILED t
           else l = Leave (Next True) \<and> rt_ctx t = c))"

lemma build_policy_context_simps [simp]:
  "pc_event (build_policy_context c p ev st v now) = ev"
  "pc_exception (build_policy_context c p ev st v now) = cv_stage_exception v"
  "pc_stage_result (build_policy_context c p ev st v now) = cv_stage_result v"
  "pc_current_attempt (build_policy_context c p ev st v now) = or_one (cv_current_attempt v)"
  "pc_max_attempts (build_policy_context c p ev st v now) = or_one (cv_max_attempts v)"
  by (simp_all add: build_policy_context_def pc_exception_def pc_stage_result_def
      pc_current_attempt_def pc_max_attempts_def current_stage_exception_def
      current_stage_result_def current_attempt_def current_max_attempts_def)

lemma wp_standard_exception:
  assumes "standard x ff" and "cv_stage_exception (rt_vars s) \<noteq> None"
    and "\<And>r. po_retry r = (or_one (cv_current_attempt (rt_vars s)) < or_one (cv_max_attempts (rt_vars s))) \<Longrightarrow>
      Q r (s \<lparr> rs_ticks := Suc (rs_ticks s) \<rparr>)"
  shows "wp (evaluate_policies x p st PE_STAGE_FAILED) Q E s"
proof -
  have "\<exists>r. manager_evaluate (ex_policies x)
      (build_policy_context (rt_ctx s) p PE_STAGE_FAILED st (rt_vars s) (ex_clock x (rs_ticks s))) = Inr r \<and>
      po_retry r = (or_one (cv_current_attempt (rt_vars s)) < or_one (cv_max_attempts (rt_vars s)))"
    using default_manager_exception [of "build_policy_context (rt_ctx s) p PE_STAGE_FAILED st (rt_vars s)
        (ex_clock x (rs_ticks s))" _ ff] assms(1,2)
    by (auto simp: standard_def)
  then show ?thesis
    using assms(3) by (auto simp: wp_evaluate_policies)
qed

lemma wp_standard_failure:
  assumes "standard x ff" and "cv_stage_exception (rt_vars s) = None"
    and "\<exists>a. cv_stage_result (rt_vars s) = Some a \<and> failed a"
    and "\<And>r. po_cancel r = ff \<Longrightarrow> Q r (s \<lparr> rs_ticks := Suc (rs_ticks s) \<rparr>)"
  shows "wp (evaluate_policies x p st PE_STAGE_FAILED) Q E s"
proof -
  have "\<exists>r. manager_evaluate (ex_policies x)
      (build_policy_context (rt_ctx s) p PE_STAGE_FAILED st (rt_vars s) (ex_clock x (rs_ticks s))) = Inr r \<and>
      po_cancel r = ff"
    using default_manager_failure [of "build_policy_context (rt_ctx s) p PE_STAGE_FAILED st (rt_vars s)
        (ex_clock x (rs_ticks s))" ff] assms(1-3)
    by (auto simp: standard_def pc_failed_def)
  then show ?thesis
    using assms(4) by (auto simp: wp_evaluate_policies)
qed

lemma or_one_pos_Some: "1 \<le> n \<Longrightarrow> or_one (Some n) = n"
  by (simp add: or_one_def)

lemma wp_attempt_exception:
  assumes std: "standard x ff" and vars: "attempt_vars st n (rt_vars s)"
    and ok: "start_ok (rt_ctx s)" "keeps_start st"
    and run: "st_execute st (rt_ctx s) (rs_env s) = (Inl (Exn a b), c, env)"
  shows "wp (seq_attempt x p st n) (attempt_post ff st n (rs_results s) (Inl (Exn a b)) c env)
    (\<lambda>e t. e = Exn a b \<and> rs_results t = rs_results s \<and> rs_env t = env \<and>
       \<not> n < or_one (Some (st_max_attempts st)) \<and> failure_marked e t) s"
proof -
  have quiet: "hooks_quiet (ex_run x) (ex_hooks x)"
    using std by (simp add: standard_def)
  have start: "start_ok c"
    using keeps_start_apply [OF ok(2,1) run] .
  show ?thesis
    using vars
    by (auto simp: seq_attempt_def wp_execute_stage run Let_def emit_defs attempt_vars_def start
        retry_started_def set_stage_failed_def stage_finished_def attempt_post_def or_one_pos_Some marked_def
        failure_marked_def
        intro!: wp_emit_quiet [OF quiet] wp_standard_exception [OF std] wp_execution_failed)
qed

lemma wp_attempt_result:
  assumes std: "standard x ff" and vars: "attempt_vars st n (rt_vars s)"
    and ok: "start_ok (rt_ctx s)" "keeps_start st"
    and run: "st_execute st (rt_ctx s) (rs_env s) = (Inr a, c, env)"
  shows "wp (seq_attempt x p st n) (attempt_post ff st n (rs_results s) (Inr a) c env) E s"
proof -
  have quiet: "hooks_quiet (ex_run x) (ex_hooks x)"
    using std by (simp add: standard_def)
  have start: "start_ok c"
    using keeps_start_apply [OF ok(2,1) run] .
  show ?thesis
    using vars
    by (auto simp: seq_attempt_def wp_execute_stage run Let_def emit_defs attempt_vars_def start
        set_stage_result_def stage_finished_def attempt_post_def failed_def marked_def
        intro!: wp_emit_quiet [OF quiet] wp_standard_failure [OF std] wp_execution_failed)
qed

lemma wp_attempt_base_exn:
  assumes run: "st_execute st (rt_ctx s) (rs_env s) = (Inl (BaseExn a b), c, env)"
  shows "wp (seq_attempt x p st n) Q
    (\<lambda>e t. e = BaseExn a b \<and> rs_results t = rs_results s \<and> rs_env t = env \<and> failure_marked e t) s"
  by (simp add: seq_attempt_def wp_execute_stage run failure_marked_def)

section \<open>Refinement\<close>

definition loop_post ::
  "bool \<Rightarrow> stage_result list \<Rightarrow> stage_result outcome \<Rightarrow> processing_context \<Rightarrow> 'e \<Rightarrow>
     stage_end \<Rightarrow> ('o, 'e) run_state \<Rightarrow> bool" where
  "loop_post ff rs r c env l t \<longleftrightarrow>
     (\<exists>a. r = Inr a \<and> rs_results t = rs @ [a] \<and> rs_env t = env \<and>
        (if succeeded a then l = Next False \<and> rt_ctx t = c
         else if ff then l = Return_status FAILED \<and> marked FAILED t
         else l = Next True \<and> rt_ctx t = c))"

lemma attempt_post_loop_post:
  "attempt_post ff st n rs (Inr a) c env l t \<Longrightarrow> \<exists>l'. l = Leave l' \<and> loop_post ff rs (Inr a) c env l' t"
  by (auto simp: attempt_post_def loop_post_def split: if_splits)

lemma spec_attempts_start_ok:
  "keeps_start st \<Longrightarrow> start_ok c \<Longrightarrow> spec_attempts k st c env = (r, c', env') \<Longrightarrow> start_ok c'"
proof (induction k st c env arbitrary: r c' env' rule: spec_attempts.induct)
  case (1 st c env)
  then show ?case using keeps_start_apply by fastforce
next
  case (2 k st c env)
  obtain r1 c1 e1 where run: "st_execute st c env = (r1, c1, e1)"
    by (cases "st_execute st c env") auto
  have "start_ok c1"
    using keeps_start_apply [OF 2(2,3) run] .
  then show ?case
    using 2 run by (auto split: sum.splits exn.splits)
qed

lemma wp_seq_loop_spec:
  assumes std: "standard x ff" and ks: "keeps_start st"
  shows "attempt_vars st n (rt_vars s) \<Longrightarrow> start_ok (rt_ctx s) \<Longrightarrow>
    k = nat (or_one (Some (st_max_attempts st)) - n) \<Longrightarrow>
    spec_attempts k st (rt_ctx s) (rs_env s) = (r, c, env) \<Longrightarrow>
    wp (seq_loop x p st n) (loop_post ff (rs_results s) r c env)
      (\<lambda>e t. r = Inl e \<and> rs_results t = rs_results s \<and> rs_env t = env \<and> failure_marked e t) s"
proof (induction k arbitrary: n s)
  case 0
  obtain r' c' env' where run: "st_execute st (rt_ctx s) (rs_env s) = (r', c', env')"
    by (cases "st_execute st (rt_ctx s) (rs_env s)") auto
  with 0 have eq: "r' = r" "c' = c" "env' = env" by simp_all
  consider a b where "r' = Inl (Exn a b)" | a b where "r' = Inl (BaseExn a b)" | a where "r' = Inr a"
    by (metis exn.exhaust sum.exhaust)
  then show ?case
  proof cases
    case 1
    show ?thesis
      unfolding wp_seq_loop [of x p st n]
      by (rule wp_mono [OF wp_attempt_exception [OF std 0(1,2) ks run [unfolded 1]]])
         (use 0 1 eq in \<open>auto simp: attempt_post_def\<close>)
  next
    case 2
    show ?thesis
      unfolding wp_seq_loop [of x p st n]
      by (rule wp_mono [OF wp_attempt_base_exn [OF run [unfolded 2], of x p n "\<lambda>_ _. False"]])
         (use 2 eq in auto)
  next
    case 3
    show ?thesis
      unfolding wp_seq_loop [of x p st n]
      by (rule wp_mono [OF wp_attempt_result [OF std 0(1,2) ks run [unfolded 3], of p "\<lambda>_ _. False"]])
         (use 3 eq in \<open>auto dest!: attempt_post_loop_post\<close>)
  qed
next
  case (Suc k)
  obtain r' c' env' where run: "st_execute st (rt_ctx s) (rs_env s) = (r', c', env')"
    by (cases "st_execute st (rt_ctx s) (rs_env s)") auto
  have start: "start_ok c'"
    using keeps_start_apply [OF ks Suc.prems(2) run] .
  consider a b where "r' = Inl (Exn a b)" | a b where "r' = Inl (BaseExn a b)" | a where "r' = Inr a"
    by (metis exn.exhaust sum.exhaust)
  then show ?case
  proof cases
    case 1
    have rest: "spec_attempts k st c' env' = (r, c, env)"
      using Suc.prems(4) run 1 by simp
    show ?thesis
      unfolding wp_seq_loop [of x p st n]
    proof (rule wp_mono [OF wp_attempt_exception [OF std Suc.prems(1,2) ks run [unfolded 1]]])
      fix l and t :: "('b, 'c) run_state"
      assume post: "attempt_post ff st n (rs_results s) (Inl (Exn a b)) c' env' l t"
      then have t: "l = Again (n + 1)" "attempt_vars st (n + 1) (rt_vars t)" "rt_ctx t = c'"
        "rs_results t = rs_results s" "rs_env t = env'"
        by (auto simp: attempt_post_def)
      have "wp (seq_loop x p st (n + 1)) (loop_post ff (rs_results t) r c env)
          (\<lambda>e u. r = Inl e \<and> rs_results u = rs_results t \<and> rs_env u = env \<and> failure_marked e u) t"
        by (rule Suc.IH) (use t start rest Suc.prems(3) in auto)
      then show "case l of
          Again m \<Rightarrow> wp (seq_loop x p st m) (loop_post ff (rs_results s) r c env)
            (\<lambda>e t. r = Inl e \<and> rs_results t = rs_results s \<and> rs_env t = env \<and> failure_marked e t) t
        | Leave l \<Rightarrow> loop_post ff (rs_results s) r c env l t"
        using t by simp
    qed (use Suc.prems(3) in auto)
  next
    case 2
    show ?thesis
      unfolding wp_seq_loop [of x p st n]
      by (rule wp_mono [OF wp_attempt_base_exn [OF run [unfolded 2], of x p n "\<lambda>_ _. False"]])
         (use 2 run Suc.prems(4) in auto)
  next
    case 3
    show ?thesis
      unfolding wp_seq_loop [of x p st n]
      by (rule wp_mono [OF wp_attempt_result [OF std Suc.prems(1,2) ks run [unfolded 3], of p "\<lambda>_ _. False"]])
         (use 3 run Suc.prems(4) in \<open>auto dest!: attempt_post_loop_post\<close>)
  qed
qed

lemma wp_seq_stage_spec:
  assumes std: "standard x ff" and ks: "keeps_start st" and ok: "start_ok (rt_ctx s)"
    and spec: "spec_attempts (budget st) st (rt_ctx s) (rs_env s) = (r, c, env)"
  shows "wp (seq_stage x p st) (loop_post ff (rs_results s) r c env)
    (\<lambda>e t. r = Inl e \<and> rs_results t = rs_results s \<and> rs_env t = env \<and> failure_marked e t) s"
proof -
  have quiet: "hooks_quiet (ex_run x) (ex_hooks x)"
    using std by (simp add: standard_def)
  have loop: "wp (seq_loop x p st 1) (loop_post ff (rs_results s) r c env)
      (\<lambda>e t. r = Inl e \<and> rs_results t = rs_results s \<and> rs_env t = env \<and> failure_marked e t) t"
    if "attempt_vars st 1 (rt_vars t)" "rt_ctx t = rt_ctx s" "rs_results t = rs_results s"
      "rs_env t = rs_env s" for t
    using wp_seq_loop_spec [OF std ks that(1), of "budget st" r c env p] that ok spec
    by (simp add: budget_def)
  show ?thesis
    by (auto simp: seq_stage_def emit_defs stage_started_def set_max_attempts_def attempt_vars_def
        intro!: wp_emit_quiet [OF quiet] loop)
qed

definition stages_post ::
  "spec_end \<times> stage_result list \<times> processing_context \<times> 'e \<Rightarrow> stage_end \<Rightarrow> ('o, 'e) run_state \<Rightarrow> bool" where
  "stages_post spec l t \<longleftrightarrow>
     (case spec of (fin, rs, c, env) \<Rightarrow>
        rs_results t = rs \<and> rs_env t = env \<and>
        (case fin of
           All_run b \<Rightarrow> l = Next b \<and> rt_ctx t = c
         | Stopped \<Rightarrow> l = Return_status FAILED \<and> marked FAILED t
         | Raised e \<Rightarrow> False))"

definition stages_raise ::
  "spec_end \<times> stage_result list \<times> processing_context \<times> 'e \<Rightarrow> exn \<Rightarrow> ('o, 'e) run_state \<Rightarrow> bool" where
  "stages_raise spec e t \<longleftrightarrow>
     (case spec of (fin, rs, c, env) \<Rightarrow> fin = Raised e \<and> rs_results t = rs \<and> rs_env t = env \<and> failure_marked e t)"

lemma wp_seq_stages_spec:
  assumes std: "standard x ff"
  shows "(\<And>st. st \<in> set sts \<Longrightarrow> keeps_start st) \<Longrightarrow> start_ok (rt_ctx s) \<Longrightarrow>
    wp (seq_stages x p sts tol)
       (stages_post (spec_stages ff sts (rs_results s) tol (rt_ctx s) (rs_env s)))
       (stages_raise (spec_stages ff sts (rs_results s) tol (rt_ctx s) (rs_env s))) s"
proof (induction sts arbitrary: s tol)
  case Nil
  then show ?case by (simp add: stages_post_def)
next
  case (Cons st sts)
  obtain r c env where spec: "spec_attempts (budget st) st (rt_ctx s) (rs_env s) = (r, c, env)"
    by (cases "spec_attempts (budget st) st (rt_ctx s) (rs_env s)") auto
  have ks: "keeps_start st" using Cons.prems(1) by simp
  have start: "start_ok c"
    using spec_attempts_start_ok [OF ks Cons.prems(2) spec] .
  let ?spec = "spec_stages ff (st # sts) (rs_results s) tol (rt_ctx s) (rs_env s)"
  show ?case
    unfolding seq_stages.simps wp_bindA
  proof (rule wp_mono [OF wp_seq_stage_spec [OF std ks Cons.prems(2) spec]])
    fix l and t :: "('b, 'c) run_state"
    assume "loop_post ff (rs_results s) r c env l t"
    then obtain a where a: "r = Inr a" "rs_results t = rs_results s @ [a]" "rs_env t = env"
      "if succeeded a then l = Next False \<and> rt_ctx t = c
       else if ff then l = Return_status FAILED \<and> marked FAILED t else l = Next True \<and> rt_ctx t = c"
      by (auto simp: loop_post_def)
    have IH: "wp (seq_stages x p sts tol')
        (stages_post (spec_stages ff sts (rs_results s @ [a]) tol' c env))
        (stages_raise (spec_stages ff sts (rs_results s @ [a]) tol' c env)) t" if "rt_ctx t = c" for tol'
      using Cons.IH [of t tol'] Cons.prems(1) start a that by simp
    show "wp (case l of Return_status status \<Rightarrow> ret (Return_status status)
        | Next b \<Rightarrow> seq_stages x p sts (tol \<or> b)) (stages_post ?spec) (stages_raise ?spec) t"
      using a spec IH by (auto simp: stages_post_def split: if_splits)
  next
    fix e and t :: "('b, 'c) run_state"
    assume "r = Inl e \<and> rs_results t = rs_results s \<and> rs_env t = env \<and> failure_marked e t"
    then show "stages_raise ?spec e t"
      using spec by (simp add: stages_raise_def)
  qed
qed

text \<open>The result \<open>execute\<close> must return, and whether it returns at all, by the specification.\<close>

fun spec_result :: "execution_metadata \<Rightarrow> spec_end \<Rightarrow> stage_result list \<Rightarrow> exn + pipeline_result" where
  "spec_result m (All_run False) rs =
     Inr \<lparr> pr_status = COMPLETED, pr_metadata = m, pr_error_type = None, pr_error_message = None,
           pl_stage_results = rs \<rparr>"
| "spec_result m (Raised (BaseExn c x)) rs = Inl (BaseExn c x)"
| "spec_result m (Raised (Exn c x)) rs =
     Inr \<lparr> pr_status = FAILED, pr_metadata = m, pr_error_type = Some c, pr_error_message = Some x,
           pl_stage_results = rs \<rparr>"
| "spec_result m fin rs =
     Inr \<lparr> pr_status = FAILED, pr_metadata = m,
           pr_error_type = (if rs = [] then None else pr_error_type (last rs)),
           pr_error_message = (if rs = [] then None else pr_error_message (last rs)),
           pl_stage_results = rs \<rparr>"

lemma spec_stages_start_ok:
  "(\<And>st. st \<in> set sts \<Longrightarrow> keeps_start st) \<Longrightarrow> start_ok c \<Longrightarrow>
    spec_stages ff sts rs tol c env = (fin, rs', c', env') \<Longrightarrow> start_ok c'"
proof (induction ff sts rs tol c env rule: spec_stages.induct)
  case (2 ff st sts rs tol c env)
  obtain r c1 env1 where spec: "spec_attempts (budget st) st c env = (r, c1, env1)"
    by (cases "spec_attempts (budget st) st c env") auto
  have "start_ok c1"
    using spec_attempts_start_ok [OF _ "2.prems"(2) spec] "2.prems"(1) by simp
  then show ?case
    using 2 spec by (auto split: sum.splits if_splits)
qed simp

lemma execution_started_results [simp]:
  "rs_results (execution_started now s) = rs_results s"
  "rs_env (execution_started now s) = rs_env s"
  "rs_trace (execution_started now s) = rs_trace s"
  "rs_ticks (execution_started now s) = rs_ticks s"
  by (simp_all add: execution_started_def Let_def)

lemma wp_sequential_pipeline_spec:
  assumes std: "standard x ff" and iter: "pipeline_iter p = (sts, None)"
    and ks: "\<And>st. st \<in> set sts \<Longrightarrow> keeps_start st" and empty: "rs_results s = []"
    and spec: "spec_stages ff sts [] False (started_ctx (ex_clock x (rs_ticks s)) (rt_ctx s)) (rs_env s) =
      (fin, rs, c, env)"
  shows "wp (sequential_pipeline x p)
    (\<lambda>status t. rs_results t = rs \<and> rs_env t = env \<and> marked status t \<and>
       (case fin of All_run b \<Rightarrow> status = (if b then FAILED else COMPLETED)
        | Stopped \<Rightarrow> status = FAILED | Raised e \<Rightarrow> False))
    (stages_raise (fin, rs, c, env)) s"
proof -
  have quiet: "hooks_quiet (ex_run x) (ex_hooks x)"
    using std by (simp add: standard_def)
  have start: "start_ok c"
    using spec_stages_start_ok [OF ks started_ctx_start_ok spec] .
  have stages: "wp (seq_stages x p sts False) (stages_post (fin, rs, c, env)) (stages_raise (fin, rs, c, env)) t"
    if "rt_ctx t = started_ctx (ex_clock x (rs_ticks s)) (rt_ctx s)" "rs_results t = []"
      "rs_env t = rs_env s" for t
    using wp_seq_stages_spec [OF std ks, of sts t p False] that started_ctx_start_ok spec by simp
  show ?thesis
    unfolding sequential_pipeline_def using start
    by (auto simp: emit_defs iter execution_started_ctx empty stages_post_def marked_def
        split: spec_end.splits stage_end.splits
        intro!: wp_emit_quiet [OF quiet] wp_mono [OF stages] wp_execution_failed wp_execution_completed)
qed

lemma wp_close_pipeline:
  "wp (close_pipeline status ety emsg) Q E s \<longleftrightarrow>
     (let r = \<lparr> pr_status = status, pr_metadata = cx_metadata (rt_ctx s), pr_error_type = ety,
                pr_error_message = emsg, pl_stage_results = rs_results s \<rparr>
      in Q r (set_pipeline_result r s))"
  by (simp add: close_pipeline_def wp_def Let_def)

lemma wp_execute_with:
  "wp (execute_with strategy) Q E s \<longleftrightarrow>
     wp strategy
       (\<lambda>status t. wp (if status = FAILED then close_pipeline FAILED
             (if rs_results t = [] then None else pr_error_type (last (rs_results t)))
             (if rs_results t = [] then None else pr_error_message (last (rs_results t)))
           else close_pipeline COMPLETED None None) Q E t)
       (\<lambda>e. if is_Exn e then wp (close_pipeline FAILED (Some (exn_class e)) (Some (exn_text e))) Q E else E e)
       (s \<lparr> rs_results := [] \<rparr>)"
  unfolding execute_with_def
  by (auto simp: wp_def bindA_def try_except_def modify_def close_pipeline_def Let_def
      split: option.splits prod.splits sum.splits exn.splits)

lemma set_pipeline_result_simps [simp]:
  "rs_env (set_pipeline_result r s) = rs_env s"
  "cx_metadata (rt_ctx (set_pipeline_result r s)) = cx_metadata (rt_ctx s)"
  "marked status (set_pipeline_result r s) = marked status s"
  by (simp_all add: set_pipeline_result_def marked_def ctx_status_def)

lemma spec_result_raised:
  "spec_result m (Raised e) rs =
     (if is_Exn e then
        Inr \<lparr> pr_status = FAILED, pr_metadata = m, pr_error_type = Some (exn_class e),
              pr_error_message = Some (exn_text e), pl_stage_results = rs \<rparr>
      else Inl e)"
  by (cases e) simp_all

lemma wp_execute_sequential_spec:
  assumes std: "standard x ff" and iter: "pipeline_iter p = (sts, None)"
    and ks: "\<And>st. st \<in> set sts \<Longrightarrow> keeps_start st"
    and spec: "spec_stages ff sts [] False (started_ctx (ex_clock x (rs_ticks s)) (rt_ctx s)) (rs_env s) =
      (fin, rs, c, env)"
  shows "wp (execute_sequential x p)
    (\<lambda>r t. spec_result (cx_metadata (rt_ctx t)) fin rs = Inr r \<and> rs_env t = env \<and> marked (pr_status r) t)
    (\<lambda>e t. spec_result (cx_metadata (rt_ctx t)) fin rs = Inl e \<and> rs_env t = env) s"
proof -
  have strategy: "wp (sequential_pipeline x p)
    (\<lambda>status t. rs_results t = rs \<and> rs_env t = env \<and> marked status t \<and>
       (case fin of All_run b \<Rightarrow> status = (if b then FAILED else COMPLETED)
        | Stopped \<Rightarrow> status = FAILED | Raised e \<Rightarrow> False))
    (stages_raise (fin, rs, c, env)) (s \<lparr> rs_results := [] \<rparr>)"
    by (rule wp_sequential_pipeline_spec [OF std iter ks]) (use spec in simp_all)
  show ?thesis
    unfolding execute_sequential_def wp_execute_with
    by (rule wp_mono [OF strategy])
       (auto simp: wp_close_pipeline Let_def stages_raise_def failure_marked_def spec_result_raised
         split: spec_end.splits if_splits)
qed

end
