(* ===== verification/Executor_Bounds.thy ===== *)
theory Executor_Bounds
  imports Executor_Spec
begin

text \<open>
  What holds of the sequential executor whatever the hooks and the stages do: it returns, it
  calls the body of a stage at most as often as the stage allows, and a pipeline reported as
  completed is one whose stages all succeeded. The facts about the retry loop are proved for
  any policy engine that keeps the \<open>bounded_retry\<close> contract.
\<close>

section \<open>Rules that ask nothing of the hooks\<close>

lemma wp_emit_any:
  assumes "\<And>ob. Q () (s \<lparr> rs_ticks := Suc (rs_ticks s), rs_obs := ob,
                        rs_trace := rs_trace s @ [Emitted ty (map_option st_id st)] \<rparr>)"
    and "\<And>e ob. E e (s \<lparr> rs_ticks := Suc (rs_ticks s), rs_obs := ob,
                        rs_trace := rs_trace s @ [Emitted ty (map_option st_id st)] \<rparr>)"
  shows "wp (emit x ty p st res exc) Q E s"
  using assms by (auto simp: wp_emit Let_def split: prod.split option.split)

lemma wp_record_duration_any:
  assumes "\<And>d. Q () (on_ctx (ctx_set (ExecutionKey Execution_DURATION) d) s)" and "Q () s"
    and "\<And>e. E e s"
  shows "wp (record_duration now) Q E s"
  using assms
  by (auto simp: record_duration_def wp_def ret_def raise_def modify_def
      split: option.splits ctx_value.splits py_value.splits)

lemma wp_execution_failed_any:
  assumes "\<And>c v. Q () (s \<lparr> rt_ctx := c, rt_vars := v \<rparr>)" and "\<And>e c. E e (s \<lparr> rt_ctx := c \<rparr>)"
  shows "wp (execution_failed now exc) Q E s"
proof -
  have keep: "Q () (s \<lparr> rt_ctx := c \<rparr>)" for c
    using assms(1) [of "rt_vars s" c] by (cases s) simp
  show ?thesis
    by (auto simp: execution_failed_def assms keep intro!: wp_record_duration_any split: option.split)
qed

lemma wp_execution_completed_any:
  assumes "\<And>c v. Q () (s \<lparr> rt_ctx := c, rt_vars := v \<rparr>)" and "\<And>e c. E e (s \<lparr> rt_ctx := c \<rparr>)"
  shows "wp (execution_completed now) Q E s"
  using assms by (auto simp: execution_completed_def intro!: wp_record_duration_any)

section \<open>Calls of stage bodies\<close>

definition calls :: "string \<Rightarrow> ('o, 'e) run_state \<Rightarrow> nat" where
  "calls i s = count_list (rs_trace s) (Called i)"

lemma calls_emitted [simp]: "rs_trace s = tr @ [Emitted ty i] \<Longrightarrow> calls j s = count_list tr (Called j)"
  by (simp add: calls_def)

lemma count_list_snoc [simp]: "count_list (xs @ [y]) x = count_list xs x + (if y = x then 1 else 0)"
  by simp

definition allowed :: "'e stage \<Rightarrow> nat" where
  "allowed st = nat (max 1 (st_max_attempts st))"

lemma allowed_or_one: "int (allowed st) = max 1 (or_one (Some (st_max_attempts st)))"
  by (auto simp: allowed_def or_one_def)

text \<open>From attempt \<open>n\<close> on, the loop calls the body once more than the retries that are left.\<close>

definition more_calls :: "'e stage \<Rightarrow> nat \<Rightarrow> ('o, 'e) run_state \<Rightarrow> ('o, 'e) run_state \<Rightarrow> bool" where
  "more_calls st k s t \<longleftrightarrow>
     (\<forall>i. calls i t \<le> calls i s + (if i = st_id st then k else 0) \<and> calls i s \<le> calls i t)"

text \<open>The calls a list of stages may make of the body named \<open>i\<close>.\<close>

definition allowed_calls :: "'e stage list \<Rightarrow> string \<Rightarrow> nat" where
  "allowed_calls sts i = sum_list (map (\<lambda>st. if i = st_id st then allowed st else 0) sts)"

context bounded_retry
begin

lemma wp_attempt_calls:
  assumes decide: "manager_evaluate (ex_policies x) = decide" and vars: "attempt_vars st n (rt_vars s)"
  shows "wp (seq_attempt x p st n)
    (\<lambda>l t. (\<forall>i. calls i t = calls i s + (if i = st_id st then 1 else 0)) \<and>
       (\<forall>m. l = Again m \<longrightarrow> m = n + 1 \<and> n < or_one (Some (st_max_attempts st)) \<and>
          attempt_vars st m (rt_vars t)))
    (\<lambda>e t. \<forall>i. calls i t = calls i s + (if i = st_id st then 1 else 0)) s"
proof -
  have policies: "wp (evaluate_policies x p (Some st) PE_STAGE_FAILED) Q E t"
    if "\<And>r. po_retry r \<Longrightarrow> or_one (cv_current_attempt (rt_vars t)) < or_one (cv_max_attempts (rt_vars t)) \<Longrightarrow>
          Q r (t \<lparr> rs_ticks := Suc (rs_ticks t) \<rparr>)"
      and "\<And>r. \<not> po_retry r \<Longrightarrow> Q r (t \<lparr> rs_ticks := Suc (rs_ticks t) \<rparr>)" for Q E t
  proof -
    obtain r where r: "decide (build_policy_context (rt_ctx t) p PE_STAGE_FAILED (Some st) (rt_vars t)
        (ex_clock x (rs_ticks t))) = Inr r"
      using decides by blast
    show ?thesis
      using that [of r] retry_bounded [OF r] by (cases "po_retry r") (simp_all add: wp_evaluate_policies decide r)
  qed
  show ?thesis
    using vars
    by (auto simp: seq_attempt_def wp_execute_stage Let_def emit_defs attempt_vars_def
        set_stage_result_def set_stage_failed_def retry_started_def stage_finished_def calls_def
        or_one_pos_Some
        split: prod.split sum.split exn.split
        intro!: wp_emit_any policies wp_execution_failed_any)
qed

lemma wp_loop_calls:
  assumes decide: "manager_evaluate (ex_policies x) = decide"
  shows "attempt_vars st n (rt_vars s) \<Longrightarrow> k = nat (or_one (Some (st_max_attempts st)) - n) \<Longrightarrow>
    wp (seq_loop x p st n) (\<lambda>_. more_calls st (Suc k) s) (\<lambda>_. more_calls st (Suc k) s) s"
proof (induction k arbitrary: n s)
  case 0
  show ?case
    unfolding wp_seq_loop [of x p st n]
    by (rule wp_mono [OF wp_attempt_calls [OF decide 0(1)]])
       (use 0 in \<open>auto simp: more_calls_def split: attempt_end.split\<close>)
next
  case (Suc k)
  show ?case
    unfolding wp_seq_loop [of x p st n]
  proof (rule wp_mono [OF wp_attempt_calls [OF decide Suc.prems(1)]])
    fix l and t :: "('b, 'e) run_state"
    assume post: "(\<forall>i. calls i t = calls i s + (if i = st_id st then 1 else 0)) \<and>
      (\<forall>m. l = Again m \<longrightarrow> m = n + 1 \<and> n < or_one (Some (st_max_attempts st)) \<and>
        attempt_vars st m (rt_vars t))"
    have next_turn: "more_calls st (Suc (Suc k)) s u" if "more_calls st (Suc k) t u" for u
      using that post by (auto simp: more_calls_def split: if_splits)
    show "case l of
        Again m \<Rightarrow> wp (seq_loop x p st m) (\<lambda>_. more_calls st (Suc (Suc k)) s)
          (\<lambda>_. more_calls st (Suc (Suc k)) s) t
      | Leave l \<Rightarrow> more_calls st (Suc (Suc k)) s t"
    proof (cases l)
      case (Again m)
      with post Suc.prems(2) have "k = nat (or_one (Some (st_max_attempts st)) - m)"
        "attempt_vars st m (rt_vars t)" by auto
      from Suc.IH [OF this(2,1)] show ?thesis
        by (auto simp: Again intro: wp_mono next_turn)
    next
      case (Leave l')
      with post show ?thesis by (auto simp: more_calls_def)
    qed
  qed (auto simp: more_calls_def)
qed

lemma more_calls_same: "(\<And>i. calls i t = calls i s) \<Longrightarrow> more_calls st k t = more_calls st k s"
  by (simp add: more_calls_def fun_eq_iff)

lemma wp_stage_calls:
  assumes decide: "manager_evaluate (ex_policies x) = decide"
  shows "wp (seq_stage x p st) (\<lambda>_. more_calls st (allowed st) s) (\<lambda>_. more_calls st (allowed st) s) s"
proof -
  have k: "Suc (nat (or_one (Some (st_max_attempts st)) - 1)) = allowed st"
    using allowed_or_one [of st] by (auto simp: allowed_def or_one_def)
  have loop: "wp (seq_loop x p st 1) (\<lambda>_. more_calls st (allowed st) s) (\<lambda>_. more_calls st (allowed st) s) t"
    if "attempt_vars st 1 (rt_vars t)" "\<And>i. calls i t = calls i s" for t
    using wp_loop_calls [OF decide that(1) refl, of p] more_calls_same [OF that(2)] by (simp add: k)
  show ?thesis
    by (auto simp: seq_stage_def emit_defs stage_started_def set_max_attempts_def attempt_vars_def
        more_calls_def calls_def intro!: wp_emit_any loop)
qed

lemma wp_stages_calls:
  assumes decide: "manager_evaluate (ex_policies x) = decide"
  shows "wp (seq_stages x p sts tol)
    (\<lambda>_ t. \<forall>i. calls i t \<le> calls i s + allowed_calls sts i)
    (\<lambda>_ t. \<forall>i. calls i t \<le> calls i s + allowed_calls sts i) s"
proof (induction sts arbitrary: s tol)
  case Nil
  then show ?case by (simp add: allowed_calls_def)
next
  case (Cons st sts)
  have step: "calls i u \<le> calls i s + allowed_calls (st # sts) i"
    if "more_calls st (allowed st) s t" "calls i u \<le> calls i t + allowed_calls sts i" for t u i
  proof -
    have "calls i t \<le> calls i s + (if i = st_id st then allowed st else 0)"
      using that(1) by (simp add: more_calls_def)
    then show ?thesis
      using that(2) by (simp add: allowed_calls_def)
  qed
  show ?case
    unfolding seq_stages.simps wp_bindA
  proof (rule wp_mono [OF wp_stage_calls [OF decide]])
    fix l and t :: "('b, 'e) run_state"
    assume t: "more_calls st (allowed st) s t"
    show "wp (case l of Return_status status \<Rightarrow> ret (Return_status status)
        | Next b \<Rightarrow> seq_stages x p sts (tol \<or> b))
      (\<lambda>_ t. \<forall>i. calls i t \<le> calls i s + allowed_calls (st # sts) i)
      (\<lambda>_ t. \<forall>i. calls i t \<le> calls i s + allowed_calls (st # sts) i) t"
      by (cases l) (auto intro!: step [OF t] wp_mono [OF Cons.IH])
  qed (auto intro!: step)
qed

lemma wp_pipeline_calls:
  assumes decide: "manager_evaluate (ex_policies x) = decide"
  shows "wp (sequential_pipeline x p)
    (\<lambda>_ t. \<forall>i. calls i t \<le> calls i s + allowed_calls (fst (pipeline_iter p)) i)
    (\<lambda>_ t. \<forall>i. calls i t \<le> calls i s + allowed_calls (fst (pipeline_iter p)) i) s"
proof -
  have stages: "wp (seq_stages x p (fst (pipeline_iter p)) False)
      (\<lambda>_ u. \<forall>i. calls i u \<le> calls i s + allowed_calls (fst (pipeline_iter p)) i)
      (\<lambda>_ u. \<forall>i. calls i u \<le> calls i s + allowed_calls (fst (pipeline_iter p)) i) t"
    if "\<And>i. calls i t = calls i s" for t
    using wp_stages_calls [OF decide, of p "fst (pipeline_iter p)" False t] that by simp
  show ?thesis
    unfolding sequential_pipeline_def
    by (auto simp: emit_defs calls_def split: stage_end.splits option.splits
        intro!: wp_emit_any wp_mono [OF stages [unfolded calls_def]] wp_execution_failed_any wp_execution_completed_any)
qed

end

section \<open>Results of a completed pipeline\<close>

text \<open>\<open>r\<close> is an answer the body of \<open>st\<close> gave.\<close>

definition answers :: "'e stage \<Rightarrow> stage_result \<Rightarrow> bool" where
  "answers st r \<longleftrightarrow> (\<exists>c env. fst (st_execute st c env) = Inr r)"

definition stage_outcome ::
  "'x stage \<Rightarrow> stage_result list \<Rightarrow> stage_end \<Rightarrow> ('o, 'y) run_state \<Rightarrow> bool" where
  "stage_outcome st rs0 l t \<longleftrightarrow>
     (case l of
        Return_status status \<Rightarrow> status = FAILED
      | Next tolerated \<Rightarrow> \<exists>r. rs_results t = rs0 @ [r] \<and> answers st r \<and>
          (\<not> tolerated \<longrightarrow> succeeded r))"

definition stages_outcome ::
  "'x stage list \<Rightarrow> bool \<Rightarrow> stage_result list \<Rightarrow> stage_end \<Rightarrow> ('o, 'y) run_state \<Rightarrow> bool" where
  "stages_outcome sts tol rs0 l t \<longleftrightarrow>
     (case l of
        Return_status status \<Rightarrow> status = FAILED
      | Next tolerated \<Rightarrow> \<exists>rs. rs_results t = rs0 @ rs \<and> list_all2 answers sts rs \<and>
          (\<not> tolerated \<longrightarrow> \<not> tol \<and> list_all succeeded rs))"

context bounded_retry
begin

lemma wp_attempt_results:
  assumes decide: "manager_evaluate (ex_policies x) = decide"
  shows "wp (seq_attempt x p st n)
    (\<lambda>l t. case l of
        Again m \<Rightarrow> rs_results t = rs_results s
      | Leave l \<Rightarrow> stage_outcome st (rs_results s) l t)
    (\<lambda>_ _. True) s"
proof -
  have policies: "wp (evaluate_policies x p (Some st) PE_STAGE_FAILED) Q E t"
    if "\<And>r. Q r (t \<lparr> rs_ticks := Suc (rs_ticks t) \<rparr>)" for Q E t
  proof -
    obtain r where "decide (build_policy_context (rt_ctx t) p PE_STAGE_FAILED (Some st) (rt_vars t)
        (ex_clock x (rs_ticks t))) = Inr r"
      using decides by blast
    then show ?thesis
      using that [of r] by (simp add: wp_evaluate_policies decide)
  qed
  have answer: "st_execute st (rt_ctx s) (rs_env s) = (Inr r, c, env) \<Longrightarrow> answers st r" for r c env
    unfolding answers_def by (metis fst_conv)
  show ?thesis
    by (auto simp: seq_attempt_def wp_execute_stage Let_def emit_defs answer
        stage_outcome_def split: prod.split sum.split exn.split
        intro!: wp_emit_any policies wp_execution_failed_any)
qed

lemma wp_loop_results:
  assumes decide: "manager_evaluate (ex_policies x) = decide"
  shows "attempt_vars st n (rt_vars s) \<Longrightarrow> k = nat (or_one (Some (st_max_attempts st)) - n) \<Longrightarrow>
    wp (seq_loop x p st n) (stage_outcome st (rs_results s)) (\<lambda>_ _. True) s"
proof (induction k arbitrary: n s rule: less_induct)
  case (less k)
  show ?case
    unfolding wp_seq_loop [of x p st n]
  proof (rule wp_mono [OF wp_conj [OF wp_attempt_results [OF decide] wp_attempt_calls [OF decide less.prems(1)]]])
    fix l and t :: "('b, 'e) run_state"
    assume post: "(case l of Again m \<Rightarrow> rs_results t = rs_results s
        | Leave l \<Rightarrow> stage_outcome st (rs_results s) l t) \<and>
      (\<forall>i. calls i t = calls i s + (if i = st_id st then 1 else 0)) \<and>
       (\<forall>m. l = Again m \<longrightarrow> m = n + 1 \<and> n < or_one (Some (st_max_attempts st)) \<and>
          attempt_vars st m (rt_vars t))"
    show "case l of
        Leave l \<Rightarrow> stage_outcome st (rs_results s) l t
      | Again m \<Rightarrow> wp (seq_loop x p st m) (stage_outcome st (rs_results s)) (\<lambda>_ _. True) t"
    proof (cases l)
      case (Again m)
      with post less.prems(2) have m: "nat (or_one (Some (st_max_attempts st)) - m) < k"
        "attempt_vars st m (rt_vars t)" "rs_results t = rs_results s" by auto
      from less.IH [OF m(1,2) refl] show ?thesis
        by (simp add: Again m(3))
    next
      case (Leave l')
      with post show ?thesis by simp
    qed
  qed simp
qed

lemma wp_stage_results:
  assumes decide: "manager_evaluate (ex_policies x) = decide"
  shows "wp (seq_stage x p st) (stage_outcome st (rs_results s)) (\<lambda>_ _. True) s"
proof -
  have loop: "wp (seq_loop x p st 1) (stage_outcome st (rs_results s)) (\<lambda>_ _. True) t"
    if "attempt_vars st 1 (rt_vars t)" "rs_results t = rs_results s" for t
    using wp_loop_results [OF decide that(1) refl, of p] by (simp add: that(2))
  show ?thesis
    by (auto simp: seq_stage_def emit_defs stage_started_def set_max_attempts_def attempt_vars_def
        intro!: wp_emit_any loop)
qed

lemma wp_stages_results:
  assumes decide: "manager_evaluate (ex_policies x) = decide"
  shows "wp (seq_stages x p sts tol) (stages_outcome sts tol (rs_results s)) (\<lambda>_ _. True) s"
proof (induction sts arbitrary: s tol)
  case Nil
  then show ?case by (simp add: stages_outcome_def)
next
  case (Cons st sts)
  have step: "stages_outcome (st # sts) tol rs0 l' u"
    if "stage_outcome st rs0 (Next b) t" "stages_outcome sts (tol \<or> b) (rs_results t) l' u" for rs0 b t l' u
    using that by (fastforce simp: stage_outcome_def stages_outcome_def split: stage_end.splits)
  show ?case
    unfolding seq_stages.simps wp_bindA
  proof (rule wp_mono [OF wp_stage_results [OF decide]])
    fix l and t :: "('b, 'e) run_state"
    assume l: "stage_outcome st (rs_results s) l t"
    show "wp (case l of Return_status status \<Rightarrow> ret (Return_status status)
        | Next b \<Rightarrow> seq_stages x p sts (tol \<or> b))
      (stages_outcome (st # sts) tol (rs_results s)) (\<lambda>_ _. True) t"
    proof (cases l)
      case (Next b)
      show ?thesis
        unfolding Next stage_end.case
        by (rule wp_mono [OF Cons.IH]) (use l Next step in auto)
    next
      case (Return_status status)
      with l show ?thesis by (simp add: stage_outcome_def stages_outcome_def)
    qed
  qed simp
qed

lemma wp_pipeline_completed:
  assumes decide: "manager_evaluate (ex_policies x) = decide" and empty: "rs_results s = []"
  shows "wp (sequential_pipeline x p)
    (\<lambda>status t. status \<noteq> FAILED \<longrightarrow> status = COMPLETED \<and> snd (pipeline_iter p) = None \<and>
       list_all2 answers (fst (pipeline_iter p)) (rs_results t) \<and> list_all succeeded (rs_results t))
    (\<lambda>_ _. True) s"
proof -
  have stages: "wp (seq_stages x p (fst (pipeline_iter p)) False)
      (stages_outcome (fst (pipeline_iter p)) False []) (\<lambda>_ _. True) t" if "rs_results t = []" for t
    using wp_stages_results [OF decide, of p "fst (pipeline_iter p)" False t] that by simp
  show ?thesis
    unfolding sequential_pipeline_def
    by (auto simp: emit_defs stages_outcome_def empty split: stage_end.splits option.splits
        intro!: wp_emit_any wp_mono [OF stages] wp_execution_failed_any wp_execution_completed_any)
qed

lemma wp_execute_completed:
  assumes decide: "manager_evaluate (ex_policies x) = decide"
  shows "wp (execute_sequential x p)
    (\<lambda>r t. pr_status r = COMPLETED \<longrightarrow> snd (pipeline_iter p) = None \<and>
       list_all2 answers (fst (pipeline_iter p)) (pl_stage_results r) \<and>
       list_all succeeded (pl_stage_results r))
    (\<lambda>_ _. True) s"
  unfolding execute_sequential_def wp_execute_with
  by (rule wp_mono [OF wp_pipeline_completed [OF decide]])
     (auto simp: wp_close_pipeline Let_def)

lemma wp_execute_calls:
  assumes decide: "manager_evaluate (ex_policies x) = decide"
  shows "wp (execute_sequential x p)
    (\<lambda>_ t. \<forall>i. calls i t \<le> calls i s + allowed_calls (fst (pipeline_iter p)) i)
    (\<lambda>_ t. \<forall>i. calls i t \<le> calls i s + allowed_calls (fst (pipeline_iter p)) i) s"
proof -
  have calls_results: "calls i (s \<lparr> rs_results := r \<rparr>) = calls i s"
      "calls i (set_pipeline_result q t) = calls i t" for i r q and t :: "('b, 'e) run_state"
    by (simp_all add: calls_def set_pipeline_result_def)
  show ?thesis
    unfolding execute_sequential_def wp_execute_with
    by (rule wp_mono [OF wp_pipeline_calls [OF decide]])
       (auto simp: wp_close_pipeline Let_def calls_results)
qed

end

lemma allowed_calls_valid:
  assumes "distinct (map st_id sts)" and "st \<in> set sts"
  shows "allowed_calls sts (st_id st) = allowed st"
  using assms
proof (induction sts)
  case (Cons a sts)
  have none: "allowed_calls sts i = 0" if "i \<notin> st_id ` set sts" for i :: string
    using that by (induction sts) (auto simp: allowed_calls_def)
  show ?case
  proof (cases "a = st")
    case True
    with Cons.prems(1) none [of "st_id st"] show ?thesis by (simp add: allowed_calls_def)
  next
    case False
    then have "st_id st \<noteq> st_id a" and "st \<in> set sts"
      using Cons.prems by (force simp: image_iff)+
    with Cons show ?thesis by (simp add: allowed_calls_def)
  qed
qed simp

end
