(* ===== verification/Py_Strings.thy ===== *)
theory Py_Strings
  imports Prelude
begin

text \<open>
  The string operations of Python and \<open>pathlib\<close> the code uses, on 8-bit characters: \<open>strip\<close>,
  \<open>lower\<close>, \<open>split\<close> on a character, \<open>join\<close>, and the parsing of a relative \<open>PurePosixPath\<close>.
\<close>

section \<open>Trimming and case\<close>

definition is_space :: "char \<Rightarrow> bool" where
  "is_space c \<longleftrightarrow> (let n = of_char c :: nat in
     9 \<le> n \<and> n \<le> 13 \<or> 28 \<le> n \<and> n \<le> 32 \<or> n = 133 \<or> n = 160)"

definition trim :: "(char \<Rightarrow> bool) \<Rightarrow> string \<Rightarrow> string" where
  "trim p s = rev (dropWhile p (rev (dropWhile p s)))"

definition strip :: "string \<Rightarrow> string" where
  "strip = trim is_space"

definition lower_char :: "char \<Rightarrow> char" where
  "lower_char c = (let n = of_char c :: nat in
     if 65 \<le> n \<and> n \<le> 90 \<or> 192 \<le> n \<and> n \<le> 222 \<and> n \<noteq> 215 then char_of (n + 32) else c)"

definition lower :: "string \<Rightarrow> string" where
  "lower = map lower_char"

definition upper_ascii :: "string \<Rightarrow> string" where
  "upper_ascii = map (\<lambda>c. let n = of_char c :: nat in if 97 \<le> n \<and> n \<le> 122 then char_of (n - 32) else c)"

definition upper_free :: "string \<Rightarrow> bool" where
  "upper_free s \<longleftrightarrow> lower s = s"

lemma trim_id: "trim p s = s \<longleftrightarrow> s = [] \<or> \<not> p (hd s) \<and> \<not> p (last s)"
proof
  assume id: "trim p s = s"
  show "s = [] \<or> \<not> p (hd s) \<and> \<not> p (last s)"
  proof (cases s)
    case (Cons c cs)
    have "length (dropWhile p (rev (dropWhile p s))) = length s"
      using id by (simp add: trim_def) (metis length_rev)
    then have len: "length (dropWhile p s) = length s"
      using length_dropWhile_le [of p "rev (dropWhile p s)"] length_dropWhile_le [of p s] by simp
    then have "dropWhile p s = s"
      by (metis length_dropWhile_le append_self_conv2 length_0_conv length_append takeWhile_dropWhile_id add_cancel_left_left)
    moreover from this have "dropWhile p (rev s) = rev s"
      using id by (simp add: trim_def) (metis rev_rev_ident)
    ultimately show ?thesis
      using Cons by (metis dropWhile_eq_self_iff hd_rev list.distinct(1) rev_is_Nil_conv)
  qed simp
next
  assume "s = [] \<or> \<not> p (hd s) \<and> \<not> p (last s)"
  then have "dropWhile p s = s" "dropWhile p (rev s) = rev s"
    by (auto simp: dropWhile_eq_self_iff hd_rev)
  then show "trim p s = s" by (simp add: trim_def)
qed

lemma trim_empty_or_ends: "trim p s = [] \<or> \<not> p (hd (trim p s)) \<and> \<not> p (last (trim p s))"
proof (cases "trim p s = []")
  case False
  then have ne: "dropWhile p (rev (dropWhile p s)) \<noteq> []" by (simp add: trim_def)
  have last: "\<not> p (last (trim p s))"
    using hd_dropWhile [OF ne] by (simp add: trim_def last_rev)
  have ds: "dropWhile p s \<noteq> []" using ne by (metis dropWhile.simps(1) rev.simps(1))
  obtain zs where zs: "rev (dropWhile p s) = zs @ dropWhile p (rev (dropWhile p s))"
    by (metis takeWhile_dropWhile_id)
  have "dropWhile p s = trim p s @ rev zs"
    using zs by (metis rev_append rev_rev_ident trim_def)
  then have "hd (trim p s) = hd (dropWhile p s)"
    using False by (metis hd_append)
  then show ?thesis using last hd_dropWhile [OF ds] by simp
qed simp

lemma trim_idem [simp]: "trim p (trim p s) = trim p s"
  using trim_empty_or_ends by (simp add: trim_id)

lemma strip_idem [simp]: "strip (strip s) = strip s"
  by (simp add: strip_def)

lemma lower_char_idem [simp]: "lower_char (lower_char c) = lower_char c"
  by (auto simp: lower_char_def Let_def)

lemma lower_idem [simp]: "lower (lower s) = lower s"
  by (simp add: lower_def)

lemma lower_Nil_iff [simp]: "lower s = [] \<longleftrightarrow> s = []"
  by (simp add: lower_def)

section \<open>Splitting and joining\<close>

fun split_on :: "char \<Rightarrow> string \<Rightarrow> string list" where
  "split_on d [] = [[]]"
| "split_on d (c # cs) =
     (if c = d then [] # split_on d cs
      else (case split_on d cs of [] \<Rightarrow> [[c]] | p # ps \<Rightarrow> (c # p) # ps))"

fun join :: "string \<Rightarrow> string list \<Rightarrow> string" where
  "join d [] = []"
| "join d [s] = s"
| "join d (s # t # ts) = s @ d @ join d (t # ts)"

lemma split_on_neq [simp]: "split_on d s \<noteq> []"
  by (induction s) (auto split: list.split)

lemma split_on_parts: "p \<in> set (split_on d s) \<Longrightarrow> d \<notin> set p"
proof (induction s arbitrary: p)
  case (Cons c cs)
  then show ?case
    by (cases "split_on d cs") (auto split: if_splits)
qed simp

lemma split_on_plain: "d \<notin> set s \<Longrightarrow> split_on d s = [s]"
  by (induction s) auto

lemma split_on_append: "d \<notin> set s \<Longrightarrow> split_on d (s @ d # t) = s # split_on d t"
  by (induction s) auto

lemma split_join:
  "ps \<noteq> [] \<Longrightarrow> \<forall>p \<in> set ps. d \<notin> set p \<Longrightarrow> split_on d (join [d] ps) = ps"
proof (induction "[d]" ps rule: join.induct)
  case (3 s t ts)
  then show ?case using split_on_append [of d s] by simp
qed (auto simp: split_on_plain)

lemma join_Nil_iff: "join d ps = [] \<longleftrightarrow> ps = [] \<or> ps = [[]] \<or> d = [] \<and> (\<forall>p \<in> set ps. p = [])"
  by (induction d ps rule: join.induct) auto

lemma join_Cons: "ps \<noteq> [] \<Longrightarrow> join d (p # ps) = p @ d @ join d ps"
  by (cases ps) simp_all

lemma join_snoc: "ps \<noteq> [] \<Longrightarrow> join d (ps @ [p]) = join d ps @ d @ p"
proof (induction ps)
  case (Cons a ps)
  then show ?case by (cases "ps = []") (simp_all add: join_Cons)
qed simp

section \<open>Relative paths\<close>

definition path_parts :: "string \<Rightarrow> string list" where
  "path_parts s = filter (\<lambda>p. p \<noteq> [] \<and> p \<noteq> ''.'') (split_on CHR ''/'' s)"

definition as_posix :: "string list \<Rightarrow> string" where
  "as_posix ps = (if ps = [] then ''.'' else join ''/'' ps)"

definition path_name :: "string \<Rightarrow> string" where
  "path_name s = (let ps = path_parts s in if ps = [] then [] else last ps)"

definition path_parent :: "string \<Rightarrow> string" where
  "path_parent s = as_posix (butlast (path_parts s))"

text \<open>The index of the last dot, when it is neither the first nor the last character.\<close>

definition dot_split :: "string \<Rightarrow> (string \<times> string) option" where
  "dot_split n =
     (let ext = takeWhile (\<lambda>c. c \<noteq> CHR ''.'') (rev n); i = length n - length ext - 1
      in if length ext < length n \<and> ext \<noteq> [] \<and> 0 < i then Some (take i n, drop i n) else None)"

definition path_stem :: "string \<Rightarrow> string" where
  "path_stem s = (case dot_split (path_name s) of None \<Rightarrow> path_name s | Some (a, b) \<Rightarrow> a)"

definition path_suffix :: "string \<Rightarrow> string" where
  "path_suffix s = (case dot_split (path_name s) of None \<Rightarrow> [] | Some (a, b) \<Rightarrow> b)"

lemma stem_suffix: "path_stem s @ path_suffix s = path_name s"
  by (auto simp: path_stem_def path_suffix_def dot_split_def Let_def split: option.split)

lemma path_parts_ok: "p \<in> set (path_parts s) \<Longrightarrow> p \<noteq> [] \<and> p \<noteq> ''.'' \<and> CHR ''/'' \<notin> set p"
  by (auto simp: path_parts_def dest: split_on_parts)

lemma path_parts_join:
  assumes "\<forall>p \<in> set ps. p \<noteq> [] \<and> p \<noteq> ''.'' \<and> CHR ''/'' \<notin> set p"
  shows "path_parts (as_posix ps) = ps" and "ps \<noteq> [] \<Longrightarrow> path_parts (join ''/'' ps @ ''/'') = ps"
proof -
  show "path_parts (as_posix ps) = ps"
    using assms by (cases ps) (auto simp: path_parts_def as_posix_def split_join filter_id_conv)
  assume ne: "ps \<noteq> []"
  have "join ''/'' ps @ ''/'' = join ''/'' (ps @ [[]])"
    using ne by (simp add: join_snoc)
  moreover have "split_on CHR ''/'' (join ''/'' (ps @ [[]])) = ps @ [[]]"
    using assms by (intro split_join) auto
  ultimately show "path_parts (join ''/'' ps @ ''/'') = ps"
    using assms by (simp add: path_parts_def filter_id_conv)
qed

section \<open>Numbers\<close>

fun show_nat :: "nat \<Rightarrow> string" where
  "show_nat n = (if n < 10 then [char_of (48 + n)] else show_nat (n div 10) @ [char_of (48 + n mod 10)])"

declare show_nat.simps [simp del]

definition show_int :: "int \<Rightarrow> string" where
  "show_int i = (if i < 0 then CHR ''-'' # show_nat (nat (- i)) else show_nat (nat i))"

lemma show_nat_digits: "c \<in> set (show_nat n) \<Longrightarrow> 48 \<le> (of_char c :: nat) \<and> (of_char c :: nat) \<le> 57"
proof (induction n rule: show_nat.induct)
  case (1 n)
  have small: "(of_char (char_of (48 + k) :: char) :: nat) = 48 + k" if "k < 10" for k :: nat
    using that by simp
  show ?case
  proof (cases "n < 10")
    case True
    then show ?thesis using 1(2) small [OF True] by (simp add: show_nat.simps [of n])
  next
    case False
    then have "c \<in> set (show_nat (n div 10)) \<or> c = char_of (48 + n mod 10)"
      using 1(2) by (auto simp: show_nat.simps [of n])
    then show ?thesis
      using 1(1) [OF False] small [of "n mod 10"] by auto
  qed
qed

end
