(* ===== verification/Observers.thy ===== *)
theory Observers
  imports Executor_Bounds Py_Strings "HOL-Library.Char_ord" "HOL-Library.List_Lexorder"
    "HOL-Library.Product_Lexorder"
begin

text \<open>
  The hooks that ship with the platform (\<open>processing/logging\<close>, \<open>processing/tracing\<close>,
  \<open>processing/metrics\<close>) and what they record of an execution. The logger, the tracer and the
  Prometheus registry are the lists of what they were handed, in order; the first two hooks read
  a clock of their own, the third the time stamps of the events.
\<close>

section \<open>Logging\<close>

datatype log_level = LDEBUG | LINFO | LWARNING | LERROR | LCRITICAL

record log_entry =
  le_level :: log_level
  le_message :: string
  le_timestamp :: int
  le_execution_id :: "string option"
  le_pipeline_id :: "string option"
  le_pipeline_name :: "string option"
  le_stage_id :: "string option"
  le_stage_name :: "string option"
  le_duration :: "int option"
  le_exception :: "exn option"
  le_extra :: "(string \<times> string) list"

text \<open>\<open>LogEntry.__init__\<close>: no time stamp means now, the extra fields are kept sorted.\<close>

definition new_log_entry ::
  "int \<Rightarrow> log_level \<Rightarrow> string \<Rightarrow> int option \<Rightarrow> string option \<Rightarrow> string option \<Rightarrow> string option \<Rightarrow>
     string option \<Rightarrow> string option \<Rightarrow> int option \<Rightarrow> exn option \<Rightarrow> (string, string) dict option \<Rightarrow> log_entry" where
  "new_log_entry now level message ts eid pid pname sid sname duration exc extra =
     \<lparr> le_level = level, le_message = message,
       le_timestamp = (case ts of Some t \<Rightarrow> t | None \<Rightarrow> now),
       le_execution_id = eid, le_pipeline_id = pid, le_pipeline_name = pname,
       le_stage_id = sid, le_stage_name = sname, le_duration = duration, le_exception = exc,
       le_extra = sort (case extra of None \<Rightarrow> [] | Some d \<Rightarrow> d) \<rparr>"

definition log_metadata :: "log_entry \<Rightarrow> (string, string) dict" where
  "log_metadata e = fold (\<lambda>(k, v). AList.update k v) (le_extra e) []"

record logging =
  lg_entries :: "log_entry list"
  lg_ticks :: nat

definition log_event ::
  "(nat \<Rightarrow> int) \<Rightarrow> log_level \<Rightarrow> string \<Rightarrow> 'e hook_context \<Rightarrow> 'e stage option \<Rightarrow> exn option \<Rightarrow> logging \<Rightarrow> logging" where
  "log_event clock level message c st exc lg =
     \<lparr> lg_entries = lg_entries lg @
         [new_log_entry (clock (lg_ticks lg)) level message None
            (Some (em_execution_id (cx_metadata (hc_context c))))
            (Some (pp_id (hc_pipeline c))) (Some (pp_name (hc_pipeline c)))
            (map_option st_id st) (map_option st_name st) None exc None],
       lg_ticks = Suc (lg_ticks lg) \<rparr>"

definition log_stage ::
  "(nat \<Rightarrow> int) \<Rightarrow> log_level \<Rightarrow> string \<Rightarrow> 'e hook_context \<Rightarrow> exn option \<Rightarrow> logging \<Rightarrow> logging" where
  "log_stage clock level message c exc lg =
     (case hc_stage c of None \<Rightarrow> lg | Some st \<Rightarrow> log_event clock level message c (Some st) exc lg)"

definition logging_hook :: "(nat \<Rightarrow> int) \<Rightarrow> 'e hook_context \<Rightarrow> logging \<Rightarrow> logging" where
  "logging_hook clock c lg =
     (case hc_type c of
        BEFORE_PIPELINE \<Rightarrow> log_event clock LINFO ''Pipeline started.'' c None None lg
      | AFTER_PIPELINE \<Rightarrow> log_event clock LINFO ''Pipeline finished.'' c None None lg
      | PIPELINE_FAILED \<Rightarrow> log_event clock LERROR ''Pipeline failed.'' c None (hc_exception c) lg
      | BEFORE_STAGE \<Rightarrow> log_stage clock LDEBUG ''Stage started.'' c None lg
      | AFTER_STAGE \<Rightarrow> log_stage clock LDEBUG ''Stage finished.'' c None lg
      | STAGE_FAILED \<Rightarrow> log_stage clock LERROR ''Stage failed.'' c (hc_exception c) lg)"

section \<open>Tracing\<close>

record trace_span =
  sp_stage_id :: string
  sp_stage_name :: string
  sp_status :: execution_status
  sp_started_at :: int
  sp_finished_at :: "int option"
  sp_duration :: "int option"
  sp_exception :: "string option"
  sp_attributes :: "(string \<times> string) list"

definition new_span ::
  "int \<Rightarrow> string \<Rightarrow> string \<Rightarrow> execution_status \<Rightarrow> int option \<Rightarrow> int option \<Rightarrow> int option \<Rightarrow> string option \<Rightarrow>
     (string, string) dict option \<Rightarrow> trace_span" where
  "new_span now sid sname status started finished duration exc attributes =
     \<lparr> sp_stage_id = sid, sp_stage_name = sname, sp_status = status,
       sp_started_at = (case started of Some t \<Rightarrow> t | None \<Rightarrow> now),
       sp_finished_at = finished, sp_duration = duration, sp_exception = exc,
       sp_attributes = sort (case attributes of None \<Rightarrow> [] | Some d \<Rightarrow> d) \<rparr>"

record trace =
  tc_execution_id :: string
  tc_pipeline_id :: string
  tc_pipeline_name :: string
  tc_status :: execution_status
  tc_started_at :: int
  tc_finished_at :: "int option"
  tc_duration :: "int option"
  tc_exception :: "string option"
  tc_spans :: "trace_span list"

record tracing =
  tg_trace :: "trace option"
  tg_active :: "(string, trace_span) dict"
  tg_completed :: "trace_span list"
  tg_recorded :: "trace list"
  tg_ticks :: nat

definition new_tracing :: tracing where
  "new_tracing = \<lparr> tg_trace = None, tg_active = [], tg_completed = [], tg_recorded = [], tg_ticks = 0 \<rparr>"

definition trace_before_pipeline :: "(nat \<Rightarrow> int) \<Rightarrow> 'e hook_context \<Rightarrow> tracing \<Rightarrow> tracing" where
  "trace_before_pipeline clock c tg = tg
     \<lparr> tg_completed := [], tg_active := [],
       tg_trace := Some \<lparr> tc_execution_id = em_execution_id (cx_metadata (hc_context c)),
                          tc_pipeline_id = pp_id (hc_pipeline c),
                          tc_pipeline_name = pp_name (hc_pipeline c), tc_status = RUNNING,
                          tc_started_at = clock (tg_ticks tg), tc_finished_at = None,
                          tc_duration = None, tc_exception = None, tc_spans = [] \<rparr>,
       tg_ticks := Suc (tg_ticks tg) \<rparr>"

definition trace_before_stage :: "(nat \<Rightarrow> int) \<Rightarrow> 'e hook_context \<Rightarrow> tracing \<Rightarrow> tracing" where
  "trace_before_stage clock c tg =
     (case hc_stage c of
        None \<Rightarrow> tg
      | Some st \<Rightarrow> tg
          \<lparr> tg_active := AList.update (st_id st)
              (new_span (clock (tg_ticks tg)) (st_id st) (st_name st) RUNNING None None None None None)
              (tg_active tg),
            tg_ticks := Suc (tg_ticks tg) \<rparr>)"

text \<open>
  The end of a span: \<open>_after_stage\<close> and \<open>_stage_failed\<close> differ in the status an event without
  a result stands for, and in whether the exception is kept.
\<close>

definition close_span ::
  "(nat \<Rightarrow> int) \<Rightarrow> execution_status \<Rightarrow> string option \<Rightarrow> 'e hook_context \<Rightarrow> tracing \<Rightarrow> tracing" where
  "close_span clock status exc c tg =
     (case hc_stage c of
        None \<Rightarrow> tg
      | Some st \<Rightarrow>
          (case dict_pop (st_id st) (tg_active tg) of
             (None, active) \<Rightarrow> tg \<lparr> tg_active := active \<rparr>
           | (Some span, active) \<Rightarrow>
               let finished = clock (tg_ticks tg) in tg
               \<lparr> tg_active := active,
                 tg_completed := tg_completed tg @
                   [new_span finished (sp_stage_id span) (sp_stage_name span)
                      (case hc_result c of Some r \<Rightarrow> pr_status r | None \<Rightarrow> status)
                      (Some (sp_started_at span)) (Some finished)
                      (Some (finished - sp_started_at span)) exc None],
                 tg_ticks := Suc (tg_ticks tg) \<rparr>))"

definition trace_after_stage :: "(nat \<Rightarrow> int) \<Rightarrow> 'e hook_context \<Rightarrow> tracing \<Rightarrow> tracing" where
  "trace_after_stage clock c tg = close_span clock COMPLETED None c tg"

definition trace_stage_failed :: "(nat \<Rightarrow> int) \<Rightarrow> 'e hook_context \<Rightarrow> tracing \<Rightarrow> tracing" where
  "trace_stage_failed clock c tg = close_span clock FAILED (map_option exn_text (hc_exception c)) c tg"

definition trace_after_pipeline :: "(nat \<Rightarrow> int) \<Rightarrow> 'e hook_context \<Rightarrow> tracing \<Rightarrow> tracing" where
  "trace_after_pipeline clock c tg =
     (case tg_trace tg of
        None \<Rightarrow> tg
      | Some tr \<Rightarrow>
          let finished = clock (tg_ticks tg) in tg
          \<lparr> tg_recorded := tg_recorded tg @ [tr
              \<lparr> tc_status := (case hc_result c of Some r \<Rightarrow> pr_status r | None \<Rightarrow> COMPLETED),
                tc_finished_at := Some finished,
                tc_duration := Some (finished - tc_started_at tr),
                tc_exception := map_option exn_text (hc_exception c),
                tc_spans := tg_completed tg \<rparr>],
            tg_trace := None, tg_active := [], tg_completed := [],
            tg_ticks := Suc (tg_ticks tg) \<rparr>)"

definition trace_pipeline_failed :: "(nat \<Rightarrow> int) \<Rightarrow> 'e hook_context \<Rightarrow> tracing \<Rightarrow> tracing" where
  "trace_pipeline_failed clock c tg = trace_after_pipeline clock c tg"

definition tracing_hook :: "(nat \<Rightarrow> int) \<Rightarrow> 'e hook_context \<Rightarrow> tracing \<Rightarrow> tracing" where
  "tracing_hook clock c tg =
     (case hc_type c of
        BEFORE_PIPELINE \<Rightarrow> trace_before_pipeline clock c tg
      | BEFORE_STAGE \<Rightarrow> trace_before_stage clock c tg
      | AFTER_STAGE \<Rightarrow> trace_after_stage clock c tg
      | STAGE_FAILED \<Rightarrow> trace_stage_failed clock c tg
      | PIPELINE_FAILED \<Rightarrow> trace_pipeline_failed clock c tg
      | AFTER_PIPELINE \<Rightarrow> trace_after_pipeline clock c tg)"

section \<open>Metrics\<close>

text \<open>
  What the hook asks of \<open>prometheus_client\<close>: an observation of a histogram, an increment of a
  counter, a gauge set to the current time, each with its labels.
\<close>

datatype sample =
    Pipeline_duration string string int
  | Stage_duration string string string int
  | Stage_executed string string string
  | Pipeline_last_run string string

record metrics =
  mx_pipeline_started :: "(string, int) dict"
  mx_stage_started :: "(string, int) dict"
  mx_last_status :: "(string, execution_status) dict"
  mx_samples :: "sample list"

definition new_metrics :: metrics where
  "new_metrics = \<lparr> mx_pipeline_started = [], mx_stage_started = [], mx_last_status = [], mx_samples = [] \<rparr>"

definition status_label :: "execution_status \<Rightarrow> string" where
  "status_label s = lower (status_value s)"

definition event_status :: "'e hook_context \<Rightarrow> execution_status" where
  "event_status c = (case hc_result c of Some r \<Rightarrow> pr_status r | None \<Rightarrow> COMPLETED)"

definition on_before_pipeline :: "'e hook_context \<Rightarrow> metrics \<Rightarrow> metrics" where
  "on_before_pipeline c mx = mx
     \<lparr> mx_pipeline_started := AList.update (pp_id (hc_pipeline c)) (hc_timestamp c) (mx_pipeline_started mx),
       mx_stage_started := [] \<rparr>"

definition on_after_pipeline :: "'e hook_context \<Rightarrow> metrics \<Rightarrow> metrics" where
  "on_after_pipeline c mx =
     (case dict_pop (pp_id (hc_pipeline c)) (mx_pipeline_started mx) of
        (None, started) \<Rightarrow> mx \<lparr> mx_pipeline_started := started \<rparr>
      | (Some at, started) \<Rightarrow> mx
          \<lparr> mx_pipeline_started := started,
            mx_samples := mx_samples mx @
              [Pipeline_duration (pp_name (hc_pipeline c)) (status_label (event_status c)) (hc_timestamp c - at)],
            mx_last_status := AList.update (pp_name (hc_pipeline c)) (event_status c) (mx_last_status mx) \<rparr>)"

definition on_before_stage :: "'e hook_context \<Rightarrow> metrics \<Rightarrow> metrics" where
  "on_before_stage c mx =
     (case hc_stage c of
        None \<Rightarrow> mx
      | Some st \<Rightarrow> mx \<lparr> mx_stage_started := AList.update (st_id st) (hc_timestamp c) (mx_stage_started mx) \<rparr>)"

definition on_after_stage :: "'e hook_context \<Rightarrow> metrics \<Rightarrow> metrics" where
  "on_after_stage c mx =
     (case hc_stage c of
        None \<Rightarrow> mx
      | Some st \<Rightarrow>
          (case dict_pop (st_id st) (mx_stage_started mx) of
             (None, started) \<Rightarrow> mx \<lparr> mx_stage_started := started \<rparr>
           | (Some at, started) \<Rightarrow> mx
               \<lparr> mx_stage_started := started,
                 mx_samples := mx_samples mx @
                   [Stage_duration (pp_name (hc_pipeline c)) (st_name st) (status_label (event_status c))
                      (hc_timestamp c - at),
                    Stage_executed (pp_name (hc_pipeline c)) (st_name st) (status_label (event_status c))] \<rparr>))"

definition metrics_hook :: "'e hook_context \<Rightarrow> metrics \<Rightarrow> metrics" where
  "metrics_hook c mx =
     (case hc_type c of
        BEFORE_PIPELINE \<Rightarrow> on_before_pipeline c mx
      | AFTER_PIPELINE \<Rightarrow> on_after_pipeline c mx
      | PIPELINE_FAILED \<Rightarrow> on_after_pipeline c mx
      | BEFORE_STAGE \<Rightarrow> on_before_stage c mx
      | AFTER_STAGE \<Rightarrow> on_after_stage c mx
      | STAGE_FAILED \<Rightarrow> on_after_stage c mx)"

text \<open>
  \<open>push\<close>: the gauge of every pipeline seen, then the gateway, which is a parameter (the library's
  \<open>push_to_gateway\<close>) and may raise.
\<close>

definition metrics_push ::
  "(string \<Rightarrow> string \<Rightarrow> sample list \<Rightarrow> exn option) \<Rightarrow> string \<Rightarrow> string option \<Rightarrow> string \<Rightarrow> metrics \<Rightarrow> unit outcome \<times> metrics" where
  "metrics_push gateway job url default_url mx =
     (let mx' = mx \<lparr> mx_samples := mx_samples mx @
            map (\<lambda>(name, status). Pipeline_last_run name (status_label status)) (mx_last_status mx) \<rparr>
      in case gateway (case url of Some u \<Rightarrow> u | None \<Rightarrow> default_url) job (mx_samples mx') of
           None \<Rightarrow> (Inr (), mx')
         | Some e \<Rightarrow> (Inl e, mx'))"

section \<open>The three hooks together\<close>

datatype observer = Logging | Tracing | Metrics

record observations =
  ob_logging :: logging
  ob_tracing :: tracing
  ob_metrics :: metrics

definition observe :: "(nat \<Rightarrow> int) \<Rightarrow> (observer, observations, 'e) hook_run" where
  "observe clock h c ob =
     (None, case h of
        Logging \<Rightarrow> ob \<lparr> ob_logging := logging_hook clock c (ob_logging ob) \<rparr>
      | Tracing \<Rightarrow> ob \<lparr> ob_tracing := tracing_hook clock c (ob_tracing ob) \<rparr>
      | Metrics \<Rightarrow> ob \<lparr> ob_metrics := metrics_hook c (ob_metrics ob) \<rparr>)"

definition nothing_observed :: observations where
  "nothing_observed =
     \<lparr> ob_logging = \<lparr> lg_entries = [], lg_ticks = 0 \<rparr>, ob_tracing = new_tracing, ob_metrics = new_metrics \<rparr>"

definition observed_executor ::
  "(nat \<Rightarrow> int) \<Rightarrow> (nat \<Rightarrow> int) \<Rightarrow> 'e policy list option \<Rightarrow> (observer, observations, 'e) executor" where
  "observed_executor clk clock policies =
     ex_register_hooks Metrics (ex_register_hooks Tracing (ex_register_hooks Logging
       (new_executor (observe clk) clock policies)))"

end
