(* ===== verification/Executor_Parallel.thy ===== *)
theory Executor_Parallel
  imports Executor_Bounds
begin

text \<open>
  \<open>executor/parallel_executor.py\<close>. Each stage of a group runs in a task of its own with a copy of
  the context variables; the tasks share the processing context, the hooks' state and the world.
  A task is a program counter over the three places where \<open>_run_stage\<close> hands control back: before
  it starts, before it calls the stage body, and before it handles what the body answered. The
  event loop is a schedule, any list of task numbers; a schedule that leaves a task unfinished
  leaves \<open>gather\<close> waiting, which is \<open>None\<close>.
\<close>

section \<open>Tasks\<close>

datatype task_pc =
    Starting
  | Running int
  | Handling int "stage_result outcome"
  | Finished "(stage_result \<times> bool) outcome"

record 'e task =
  tk_stage :: "'e stage option"
  tk_vars :: stage_vars
  tk_pc :: task_pc

definition new_task :: "stage_vars \<Rightarrow> 'e stage option \<Rightarrow> 'e task" where
  "new_task v st = \<lparr> tk_stage = st, tk_vars = v, tk_pc = Starting \<rparr>"

text \<open>How a step of \<open>_run_stage\<close> ends when it does not raise: at another place, or with a return.\<close>

definition run_stage_start ::
  "('h, 'o, 'e) executor \<Rightarrow> 'e pipeline \<Rightarrow> 'e stage \<Rightarrow> ('o, 'e, task_pc) exec" where
  "run_stage_start x p st =
     thenA (modify (on_vars (stage_started (st_id st))))
    (thenA (modify (on_vars (set_max_attempts (st_max_attempts st))))
    (thenA (emit_before_stage x p st)
           (ret (Running 1))))"

definition run_stage_body :: "'e stage \<Rightarrow> int \<Rightarrow> ('o, 'e, task_pc) exec" where
  "run_stage_body st attempt = bindA (caught (execute_stage st)) (\<lambda>r. ret (Handling attempt r))"

definition run_stage_handle ::
  "('h, 'o, 'e) executor \<Rightarrow> 'e pipeline \<Rightarrow> 'e stage \<Rightarrow> int \<Rightarrow> stage_result outcome \<Rightarrow>
     ('o, 'e, task_pc) exec" where
  "run_stage_handle x p st attempt outcome = (case outcome of
       Inl exc \<Rightarrow>
         thenA (modify (on_vars (set_stage_failed exc)))
        (thenA (emit_stage_failed x p st None (Some exc))
        (bindA (evaluate_policies x p (Some st) PE_STAGE_FAILED) (\<lambda>policy.
           if po_retry policy then
             thenA (modify (on_vars (retry_started (attempt + 1))))
                   (ret (Running (attempt + 1)))
           else
             thenA (modify (on_vars stage_finished)) (raise exc))))
     | Inr result \<Rightarrow>
         thenA (modify (on_vars (set_stage_result result)))
          (if succeeded result then
             thenA (modify (on_vars stage_finished))
            (thenA (emit_after_stage x p st result)
                   (ret (Finished (Inr (result, False)))))
           else
             thenA (emit_stage_failed x p st (Some result) None)
            (bindA (evaluate_policies x p (Some st) PE_STAGE_FAILED) (\<lambda>policy.
               thenA (modify (on_vars stage_finished))
                     (ret (Finished (Inr (result, po_cancel policy))))))))"

definition null_stage_error :: exn where
  "null_stage_error = Exn ''AttributeError'' (quoted ''NoneType'' @ '' object has no attribute '' @ quoted ''id'')"

definition task_step ::
  "('h, 'o, 'e) executor \<Rightarrow> 'e pipeline \<Rightarrow> 'e stage option \<Rightarrow> task_pc \<Rightarrow> ('o, 'e, task_pc) exec" where
  "task_step x p st pc =
     (case (st, pc) of
        (_, Finished r) \<Rightarrow> ret (Finished r)
      | (None, _) \<Rightarrow> raise null_stage_error
      | (Some st, Starting) \<Rightarrow> run_stage_start x p st
      | (Some st, Running n) \<Rightarrow> run_stage_body st n
      | (Some st, Handling n r) \<Rightarrow> run_stage_handle x p st n r)"

text \<open>
  A step of a task runs on the task's own variables; an exception that leaves \<open>_run_stage\<close> is the
  task's outcome, as \<open>gather\<close> with \<open>return_exceptions=True\<close> records it.
\<close>

definition step_task ::
  "('h, 'o, 'e) executor \<Rightarrow> 'e pipeline \<Rightarrow> 'e task \<Rightarrow> ('o, 'e) run_state \<Rightarrow>
     ('e task \<times> ('o, 'e) run_state) option" where
  "step_task x p tk s =
     (case task_step x p (tk_stage tk) (tk_pc tk) (s \<lparr> rt_vars := tk_vars tk \<rparr>) of
        None \<Rightarrow> None
      | Some (r, t) \<Rightarrow>
          Some (tk \<lparr> tk_vars := rt_vars t,
                     tk_pc := (case r of Inl e \<Rightarrow> Finished (Inl e) | Inr pc \<Rightarrow> pc) \<rparr>,
                t \<lparr> rt_vars := rt_vars s \<rparr>))"

fun run_tasks ::
  "('h, 'o, 'e) executor \<Rightarrow> 'e pipeline \<Rightarrow> nat list \<Rightarrow> 'e task list \<times> ('o, 'e) run_state \<Rightarrow>
     ('e task list \<times> ('o, 'e) run_state) option" where
  "run_tasks x p [] c = Some c"
| "run_tasks x p (i # is) (tks, s) =
     (if i < length tks then
        (case step_task x p (tks ! i) s of
           None \<Rightarrow> None
         | Some (tk, t) \<Rightarrow> run_tasks x p is (tks[i := tk], t))
      else run_tasks x p is (tks, s))"

fun task_outcome :: "task_pc \<Rightarrow> (stage_result \<times> bool) outcome option" where
  "task_outcome (Finished r) = Some r"
| "task_outcome _ = None"

definition gather ::
  "('h, 'o, 'e) executor \<Rightarrow> 'e pipeline \<Rightarrow> nat list \<Rightarrow> 'e stage option list \<Rightarrow>
     ('o, 'e, (stage_result \<times> bool) outcome list) exec" where
  "gather x p sched grp s =
     (case run_tasks x p sched (map (new_task (rt_vars s)) grp, s) of
        None \<Rightarrow> None
      | Some (tks, t) \<Rightarrow>
          (case those (map (task_outcome \<circ> tk_pc) tks) of
             None \<Rightarrow> None
           | Some outcomes \<Rightarrow> Some (Inr outcomes, t)))"

section \<open>The strategy\<close>

fun first_failure :: "(stage_result \<times> bool) outcome list \<Rightarrow> exn option" where
  "first_failure [] = None"
| "first_failure (Inl e # os) = Some e"
| "first_failure (Inr _ # os) = first_failure os"

fun group_results :: "(stage_result \<times> bool) outcome list \<Rightarrow> stage_result list" where
  "group_results [] = []"
| "group_results (Inl e # os) = group_results os"
| "group_results (Inr (r, _) # os) = r # group_results os"

definition group_cancelled :: "(stage_result \<times> bool) outcome list \<Rightarrow> bool" where
  "group_cancelled os \<longleftrightarrow> list_ex (\<lambda>outcome. case outcome of Inl _ \<Rightarrow> False | Inr (_, cancel) \<Rightarrow> cancel) os"

text \<open>\<open>xs[-n:]\<close>: the whole list when \<open>n\<close> is 0.\<close>

definition py_last :: "nat \<Rightarrow> 'a list \<Rightarrow> 'a list" where
  "py_last n xs = (if n = 0 then xs else drop (length xs - n) xs)"

definition as_exception :: "exn \<Rightarrow> exn" where
  "as_exception e = (case e of Exn c x \<Rightarrow> Exn c x | BaseExn c x \<Rightarrow> runtime_error x)"

definition par_group ::
  "('h, 'o, 'e) executor \<Rightarrow> 'e pipeline \<Rightarrow> nat list \<Rightarrow> 'e stage option list \<Rightarrow> ('o, 'e, stage_end) exec" where
  "par_group x p sched grp =
     bindA (gather x p sched grp) (\<lambda>outcomes.
       thenA (modify (\<lambda>s. s \<lparr> rs_results := rs_results s @ group_results outcomes \<rparr>))
        (case first_failure outcomes of
           Some e \<Rightarrow>
             bindA (read_clock x) (\<lambda>now.
               thenA (execution_failed now (Some (as_exception e)))
              (thenA (emit_pipeline_failed x p None (Some (as_exception e)))
                     (raise e)))
         | None \<Rightarrow>
             if group_cancelled outcomes then
               bindA (read_clock x) (\<lambda>now.
                 thenA (execution_failed now (Some cancelled_error))
                (thenA (emit_pipeline_failed x p None (Some cancelled_error))
                       (ret (Return_status FAILED))))
             else
               bindA (get rs_results) (\<lambda>results.
                 ret (Next (\<exists>r \<in> set (py_last (length grp) results). failed r)))))"

fun par_groups ::
  "('h, 'o, 'e) executor \<Rightarrow> 'e pipeline \<Rightarrow> nat list list \<Rightarrow> 'e stage option list list \<Rightarrow> bool \<Rightarrow>
     ('o, 'e, stage_end) exec" where
  "par_groups x p scheds [] tolerated = ret (Next tolerated)"
| "par_groups x p scheds (g # gs) tolerated =
     bindA (par_group x p (case scheds of [] \<Rightarrow> [] | sched # _ \<Rightarrow> sched) g) (\<lambda>r. case r of
       Return_status status \<Rightarrow> ret (Return_status status)
     | Next t \<Rightarrow> par_groups x p (tl scheds) gs (tolerated \<or> t))"

definition parallel_pipeline ::
  "('h, 'o, 'e) executor \<Rightarrow> nat list list \<Rightarrow> 'e pipeline \<Rightarrow> ('o, 'e, execution_status) exec" where
  "parallel_pipeline x scheds p =
     bindA (read_clock x) (\<lambda>now.
       thenA (modify (execution_started now))
      (thenA (emit_before_pipeline x p)
      (bindA (par_groups x p scheds (pipeline_groups p) False) (\<lambda>r. case r of
         Return_status status \<Rightarrow> ret status
       | Next tolerated \<Rightarrow>
           bindA (read_clock x) (\<lambda>now.
             thenA (if tolerated then execution_failed now None else execution_completed now)
            (thenA (emit_after_pipeline x p)
                   (ret (if tolerated then FAILED else COMPLETED))))))))"

definition execute_parallel ::
  "('h, 'o, 'e) executor \<Rightarrow> nat list list \<Rightarrow> 'e pipeline \<Rightarrow> ('o, 'e, pipeline_result) exec" where
  "execute_parallel x scheds p = execute_with (parallel_pipeline x scheds p)"

end
