(* ===== verification/Storage.thy ===== *)
theory Storage
  imports Py_Strings
begin

text \<open>
  Storage locations and their URIs (\<open>storage/models/storage_location.py\<close>), the URIs of the Medallion
  layers (\<open>storage/config.py\<close>), and the logical objects of the data lake with the paths built for
  them (\<open>datalake/models\<close>, \<open>datalake/services/path_builder.py\<close>).
\<close>

section \<open>Storage locations\<close>

record storage_location =
  sl_scheme :: string
  sl_bucket :: string
  sl_key :: string

text \<open>The key after the validation: normalised by \<open>PurePosixPath\<close>, a trailing slash kept.\<close>

definition normal_key :: "string \<Rightarrow> string" where
  "normal_key key =
     (let k = dropWhile (\<lambda>c. c = CHR ''/'') key;
          had_trailing_slash = (k \<noteq> [] \<and> last k = CHR ''/'');
          p = as_posix (path_parts k)
      in if had_trailing_slash \<and> last p \<noteq> CHR ''/'' then p @ ''/'' else p)"

definition new_location :: "string \<Rightarrow> string \<Rightarrow> string \<Rightarrow> storage_location outcome" where
  "new_location scheme bucket key =
     (let scheme = lower (strip scheme); bucket = strip bucket; key = strip key
      in if scheme = [] then Inl (value_error ''Storage scheme cannot be empty.'')
         else if bucket = [] then Inl (value_error ''Storage bucket cannot be empty.'')
         else if key = [] then Inl (value_error ''Storage key cannot be empty.'')
         else Inr \<lparr> sl_scheme = scheme, sl_bucket = bucket, sl_key = normal_key key \<rparr>)"

definition location_provider :: "storage_location \<Rightarrow> string" where
  "location_provider l = sl_scheme l"

definition location_uri :: "storage_location \<Rightarrow> string" where
  "location_uri l = sl_scheme l @ ''://'' @ sl_bucket l @ ''/'' @ sl_key l"

definition location_name :: "storage_location \<Rightarrow> string" where
  "location_name l = path_name (sl_key l)"

definition location_stem :: "storage_location \<Rightarrow> string" where
  "location_stem l = path_stem (sl_key l)"

definition location_suffix :: "storage_location \<Rightarrow> string" where
  "location_suffix l = path_suffix (sl_key l)"

definition location_parent :: "storage_location \<Rightarrow> string" where
  "location_parent l =
     (let parent = path_parent (sl_key l) in if parent = ''.'' then [] else parent @ ''/'')"

section \<open>Parsing a URI\<close>

text \<open>
  \<open>urlparse\<close> of the standard library, as far as \<open>from_uri\<close> uses it. \<open>check_netloc\<close> stands for its
  validation of bracketed and non-ASCII hosts.
\<close>

definition is_alpha :: "char \<Rightarrow> bool" where
  "is_alpha c \<longleftrightarrow> (let n = of_char c :: nat in 65 \<le> n \<and> n \<le> 90 \<or> 97 \<le> n \<and> n \<le> 122)"

definition scheme_char :: "char \<Rightarrow> bool" where
  "scheme_char c \<longleftrightarrow>
     is_alpha c \<or> (let n = of_char c :: nat in 48 \<le> n \<and> n \<le> 57) \<or> c \<in> set ''+-.''"

definition uses_params :: "string list" where
  "uses_params = [[], ''ftp'', ''hdl'', ''prospero'', ''http'', ''https'', ''shttp'', ''rtsp'', ''rtsps'',
     ''sip'', ''sips'', ''mms'', ''sftp'', ''tel'']"

definition before :: "char \<Rightarrow> string \<Rightarrow> string" where
  "before d s = takeWhile (\<lambda>c. c \<noteq> d) s"

definition clean_url :: "string \<Rightarrow> string" where
  "clean_url url =
     filter (\<lambda>c. (of_char c :: nat) \<notin> {9, 10, 13}) (dropWhile (\<lambda>c. (of_char c :: nat) \<le> 32) url)"

definition split_scheme :: "string \<Rightarrow> string \<times> string" where
  "split_scheme url =
     (let s = before CHR '':'' url
      in if s \<noteq> [] \<and> length s < length url \<and> is_alpha (hd s) \<and> list_all scheme_char s
         then (lower s, drop (Suc (length s)) url) else ([], url))"

definition drop_params :: "string \<Rightarrow> string \<Rightarrow> string" where
  "drop_params scheme path =
     (if scheme \<in> set uses_params \<and> CHR '';'' \<in> set path then
        (let parts = split_on CHR ''/'' path
         in join ''/'' (butlast parts @ [before CHR '';'' (last parts)]))
      else path)"

definition host_char :: "char \<Rightarrow> bool" where
  "host_char c \<longleftrightarrow> c \<notin> set ''/?#''"

definition urlparse :: "(string \<Rightarrow> unit outcome) \<Rightarrow> string \<Rightarrow> (string \<times> string \<times> string) outcome" where
  "urlparse check_netloc uri =
     (let (scheme, rest) = split_scheme (clean_url uri);
          (netloc, rest) =
            (if take 2 rest = ''//''
             then (takeWhile host_char (drop 2 rest), dropWhile host_char (drop 2 rest))
             else ([], rest));
          path = before CHR ''?'' (before CHR ''#'' rest)
      in bindE (check_netloc netloc) (\<lambda>_. Inr (scheme, netloc, drop_params scheme path)))"

definition from_uri :: "(string \<Rightarrow> unit outcome) \<Rightarrow> string \<Rightarrow> storage_location outcome" where
  "from_uri check_netloc uri =
     bindE (urlparse check_netloc uri) (\<lambda>(scheme, netloc, path).
       if scheme = [] then Inl (value_error ''Invalid storage URI: missing scheme.'')
       else if netloc = [] then Inl (value_error ''Invalid storage URI: missing bucket/container.'')
       else new_location scheme netloc (dropWhile (\<lambda>c. c = CHR ''/'') path))"

section \<open>The layers of the lake\<close>

definition default_bucket :: string where
  "default_bucket = ''mdp-datalake-dev-857854758128''"

definition layer_uri :: "string \<Rightarrow> string \<Rightarrow> string" where
  "layer_uri layer entity = ''s3://'' @ default_bucket @ ''/'' @ layer @ ''/'' @ entity"

definition config_raw :: "string \<Rightarrow> string" where
  "config_raw = layer_uri ''raw''"

definition config_bronze :: "string \<Rightarrow> string" where
  "config_bronze = layer_uri ''bronze''"

definition config_bronze_batch :: "string \<Rightarrow> string" where
  "config_bronze_batch = layer_uri ''bronze_batch''"

definition config_silver :: "string \<Rightarrow> string" where
  "config_silver = layer_uri ''silver''"

definition config_gold :: "string \<Rightarrow> string" where
  "config_gold = layer_uri ''gold''"

section \<open>Logical objects and their paths\<close>

datatype zone = BRONZE | SILVER | GOLD

primrec zone_value :: "zone \<Rightarrow> string" where
  "zone_value BRONZE = ''bronze''"
| "zone_value SILVER = ''silver''"
| "zone_value GOLD = ''gold''"

datatype partition_value = PStr string | PInt int

primrec show_partition_value :: "partition_value \<Rightarrow> string" where
  "show_partition_value (PStr s) = s"
| "show_partition_value (PInt i) = show_int i"

record dataset =
  ds_name :: string
  ds_domain :: string

definition qualified_name :: "dataset \<Rightarrow> string" where
  "qualified_name d = ds_domain d @ ''.'' @ ds_name d"

record dataset_location =
  dl_zone :: zone
  dl_dataset :: dataset

record data_object =
  do_location :: dataset_location
  do_filename :: string
  do_partitions :: "(string, partition_value) dict"

record datalake_location =
  lake_scheme :: string
  lake_bucket :: string

definition dataset_path :: "dataset_location \<Rightarrow> string" where
  "dataset_path l =
     zone_value (dl_zone l) @ ''/'' @ ds_domain (dl_dataset l) @ ''/'' @ ds_name (dl_dataset l) @ ''/''"

definition partition_folder :: "string \<times> partition_value \<Rightarrow> string" where
  "partition_folder kv = fst kv @ ''='' @ show_partition_value (snd kv)"

definition partition_path :: "dataset_location \<Rightarrow> (string, partition_value) dict \<Rightarrow> string" where
  "partition_path l partitions =
     (if partitions = [] then dataset_path l
      else dataset_path l @ join ''/'' (map partition_folder partitions) @ ''/'')"

definition object_location :: "datalake_location \<Rightarrow> data_object \<Rightarrow> storage_location outcome" where
  "object_location lake obj =
     new_location (lake_scheme lake) (lake_bucket lake)
       (partition_path (do_location obj) (do_partitions obj) @ do_filename obj)"

section \<open>Facts\<close>

text \<open>A segment of a path that survives its normalisation.\<close>

definition segment :: "string \<Rightarrow> bool" where
  "segment p \<longleftrightarrow> p \<noteq> [] \<and> p \<noteq> ''.'' \<and> CHR ''/'' \<notin> set p"

text \<open>A key in normal form: segments, possibly with a slash after them, or \<open>.\<close> alone.\<close>

definition canonical_key :: "string \<Rightarrow> bool" where
  "canonical_key k \<longleftrightarrow>
     k = ''.'' \<or> k = ''./'' \<or>
     (let ps = split_on CHR ''/'' k; qs = (if last ps = [] then butlast ps else ps)
      in qs \<noteq> [] \<and> list_all segment qs)"

lemma join_split: "join [d] (split_on d s) = s"
proof (induction s)
  case (Cons c cs)
  then show ?case
    by (cases "split_on d cs"; cases "tl (split_on d cs)") (auto simp: join_Cons)
qed simp

lemma canonical_key_iff:
  "canonical_key k \<longleftrightarrow>
     k = ''.'' \<or> k = ''./'' \<or>
     (\<exists>ps. ps \<noteq> [] \<and> list_all segment ps \<and> (k = join ''/'' ps \<or> k = join ''/'' ps @ ''/''))"
proof -
  let ?ps = "split_on CHR ''/'' k" and ?qs = "if last (split_on CHR ''/'' k) = [] then butlast (split_on CHR ''/'' k) else split_on CHR ''/'' k"
  have "(\<exists>ps. ps \<noteq> [] \<and> list_all segment ps \<and> (k = join ''/'' ps \<or> k = join ''/'' ps @ ''/''))"
    if qs: "?qs \<noteq> []" "list_all segment ?qs"
  proof (cases "last ?ps = []")
    case True
    then have "?ps = ?qs @ [[]]" by (metis append_butlast_last_id split_on_neq)
    then have "k = join ''/'' (?qs @ [[]])" using join_split [of "CHR ''/''" k] by simp
    then have "k = join ''/'' ?qs @ ''/''" using qs(1) by (simp add: join_snoc)
    with qs show ?thesis by blast
  next
    case False
    then have "k = join ''/'' ?qs" using join_split [of "CHR ''/''" k] by simp
    with qs show ?thesis by blast
  qed
  moreover have "?qs \<noteq> [] \<and> list_all segment ?qs"
    if ps: "ps \<noteq> []" "list_all segment ps" "k = join ''/'' ps \<or> k = join ''/'' ps @ ''/''" for ps
  proof -
    have no: "\<forall>p \<in> set ps. CHR ''/'' \<notin> set p" and last: "last ps \<noteq> []"
      using ps(1,2) by (auto simp: list_all_iff segment_def)
    have "split_on CHR ''/'' (join ''/'' ps) = ps" using ps(1) no by (rule split_join)
    moreover have "split_on CHR ''/'' (join ''/'' ps @ ''/'') = ps @ [[]]"
      using split_join [of "ps @ [[]]" "CHR ''/''"] ps(1) no by (simp add: join_snoc)
    ultimately show ?thesis using ps last by auto
  qed
  ultimately show ?thesis unfolding canonical_key_def Let_def by blast
qed
lemma path_parts_segments: "list_all segment (path_parts s)"
  by (auto simp: list_all_iff segment_def dest: path_parts_ok)

lemma join_ends:
  assumes "ps \<noteq> []" "list_all segment ps"
  shows "join ''/'' ps \<noteq> []" "hd (join ''/'' ps) \<noteq> CHR ''/''" "last (join ''/'' ps) \<noteq> CHR ''/''"
proof -
  have segs: "segment p \<Longrightarrow> p \<noteq> [] \<and> hd p \<noteq> CHR ''/'' \<and> last p \<noteq> CHR ''/''" for p
    unfolding segment_def by (metis hd_in_set last_in_set)
  show ne: "join ''/'' ps \<noteq> []"
    using assms by (cases ps) (auto simp: join_Nil_iff segment_def)
  obtain p qs where p: "ps = p # qs" using assms(1) by (cases ps) auto
  show "hd (join ''/'' ps) \<noteq> CHR ''/''"
    using assms segs [of p] by (cases qs) (simp_all add: p)
  show "last (join ''/'' ps) \<noteq> CHR ''/''"
    using assms
  proof (induction ps)
    case (Cons a ps)
    then show ?case
      using segs [of a] by (cases "ps = []") (auto simp: join_Cons join_Nil_iff segment_def)
  qed simp
qed

lemma normal_key_join:
  assumes "ps \<noteq> []" "list_all segment ps"
  shows "normal_key (join ''/'' ps) = join ''/'' ps" and "normal_key (join ''/'' ps @ ''/'') = join ''/'' ps @ ''/''"
proof -
  have parts: "path_parts (join ''/'' ps) = ps" "path_parts (join ''/'' ps @ ''/'') = ps"
    using path_parts_join [of ps] assms by (auto simp: as_posix_def list_all_iff segment_def)
  note ends = join_ends [OF assms]
  have drop: "dropWhile (\<lambda>c. c = CHR ''/'') (join ''/'' ps) = join ''/'' ps"
    using ends by (simp add: dropWhile_eq_self_iff)
  moreover have "dropWhile (\<lambda>c. c = CHR ''/'') (join ''/'' ps @ ''/'') = join ''/'' ps @ ''/''"
    using ends by (simp add: dropWhile_eq_self_iff)
  ultimately show "normal_key (join ''/'' ps) = join ''/'' ps"
      "normal_key (join ''/'' ps @ ''/'') = join ''/'' ps @ ''/''"
    using parts ends assms by (simp_all add: normal_key_def Let_def as_posix_def)
qed

lemma normal_key_canonical: "canonical_key (normal_key k)"
proof -
  let ?k = "dropWhile (\<lambda>c. c = CHR ''/'') k"
  show ?thesis
  proof (cases "path_parts ?k = []")
    case True
    then show ?thesis by (simp add: normal_key_def Let_def as_posix_def canonical_key_iff)
  next
    case False
    then show ?thesis
      using path_parts_segments [of ?k]
      by (auto simp: normal_key_def Let_def as_posix_def canonical_key_iff)
  qed
qed

lemma canonical_key_fixed: "canonical_key k \<Longrightarrow> normal_key k = k"
proof -
  have "normal_key ''.'' = ''.''" "normal_key ''./'' = ''./''"
    by (simp_all add: normal_key_def path_parts_def as_posix_def)
  then show "canonical_key k \<Longrightarrow> normal_key k = k"
    by (auto simp: canonical_key_iff normal_key_join)
qed

lemma canonical_head: "canonical_key k \<Longrightarrow> k \<noteq> [] \<and> hd k \<noteq> CHR ''/''"
proof -
  have "join ''/'' ps \<noteq> [] \<and> hd (join ''/'' ps) \<noteq> CHR ''/''" if "ps \<noteq> []" "list_all segment ps" for ps
    using join_ends [OF that] by blast
  then show "canonical_key k \<Longrightarrow> k \<noteq> [] \<and> hd k \<noteq> CHR ''/''"
    unfolding canonical_key_iff by (elim disjE exE conjE) simp_all
qed

lemma new_location_Inr:
  "new_location scheme bucket key = Inr l \<longleftrightarrow>
     strip scheme \<noteq> [] \<and> strip bucket \<noteq> [] \<and> strip key \<noteq> [] \<and>
     l = \<lparr> sl_scheme = lower (strip scheme), sl_bucket = strip bucket, sl_key = normal_key (strip key) \<rparr>"
  by (auto simp: new_location_def Let_def)

section \<open>URIs round-trip\<close>

definition plain_url_chars :: "string \<Rightarrow> bool" where
  "plain_url_chars s \<longleftrightarrow> list_all (\<lambda>c. 32 < (of_char c :: nat) \<or> (of_char c :: nat) \<notin> {9, 10, 13}) s \<and>
     list_all (\<lambda>c. c \<noteq> CHR ''?'' \<and> c \<noteq> CHR ''#'') s"

text \<open>A location whose URI names it: what \<open>urlparse\<close> would cut off does not occur in it.\<close>

definition addressable :: "storage_location \<Rightarrow> bool" where
  "addressable l \<longleftrightarrow>
     sl_scheme l \<noteq> [] \<and> is_alpha (hd (sl_scheme l)) \<and> list_all scheme_char (sl_scheme l) \<and>
     lower (sl_scheme l) = sl_scheme l \<and> strip (sl_scheme l) = sl_scheme l \<and> sl_scheme l \<notin> set uses_params \<and>
     sl_bucket l \<noteq> [] \<and> strip (sl_bucket l) = sl_bucket l \<and> plain_url_chars (sl_bucket l) \<and>
     CHR ''/'' \<notin> set (sl_bucket l) \<and>
     canonical_key (sl_key l) \<and> strip (sl_key l) = sl_key l \<and> plain_url_chars (sl_key l)"

lemma takeWhile_all_append: "list_all p xs \<Longrightarrow> takeWhile p (xs @ ys) = xs @ takeWhile p ys"
  by (induction xs) auto

lemma dropWhile_all_append: "list_all p xs \<Longrightarrow> dropWhile p (xs @ ys) = dropWhile p ys"
  by (induction xs) auto

lemma before_all: "d \<notin> set s \<Longrightarrow> before d s = s"
  by (auto simp: before_def takeWhile_eq_all_conv)

lemma scheme_char_colon: "list_all scheme_char s \<Longrightarrow> before CHR '':'' (s @ CHR '':'' # rest) = s"
  unfolding before_def
  by (subst takeWhile_all_append) (auto simp: list_all_iff scheme_char_def is_alpha_def)

lemma scheme_char_clean: "scheme_char c \<Longrightarrow> (of_char c :: nat) \<notin> {9, 10, 13} \<and> \<not> (of_char c :: nat) \<le> 32"
  by (auto simp: scheme_char_def is_alpha_def Let_def)

lemma from_uri_uri:
  assumes ok: "addressable l" and host: "check_netloc (sl_bucket l) = Inr ()"
  shows "from_uri check_netloc (location_uri l) = Inr l"
proof -
  let ?s = "sl_scheme l" and ?b = "sl_bucket l" and ?k = "sl_key l"
  let ?rest = "''//'' @ ?b @ ''/'' @ ?k"
  have uri: "location_uri l = ?s @ CHR '':'' # ?rest" by (simp add: location_uri_def)
  have plain: "list_all (\<lambda>c. (of_char c :: nat) \<notin> {9, 10, 13}) ?b" "list_all (\<lambda>c. (of_char c :: nat) \<notin> {9, 10, 13}) ?k"
    using ok by (auto simp: addressable_def plain_url_chars_def list_all_iff)
  have no: "CHR ''?'' \<notin> set ?b" "CHR ''#'' \<notin> set ?b" "CHR ''?'' \<notin> set ?k" "CHR ''#'' \<notin> set ?k"
    using ok by (auto simp: addressable_def plain_url_chars_def list_all_iff)
  have clean: "clean_url (location_uri l) = location_uri l"
  proof -
    have "\<not> (of_char (hd ?s) :: nat) \<le> 32"
      using ok scheme_char_clean [of "hd ?s"] by (auto simp: addressable_def list_all_iff)
    then have "dropWhile (\<lambda>c. (of_char c :: nat) \<le> 32) (location_uri l) = location_uri l"
      using ok by (simp add: dropWhile_eq_self_iff uri addressable_def)
    moreover have "list_all (\<lambda>c. (of_char c :: nat) \<notin> {9, 10, 13}) (location_uri l)"
    proof -
      have "list_all (\<lambda>c. (of_char c :: nat) \<notin> {9, 10, 13}) ?s"
        using ok scheme_char_clean by (auto simp: addressable_def list_all_iff)
      with plain show ?thesis by (simp add: uri)
    qed
    ultimately show ?thesis
      by (simp add: clean_url_def filter_id_conv list_all_iff)
  qed
  have scheme: "split_scheme (location_uri l) = (?s, ?rest)"
    using ok scheme_char_colon [of ?s] by (simp add: split_scheme_def uri addressable_def Let_def)
  have bchars: "list_all host_char ?b"
    using ok no by (auto simp: list_all_iff addressable_def host_char_def)
  have slash: "\<not> host_char CHR ''/''" by (simp add: host_char_def)
  have path: "before CHR ''?'' (before CHR ''#'' (''/'' @ ?k)) = ''/'' @ ?k"
    using no by (simp add: before_all)
  have parse: "urlparse check_netloc (location_uri l) = Inr (?s, ?b, ''/'' @ ?k)"
    using scheme path host ok
    by (simp add: urlparse_def clean slash takeWhile_all_append [OF bchars] dropWhile_all_append [OF bchars]
        drop_params_def addressable_def)
  have key: "dropWhile (\<lambda>c. c = CHR ''/'') ?k = ?k"
    using ok canonical_head [of ?k] by (simp add: addressable_def dropWhile_eq_self_iff)
  show ?thesis
    using ok canonical_head [of ?k]
    by (simp add: from_uri_def parse key new_location_Inr canonical_key_fixed addressable_def)
qed

text \<open>
  C14. A URI names its location: \<open>from_uri\<close> of the URI of an addressable location gives the location
  back, when the standard library accepts its host.
\<close>

theorem location_uri_roundtrip:
  assumes "addressable l" and "check_netloc (sl_bucket l) = Inr ()"
  shows "from_uri check_netloc (location_uri l) = Inr l"
  using assms by (rule from_uri_uri)

definition sample_location :: storage_location where
  "sample_location = \<lparr> sl_scheme = ''s3'', sl_bucket = ''bronze'', sl_key = ''sales/a b/_delta_log/'' \<rparr>"

lemma location_uri_roundtrip_witness:
  "from_uri (\<lambda>_. Inr ()) ''s3://bronze/sales/a b/_delta_log/'' = Inr sample_location"
proof -
  have "addressable sample_location" by code_simp
  then have "from_uri (\<lambda>_. Inr ()) (location_uri sample_location) = Inr sample_location"
    by (rule location_uri_roundtrip) simp
  then show ?thesis by (simp add: location_uri_def sample_location_def)
qed

section \<open>Paths do not collide\<close>

text \<open>
  Whatever is given, a location that is accepted has a non-empty lower-case scheme, a non-empty
  bucket and a key in normal form: no leading slash, no empty or \<open>.\<close> segment, and a trailing slash
  exactly when the given key had one.
\<close>

theorem new_location_normal:
  assumes new: "new_location scheme bucket key = Inr l"
  shows "sl_scheme l \<noteq> [] \<and> lower (sl_scheme l) = sl_scheme l \<and> sl_bucket l \<noteq> [] \<and>
    strip (sl_bucket l) = sl_bucket l \<and> canonical_key (sl_key l) \<and>
    (path_parts (strip key) \<noteq> [] \<longrightarrow>
       path_parts (sl_key l) = path_parts (strip key) \<and>
       (last (sl_key l) = CHR ''/'' \<longleftrightarrow> last (strip key) = CHR ''/''))"
proof -
  let ?key = "strip key"
  let ?k = "dropWhile (\<lambda>c. c = CHR ''/'') ?key"
  have l: "l = \<lparr> sl_scheme = lower (strip scheme), sl_bucket = strip bucket, sl_key = normal_key ?key \<rparr>"
    and ne: "strip scheme \<noteq> []" "strip bucket \<noteq> []" "?key \<noteq> []"
    using new by (auto simp: new_location_Inr)
  have slash: "path_parts (CHR ''/'' # s) = path_parts s" for s by (simp add: path_parts_def)
  have parts: "path_parts (dropWhile (\<lambda>c. c = CHR ''/'') s) = path_parts s" for s
    by (induction s) (auto simp: slash)
  have "path_parts (normal_key ?key) = path_parts ?key \<and>
      (last (normal_key ?key) = CHR ''/'' \<longleftrightarrow> last ?key = CHR ''/'')"
    if some: "path_parts ?key \<noteq> []"
  proof -
    let ?ps = "path_parts ?key"
    have segs: "list_all segment ?ps" by (rule path_parts_segments)
    have "?k \<noteq> []"
    proof
      assume "?k = []"
      then have "path_parts ?k = []" by (simp only:) (simp add: path_parts_def)
      then show False using some by (simp only: parts)
    qed
    then have last: "last ?k = last ?key" by (metis last_appendR takeWhile_dropWhile_id)
    have "normal_key ?key = (if last ?key = CHR ''/'' then join ''/'' ?ps @ ''/'' else join ''/'' ?ps)"
      using some join_ends(3) [OF some segs] \<open>?k \<noteq> []\<close>
      by (simp add: normal_key_def Let_def parts as_posix_def last)
    then show ?thesis
      using path_parts_join [of ?ps] segs some join_ends(3) [OF some segs]
      by (auto simp: as_posix_def list_all_iff segment_def)
  qed
  then show ?thesis
    using ne by (simp add: l normal_key_canonical)
qed

lemma new_location_normal_witness:
  "canonical_key ''sales/orders/''"
proof -
  have "new_location '' S3'' ''b'' '' //sales//./orders/'' =
      Inr \<lparr> sl_scheme = ''s3'', sl_bucket = ''b'', sl_key = ''sales/orders/'' \<rparr>"
    by code_simp
  from new_location_normal [OF this] show ?thesis by simp
qed

text \<open>
  The layers of the lake are apart: the tables of two entities have the same URI only for the same
  layer and entity. So the streaming Bronze table of an entity is never the batch one.
\<close>

lemma layer_uris_apart:
  "(config_bronze e = config_bronze e' \<longleftrightarrow> e = e') \<and> config_bronze e \<noteq> config_bronze_batch e' \<and>
   config_bronze e \<noteq> config_raw e' \<and> config_bronze e \<noteq> config_silver e' \<and> config_bronze e \<noteq> config_gold e' \<and>
   config_bronze_batch e \<noteq> config_silver e' \<and> (config_silver e = config_silver e' \<longleftrightarrow> e = e') \<and>
   config_silver e \<noteq> config_gold e' \<and> (config_bronze_batch e = config_bronze_batch e' \<longleftrightarrow> e = e')"
  by (simp add: config_bronze_def config_bronze_batch_def config_raw_def config_silver_def config_gold_def layer_uri_def)

text \<open>The segments of an object's path.\<close>

definition object_segments :: "data_object \<Rightarrow> string list" where
  "object_segments obj =
     [zone_value (dl_zone (do_location obj)), ds_domain (dl_dataset (do_location obj)),
      ds_name (dl_dataset (do_location obj))] @ map partition_folder (do_partitions obj) @ [do_filename obj]"

definition well_named :: "data_object \<Rightarrow> bool" where
  "well_named obj \<longleftrightarrow>
     list_all segment (object_segments obj) \<and> strip (do_filename obj) = do_filename obj \<and>
     list_all (\<lambda>kv. CHR ''='' \<notin> set (fst kv)) (do_partitions obj)"

lemma join_append: "ps \<noteq> [] \<Longrightarrow> qs \<noteq> [] \<Longrightarrow> join d (ps @ qs) = join d ps @ d @ join d qs"
proof (induction ps)
  case (Cons a ps)
  then show ?case by (cases "ps = []") (simp_all add: join_Cons)
qed simp

lemma object_key_join:
  "partition_path (do_location obj) (do_partitions obj) @ do_filename obj = join ''/'' (object_segments obj)"
proof (cases "do_partitions obj = []")
  case True
  then show ?thesis by (simp add: partition_path_def dataset_path_def object_segments_def)
next
  case False
  then have "join ''/'' (map partition_folder (do_partitions obj) @ [do_filename obj]) =
      join ''/'' (map partition_folder (do_partitions obj)) @ ''/'' @ do_filename obj"
    by (simp add: join_snoc)
  with False show ?thesis
    by (simp add: partition_path_def dataset_path_def object_segments_def join_Cons)
qed

lemma partition_folder_inj:
  assumes "CHR ''='' \<notin> set (fst kv)" "CHR ''='' \<notin> set (fst kv')" "partition_folder kv = partition_folder kv'"
  shows "fst kv = fst kv' \<and> show_partition_value (snd kv) = show_partition_value (snd kv')"
proof -
  have "split_on CHR ''='' (partition_folder kv) = fst kv # split_on CHR ''='' (show_partition_value (snd kv))"
      "split_on CHR ''='' (partition_folder kv') = fst kv' # split_on CHR ''='' (show_partition_value (snd kv'))"
    using assms(1,2) by (simp_all add: partition_folder_def split_on_append)
  with assms(3) have "fst kv = fst kv'" by simp
  with assms(3) show ?thesis by (simp add: partition_folder_def)
qed

lemma partition_folders_inj:
  assumes "list_all (\<lambda>kv. CHR ''='' \<notin> set (fst kv)) ps" "list_all (\<lambda>kv. CHR ''='' \<notin> set (fst kv)) qs"
    and "map partition_folder ps = map partition_folder qs"
  shows "map (map_prod id show_partition_value) ps = map (map_prod id show_partition_value) qs"
  using assms
proof (induction ps arbitrary: qs)
  case (Cons p ps)
  then obtain q qs' where qs: "qs = q # qs'" by (cases qs) auto
  have "map (map_prod id show_partition_value) ps = map (map_prod id show_partition_value) qs'"
    by (rule Cons.IH) (use Cons.prems in \<open>simp_all add: qs\<close>)
  moreover have "fst p = fst q \<and> show_partition_value (snd p) = show_partition_value (snd q)"
    by (rule partition_folder_inj) (use Cons.prems in \<open>simp_all add: qs\<close>)
  ultimately show ?case by (cases p; cases q) (simp add: qs id_def)
qed simp

text \<open>
  C13. Objects of the lake do not share a location: two well-named objects placed at the same location
  have the same zone, domain, dataset, file name, and the same partition folders in the same order.
\<close>

theorem object_locations_apart:
  assumes ok: "well_named a" "well_named b"
    and loc: "object_location lake a = Inr l" "object_location lake b = Inr l"
  shows "dl_zone (do_location a) = dl_zone (do_location b) \<and>
    ds_domain (dl_dataset (do_location a)) = ds_domain (dl_dataset (do_location b)) \<and>
    ds_name (dl_dataset (do_location a)) = ds_name (dl_dataset (do_location b)) \<and>
    do_filename a = do_filename b \<and>
    map (map_prod id show_partition_value) (do_partitions a) = map (map_prod id show_partition_value) (do_partitions b)"
proof -
  have key: "sl_key l = join ''/'' (object_segments x)" if "well_named x" "object_location lake x = Inr l" for x
  proof -
    let ?ps = "object_segments x"
    have segs: "?ps \<noteq> []" "list_all segment ?ps" using that(1) by (auto simp: well_named_def object_segments_def)
    let ?z = "zone_value (dl_zone (do_location x))" and ?f = "do_filename x"
    have f: "?f \<noteq> []" using segs(2) by (simp add: object_segments_def segment_def)
    have "join ''/'' ?ps = ?z @ ''/'' @ join ''/'' (tl ?ps)"
      by (simp add: object_segments_def)
    then have ends1: "hd (join ''/'' ?ps) = hd ?z" by (cases "dl_zone (do_location x)") simp_all
    have "join ''/'' ?ps = join ''/'' (butlast ?ps) @ ''/'' @ ?f"
      using join_snoc [of "butlast ?ps" "''/''" ?f] by (simp add: object_segments_def)
    then have ends2: "last (join ''/'' ?ps) = last ?f" using f by simp
    have tail: "\<not> is_space (last (do_filename x))"
      using that(1) f by (simp add: well_named_def strip_def trim_id)
    have "\<not> is_space (hd (join ''/'' ?ps))"
      unfolding ends1 by (cases "dl_zone (do_location x)") (simp_all add: is_space_def)
    then have "strip (join ''/'' ?ps) = join ''/'' ?ps"
      using ends2 tail by (simp add: strip_def trim_id)
    then show ?thesis
      using that(2) normal_key_join(1) [OF segs] by (simp add: object_location_def object_key_join new_location_Inr)
  qed
  have "path_parts (join ''/'' (object_segments x)) = object_segments x" if "well_named x" for x
    using path_parts_join(1) [of "object_segments x"] that
    by (auto simp: well_named_def list_all_iff segment_def as_posix_def object_segments_def)
  then have segs: "object_segments a = object_segments b"
    using key [OF ok(1) loc(1)] key [OF ok(2) loc(2)] ok by metis
  have zone: "zone_value z = zone_value z' \<longleftrightarrow> z = z'" for z z' by (cases z; cases z') simp_all
  have "map partition_folder (do_partitions a) = map partition_folder (do_partitions b)"
      "do_filename a = do_filename b"
    using segs by (auto simp: object_segments_def)
  moreover have "map (map_prod id show_partition_value) (do_partitions a) =
      map (map_prod id show_partition_value) (do_partitions b)"
    by (rule partition_folders_inj) (use calculation(1) ok in \<open>auto simp: well_named_def\<close>)
  ultimately show ?thesis
    using segs zone by (simp add: object_segments_def)
qed

definition sample_object :: data_object where
  "sample_object =
     \<lparr> do_location = \<lparr> dl_zone = BRONZE, dl_dataset = \<lparr> ds_name = ''orders'', ds_domain = ''sales'' \<rparr> \<rparr>,
       do_filename = ''part-0.parquet'', do_partitions = [(''year'', PInt 2026), (''day'', PStr ''24'')] \<rparr>"

lemma object_locations_apart_witness:
  "do_filename sample_object = do_filename (sample_object \<lparr> do_partitions := [(''year'', PStr ''2026''), (''day'', PInt 24)] \<rparr>)"
proof -
  let ?b = "sample_object \<lparr> do_partitions := [(''year'', PStr ''2026''), (''day'', PInt 24)] \<rparr>"
  let ?lake = "\<lparr> lake_scheme = ''s3'', lake_bucket = ''lake'' \<rparr>"
  have "well_named sample_object" "well_named ?b" by code_simp+
  moreover have "object_location ?lake sample_object =
      Inr \<lparr> sl_scheme = ''s3'', sl_bucket = ''lake'',
            sl_key = ''bronze/sales/orders/year=2026/day=24/part-0.parquet'' \<rparr>"
    by code_simp
  moreover have "object_location ?lake ?b =
      Inr \<lparr> sl_scheme = ''s3'', sl_bucket = ''lake'',
            sl_key = ''bronze/sales/orders/year=2026/day=24/part-0.parquet'' \<rparr>"
    by code_simp
  ultimately show ?thesis
    using object_locations_apart [of sample_object ?b ?lake] by blast
qed

end
