(* ===== verification/Glue.thy ===== *)
theory Glue
  imports Storage
begin

text \<open>
  The catalog (\<open>data_platform/catalog\<close>) and its AWS Glue provider
  (\<open>integrations/aws/catalog\<close>). The boto3 client is a parameter, a record of its calls on a
  world \<open>'w\<close>; its responses are records with the keys the provider reads or passes on, a key that
  may be absent being an option.
\<close>

section \<open>Catalog models\<close>

record catalog_column =
  cc_name :: string
  cc_type :: string
  cc_nullable :: bool
  cc_comment :: "string option"

record catalog_database =
  cd_name :: string
  cd_location :: "storage_location option"
  cd_description :: "string option"

record catalog_table =
  ct_database :: string
  ct_name :: string
  ct_location :: storage_location
  ct_columns :: "catalog_column list"
  ct_partitions :: "string list"
  ct_description :: "string option"
  ct_format :: string

definition database_not_found :: "string \<Rightarrow> exn" where
  "database_not_found n = Exn ''DatabaseNotFoundError'' n"

definition database_already_exists :: "string \<Rightarrow> exn" where
  "database_already_exists n = Exn ''DatabaseAlreadyExistsError'' n"

definition table_not_found :: "string \<Rightarrow> exn" where
  "table_not_found n = Exn ''TableNotFoundError'' n"

definition table_already_exists :: "string \<Rightarrow> exn" where
  "table_already_exists n = Exn ''TableAlreadyExistsError'' n"

section \<open>The Glue client\<close>

record glue_column =
  gc_name :: string
  gc_type :: "string option"
  gc_comment :: "string option"

record glue_storage =
  gs_columns :: "glue_column list option"
  gs_location :: "string option"
  gs_input_format :: "string option"
  gs_output_format :: "string option"
  gs_serde :: "(string \<times> (string, string) dict option) option"

text \<open>\<open>gt_server\<close> holds the keys of a response that a request does not have.\<close>

record glue_table =
  gt_name :: string
  gt_description :: "string option"
  gt_storage :: "glue_storage option"
  gt_partition_keys :: "glue_column list option"
  gt_table_type :: "string option"
  gt_parameters :: "(string, string) dict option"
  gt_server :: "(string, string) dict"

record glue_database =
  gd_name :: string
  gd_description :: "string option"
  gd_location_uri :: "string option"

text \<open>A paginator yields its pages until it is exhausted or a request fails.\<close>

record 'w glue_api =
  ga_get_database :: "string \<Rightarrow> 'w \<Rightarrow> glue_database outcome \<times> 'w"
  ga_create_database :: "glue_database \<Rightarrow> 'w \<Rightarrow> unit outcome \<times> 'w"
  ga_delete_database :: "string \<Rightarrow> 'w \<Rightarrow> unit outcome \<times> 'w"
  ga_get_databases :: "'w \<Rightarrow> (glue_database list list \<times> exn option) \<times> 'w"
  ga_get_table :: "string \<Rightarrow> string \<Rightarrow> 'w \<Rightarrow> glue_table outcome \<times> 'w"
  ga_create_table :: "string \<Rightarrow> glue_table \<Rightarrow> 'w \<Rightarrow> unit outcome \<times> 'w"
  ga_update_table :: "string \<Rightarrow> glue_table \<Rightarrow> 'w \<Rightarrow> unit outcome \<times> 'w"
  ga_delete_table :: "string \<Rightarrow> string \<Rightarrow> 'w \<Rightarrow> unit outcome \<times> 'w"
  ga_get_tables :: "string \<Rightarrow> 'w \<Rightarrow> (glue_table list list \<times> exn option) \<times> 'w"
  ga_check_netloc :: "string \<Rightarrow> unit outcome"

definition entity_not_found :: "exn \<Rightarrow> bool" where
  "entity_not_found e \<longleftrightarrow> is_Exn e \<and> exn_class e = ''EntityNotFoundException''"

text \<open>The pages of a paginator, each turned into items as it arrives; a failing request or item raises.\<close>

definition paged :: "('a \<Rightarrow> 'b outcome) \<Rightarrow> ('w \<Rightarrow> ('a list list \<times> exn option) \<times> 'w) \<Rightarrow> ('w, 'b list) act" where
  "paged f pages w =
     (case pages w of
        ((ps, e), w') \<Rightarrow> Some (bindE (mapE f (concat ps)) (\<lambda>xs. case e of None \<Rightarrow> Inr xs | Some e \<Rightarrow> Inl e), w'))"

text \<open>A string that is neither \<open>None\<close> nor empty, as \<open>if s:\<close> tests it.\<close>

definition given :: "string option \<Rightarrow> string option" where
  "given s = (if s = Some [] then None else s)"

definition required :: "string \<Rightarrow> 'a option \<Rightarrow> 'a outcome" where
  "required k v = (case v of None \<Rightarrow> Inl (Exn ''KeyError'' (quoted k)) | Some x \<Rightarrow> Inr x)"

section \<open>Databases\<close>

definition glue_database_exists :: "'w glue_api \<Rightarrow> string \<Rightarrow> ('w, bool) act" where
  "glue_database_exists api n =
     bindA (caught (call (ga_get_database api n))) (\<lambda>r. case r of
       Inr _ \<Rightarrow> ret True
     | Inl e \<Rightarrow> if entity_not_found e then ret False else raise e)"

definition database_input :: "catalog_database \<Rightarrow> glue_database" where
  "database_input d =
     \<lparr> gd_name = cd_name d, gd_description = given (cd_description d),
       gd_location_uri = map_option location_uri (cd_location d) \<rparr>"

definition glue_create_database :: "'w glue_api \<Rightarrow> catalog_database \<Rightarrow> ('w, unit) act" where
  "glue_create_database api d =
     bindA (glue_database_exists api (cd_name d)) (\<lambda>exists.
       if exists then raise (database_already_exists (cd_name d))
       else call (ga_create_database api (database_input d)))"

definition database_of_response :: "(string \<Rightarrow> unit outcome) \<Rightarrow> glue_database \<Rightarrow> catalog_database outcome" where
  "database_of_response check d =
     bindE (case given (gd_location_uri d) of None \<Rightarrow> Inr None
            | Some uri \<Rightarrow> bindE (from_uri check uri) (\<lambda>l. Inr (Some l)))
       (\<lambda>location. Inr \<lparr> cd_name = gd_name d, cd_location = location, cd_description = gd_description d \<rparr>)"

definition glue_get_database :: "'w glue_api \<Rightarrow> string \<Rightarrow> ('w, catalog_database) act" where
  "glue_get_database api n =
     bindA (glue_database_exists api n) (\<lambda>exists.
       if \<not> exists then raise (database_not_found n)
       else bindA (call (ga_get_database api n)) (\<lambda>d.
              lift (database_of_response (ga_check_netloc api) d)))"

definition glue_delete_database :: "'w glue_api \<Rightarrow> string \<Rightarrow> ('w, unit) act" where
  "glue_delete_database api n =
     bindA (glue_database_exists api n) (\<lambda>exists.
       if \<not> exists then raise (database_not_found n) else call (ga_delete_database api n))"

definition glue_list_databases :: "'w glue_api \<Rightarrow> ('w, catalog_database list) act" where
  "glue_list_databases api = paged (database_of_response (ga_check_netloc api)) (ga_get_databases api)"

section \<open>Tables\<close>

definition glue_table_exists :: "'w glue_api \<Rightarrow> string \<Rightarrow> string \<Rightarrow> ('w, bool) act" where
  "glue_table_exists api db n =
     bindA (caught (call (ga_get_table api db n))) (\<lambda>r. case r of
       Inr _ \<Rightarrow> ret True
     | Inl e \<Rightarrow> if entity_not_found e then ret False else raise e)"

definition delta_input_format :: string where
  "delta_input_format = ''org.apache.hadoop.mapred.SequenceFileInputFormat''"

definition delta_output_format :: string where
  "delta_output_format = ''org.apache.hadoop.hive.ql.io.HiveSequenceFileOutputFormat''"

definition delta_serde :: string where
  "delta_serde = ''org.apache.hadoop.hive.serde2.lazy.LazySimpleSerDe''"

definition generic_input_format :: string where
  "generic_input_format = ''org.apache.hadoop.mapred.TextInputFormat''"

definition generic_output_format :: string where
  "generic_output_format = ''org.apache.hadoop.hive.ql.io.HiveIgnoreKeyTextOutputFormat''"

definition generic_serde :: string where
  "generic_serde = ''org.apache.hadoop.hive.serde2.lazy.LazySimpleSerDe''"

definition column_input :: "catalog_column \<Rightarrow> glue_column" where
  "column_input c = \<lparr> gc_name = cc_name c, gc_type = Some (cc_type c), gc_comment = given (cc_comment c) \<rparr>"

definition partition_input :: "string \<Rightarrow> glue_column" where
  "partition_input n = \<lparr> gc_name = n, gc_type = Some ''string'', gc_comment = None \<rparr>"

definition table_input :: "catalog_table \<Rightarrow> glue_table" where
  "table_input t =
     (let columns = map column_input (ct_columns t);
          location = location_uri (ct_location t);
          (storage, parameters) =
            (if ct_format t = ''delta'' then
               (\<lparr> gs_columns = Some columns, gs_location = Some location,
                  gs_input_format = Some delta_input_format, gs_output_format = Some delta_output_format,
                  gs_serde = Some (delta_serde,
                    Some [(''serialization.format'', ''1''), (''path'', location)]) \<rparr>,
                [(''table_type'', ''DELTA''), (''spark.sql.sources.provider'', ''delta'')])
             else
               (\<lparr> gs_columns = Some columns, gs_location = Some location,
                  gs_input_format = Some generic_input_format, gs_output_format = Some generic_output_format,
                  gs_serde = Some (generic_serde, None) \<rparr>, []))
      in \<lparr> gt_name = ct_name t, gt_description = given (ct_description t), gt_storage = Some storage,
           gt_partition_keys = Some (map partition_input (ct_partitions t)),
           gt_table_type = Some ''EXTERNAL_TABLE'',
           gt_parameters = (if parameters = [] then None else Some parameters), gt_server = [] \<rparr>)"

definition glue_create_table :: "'w glue_api \<Rightarrow> catalog_table \<Rightarrow> ('w, unit) act" where
  "glue_create_table api t =
     bindA (glue_table_exists api (ct_database t) (ct_name t)) (\<lambda>exists.
       if exists then raise (table_already_exists (ct_name t))
       else call (ga_create_table api (ct_database t) (table_input t)))"

definition column_of_response :: "glue_column \<Rightarrow> catalog_column outcome" where
  "column_of_response c =
     bindE (required ''Type'' (gc_type c)) (\<lambda>ty.
       Inr \<lparr> cc_name = gc_name c, cc_type = ty, cc_nullable = True, cc_comment = gc_comment c \<rparr>)"

definition or_empty :: "'a list option \<Rightarrow> 'a list" where
  "or_empty xs = (case xs of None \<Rightarrow> [] | Some xs \<Rightarrow> xs)"

definition table_of_response ::
  "(string \<Rightarrow> unit outcome) \<Rightarrow> string \<Rightarrow> glue_table \<Rightarrow> catalog_table outcome" where
  "table_of_response check db t =
     bindE (required ''StorageDescriptor'' (gt_storage t)) (\<lambda>storage.
     bindE (required ''Location'' (gs_location storage)) (\<lambda>uri.
     bindE (from_uri check uri) (\<lambda>location.
     bindE (mapE column_of_response (or_empty (gs_columns storage))) (\<lambda>columns.
       Inr \<lparr> ct_database = db, ct_name = gt_name t, ct_location = location, ct_columns = columns,
             ct_partitions = map gc_name (or_empty (gt_partition_keys t)),
             ct_description = gt_description t, ct_format = ''generic'' \<rparr>))))"

definition glue_get_table :: "'w glue_api \<Rightarrow> string \<Rightarrow> string \<Rightarrow> ('w, catalog_table) act" where
  "glue_get_table api db n =
     bindA (glue_table_exists api db n) (\<lambda>exists.
       if \<not> exists then raise (table_not_found n)
       else bindA (call (ga_get_table api db n)) (\<lambda>t.
              lift (table_of_response (ga_check_netloc api) db t)))"

definition glue_delete_table :: "'w glue_api \<Rightarrow> string \<Rightarrow> string \<Rightarrow> ('w, unit) act" where
  "glue_delete_table api db n =
     bindA (glue_table_exists api db n) (\<lambda>exists.
       if \<not> exists then raise (table_not_found n) else call (ga_delete_table api db n))"

definition glue_list_tables :: "'w glue_api \<Rightarrow> string \<Rightarrow> ('w, catalog_table list) act" where
  "glue_list_tables api db = paged (table_of_response (ga_check_netloc api) db) (ga_get_tables api db)"

definition glue_get_table_location :: "'w glue_api \<Rightarrow> string \<Rightarrow> string \<Rightarrow> ('w, storage_location) act" where
  "glue_get_table_location api db n = bindA (glue_get_table api db n) (\<lambda>t. ret (ct_location t))"

definition popped_fields :: "string list" where
  "popped_fields = [''DatabaseName'', ''CreateTime'', ''UpdateTime'', ''CreatedBy'', ''VersionId'',
     ''CatalogId'', ''IsRegisteredWithLakeFormation'']"

definition glue_update_table_location ::
  "'w glue_api \<Rightarrow> string \<Rightarrow> string \<Rightarrow> storage_location \<Rightarrow> ('w, unit) act" where
  "glue_update_table_location api db n location =
     bindA (call (ga_get_table api db n)) (\<lambda>t.
     bindA (lift (required ''StorageDescriptor'' (gt_storage t))) (\<lambda>storage.
       call (ga_update_table api db
         (t \<lparr> gt_storage := Some (storage \<lparr> gs_location := Some (location_uri location) \<rparr>),
              gt_server := filter (\<lambda>(k, v). k \<notin> set popped_fields) (gt_server t) \<rparr>))))"

definition glue_repair_table :: "'w glue_api \<Rightarrow> string \<Rightarrow> string \<Rightarrow> ('w, unit) act" where
  "glue_repair_table api db n =
     raise (Exn ''NotImplementedError'' ''Glue Catalog does not support repair_table.'')"

section \<open>The mapper\<close>

definition mapper_catalog_database :: "(string \<Rightarrow> unit outcome) \<Rightarrow> glue_database \<Rightarrow> catalog_database outcome" where
  "mapper_catalog_database check d =
     (let location = gd_location_uri d
      in if location \<noteq> None \<and> location \<noteq> Some [] then
           bindE (from_uri check (the location)) (\<lambda>l.
             Inr \<lparr> cd_name = gd_name d, cd_location = Some l, cd_description = gd_description d \<rparr>)
         else Inr \<lparr> cd_name = gd_name d, cd_location = None, cd_description = gd_description d \<rparr>)"

definition mapper_catalog_column :: "glue_column \<Rightarrow> catalog_column outcome" where
  "mapper_catalog_column c =
     (case gc_type c of
        None \<Rightarrow> Inl (Exn ''KeyError'' (quoted ''Type''))
      | Some ty \<Rightarrow> Inr \<lparr> cc_name = gc_name c, cc_type = ty, cc_nullable = True, cc_comment = gc_comment c \<rparr>)"

definition mapper_catalog_table :: "(string \<Rightarrow> unit outcome) \<Rightarrow> glue_table \<Rightarrow> catalog_table outcome" where
  "mapper_catalog_table check t =
     bindE (required ''StorageDescriptor'' (gt_storage t)) (\<lambda>storage.
     bindE (required ''DatabaseName'' (map_of (gt_server t) ''DatabaseName'')) (\<lambda>db.
     bindE (required ''Location'' (gs_location storage)) (\<lambda>uri.
     bindE (from_uri check uri) (\<lambda>location.
     bindE (mapE mapper_catalog_column (or_empty (gs_columns storage))) (\<lambda>columns.
       Inr \<lparr> ct_database = db, ct_name = gt_name t, ct_location = location, ct_columns = columns,
             ct_partitions = map gc_name (or_empty (gt_partition_keys t)),
             ct_description = gt_description t, ct_format = ''generic'' \<rparr>)))))"

definition mapper_glue_database :: "catalog_database \<Rightarrow> glue_database" where
  "mapper_glue_database d =
     \<lparr> gd_name = cd_name d, gd_description = given (cd_description d),
       gd_location_uri = map_option location_uri (cd_location d) \<rparr>"

definition mapper_glue_column :: "catalog_column \<Rightarrow> glue_column" where
  "mapper_glue_column c =
     \<lparr> gc_name = cc_name c, gc_type = Some (cc_type c), gc_comment = given (cc_comment c) \<rparr>"

definition mapper_glue_table :: "catalog_table \<Rightarrow> glue_table" where
  "mapper_glue_table t =
     \<lparr> gt_name = ct_name t, gt_description = ct_description t,
       gt_storage = Some
         \<lparr> gs_columns = Some (map mapper_glue_column (ct_columns t)),
           gs_location = Some (location_uri (ct_location t)),
           gs_input_format = Some ''org.apache.hadoop.mapred.TextInputFormat'',
           gs_output_format = Some ''org.apache.hadoop.hive.ql.io.HiveIgnoreKeyTextOutputFormat'',
           gs_serde = Some (''org.apache.hadoop.hive.serde2.lazy.LazySimpleSerDe'', None) \<rparr>,
       gt_partition_keys = Some (map partition_input (ct_partitions t)),
       gt_table_type = Some ''EXTERNAL_TABLE'', gt_parameters = None, gt_server = [] \<rparr>"

end
