(* ===== verification/Lake.thy ===== *)
theory Lake
  imports Glue "HOL-Library.Char_ord" "HOL-Library.List_Lexorder"
begin

text \<open>
  Object storage: the S3 provider (\<open>integrations/aws/storage\<close>), the data lake service over any
  storage provider (\<open>data_platform/datalake/services\<close>), and the registry providers are built from
  (\<open>data_platform/providers\<close>). The boto3 client and the local file system are parameters acting
  on a world \<open>'w\<close>.
\<close>

section \<open>Storage models\<close>

record storage_metadata =
  sm_content_type :: "string option"
  sm_content_length :: "int option"
  sm_etag :: "string option"
  sm_last_modified :: "int option"
  sm_metadata :: "(string, string) dict option"

record storage_object =
  so_location :: storage_location
  so_metadata :: "storage_metadata option"

text \<open>What is uploaded: a file of the local file system, or a stream of bytes.\<close>

datatype upload_source = From_path string | From_stream string

section \<open>The S3 client\<close>

record head_response =
  hr_content_type :: "string option"
  hr_content_length :: int
  hr_etag :: string
  hr_last_modified :: int
  hr_metadata :: "(string, string) dict option"

record s3_object =
  s3_key :: string
  s3_size :: int
  s3_etag :: string
  s3_last_modified :: int

text \<open>\<open>sa_error_code\<close> is the code of a \<open>ClientError\<close>, \<open>None\<close> for any other exception.\<close>

record 'w s3_api =
  sa_head_object :: "string \<Rightarrow> string \<Rightarrow> 'w \<Rightarrow> head_response outcome \<times> 'w"
  sa_upload_file :: "string \<Rightarrow> string \<Rightarrow> string \<Rightarrow> 'w \<Rightarrow> unit outcome \<times> 'w"
  sa_upload_fileobj :: "string \<Rightarrow> string \<Rightarrow> string \<Rightarrow> 'w \<Rightarrow> unit outcome \<times> 'w"
  sa_download_file :: "string \<Rightarrow> string \<Rightarrow> string \<Rightarrow> 'w \<Rightarrow> unit outcome \<times> 'w"
  sa_delete_object :: "string \<Rightarrow> string \<Rightarrow> 'w \<Rightarrow> unit outcome \<times> 'w"
  sa_copy_object :: "string \<Rightarrow> string \<Rightarrow> string \<times> string \<Rightarrow> 'w \<Rightarrow> unit outcome \<times> 'w"
  sa_list_objects :: "string \<Rightarrow> string \<Rightarrow> 'w \<Rightarrow> (s3_object list list \<times> exn option) \<times> 'w"
  sa_make_parents :: "string \<Rightarrow> 'w \<Rightarrow> unit outcome \<times> 'w"
  sa_error_code :: "exn \<Rightarrow> string option"

definition is_not_found :: "string \<Rightarrow> bool" where
  "is_not_found code \<longleftrightarrow> code \<in> {''404'', ''NoSuchKey'', ''NotFound''}"

definition to_storage_metadata :: "head_response \<Rightarrow> storage_metadata" where
  "to_storage_metadata r =
     \<lparr> sm_content_type = hr_content_type r, sm_content_length = Some (hr_content_length r),
       sm_etag = Some (trim (\<lambda>c. c = CHR 0x22) (hr_etag r)),
       sm_last_modified = Some (hr_last_modified r),
       sm_metadata = Some (case hr_metadata r of None \<Rightarrow> [] | Some m \<Rightarrow> m) \<rparr>"

definition to_storage_object :: "storage_location \<Rightarrow> head_response \<Rightarrow> storage_object" where
  "to_storage_object l r = \<lparr> so_location = l, so_metadata = Some (to_storage_metadata r) \<rparr>"

definition to_storage_object_summary :: "string \<Rightarrow> string \<Rightarrow> s3_object \<Rightarrow> storage_object outcome" where
  "to_storage_object_summary scheme bucket r =
     bindE (new_location scheme bucket (s3_key r)) (\<lambda>l.
       Inr \<lparr> so_location = l,
             so_metadata = Some
               \<lparr> sm_content_type = None, sm_content_length = Some (s3_size r),
                 sm_etag = Some (trim (\<lambda>c. c = CHR 0x22) (s3_etag r)),
                 sm_last_modified = Some (s3_last_modified r), sm_metadata = Some [] \<rparr> \<rparr>)"

section \<open>The S3 provider\<close>

definition s3_exists :: "'w s3_api \<Rightarrow> storage_location \<Rightarrow> ('w, bool) act" where
  "s3_exists api l =
     bindA (caught (call (sa_head_object api (sl_bucket l) (sl_key l)))) (\<lambda>r. case r of
       Inr _ \<Rightarrow> ret True
     | Inl e \<Rightarrow>
         (case sa_error_code api e of
            Some code \<Rightarrow> if is_not_found code then ret False else raise e
          | None \<Rightarrow> raise e))"

definition s3_upload :: "'w s3_api \<Rightarrow> storage_location \<Rightarrow> upload_source \<Rightarrow> ('w, unit) act" where
  "s3_upload api l source =
     (case source of
        From_path path \<Rightarrow> call (sa_upload_file api path (sl_bucket l) (sl_key l))
      | From_stream bytes \<Rightarrow> call (sa_upload_fileobj api bytes (sl_bucket l) (sl_key l)))"

definition s3_download :: "'w s3_api \<Rightarrow> storage_location \<Rightarrow> string \<Rightarrow> ('w, unit) act" where
  "s3_download api l destination =
     thenA (call (sa_make_parents api destination))
       (call (sa_download_file api (sl_bucket l) (sl_key l) destination))"

definition s3_delete :: "'w s3_api \<Rightarrow> storage_location \<Rightarrow> ('w, unit) act" where
  "s3_delete api l = call (sa_delete_object api (sl_bucket l) (sl_key l))"

definition s3_copy :: "'w s3_api \<Rightarrow> storage_location \<Rightarrow> storage_location \<Rightarrow> ('w, unit) act" where
  "s3_copy api source destination =
     call (sa_copy_object api (sl_bucket destination) (sl_key destination) (sl_bucket source, sl_key source))"

definition s3_move :: "'w s3_api \<Rightarrow> storage_location \<Rightarrow> storage_location \<Rightarrow> ('w, unit) act" where
  "s3_move api source destination = thenA (s3_copy api source destination) (s3_delete api source)"

text \<open>\<open>list\<close> is a generator; the callers consume all of it.\<close>

definition s3_list :: "'w s3_api \<Rightarrow> storage_location \<Rightarrow> ('w, storage_object list) act" where
  "s3_list api l =
     paged (to_storage_object_summary (sl_scheme l) (sl_bucket l)) (sa_list_objects api (sl_bucket l) (sl_key l))"

definition s3_head :: "'w s3_api \<Rightarrow> storage_location \<Rightarrow> ('w, storage_object) act" where
  "s3_head api l =
     bindA (call (sa_head_object api (sl_bucket l) (sl_key l))) (\<lambda>r. ret (to_storage_object l r))"

section \<open>Providers\<close>

text \<open>The methods of a \<open>StorageProvider\<close> and the one method of a \<open>CatalogProvider\<close> the stages call.\<close>

record 'w provider =
  pv_exists :: "storage_location \<Rightarrow> ('w, bool) act"
  pv_upload :: "storage_location \<Rightarrow> upload_source \<Rightarrow> ('w, unit) act"
  pv_download :: "storage_location \<Rightarrow> string \<Rightarrow> ('w, unit) act"
  pv_delete :: "storage_location \<Rightarrow> ('w, unit) act"
  pv_copy :: "storage_location \<Rightarrow> storage_location \<Rightarrow> ('w, unit) act"
  pv_move :: "storage_location \<Rightarrow> storage_location \<Rightarrow> ('w, unit) act"
  pv_list :: "storage_location \<Rightarrow> ('w, storage_object list) act"
  pv_head :: "storage_location \<Rightarrow> ('w, storage_object) act"
  pv_create_table :: "catalog_table \<Rightarrow> ('w, unit) act"

definition no_method :: "string \<Rightarrow> exn" where
  "no_method n = Exn ''AttributeError'' n"

definition s3_provider :: "'w s3_api \<Rightarrow> 'w provider" where
  "s3_provider api =
     \<lparr> pv_exists = s3_exists api, pv_upload = s3_upload api, pv_download = s3_download api,
       pv_delete = s3_delete api, pv_copy = s3_copy api, pv_move = s3_move api, pv_list = s3_list api,
       pv_head = s3_head api, pv_create_table = (\<lambda>_. raise (no_method ''create_table'')) \<rparr>"

definition glue_provider :: "'w glue_api \<Rightarrow> 'w provider" where
  "glue_provider api =
     \<lparr> pv_exists = (\<lambda>_. raise (no_method ''exists'')), pv_upload = (\<lambda>_ _. raise (no_method ''upload'')),
       pv_download = (\<lambda>_ _. raise (no_method ''download'')), pv_delete = (\<lambda>_. raise (no_method ''delete'')),
       pv_copy = (\<lambda>_ _. raise (no_method ''copy'')), pv_move = (\<lambda>_ _. raise (no_method ''move'')),
       pv_list = (\<lambda>_. raise (no_method ''list'')), pv_head = (\<lambda>_. raise (no_method ''head'')),
       pv_create_table = glue_create_table api \<rparr>"

section \<open>The registry and the factory\<close>

text \<open>A builder is named by \<open>'b\<close>; building a provider from the settings may raise.\<close>

type_synonym 'b registry = "(string, 'b) dict"

definition provider_not_found :: "string \<Rightarrow> exn" where
  "provider_not_found n = Exn ''ProviderNotFoundError'' n"

definition provider_already_registered :: "string \<Rightarrow> exn" where
  "provider_already_registered n = Exn ''ProviderAlreadyRegisteredError'' n"

definition registry_register :: "string \<Rightarrow> 'b \<Rightarrow> 'b registry \<Rightarrow> unit outcome \<times> 'b registry" where
  "registry_register n b r =
     (if map_of r n \<noteq> None then (Inl (provider_already_registered n), r) else (Inr (), AList.update n b r))"

definition registry_unregister :: "string \<Rightarrow> 'b registry \<Rightarrow> unit outcome \<times> 'b registry" where
  "registry_unregister n r =
     (if map_of r n = None then (Inl (provider_not_found n), r) else (Inr (), AList.delete n r))"

definition registry_contains :: "string \<Rightarrow> 'b registry \<Rightarrow> bool" where
  "registry_contains n r \<longleftrightarrow> map_of r n \<noteq> None"

definition registry_get :: "string \<Rightarrow> 'b registry \<Rightarrow> 'b outcome" where
  "registry_get n r = (case map_of r n of None \<Rightarrow> Inl (provider_not_found n) | Some b \<Rightarrow> Inr b)"

definition registry_providers :: "'b registry \<Rightarrow> string list" where
  "registry_providers r = sort (map fst r)"

definition registry_clear :: "'b registry \<Rightarrow> 'b registry" where
  "registry_clear r = []"

record ('b, 'w) provider_factory =
  pf_registry :: "'b registry"
  pf_build :: "'b \<Rightarrow> 'w \<Rightarrow> 'w provider outcome \<times> 'w"

definition factory_create :: "('b, 'w) provider_factory \<Rightarrow> string \<Rightarrow> ('w, 'w provider) act" where
  "factory_create f n = bindA (lift (registry_get n (pf_registry f))) (\<lambda>b. call (pf_build f b))"

definition no_factory_error :: "string \<Rightarrow> string \<Rightarrow> exn" where
  "no_factory_error stage_name n = runtime_error (''Stage '' @ quoted stage_name @
     '' attempted to resolve provider '' @ quoted n @
     '', but no ProviderFactory was injected into this Stage. Pass a ProviderFactory when constructing the Stage.'')"

definition resolve_provider ::
  "string \<Rightarrow> ('b, 'w) provider_factory option \<Rightarrow> string \<Rightarrow> ('w, 'w provider) act" where
  "resolve_provider stage_name factory n =
     (case factory of None \<Rightarrow> raise (no_factory_error stage_name n) | Some f \<Rightarrow> factory_create f n)"

section \<open>The data lake service\<close>

record 'w lake_service =
  ls_storage :: "'w provider"
  ls_lake :: datalake_location

definition lake_location :: "'w lake_service \<Rightarrow> data_object \<Rightarrow> storage_location outcome" where
  "lake_location s obj = object_location (ls_lake s) obj"

definition lake_exists :: "'w lake_service \<Rightarrow> data_object \<Rightarrow> ('w, bool) act" where
  "lake_exists s obj = bindA (lift (lake_location s obj)) (pv_exists (ls_storage s))"

definition lake_upload :: "'w lake_service \<Rightarrow> data_object \<Rightarrow> upload_source \<Rightarrow> ('w, unit) act" where
  "lake_upload s obj source = bindA (lift (lake_location s obj)) (\<lambda>l. pv_upload (ls_storage s) l source)"

definition lake_download :: "'w lake_service \<Rightarrow> data_object \<Rightarrow> string \<Rightarrow> ('w, unit) act" where
  "lake_download s obj destination =
     bindA (lift (lake_location s obj)) (\<lambda>l. pv_download (ls_storage s) l destination)"

definition lake_delete :: "'w lake_service \<Rightarrow> data_object \<Rightarrow> ('w, unit) act" where
  "lake_delete s obj = bindA (lift (lake_location s obj)) (pv_delete (ls_storage s))"

definition lake_head :: "'w lake_service \<Rightarrow> data_object \<Rightarrow> ('w, storage_object) act" where
  "lake_head s obj = bindA (lift (lake_location s obj)) (pv_head (ls_storage s))"

definition lake_list :: "'w lake_service \<Rightarrow> data_object \<Rightarrow> ('w, storage_object list) act" where
  "lake_list s obj = bindA (lift (lake_location s obj)) (pv_list (ls_storage s))"

definition lake_copy :: "'w lake_service \<Rightarrow> storage_location \<Rightarrow> storage_location \<Rightarrow> ('w, unit) act" where
  "lake_copy s source destination = pv_copy (ls_storage s) source destination"

definition lake_move :: "'w lake_service \<Rightarrow> storage_location \<Rightarrow> storage_location \<Rightarrow> ('w, unit) act" where
  "lake_move s source destination = pv_move (ls_storage s) source destination"

end
