(* ===== verification/Debezium.thy ===== *)
theory Debezium
  imports Prelude
begin

text \<open>
  Decoding of Debezium change events (\<open>integrations/kafka/messaging/debezium_envelope.py\<close>) and the Bronze
  schema of an entity (\<open>data_platform/compute/bronze_schema.py\<close>). \<open>json.loads\<close>, \<open>datetime.fromisoformat\<close>,
  the conversion of a float into a number of days and pyarrow's decimal type are parameters.
\<close>

section \<open>JSON values\<close>

text \<open>
  What \<open>json.loads\<close> returns; a float is named by its \<open>repr\<close>, an object is the dictionary of its
  members. Bytes are 8-bit characters.
\<close>

type_synonym bytes = string

datatype json =
    JNull | JBool bool | JInt int | JFloat string | JStr string
  | JList "json list" | JObj "(string \<times> json) list"

definition type_error :: "string \<Rightarrow> exn" where
  "type_error s = Exn ''TypeError'' s"

definition attribute_error :: "string \<Rightarrow> exn" where
  "attribute_error s = Exn ''AttributeError'' s"

definition key_error :: "string \<Rightarrow> exn" where
  "key_error k = Exn ''KeyError'' (quoted k)"

text \<open>\<open>v[k]\<close> with a string key, \<open>v.get(k)\<close>, \<open>v.items()\<close> and \<open>for x in v\<close>.\<close>

fun json_sub :: "json \<Rightarrow> string \<Rightarrow> json outcome" where
  "json_sub (JObj kvs) k = (case map_of kvs k of None \<Rightarrow> Inl (key_error k) | Some v \<Rightarrow> Inr v)"
| "json_sub v k = Inl (type_error ''not subscriptable by a string'')"

fun json_get :: "json \<Rightarrow> string \<Rightarrow> json outcome" where
  "json_get (JObj kvs) k = Inr (case map_of kvs k of None \<Rightarrow> JNull | Some v \<Rightarrow> v)"
| "json_get v k = Inl (attribute_error ''get'')"

fun json_items :: "json \<Rightarrow> (string \<times> json) list outcome" where
  "json_items (JObj kvs) = Inr kvs"
| "json_items v = Inl (attribute_error ''items'')"

fun json_iter :: "json \<Rightarrow> json list outcome" where
  "json_iter (JList xs) = Inr xs"
| "json_iter (JObj kvs) = Inr (map (JStr \<circ> fst) kvs)"
| "json_iter (JStr s) = Inr (map (\<lambda>c. JStr [c]) s)"
| "json_iter v = Inl (type_error ''not iterable'')"

fun hashable :: "json \<Rightarrow> bool" where
  "hashable (JList _) = False"
| "hashable (JObj _) = False"
| "hashable _ = True"

section \<open>Change events\<close>

text \<open>Decoded values: JSON as it came, a timestamp (microseconds), a date (days), a decimal.\<close>

datatype bz_value = Plain json | Timestamp int | DateV int | DecimalV string

record codec =
  cd_loads :: "bytes \<Rightarrow> json outcome"
  cd_fromisoformat :: "string \<Rightarrow> int outcome"
  cd_float_days :: "string \<Rightarrow> int outcome"

type_synonym bz_record = "(string, bz_value) dict"

record debezium_change =
  dc_entity :: json
  dc_op :: json
  dc_record :: "bz_record option"
  dc_source_ts_ms :: "json option"

definition zoned_timestamp :: string where
  "zoned_timestamp = ''io.debezium.time.ZonedTimestamp''"

definition connect_date :: string where
  "connect_date = ''org.apache.kafka.connect.data.Date''"

text \<open>
  \<open>_EPOCH_DATE + timedelta(days=n)\<close>: the dates from 0001-01-01 to 9999-12-31, as days from
  1970-01-01; \<open>timedelta\<close> itself takes at most 999999999 days.
\<close>

definition epoch_plus :: "int \<Rightarrow> bz_value outcome" where
  "epoch_plus n =
     (if - 719162 \<le> n \<and> n \<le> 2932896 then Inr (DateV n)
      else Inl (Exn ''OverflowError'' ''date value out of range''))"

fun timedelta_days :: "codec \<Rightarrow> json \<Rightarrow> int outcome" where
  "timedelta_days cd (JInt n) = Inr n"
| "timedelta_days cd (JBool b) = Inr (if b then 1 else 0)"
| "timedelta_days cd (JFloat s) = cd_float_days cd s"
| "timedelta_days cd v = Inl (type_error ''unsupported type for timedelta days component'')"

fun from_isoformat :: "codec \<Rightarrow> json \<Rightarrow> int outcome" where
  "from_isoformat cd (JStr s) = cd_fromisoformat cd s"
| "from_isoformat cd v = Inl (type_error ''fromisoformat: argument must be str'')"

definition decode_value :: "codec \<Rightarrow> json \<Rightarrow> json option \<Rightarrow> bz_value outcome" where
  "decode_value cd v logical =
     (if v = JNull then Inr (Plain JNull)
      else if logical = Some (JStr zoned_timestamp) then
        bindE (from_isoformat cd v) (\<lambda>t. Inr (Timestamp t))
      else if logical = Some (JStr connect_date) then
        bindE (timedelta_days cd v) epoch_plus
      else Inr (Plain v))"

text \<open>The dictionary comprehension: later columns of the same name replace earlier ones.\<close>

fun logical_columns :: "json list \<Rightarrow> (json, json) dict \<Rightarrow> (json, json) dict outcome" where
  "logical_columns [] d = Inr d"
| "logical_columns (column # cs) d =
     bindE (json_sub column ''field'') (\<lambda>k.
     bindE (json_get column ''name'') (\<lambda>v.
       if hashable k then logical_columns cs (AList.update k v d)
       else Inl (type_error ''unhashable type'')))"

fun logical_types_in :: "json list \<Rightarrow> string \<Rightarrow> (json, json) dict outcome" where
  "logical_types_in [] field_name =
     Inl (value_error (''Debezium envelope schema has no '' @ quoted field_name @ '' struct field.''))"
| "logical_types_in (fld # fs) field_name =
     bindE (json_get fld ''field'') (\<lambda>n.
       if n = JStr field_name then
         bindE (json_get fld ''type'') (\<lambda>t.
           if t = JStr ''struct'' then
             bindE (json_sub fld ''fields'') (\<lambda>cols.
             bindE (json_iter cols) (\<lambda>cs. logical_columns cs []))
           else logical_types_in fs field_name)
       else logical_types_in fs field_name)"

definition logical_types_for :: "json \<Rightarrow> string \<Rightarrow> (json, json) dict outcome" where
  "logical_types_for schema field_name =
     bindE (json_sub schema ''fields'') (\<lambda>fs.
     bindE (json_iter fs) (\<lambda>xs. logical_types_in xs field_name))"

fun decode_columns :: "codec \<Rightarrow> (json, json) dict \<Rightarrow> (string \<times> json) list \<Rightarrow> bz_record outcome" where
  "decode_columns cd types [] = Inr []"
| "decode_columns cd types ((column, v) # rest) =
     bindE (decode_value cd v (map_of types (JStr column))) (\<lambda>w.
     bindE (decode_columns cd types rest) (\<lambda>ws. Inr ((column, w) # ws)))"

definition decode_row ::
  "codec \<Rightarrow> json \<Rightarrow> json \<Rightarrow> json \<Rightarrow> json \<Rightarrow> json \<Rightarrow> string \<Rightarrow> debezium_change outcome" where
  "decode_row cd schema payload op entity raw_record field_name =
     bindE (logical_types_for schema field_name) (\<lambda>types.
     bindE (json_items raw_record) (\<lambda>items.
     bindE (decode_columns cd types items) (\<lambda>row.
     bindE (json_sub payload ''source'') (\<lambda>src.
     bindE (json_sub src ''ts_ms'') (\<lambda>ts.
       Inr \<lparr> dc_entity = entity, dc_op = op, dc_record = Some row, dc_source_ts_ms = Some ts \<rparr>)))))"

definition decode_debezium_message :: "codec \<Rightarrow> bytes \<Rightarrow> debezium_change outcome" where
  "decode_debezium_message cd value =
     bindE (cd_loads cd value) (\<lambda>envelope.
     bindE (json_sub envelope ''payload'') (\<lambda>payload.
     bindE (json_sub envelope ''schema'') (\<lambda>schema.
     bindE (json_sub payload ''op'') (\<lambda>op.
     bindE (json_sub payload ''source'') (\<lambda>source.
     bindE (json_sub source ''table'') (\<lambda>entity.
     bindE (json_get payload ''after'') (\<lambda>after.
     bindE (json_get payload ''before'') (\<lambda>before.
       if after \<noteq> JNull then decode_row cd schema payload op entity after ''after''
       else if before \<noteq> JNull then decode_row cd schema payload op entity before ''before''
       else Inr \<lparr> dc_entity = entity, dc_op = op, dc_record = None, dc_source_ts_ms = None \<rparr>))))))))"

section \<open>Bronze schemas\<close>

datatype arrow_type =
    ArrowBool | ArrowInt16 | ArrowInt32 | ArrowInt64 | ArrowString | ArrowDate32
  | ArrowTimestampUsUTC | ArrowDecimal128 int int

type_synonym arrow_schema = "(string \<times> arrow_type) list"

definition data_type_to_arrow :: "(string, arrow_type) dict" where
  "data_type_to_arrow =
     [(''boolean'', ArrowBool), (''smallint'', ArrowInt16), (''integer'', ArrowInt32),
      (''text'', ArrowString), (''character varying'', ArrowString), (''date'', ArrowDate32),
      (''timestamp with time zone'', ArrowTimestampUsUTC), (''uuid'', ArrowString)]"

text \<open>A row of \<open>information_schema.columns\<close>: name, data type, precision and scale.\<close>

type_synonym column_row = "string \<times> string \<times> int option \<times> int option"

definition arrow_type_of ::
  "(int \<Rightarrow> int \<Rightarrow> arrow_type outcome) \<Rightarrow> string \<Rightarrow> string \<Rightarrow> int option \<Rightarrow> int option \<Rightarrow> arrow_type outcome" where
  "arrow_type_of decimal128 column_name data_type precision scale =
     (if data_type = ''numeric'' then
        (case (precision, scale) of
           (Some p, Some sc) \<Rightarrow> decimal128 p sc
         | _ \<Rightarrow> Inl (value_error (''Column '' @ quoted column_name @ '' is numeric without a '' @
             ''precision/scale -- add explicit handling before resolving its schema.'')))
      else
        (case map_of data_type_to_arrow data_type of
           Some t \<Rightarrow> Inr t
         | None \<Rightarrow> Inl (value_error (''Column '' @ quoted column_name @ '' has Postgres data_type '' @
             quoted data_type @ '', which is not mapped to an Arrow type yet '' @
             ''-- add it to _DATA_TYPE_TO_ARROW before resolving it.''))))"

text \<open>\<open>rows\<close> is what the query returns for the schema and the table, in ordinal order.\<close>

definition resolve_bronze_schema ::
  "(int \<Rightarrow> int \<Rightarrow> arrow_type outcome) \<Rightarrow> (string \<Rightarrow> string \<Rightarrow> column_row list) \<Rightarrow> string \<Rightarrow> string \<Rightarrow> bool \<Rightarrow>
     arrow_schema outcome" where
  "resolve_bronze_schema decimal128 query entity schema_name include_cdc_metadata =
     (let rows = query schema_name entity in
      if rows = [] then
        Inl (value_error (''No columns found for '' @ quoted (schema_name @ ''.'' @ entity) @
          '' -- check the entity name.''))
      else
        bindE (mapE (\<lambda>(column_name, data_type, precision, scale).
                  bindE (arrow_type_of decimal128 column_name data_type precision scale)
                    (\<lambda>t. Inr (column_name, t))) rows)
          (\<lambda>fields. Inr (fields @ (if include_cdc_metadata then [(''_cdc_ts_ms'', ArrowInt64)] else []))))"

text \<open>\<open>Decimal(str(round(value, scale)))\<close> of the float named \<open>s\<close> is \<open>round_dec s scale\<close>.\<close>

definition coerce_field :: "(string \<Rightarrow> int \<Rightarrow> string) \<Rightarrow> string \<times> arrow_type \<Rightarrow> bz_record \<Rightarrow> bz_record" where
  "coerce_field round_dec fld coerced =
     (case fld of
        (name, ArrowDecimal128 p scale) \<Rightarrow>
          (case map_of coerced name of
             Some (Plain (JFloat s)) \<Rightarrow> AList.update name (DecimalV (round_dec s scale)) coerced
           | _ \<Rightarrow> coerced)
      | _ \<Rightarrow> coerced)"

definition coerce_record :: "(string \<Rightarrow> int \<Rightarrow> string) \<Rightarrow> bz_record \<Rightarrow> arrow_schema \<Rightarrow> bz_record" where
  "coerce_record round_dec record schema = fold (coerce_field round_dec) schema record"

section \<open>Facts about schemas and coercion\<close>

fun coerce_cell :: "(string \<Rightarrow> int \<Rightarrow> string) \<Rightarrow> arrow_type \<Rightarrow> bz_value \<Rightarrow> bz_value" where
  "coerce_cell round_dec (ArrowDecimal128 p scale) (Plain (JFloat s)) = DecimalV (round_dec s scale)"
| "coerce_cell round_dec t v = v"

lemma coerce_field_keys: "map fst (coerce_field round_dec fld r) = map fst r"
proof -
  have "map_of r name \<noteq> None \<Longrightarrow> map fst (AList.update name w r) = map fst r" for name w
    by (simp add: update_keys map_of_eq_None_iff)
  then show ?thesis
    by (auto simp: coerce_field_def split: prod.split arrow_type.split option.split bz_value.split json.split)
qed

lemma coerce_field_lookup:
  "map_of (coerce_field round_dec (name, t) r) k =
     (if k = name then map_option (coerce_cell round_dec t) (map_of r k) else map_of r k)"
  by (cases t; cases "map_of r name")
     (auto simp: coerce_field_def dict_simps split: bz_value.split json.split)

lemma coerce_record_keys: "map fst (coerce_record round_dec r schema) = map fst r"
  unfolding coerce_record_def
  by (induction schema arbitrary: r) (simp_all add: coerce_field_keys)

lemma coerce_record_lookup:
  assumes "distinct (map fst schema)"
  shows "map_of (coerce_record round_dec r schema) k =
    (case map_of schema k of
       None \<Rightarrow> map_of r k
     | Some t \<Rightarrow> map_option (coerce_cell round_dec t) (map_of r k))"
  using assms unfolding coerce_record_def
proof (induction schema arbitrary: r)
  case Nil
  then show ?case by simp
next
  case (Cons fld schema)
  obtain name t where fld: "fld = (name, t)" by (cases fld)
  have "map_of schema name = None"
    using Cons.prems by (simp add: fld map_of_eq_None_iff)
  with Cons.IH Cons.prems show ?case
    by (auto simp: fld coerce_field_lookup split: option.splits)
qed

lemma coerce_cell_idem: "coerce_cell round_dec t (coerce_cell round_dec t v) = coerce_cell round_dec t v"
  by (induction round_dec t v rule: coerce_cell.induct) simp_all

lemma mapE_fst:
  "mapE (\<lambda>(n, t, p, sc). bindE (g n t p sc) (\<lambda>w. Inr (n, w))) rows = Inr fs \<Longrightarrow>
    map fst fs = map fst rows"
  by (induction rows arbitrary: fs) (auto simp: bindE_eq_Inr_iff)

section \<open>What a decoded row is\<close>

text \<open>The member of an object, if the value is an object that has it.\<close>

fun json_member :: "json \<Rightarrow> string \<Rightarrow> json option" where
  "json_member (JObj kvs) k = map_of kvs k"
| "json_member v k = None"

lemma json_sub_iff: "json_sub j k = Inr v \<longleftrightarrow> json_member j k = Some v"
  by (cases j) (auto split: option.splits)

lemma json_get_of: "json_member j k' = Some v \<Longrightarrow> json_get j k = Inr (case json_member j k of None \<Rightarrow> JNull | Some v \<Rightarrow> v)"
  by (cases j) auto

text \<open>The logical type the schema gives a column: the \<open>name\<close> of the last column with that \<open>field\<close>, null if it has none.\<close>

fun column_type :: "json list \<Rightarrow> string \<Rightarrow> json option" where
  "column_type [] k = None"
| "column_type (c # cs) k =
     (case column_type cs k of
        Some t \<Rightarrow> Some t
      | None \<Rightarrow>
          if json_member c ''field'' = Some (JStr k) then Some (case json_member c ''name'' of None \<Rightarrow> JNull | Some t \<Rightarrow> t)
          else None)"

definition named_column :: "json \<Rightarrow> bool" where
  "named_column c \<longleftrightarrow> (\<exists>n. json_member c ''field'' = Some (JStr n))"

text \<open>The schema describes the image called \<open>side\<close> by the columns \<open>cols\<close>, in the first struct of that name.\<close>

definition describes :: "json \<Rightarrow> string \<Rightarrow> json list \<Rightarrow> bool" where
  "describes schema side cols \<longleftrightarrow>
     (\<exists>fs fld. json_member schema ''fields'' = Some (JList fs) \<and> list_all (\<lambda>f. \<exists>kvs. f = JObj kvs) fs \<and>
        find (\<lambda>f. json_member f ''field'' = Some (JStr side) \<and> json_member f ''type'' = Some (JStr ''struct'')) fs = Some fld \<and>
        json_member fld ''fields'' = Some (JList cols) \<and> list_all named_column cols)"

text \<open>A cell of that logical type holds \<open>v\<close> and decodes to \<open>w\<close>.\<close>

definition cell_decodes :: "codec \<Rightarrow> json option \<Rightarrow> json \<Rightarrow> bz_value \<Rightarrow> bool" where
  "cell_decodes cd logical v w \<longleftrightarrow>
     (case w of
        Plain j \<Rightarrow> j = v \<and> (v = JNull \<or> logical \<notin> {Some (JStr zoned_timestamp), Some (JStr connect_date)})
      | Timestamp t \<Rightarrow> logical = Some (JStr zoned_timestamp) \<and> (\<exists>s. v = JStr s \<and> cd_fromisoformat cd s = Inr t)
      | DateV d \<Rightarrow> logical = Some (JStr connect_date) \<and> timedelta_days cd v = Inr d \<and> - 719162 \<le> d \<and> d \<le> 2932896
      | DecimalV s \<Rightarrow> False)"

lemma zoned_neq_date [simp]: "zoned_timestamp \<noteq> connect_date" "connect_date \<noteq> zoned_timestamp"
  by (simp_all add: zoned_timestamp_def connect_date_def)

lemma from_isoformat_iff: "from_isoformat cd v = Inr t \<longleftrightarrow> (\<exists>s. v = JStr s \<and> cd_fromisoformat cd s = Inr t)"
  by (cases v) auto

lemma decode_value_iff: "decode_value cd v logical = Inr w \<longleftrightarrow> cell_decodes cd logical v w"
proof (cases "v = JNull")
  case True
  then show ?thesis by (cases w) (auto simp: decode_value_def cell_decodes_def)
next
  case False
  then show ?thesis
    by (cases w)
       (auto simp: decode_value_def cell_decodes_def epoch_plus_def bindE_eq_Inr_iff from_isoformat_iff split: if_splits)
qed

lemma decode_columns_iff:
  "decode_columns cd types items = Inr row \<longleftrightarrow>
     list_all2 (\<lambda>(k, v) (k', w). k' = k \<and> cell_decodes cd (map_of types (JStr k)) v w) items row"
  by (induction cd types items arbitrary: row rule: decode_columns.induct)
     (auto simp: bindE_eq_Inr_iff decode_value_iff list_all2_Cons1)

lemma logical_columns_type:
  assumes "list_all named_column cs"
  shows "\<exists>types. logical_columns cs d = Inr types \<and>
    (\<forall>k. map_of types (JStr k) = (case column_type cs k of None \<Rightarrow> map_of d (JStr k) | Some t \<Rightarrow> Some t))"
  using assms
proof (induction cs arbitrary: d)
  case (Cons c cs)
  obtain n where n: "json_member c ''field'' = Some (JStr n)" using Cons.prems by (auto simp: named_column_def)
  let ?t = "case json_member c ''name'' of None \<Rightarrow> JNull | Some t \<Rightarrow> t"
  obtain types where types: "logical_columns cs (AList.update (JStr n) ?t d) = Inr types"
    "\<And>k. map_of types (JStr k) = (case column_type cs k of
       None \<Rightarrow> map_of (AList.update (JStr n) ?t d) (JStr k) | Some t \<Rightarrow> Some t)"
    using Cons by fastforce
  have "logical_columns (c # cs) d = Inr types"
    using n types(1) json_sub_iff [of c "''field''" "JStr n"] json_get_of [OF n, of "''name''"] by simp
  then show ?case using n types(2) by (auto simp: dict_simps split: option.split)
qed simp

lemma logical_types_in_find:
  assumes "list_all (\<lambda>f. \<exists>kvs. f = JObj kvs) fs"
    and "find (\<lambda>f. json_member f ''field'' = Some (JStr side) \<and> json_member f ''type'' = Some (JStr ''struct'')) fs = Some fld"
    and "json_member fld ''fields'' = Some (JList cols)"
  shows "logical_types_in fs side = logical_columns cols []"
  using assms(1,2)
proof (induction fs)
  case (Cons f fs)
  obtain kvs where f: "f = JObj kvs" using Cons.prems by auto
  show ?case
    using Cons assms(3) json_sub_iff [of fld "''fields''" "JList cols"]
    by (auto simp: f split: if_splits option.splits)
qed simp

lemma describes_types:
  assumes "describes schema side cols"
  shows "\<exists>types. logical_types_for schema side = Inr types \<and> (\<forall>k. map_of types (JStr k) = column_type cols k)"
proof -
  obtain fs fld where s: "json_member schema ''fields'' = Some (JList fs)" "list_all (\<lambda>f. \<exists>kvs. f = JObj kvs) fs"
      "find (\<lambda>f. json_member f ''field'' = Some (JStr side) \<and> json_member f ''type'' = Some (JStr ''struct'')) fs = Some fld"
      "json_member fld ''fields'' = Some (JList cols)" and named: "list_all named_column cols"
    using assms by (auto simp: describes_def)
  obtain types where "logical_columns cols [] = Inr types"
    "\<forall>k. map_of types (JStr k) = (case column_type cols k of None \<Rightarrow> map_of [] (JStr k) | Some t \<Rightarrow> Some t)"
    using logical_columns_type [OF named] by blast
  moreover from this have "\<forall>k. map_of types (JStr k) = column_type cols k" by (simp split: option.split)
  moreover have "json_sub schema ''fields'' = Inr (JList fs)" using s(1) by (simp add: json_sub_iff)
  ultimately show ?thesis by (simp add: logical_types_for_def logical_types_in_find [OF s(2-4)])
qed

text \<open>The image a change event carries: the row after the change, or, when there is none, the row before it.\<close>

definition event_image :: "json \<Rightarrow> string \<Rightarrow> (string \<times> json) list \<Rightarrow> bool" where
  "event_image payload side raw \<longleftrightarrow>
     side = ''after'' \<and> json_member payload ''after'' = Some (JObj raw) \<or>
     side = ''before'' \<and> json_member payload ''after'' \<in> {None, Some JNull} \<and> json_member payload ''before'' = Some (JObj raw)"

section \<open>Properties\<close>

text \<open>
  C9. A change event decodes to exactly the row it carries. For an event with the fields of Debezium's
  envelope, decoding returns the table, the operation and the source's timestamp of the event, and the row whose cells
  are those of its image (\<open>after\<close>, or \<open>before\<close> of a delete), column by column: null and plain values as they are, an
  ISO timestamp as the instant \<open>fromisoformat\<close> reads, a number of days as a date in Python's range, by
  the logical type the schema gives the column. It raises when, and only when, a cell has no such value.
\<close>

theorem debezium_row_decoded:
  assumes "cd_loads cd message = Inr envelope" and "json_member envelope ''payload'' = Some payload"
    and "json_member envelope ''schema'' = Some schema" and "json_member payload ''op'' = Some op"
    and "json_member payload ''source'' = Some source" and "json_member source ''table'' = Some table"
    and "json_member source ''ts_ms'' = Some ts" and "event_image payload side raw" and "describes schema side cols"
  shows "decode_debezium_message cd message = Inr change \<longleftrightarrow>
    (\<exists>row. change = \<lparr> dc_entity = table, dc_op = op, dc_record = Some row, dc_source_ts_ms = Some ts \<rparr> \<and>
       list_all2 (\<lambda>(k, v) (k', w). k' = k \<and> cell_decodes cd (column_type cols k) v w) raw row)"
proof -
  note sub = assms(2-7) [folded json_sub_iff]
  note got = json_get_of [OF assms(4)]
  obtain types where types: "logical_types_for schema side = Inr types" "\<forall>k. map_of types (JStr k) = column_type cols k"
    using describes_types [OF assms(9)] by blast
  have "decode_debezium_message cd message = decode_row cd schema payload op table (JObj raw) side"
    using assms(1,8) sub by (auto simp: decode_debezium_message_def got event_image_def)
  also have "\<dots> = bindE (decode_columns cd types raw) (\<lambda>row.
      Inr \<lparr> dc_entity = table, dc_op = op, dc_record = Some row, dc_source_ts_ms = Some ts \<rparr>)"
    using sub by (simp add: decode_row_def types)
  finally show ?thesis by (auto simp: bindE_eq_Inr_iff decode_columns_iff types(2))
qed

text \<open>
  Coercion touches decimals only. For any record and schema without duplicate columns,
  \<open>coerce_record\<close> keeps the columns and their order, replaces a float in a decimal column by the
  rounded decimal, leaves every other value as it is, and coercing again changes nothing.
\<close>

theorem coerce_record_only_decimals:
  assumes "distinct (map fst schema)"
  shows "map fst (coerce_record round_dec r schema) = map fst r \<and>
    (\<forall>k. map_of (coerce_record round_dec r schema) k =
      (case (map_of schema k, map_of r k) of
         (Some (ArrowDecimal128 p scale), Some (Plain (JFloat s))) \<Rightarrow> Some (DecimalV (round_dec s scale))
       | (_, v) \<Rightarrow> v)) \<and>
    map_of (coerce_record round_dec (coerce_record round_dec r schema) schema) =
      map_of (coerce_record round_dec r schema)"
proof -
  have cell: "map_option (coerce_cell round_dec t) v =
      (case (Some t, v) of
         (Some (ArrowDecimal128 p scale), Some (Plain (JFloat s))) \<Rightarrow> Some (DecimalV (round_dec s scale))
       | (_, v) \<Rightarrow> v)" for t v
    by (cases t; cases v) (auto split: bz_value.split json.split)
  have look: "map_of (coerce_record round_dec r schema) k =
      (case (map_of schema k, map_of r k) of
         (Some (ArrowDecimal128 p scale), Some (Plain (JFloat s))) \<Rightarrow> Some (DecimalV (round_dec s scale))
       | (_, v) \<Rightarrow> v)" for k
  proof (cases "map_of schema k")
    case None
    then show ?thesis by (simp add: coerce_record_lookup [OF assms])
  next
    case (Some t)
    show ?thesis
      unfolding coerce_record_lookup [OF assms] Some option.case by (rule cell)
  qed
  have "map_of (coerce_record round_dec (coerce_record round_dec r schema) schema) =
      map_of (coerce_record round_dec r schema)"
    by (rule ext)
       (simp add: coerce_record_lookup [OF assms] option.map_comp comp_def coerce_cell_idem split: option.split)
  with look show ?thesis
    by (intro conjI allI) (rule coerce_record_keys, assumption+)
qed

text \<open>The message of a deleted order, and a codec that reads it.\<close>

definition sample_columns :: "json list" where
  "sample_columns =
     [JObj [(''type'', JStr ''string''), (''name'', JStr ''io.debezium.data.Uuid''), (''field'', JStr ''id'')],
      JObj [(''type'', JStr ''string''), (''name'', JStr zoned_timestamp), (''field'', JStr ''created_at'')],
      JObj [(''type'', JStr ''int32''), (''name'', JStr connect_date), (''field'', JStr ''due'')],
      JObj [(''type'', JStr ''double''), (''field'', JStr ''price'')]]"

definition sample_cells :: "(string \<times> json) list" where
  "sample_cells = [(''id'', JStr ''u-1''), (''created_at'', JStr ''2024-05-01T12:00:00Z''), (''due'', JInt 19000),
     (''price'', JFloat ''10.5'')]"

definition sample_row :: bz_record where
  "sample_row = [(''id'', Plain (JStr ''u-1'')), (''created_at'', Timestamp 1714564800000000), (''due'', DateV 19000),
     (''price'', Plain (JFloat ''10.5''))]"

definition sample_event_schema :: json where
  "sample_event_schema = JObj [(''type'', JStr ''struct''), (''fields'', JList
     [JObj [(''type'', JStr ''struct''), (''fields'', JList sample_columns), (''field'', JStr ''before'')],
      JObj [(''type'', JStr ''struct''), (''fields'', JList sample_columns), (''field'', JStr ''after'')],
      JObj [(''type'', JStr ''string''), (''field'', JStr ''op'')]])]"

definition sample_source :: json where
  "sample_source = JObj [(''ts_ms'', JInt 1700), (''schema'', JStr ''marketplace''), (''table'', JStr ''orders'')]"

definition sample_payload :: json where
  "sample_payload = JObj [(''before'', JObj sample_cells), (''after'', JNull), (''source'', sample_source), (''op'', JStr ''d'')]"

definition sample_envelope :: json where
  "sample_envelope = JObj [(''schema'', sample_event_schema), (''payload'', sample_payload)]"

definition sample_codec :: codec where
  "sample_codec =
     \<lparr> cd_loads = (\<lambda>m. if m = ''deleted'' then Inr sample_envelope else Inl (value_error m)),
       cd_fromisoformat = (\<lambda>s. if s = ''2024-05-01T12:00:00Z'' then Inr 1714564800000000
          else Inl (value_error (''Invalid isoformat string: '' @ quoted s))),
       cd_float_days = (\<lambda>s. Inl (value_error s)) \<rparr>"

lemma debezium_row_decoded_witness:
  "decode_debezium_message sample_codec ''deleted'' =
    Inr \<lparr> dc_entity = JStr ''orders'', dc_op = JStr ''d'', dc_record = Some sample_row,
          dc_source_ts_ms = Some (JInt 1700) \<rparr>"
proof (rule debezium_row_decoded [THEN iffD2])
  show "cd_loads sample_codec ''deleted'' = Inr sample_envelope" by (simp add: sample_codec_def)
  show "json_member sample_envelope ''payload'' = Some sample_payload" "json_member sample_envelope ''schema'' = Some sample_event_schema"
    by (simp_all add: sample_envelope_def)
  show "json_member sample_payload ''op'' = Some (JStr ''d'')" "json_member sample_payload ''source'' = Some sample_source"
    "event_image sample_payload ''before'' sample_cells"
    by (simp_all add: sample_payload_def event_image_def)
  show "json_member sample_source ''table'' = Some (JStr ''orders'')" "json_member sample_source ''ts_ms'' = Some (JInt 1700)"
    by (simp_all add: sample_source_def)
  show "describes sample_event_schema ''before'' sample_columns"
    by (simp add: describes_def sample_event_schema_def sample_columns_def named_column_def)
  show "\<exists>row. \<lparr> dc_entity = JStr ''orders'', dc_op = JStr ''d'', dc_record = Some sample_row, dc_source_ts_ms = Some (JInt 1700) \<rparr> =
      \<lparr> dc_entity = JStr ''orders'', dc_op = JStr ''d'', dc_record = Some row, dc_source_ts_ms = Some (JInt 1700) \<rparr> \<and>
      list_all2 (\<lambda>(k, v) (k', w). k' = k \<and> cell_decodes sample_codec (column_type sample_columns k) v w) sample_cells row"
    by (simp add: sample_cells_def sample_row_def sample_columns_def cell_decodes_def sample_codec_def
        zoned_timestamp_def connect_date_def)
qed

lemma coerce_record_only_decimals_witness:
  "map_of (coerce_record (\<lambda>s n. s @ ''0'') sample_row [(''price'', ArrowDecimal128 10 2), (''id'', ArrowString)]) ''price'' =
    Some (DecimalV ''10.50'')"
  using coerce_record_only_decimals [of "[(''price'', ArrowDecimal128 10 2), (''id'', ArrowString)]"
      "\<lambda>s n. s @ ''0''" sample_row]
  by (simp add: sample_row_def)

end
