(* ===== verification/Kafka.thy ===== *)
theory Kafka
  imports Prelude
begin

text \<open>
  The Kafka messaging provider (\<open>integrations/kafka/messaging/kafka_messaging_provider.py\<close>): one
  cached consumer per topic and group, batches, commits with a deadline, recovery from a lost
  assignment, and lag. The client library \<open>confluent_kafka\<close> is a parameter: a record of its
  calls on a handle \<open>'c\<close> and a world \<open>'w\<close>.
\<close>

section \<open>Messages and the client library\<close>

type_synonym kbytes = string

record message =
  ms_topic :: string
  ms_key :: "string option"
  ms_value :: kbytes
  ms_partition :: "int option"
  ms_offset :: "int option"
  ms_headers :: "(string, kbytes) dict"

text \<open>A record of the client library. A header whose value is not bytes has \<open>None\<close>.\<close>

record kafka_record =
  kr_error :: "string option"
  kr_topic :: "string option"
  kr_key :: "kbytes option"
  kr_value :: "kbytes option"
  kr_partition :: "int option"
  kr_offset :: "int option"
  kr_headers :: "(string \<times> kbytes option) list"

record topic_partition =
  tp_topic :: string
  tp_partition :: int
  tp_offset :: int

text \<open>
  A commit runs on a thread: it ends, or it is still running when the deadline is over
  (\<open>Still_running\<close>).
\<close>

datatype commit_end = Commit_ends "unit outcome" | Still_running

record ('w, 'c) kafka_api =
  ka_create :: "string \<Rightarrow> bool \<Rightarrow> 'w \<Rightarrow> 'c outcome \<times> 'w"
  ka_subscribe :: "'c \<Rightarrow> string list \<Rightarrow> 'w \<Rightarrow> unit outcome \<times> 'w"
  ka_poll :: "'c \<Rightarrow> int \<Rightarrow> 'w \<Rightarrow> kafka_record option outcome \<times> 'w"
  ka_consume :: "'c \<Rightarrow> int \<Rightarrow> int \<Rightarrow> 'w \<Rightarrow> kafka_record list outcome \<times> 'w"
  ka_commit :: "'c \<Rightarrow> 'w \<Rightarrow> commit_end \<times> 'w"
  ka_close :: "'c \<Rightarrow> 'w \<Rightarrow> unit outcome \<times> 'w"
  ka_assignment :: "'c \<Rightarrow> 'w \<Rightarrow> topic_partition list outcome \<times> 'w"
  ka_position :: "'c \<Rightarrow> topic_partition list \<Rightarrow> 'w \<Rightarrow> topic_partition list outcome \<times> 'w"
  ka_watermarks :: "'c \<Rightarrow> string \<Rightarrow> int \<Rightarrow> 'w \<Rightarrow> (int \<times> int) outcome \<times> 'w"
  ka_produce :: "string \<Rightarrow> kbytes \<Rightarrow> string option \<Rightarrow> (string, kbytes) dict option \<Rightarrow> 'w \<Rightarrow> unit outcome \<times> 'w"
  ka_flush :: "'w \<Rightarrow> unit outcome \<times> 'w"
  ka_assignment_lost :: "exn \<Rightarrow> bool"
  ka_decode_utf8 :: "kbytes \<Rightarrow> string outcome"

record ('w, 'c) kafka_state =
  ks_world :: 'w
  ks_consumers :: "(string \<times> string, 'c) dict"

type_synonym ('w, 'c, 'a) kafka_act = "(('w, 'c) kafka_state, 'a) act"

definition kafka_call :: "('w \<Rightarrow> 'a outcome \<times> 'w) \<Rightarrow> ('w, 'c, 'a) kafka_act" where
  "kafka_call f s = (let (r, w) = f (ks_world s) in Some (r, s \<lparr> ks_world := w \<rparr>))"

section \<open>Operations\<close>

definition commit_timeout_seconds :: int where
  "commit_timeout_seconds = 60"

definition commit_timeout_class :: string where
  "commit_timeout_class = ''CommitTimeoutError''"

text \<open>
  The thread keeps only an \<open>Exception\<close> for the caller; what else ends it is lost with the thread,
  and the commit counts as done.
\<close>

text \<open>A Python string in the quotes \<open>repr\<close> gives one without quotes or backslashes in it.\<close>

definition commit_timeout_error :: "string \<Rightarrow> string \<Rightarrow> exn" where
  "commit_timeout_error topic group_id =
     Exn commit_timeout_class
       (''commit() for ('' @ quoted topic @ '', '' @ quoted group_id @ '') did not return within 60s.'')"

definition produce ::
  "('w, 'c) kafka_api \<Rightarrow> string \<Rightarrow> kbytes \<Rightarrow> string option \<Rightarrow> (string, kbytes) dict option \<Rightarrow>
     ('w, 'c, unit) kafka_act" where
  "produce api topic v key headers =
     thenA (kafka_call (ka_produce api topic v key headers)) (kafka_call (ka_flush api))"

definition resolve_consumer ::
  "('w, 'c) kafka_api \<Rightarrow> string \<Rightarrow> string \<Rightarrow> bool \<Rightarrow> ('w, 'c, 'c) kafka_act" where
  "resolve_consumer api topic group_id auto_commit s =
     (case map_of (ks_consumers s) (topic, group_id) of
        Some c \<Rightarrow> ret c s
      | None \<Rightarrow>
          bindA (kafka_call (ka_create api group_id auto_commit)) (\<lambda>c.
          thenA (kafka_call (ka_subscribe api c [topic]))
          (thenA (modify (\<lambda>s. s \<lparr> ks_consumers := AList.update (topic, group_id) c (ks_consumers s) \<rparr>))
                 (ret c))) s)"

definition header_bytes :: "(string \<times> kbytes option) list \<Rightarrow> (string, kbytes) dict" where
  "header_bytes hs = fold (\<lambda>(k, v) d. case v of None \<Rightarrow> d | Some b \<Rightarrow> AList.update k b d) hs []"

definition to_message :: "('w, 'c) kafka_api \<Rightarrow> kafka_record \<Rightarrow> message outcome" where
  "to_message api r =
     (case kr_topic r of
        None \<Rightarrow> Inl (runtime_error ''Kafka returned a consumed record without a topic.'')
      | Some topic \<Rightarrow>
          (case kr_value r of
             None \<Rightarrow> Inl (runtime_error ''Kafka returned a consumed record without a value.'')
           | Some v \<Rightarrow>
               bindE (case kr_key r of
                        None \<Rightarrow> Inr None
                      | Some k \<Rightarrow> bindE (ka_decode_utf8 api k) (\<lambda>t. Inr (Some t)))
                 (\<lambda>key. Inr \<lparr> ms_topic = topic, ms_key = key, ms_value = v,
                             ms_partition = kr_partition r, ms_offset = kr_offset r,
                             ms_headers = header_bytes (kr_headers r) \<rparr>)))"

definition checked_message :: "('w, 'c) kafka_api \<Rightarrow> kafka_record \<Rightarrow> message outcome" where
  "checked_message api r =
     (case kr_error r of Some e \<Rightarrow> Inl (runtime_error e) | None \<Rightarrow> to_message api r)"

definition consume ::
  "('w, 'c) kafka_api \<Rightarrow> string \<Rightarrow> string \<Rightarrow> int \<Rightarrow> bool \<Rightarrow> ('w, 'c, message option) kafka_act" where
  "consume api topic group_id timeout auto_commit =
     bindA (resolve_consumer api topic group_id auto_commit) (\<lambda>c.
     bindA (kafka_call (ka_poll api c timeout)) (\<lambda>r. case r of
       None \<Rightarrow> ret None
     | Some rec \<Rightarrow>
         (case checked_message api rec of Inl e \<Rightarrow> raise e | Inr m \<Rightarrow> ret (Some m))))"

definition consume_batch ::
  "('w, 'c) kafka_api \<Rightarrow> string \<Rightarrow> string \<Rightarrow> int \<Rightarrow> int \<Rightarrow> bool \<Rightarrow> ('w, 'c, message list) kafka_act" where
  "consume_batch api topic group_id max_messages timeout auto_commit =
     bindA (resolve_consumer api topic group_id auto_commit) (\<lambda>c.
     bindA (kafka_call (ka_consume api c max_messages timeout)) (\<lambda>records.
       (case mapE (checked_message api) records of Inl e \<Rightarrow> raise e | Inr ms \<Rightarrow> ret ms)))"

definition commit :: "('w, 'c) kafka_api \<Rightarrow> string \<Rightarrow> string \<Rightarrow> ('w, 'c, unit) kafka_act" where
  "commit api topic group_id s =
     (case map_of (ks_consumers s) (topic, group_id) of
        None \<Rightarrow> raise (runtime_error (''commit() called for ('' @ quoted topic @ '', '' @ quoted group_id @
                  '') before any consume() call resolved a consumer for that pair.'')) s
      | Some c \<Rightarrow>
          (let (r, w) = ka_commit api c (ks_world s); s' = s \<lparr> ks_world := w \<rparr>
           in case r of
                Still_running \<Rightarrow> raise (commit_timeout_error topic group_id) s'
              | Commit_ends (Inl (Exn ec et)) \<Rightarrow> raise (Exn ec et) s'
              | Commit_ends (Inl (BaseExn ec et)) \<Rightarrow> ret () s'
              | Commit_ends (Inr u) \<Rightarrow> ret () s'))"

definition recover_from_lost_assignment ::
  "('w, 'c) kafka_api \<Rightarrow> string \<Rightarrow> string \<Rightarrow> exn \<Rightarrow> ('w, 'c, bool) kafka_act" where
  "recover_from_lost_assignment api topic group_id error s =
     (if \<not> (ka_assignment_lost api error \<or> exn_class error = commit_timeout_class) then ret False s
      else
        let (consumer, consumers) = dict_pop (topic, group_id) (ks_consumers s);
            s' = s \<lparr> ks_consumers := consumers \<rparr>
        in case consumer of
             None \<Rightarrow> ret True s'
           | Some c \<Rightarrow>
               thenA (try_except (kafka_call (ka_close api c)) (\<lambda>_. ret ())) (ret True) s')"

fun add_lags ::
  "('w, 'c) kafka_api \<Rightarrow> 'c \<Rightarrow> topic_partition list \<Rightarrow> int \<Rightarrow> ('w, 'c, int) kafka_act" where
  "add_lags api c [] lag = ret lag"
| "add_lags api c (tp # tps) lag =
     bindA (kafka_call (ka_watermarks api c (tp_topic tp) (tp_partition tp))) (\<lambda>(low, high).
       let current = (if tp_offset tp \<ge> 0 then tp_offset tp else low)
       in add_lags api c tps (lag + max (high - current) 0))"

definition consumer_lag :: "('w, 'c) kafka_api \<Rightarrow> string \<Rightarrow> string \<Rightarrow> ('w, 'c, int option) kafka_act" where
  "consumer_lag api topic group_id s =
     (case map_of (ks_consumers s) (topic, group_id) of
        None \<Rightarrow> ret None s
      | Some c \<Rightarrow>
          bindA (kafka_call (ka_assignment api c)) (\<lambda>assignment.
            if assignment = [] then ret (Some 0)
            else bindA (kafka_call (ka_position api c assignment)) (\<lambda>positions.
                 bindA (add_lags api c positions 0) (\<lambda>lag. ret (Some lag)))) s)"

section \<open>Facts\<close>

lemma wp_kafka_call:
  "wp (kafka_call f) Q E s \<longleftrightarrow>
     (case f (ks_world s) of
        (Inl e, w) \<Rightarrow> E e (s \<lparr> ks_world := w \<rparr>) | (Inr a, w) \<Rightarrow> Q a (s \<lparr> ks_world := w \<rparr>))"
  by (simp add: wp_def kafka_call_def Let_def split: prod.split sum.split)

lemma wp_add_lags:
  "0 \<le> lag \<Longrightarrow> wp (add_lags api c tps lag) (\<lambda>r t. lag \<le> r \<and> ks_consumers t = ks_consumers s)
    (\<lambda>_ t. ks_consumers t = ks_consumers s) s"
proof (induction tps arbitrary: lag s)
  case Nil
  then show ?case by simp
next
  case (Cons tp tps)
  have rest: "wp (add_lags api c tps (lag + max (high - current) 0))
      (\<lambda>r t. lag \<le> r \<and> ks_consumers t = ks_consumers s) (\<lambda>_ t. ks_consumers t = ks_consumers s)
      (s \<lparr> ks_world := w \<rparr>)" for high current w
  proof -
    have "0 \<le> lag + max (high - current) 0" using Cons.prems by simp
    from Cons.IH [OF this, of "s \<lparr> ks_world := w \<rparr>"] show ?thesis
      by (rule wp_mono) auto
  qed
  show ?case
    unfolding add_lags.simps wp_bindA wp_kafka_call
    using rest by (simp add: Let_def split: prod.split sum.split)
qed

end
