(* ===== verification/Stages.thy ===== *)
theory Stages
  imports Lake Debezium Kafka Pipelines
begin

text \<open>
  The concrete stages of the platform and what they publish: the context writers
  (\<open>processing/context_writers\<close>), Bronze ingestion (\<open>processing/bronze\<close>) and registration of a
  Silver Delta table in the catalog (\<open>processing/catalog\<close>). A stage acts on the processing context
  and on the world \<open>'w\<close> of the providers.
\<close>

section \<open>Acting on the context and the world\<close>

record 'w stage_state =
  sw_ctx :: processing_context
  sw_world :: 'w

type_synonym ('w, 'a) stage_act = "('w stage_state, 'a) act"

definition on_world :: "('w, 'a) act \<Rightarrow> ('w, 'a) stage_act" where
  "on_world m s =
     (case m (sw_world s) of None \<Rightarrow> None | Some (r, w) \<Rightarrow> Some (r, s \<lparr> sw_world := w \<rparr>))"

definition publish :: "context_key \<Rightarrow> ctx_value \<Rightarrow> processing_context \<Rightarrow> processing_context" where
  "publish k v c = ctx_set k v c"

abbreviation text_value :: "string \<Rightarrow> ctx_value" where
  "text_value s \<equiv> CVPy (PyStr s)"

section \<open>Context writers\<close>

definition write_storage ::
  "storage_location \<Rightarrow> storage_object option \<Rightarrow> processing_context \<Rightarrow> processing_context" where
  "write_storage l obj c =
     (let c = publish (StorageKey Storage_URI) (text_value (location_uri l)) c;
          c = publish (StorageKey Storage_BUCKET) (text_value (sl_bucket l)) c;
          c = publish (StorageKey Storage_OBJECT_KEY) (text_value (sl_key l)) c
      in case Option.bind (Option.bind obj so_metadata) sm_etag of
           None \<Rightarrow> c
         | Some etag \<Rightarrow> publish (StorageKey Storage_ETAG) (text_value etag) c)"

definition write_database :: "catalog_database \<Rightarrow> processing_context \<Rightarrow> processing_context" where
  "write_database d c = publish (CatalogKey Catalog_DATABASE) (text_value (cd_name d)) c"

definition write_table :: "catalog_table \<Rightarrow> processing_context \<Rightarrow> processing_context" where
  "write_table t c =
     publish (CatalogKey Catalog_TABLE) (text_value (ct_name t))
       (publish (CatalogKey Catalog_DATABASE) (text_value (ct_database t)) c)"

definition write_message :: "message \<Rightarrow> string option \<Rightarrow> processing_context \<Rightarrow> processing_context" where
  "write_message m group_id c =
     (let c = publish (MessagingKey Messaging_TOPIC) (text_value (ms_topic m)) c;
          c = (case ms_key m of None \<Rightarrow> c | Some k \<Rightarrow> publish (MessagingKey Messaging_KEY) (text_value k) c);
          c = (case ms_partition m of None \<Rightarrow> c
               | Some p \<Rightarrow> publish (MessagingKey Messaging_PARTITION) (CVPy (PyInt p)) c);
          c = (case ms_offset m of None \<Rightarrow> c
               | Some n \<Rightarrow> publish (MessagingKey Messaging_OFFSET) (CVPy (PyInt n)) c)
      in case group_id of None \<Rightarrow> c
         | Some g \<Rightarrow> publish (MessagingKey Messaging_CONSUMER_GROUP) (text_value g) c)"

section \<open>Bronze ingestion\<close>

text \<open>What every concrete stage has: its identity and the factory injected into it.\<close>

record ('b, 'w) stage_base =
  sb_id :: string
  sb_name :: string
  sb_factory :: "('b, 'w) provider_factory option"

definition stage_outcome_of ::
  "('b, 'w) stage_base \<Rightarrow> execution_status \<Rightarrow> string option \<Rightarrow> string option \<Rightarrow>
     (string, py_value) dict \<Rightarrow> ('w, stage_result) stage_act" where
  "stage_outcome_of b status ety emsg output s =
     Some (Inr \<lparr> pr_status = status, pr_metadata = cx_metadata (sw_ctx s), pr_error_type = ety,
                 pr_error_message = emsg, sr_stage_id = sb_id b, sr_stage_name = sb_name b,
                 sr_attempt = 1, sr_output = output \<rparr>, s)"

definition resolve :: "('b, 'w) stage_base \<Rightarrow> string \<Rightarrow> ('w, 'w provider) stage_act" where
  "resolve b n = on_world (resolve_provider (sb_name b) (sb_factory b) n)"

abbreviation on_context :: "(processing_context \<Rightarrow> processing_context) \<Rightarrow> ('w, unit) stage_act" where
  "on_context f \<equiv> modify (\<lambda>s. s \<lparr> sw_ctx := f (sw_ctx s) \<rparr>)"

definition bronze_ingestion ::
  "('b, 'w) stage_base \<Rightarrow> string \<Rightarrow> storage_location \<Rightarrow> ('w, stage_result) stage_act" where
  "bronze_ingestion b provider_name location =
     bindA (resolve b provider_name) (\<lambda>provider.
     bindA (on_world (pv_exists provider location)) (\<lambda>exists.
       if \<not> exists then
         stage_outcome_of b FAILED (Some ''ObjectNotFoundError'')
           (Some (''Object not found at '' @ quoted (location_uri location) @ ''.'')) []
       else
         bindA (on_world (pv_head provider location)) (\<lambda>obj.
         thenA (on_context (write_storage location (Some obj)))
               (stage_outcome_of b COMPLETED None None []))))"

section \<open>Reading a Delta log\<close>

text \<open>
  The local file system, \<open>json.loads\<close>, \<open>repr\<close> and the validation of hosts are parameters.
  \<open>dv_read_text\<close> gives a text with its newlines translated, as \<open>Path.read_text\<close> does.
\<close>

record 'w delta_env =
  dv_make_tmp :: "'w \<Rightarrow> string outcome \<times> 'w"
  dv_remove_tmp :: "string \<Rightarrow> 'w \<Rightarrow> unit outcome \<times> 'w"
  dv_read_text :: "string \<Rightarrow> 'w \<Rightarrow> string outcome \<times> 'w"
  dv_loads :: "string \<Rightarrow> json outcome"
  dv_repr :: "json \<Rightarrow> string"
  dv_check_netloc :: "string \<Rightarrow> unit outcome"

definition line_break :: "char \<Rightarrow> bool" where
  "line_break c \<longleftrightarrow> (of_char c :: nat) \<in> {10, 11, 12, 13, 28, 29, 30, 133}"

fun lines_from :: "string \<Rightarrow> string \<Rightarrow> string list" where
  "lines_from acc [] = (if acc = [] then [] else [rev acc])"
| "lines_from acc (c # s) = (if line_break c then rev acc # lines_from [] s else lines_from (c # acc) s)"

definition splitlines :: "string \<Rightarrow> string list" where
  "splitlines s = lines_from [] s"

text \<open>\<open>k in v\<close> and \<open>json.loads(v)\<close> of a JSON value.\<close>

fun json_has :: "string \<Rightarrow> json \<Rightarrow> bool outcome" where
  "json_has k (JObj kvs) = Inr (k \<in> fst ` set kvs)"
| "json_has k (JList xs) = Inr (JStr k \<in> set xs)"
| "json_has k (JStr s) = Inr (sublist k s)"
| "json_has k v = Inl (type_error ''argument is not iterable'')"

fun loads_value :: "(string \<Rightarrow> json outcome) \<Rightarrow> json \<Rightarrow> json outcome" where
  "loads_value loads (JStr s) = loads s"
| "loads_value loads v = Inl (type_error ''the JSON object must be str, bytes or bytearray'')"

fun schema_in :: "(string \<Rightarrow> json outcome) \<Rightarrow> string list \<Rightarrow> json option outcome" where
  "schema_in loads [] = Inr None"
| "schema_in loads (line # rest) =
     (if strip line = [] then schema_in loads rest
      else bindE (loads line) (\<lambda>action.
           bindE (json_has ''metaData'' action) (\<lambda>found.
             if found then
               bindE (json_sub action ''metaData'') (\<lambda>m.
               bindE (json_sub m ''schemaString'') (\<lambda>s.
               bindE (loads_value loads s) (\<lambda>schema. Inr (Some schema))))
             else schema_in loads rest)))"

text \<open>\<open>sorted(..., key=name, reverse=True)\<close>: descending, equal names in their order.\<close>

definition newest_first :: "storage_location list \<Rightarrow> storage_location list" where
  "newest_first ls = rev (sort_key location_name (rev ls))"

definition ends_with :: "string \<Rightarrow> string \<Rightarrow> bool" where
  "ends_with suf s \<longleftrightarrow> suffix suf s"

definition no_metadata_error :: "storage_location \<Rightarrow> exn" where
  "no_metadata_error log = runtime_error
     (''No metaData action found in any Delta commit under '' @ quoted (location_uri log) @ ''.'')"

fun scan_commits ::
  "'w delta_env \<Rightarrow> 'w provider \<Rightarrow> string \<Rightarrow> exn \<Rightarrow> storage_location list \<Rightarrow> ('w, json) act" where
  "scan_commits v provider tmp none [] = raise none"
| "scan_commits v provider tmp none (newest # older) =
     (let destination = tmp @ ''/'' @ location_name newest in
      thenA (pv_download provider newest destination)
     (bindA (call (dv_read_text v destination)) (\<lambda>text.
      bindA (lift (schema_in (dv_loads v) (splitlines text))) (\<lambda>found. case found of
        Some schema \<Rightarrow> ret schema
      | None \<Rightarrow> scan_commits v provider tmp none older))))"

text \<open>\<open>with tempfile.TemporaryDirectory() as tmp_dir\<close>: the directory goes whatever the body does.\<close>

definition with_tmp :: "'w delta_env \<Rightarrow> (string \<Rightarrow> ('w, 'a) act) \<Rightarrow> ('w, 'a) act" where
  "with_tmp v body =
     bindA (call (dv_make_tmp v)) (\<lambda>tmp w.
       case body tmp w of
         None \<Rightarrow> None
       | Some (r, w') \<Rightarrow>
           (case dv_remove_tmp v tmp w' of
              (Inl e, w'') \<Rightarrow> Some (Inl e, w'')
            | (Inr _, w'') \<Rightarrow> Some (r, w'')))"

lemma with_tmp_step:
  "wlp (with_tmp v body) Q E w =
     (case dv_make_tmp v w of
        (Inl e, w1) \<Rightarrow> E e w1
      | (Inr d, w1) \<Rightarrow>
          wlp (body d)
            (\<lambda>a w2. case dv_remove_tmp v d w2 of (Inl e, w3) \<Rightarrow> E e w3 | (Inr _, w3) \<Rightarrow> Q a w3)
            (\<lambda>e w2. case dv_remove_tmp v d w2 of (Inl e', w3) \<Rightarrow> E e' w3 | (Inr _, w3) \<Rightarrow> E e w3) w1)"
  by (auto simp: with_tmp_def bindA_def call_def wlp_def split: prod.split sum.split option.split) (metis sum.exhaust)

definition read_delta_schema ::
  "'w delta_env \<Rightarrow> 'w provider \<Rightarrow> storage_location \<Rightarrow> ('w, json option) act" where
  "read_delta_schema v provider table =
     bindA (lift (new_location (sl_scheme table) (sl_bucket table) (sl_key table @ ''/_delta_log/''))) (\<lambda>log.
     bindA (pv_list provider log) (\<lambda>objects.
       let commits = newest_first (filter (\<lambda>l. ends_with ''.json'' (location_name l)) (map so_location objects))
       in if commits = [] then ret None
          else with_tmp v (\<lambda>tmp.
            bindA (scan_commits v provider tmp (no_metadata_error log) commits) (\<lambda>schema. ret (Some schema)))))"

section \<open>Registration of a Silver table\<close>

definition spark_type_to_glue_type :: "(string, string) dict" where
  "spark_type_to_glue_type =
     [(''string'', ''string''), (''long'', ''bigint''), (''integer'', ''int''), (''short'', ''smallint''),
      (''byte'', ''tinyint''), (''double'', ''double''), (''float'', ''float''), (''boolean'', ''boolean''),
      (''date'', ''date''), (''timestamp'', ''timestamp''), (''binary'', ''binary'')]"

definition to_glue_type :: "(json \<Rightarrow> string) \<Rightarrow> json \<Rightarrow> string outcome" where
  "to_glue_type repr spark_type =
     (let unsupported = Inl (value_error
            (''Unsupported Delta/Spark type for Glue registration: '' @ repr spark_type @ ''.''))
      in case spark_type of
           JStr s \<Rightarrow>
             (case map_of spark_type_to_glue_type s of
                Some ty \<Rightarrow> Inr ty
              | None \<Rightarrow> if prefix ''decimal('' s then Inr s else unsupported)
         | _ \<Rightarrow> unsupported)"

text \<open>
  A Delta schema has a string for the name of a field; the request that would carry anything else
  is refused, so such a schema is an error here. The nullability is read as a condition.
\<close>

fun json_truth :: "json \<Rightarrow> bool" where
  "json_truth JNull = False"
| "json_truth (JBool b) = b"
| "json_truth (JInt i) = (i \<noteq> 0)"
| "json_truth (JFloat r) = (r \<noteq> ''0.0'' \<and> r \<noteq> ''-0.0'')"
| "json_truth (JStr s) = (s \<noteq> [])"
| "json_truth (JList xs) = (xs \<noteq> [])"
| "json_truth (JObj kvs) = (kvs \<noteq> [])"

definition bad_field :: exn where
  "bad_field = Exn ''ParamValidationError'' ''Parameter validation failed''"

definition column_of_field :: "(json \<Rightarrow> string) \<Rightarrow> json \<Rightarrow> catalog_column outcome" where
  "column_of_field repr field =
     bindE (json_sub field ''name'') (\<lambda>name.
     bindE (json_sub field ''type'') (\<lambda>ty.
     bindE (to_glue_type repr ty) (\<lambda>glue_type.
     bindE (json_has ''nullable'' field) (\<lambda>has.
     bindE (json_get field ''nullable'') (\<lambda>nullable.
       case name of
         JStr n \<Rightarrow>
           Inr \<lparr> cc_name = n, cc_type = glue_type, cc_nullable = (has \<longrightarrow> json_truth nullable),
                 cc_comment = None \<rparr>
       | _ \<Rightarrow> Inl bad_field)))))"

definition table_of_schema ::
  "(json \<Rightarrow> string) \<Rightarrow> string \<Rightarrow> string \<Rightarrow> storage_location \<Rightarrow> json \<Rightarrow> catalog_table outcome" where
  "table_of_schema repr database entity location schema =
     bindE (json_sub schema ''fields'') (\<lambda>fs.
     bindE (json_iter fs) (\<lambda>field_list.
     bindE (mapE (column_of_field repr) field_list) (\<lambda>columns.
       Inr \<lparr> ct_database = database, ct_name = entity, ct_location = location, ct_columns = columns,
             ct_partitions = [], ct_description = None, ct_format = ''delta'' \<rparr>)))"

definition is_table_exists :: "exn \<Rightarrow> bool" where
  "is_table_exists e \<longleftrightarrow> is_Exn e \<and> exn_class e = ''TableAlreadyExistsError''"

definition register_table :: "'w provider \<Rightarrow> catalog_table \<Rightarrow> ('w, unit) act" where
  "register_table provider table =
     try_except (pv_create_table provider table) (\<lambda>e. if is_table_exists e then ret () else raise e)"

record ('b, 'w) silver_stage = "('b, 'w) stage_base" +
  ss_storage_provider :: string
  ss_catalog_provider :: string
  ss_entity :: string
  ss_database :: string

definition default_database :: string where
  "default_database = ''mdp_silver_dev''"

definition delta_missing_message :: "storage_location \<Rightarrow> string" where
  "delta_missing_message l =
     ''No Delta table found at '' @ quoted (location_uri l) @ '' (_delta_log is empty or missing).''"

definition publish_schema ::
  "'w delta_env \<Rightarrow> ('b, 'w) silver_stage \<Rightarrow> storage_location \<Rightarrow> json \<Rightarrow> ('w, stage_result) stage_act" where
  "publish_schema v st location schema =
     (let b = stage_base.truncate st in
      bindA (lift (table_of_schema (dv_repr v) (ss_database st) (ss_entity st) location schema)) (\<lambda>table.
      bindA (resolve b (ss_catalog_provider st)) (\<lambda>catalog.
      thenA (on_world (register_table catalog table))
     (thenA (on_context (write_table table))
            (stage_outcome_of b COMPLETED None None [])))))"

definition silver_registration :: "'w delta_env \<Rightarrow> ('b, 'w) silver_stage \<Rightarrow> ('w, stage_result) stage_act" where
  "silver_registration v st =
     (let b = stage_base.truncate st in
      bindA (resolve b (ss_storage_provider st)) (\<lambda>storage.
      bindA (lift (from_uri (dv_check_netloc v) (config_silver (ss_entity st)))) (\<lambda>location.
      bindA (on_world (read_delta_schema v storage location)) (\<lambda>schema. case schema of
        None \<Rightarrow>
          stage_outcome_of b FAILED (Some ''DeltaTableNotFoundError'') (Some (delta_missing_message location)) []
      | Some schema \<Rightarrow> publish_schema v st location schema))))"

end
