(* ===== verification/Postgres_Extraction.thy ===== *)
theory Postgres_Extraction
  imports Stages
begin

text \<open>
  Extraction of a PostgreSQL table to a Parquet object of the raw layer
  (\<open>processing/extraction/postgres_extraction_stage.py\<close>). The database driver, pyarrow and \<open>uuid4\<close>
  are parameters; a cell is an option, \<open>None\<close> being \<open>NULL\<close>.
\<close>

section \<open>Types of columns\<close>

record pg_column =
  pg_name :: string
  pg_type_code :: int
  pg_precision :: "int option"
  pg_scale :: "int option"

definition numeric_oid :: int where
  "numeric_oid = 1700"

definition uuid_oid :: int where
  "uuid_oid = 2950"

definition postgres_oid_to_arrow :: "(int, arrow_type) dict" where
  "postgres_oid_to_arrow =
     [(16, ArrowBool), (21, ArrowInt16), (23, ArrowInt32), (25, ArrowString), (1043, ArrowString),
      (1082, ArrowDate32), (1184, ArrowTimestampUsUTC), (uuid_oid, ArrowString)]"

definition arrow_type_for_column ::
  "(int \<Rightarrow> int \<Rightarrow> arrow_type outcome) \<Rightarrow> pg_column \<Rightarrow> arrow_type outcome" where
  "arrow_type_for_column decimal128 c =
     (if pg_type_code c = numeric_oid then
        (case (pg_precision c, pg_scale c) of
           (Some p, Some sc) \<Rightarrow> decimal128 p sc
         | _ \<Rightarrow> Inl (value_error (''Column '' @ quoted (pg_name c) @ '' is numeric without a '' @
             ''precision/scale -- add explicit handling before extracting it (every numeric column in the '' @
             ''marketplace schema has both).'')))
      else
        (case map_of postgres_oid_to_arrow (pg_type_code c) of
           Some t \<Rightarrow> Inr t
         | None \<Rightarrow> Inl (value_error (''Column '' @ quoted (pg_name c) @ '' has Postgres type OID '' @
             show_int (pg_type_code c) @ '', which is not mapped to an Arrow type yet -- add it to '' @
             ''_POSTGRES_OID_TO_ARROW before extracting it.''))))"

section \<open>The driver\<close>

text \<open>
  \<open>pe_select\<close> connects and executes \<open>SELECT *\<close> from the quoted identifier, giving the description
  of the result; \<open>pe_leave\<close> is the exit of the two \<open>with\<close> blocks, told whether the body raised.
\<close>

record ('w, 'v, 't) pg_env =
  pe_select :: "string list \<Rightarrow> 'w \<Rightarrow> pg_column list outcome \<times> 'w"
  pe_fetchall :: "'w \<Rightarrow> 'v option list list outcome \<times> 'w"
  pe_leave :: "bool \<Rightarrow> 'w \<Rightarrow> unit outcome \<times> 'w"
  pe_str :: "'v \<Rightarrow> 'v"
  pe_decimal128 :: "int \<Rightarrow> int \<Rightarrow> arrow_type outcome"
  pe_table :: "(string, 'v option list) dict \<Rightarrow> arrow_schema \<Rightarrow> 't outcome"
  pe_write_parquet :: "'t \<Rightarrow> string outcome"
  pe_uuid4 :: "'w \<Rightarrow> string outcome \<times> 'w"
  pe_check_netloc :: "string \<Rightarrow> unit outcome"
  pe_undefined_table :: "exn \<Rightarrow> bool"

definition index_error :: exn where
  "index_error = Exn ''IndexError'' ''tuple index out of range''"

definition cell :: "nat \<Rightarrow> 'a list \<Rightarrow> 'a outcome" where
  "cell i row = (if i < length row then Inr (row ! i) else Inl index_error)"

definition column_values ::
  "('w, 'v, 't) pg_env \<Rightarrow> pg_column \<Rightarrow> nat \<Rightarrow> 'v option list list \<Rightarrow> 'v option list outcome" where
  "column_values env c i rows =
     bindE (mapE (cell i) rows) (\<lambda>values.
       Inr (if pg_type_code c = uuid_oid then map (map_option (pe_str env)) values else values))"

fun table_columns ::
  "('w, 'v, 't) pg_env \<Rightarrow> nat \<Rightarrow> pg_column list \<Rightarrow> 'v option list list \<Rightarrow> (string, 'v option list) dict \<Rightarrow>
     (string, 'v option list) dict outcome" where
  "table_columns env i [] rows d = Inr d"
| "table_columns env i (c # cs) rows d =
     bindE (column_values env c i rows) (\<lambda>vs. table_columns env (Suc i) cs rows (AList.update (pg_name c) vs d))"

definition query_schema :: "('w, 'v, 't) pg_env \<Rightarrow> pg_column list \<Rightarrow> arrow_schema outcome" where
  "query_schema env description =
     mapE (\<lambda>c. bindE (arrow_type_for_column (pe_decimal128 env) c) (\<lambda>t. Inr (pg_name c, t))) description"

text \<open>Leaving a \<open>with\<close> block: an exception of the exit replaces the outcome of the body.\<close>

definition leaving :: "(bool \<Rightarrow> 'w \<Rightarrow> unit outcome \<times> 'w) \<Rightarrow> ('w, 'a) act \<Rightarrow> ('w, 'a) act" where
  "leaving leave body w =
     (case body w of
        None \<Rightarrow> None
      | Some (r, w') \<Rightarrow>
          (case leave (\<not> isl r) w' of
             (Inl e, w'') \<Rightarrow> Some (Inl e, w'')
           | (Inr _, w'') \<Rightarrow> Some (r, w'')))"

definition extract_table :: "('w, 'v, 't) pg_env \<Rightarrow> string \<Rightarrow> ('w, 't) act" where
  "extract_table env table_name =
     bindA (call (pe_select env (split_on CHR ''.'' table_name))) (\<lambda>description.
     bindA (leaving (pe_leave env)
             (bindA (lift (query_schema env description)) (\<lambda>schema.
              bindA (call (pe_fetchall env)) (\<lambda>rows. ret (schema, rows)))))
       (\<lambda>(schema, rows).
          lift (bindE (table_columns env 0 description rows []) (\<lambda>d. pe_table env d schema))))"

definition raw_object_uri :: "string \<Rightarrow> string \<Rightarrow> string" where
  "raw_object_uri entity uuid = config_raw entity @ ''/'' @ uuid @ ''.parquet''"

definition extract_and_upload ::
  "('w, 'v, 't) pg_env \<Rightarrow> 'w provider \<Rightarrow> string \<Rightarrow> string \<Rightarrow> ('w, storage_location) act" where
  "extract_and_upload env provider table_name entity =
     bindA (extract_table env table_name) (\<lambda>table.
     bindA (call (pe_uuid4 env)) (\<lambda>uuid.
     bindA (lift (from_uri (pe_check_netloc env) (raw_object_uri entity uuid))) (\<lambda>location.
     bindA (lift (pe_write_parquet env table)) (\<lambda>bytes.
     thenA (pv_upload provider location (From_stream bytes))
           (ret location)))))"

record ('b, 'w) extraction_stage = "('b, 'w) stage_base" +
  es_provider :: string
  es_table_name :: string
  es_entity :: string

definition postgres_extraction ::
  "('w, 'v, 't) pg_env \<Rightarrow> ('b, 'w) extraction_stage \<Rightarrow> ('w, stage_result) stage_act" where
  "postgres_extraction env st =
     (let b = stage_base.truncate st in
      bindA (resolve b (es_provider st)) (\<lambda>provider.
      bindA (caught (on_world (extract_and_upload env provider (es_table_name st) (es_entity st)))) (\<lambda>r.
        case r of
          Inl e \<Rightarrow>
            if pe_undefined_table env e
            then stage_outcome_of b FAILED (Some ''UndefinedTable'') (Some (exn_text e)) []
            else raise e
        | Inr location \<Rightarrow>
            stage_outcome_of b COMPLETED None None
              [(''uri'', PyStr (location_uri location)), (''bucket'', PyStr (sl_bucket location)),
               (''object_key'', PyStr (sl_key location))])))"

end
