(* ===== verification/Workflow.thy ===== *)
theory Workflow
  imports Stages
begin

text \<open>
  Remote workflows: the HTTP client (\<open>data_platform/http\<close>), the Airflow client with its token
  (\<open>integrations/airflow/core\<close>), the Airflow workflow provider and its mapper
  (\<open>integrations/airflow/workflow\<close>) and the writer of workflow runs
  (\<open>processing/context_writers/workflow_context_writer.py\<close>). httpx is a parameter acting on a
  world \<open>'w\<close>.
\<close>

section \<open>The HTTP client\<close>

record http_call =
  hq_method :: string
  hq_path :: string
  hq_params :: "(string, json) dict option"
  hq_json :: "json option"
  hq_headers :: "(string, string) dict option"

text \<open>\<open>hx_json\<close> is \<open>None\<close> where \<open>response.json()\<close> raises a \<open>ValueError\<close>.\<close>

record httpx_response =
  hx_status :: int
  hx_is_error :: bool
  hx_headers :: "(string, string) dict"
  hx_text :: string
  hx_json :: "json option"

record 'w httpx_client =
  hc_send :: "http_call \<Rightarrow> 'w \<Rightarrow> httpx_response outcome \<times> 'w"
  hc_close :: "'w \<Rightarrow> unit outcome \<times> 'w"
  hc_request_error :: "exn \<Rightarrow> bool"

record http_response =
  rp_status :: int
  rp_headers :: "(string, string) dict"
  rp_body :: json

text \<open>\<open>HttpRequestError\<close>, \<open>HttpResponseError\<close> with its status code, and any other exception.\<close>

datatype http_failure = Request_failed string | Error_response int string | Other_failure exn

definition http_result :: "'w httpx_client \<Rightarrow> httpx_response outcome \<Rightarrow> http_failure + http_response" where
  "http_result hc answer =
     (case answer of
        Inl e \<Rightarrow> Inl (if hc_request_error hc e then Request_failed (exn_text e) else Other_failure e)
      | Inr r \<Rightarrow>
          if hx_is_error r then Inl (Error_response (hx_status r) (hx_text r))
          else Inr \<lparr> rp_status = hx_status r, rp_headers = hx_headers r,
                     rp_body = (case hx_json r of Some b \<Rightarrow> b | None \<Rightarrow> JStr (hx_text r)) \<rparr>)"

definition http_request_inner ::
  "'w httpx_client \<Rightarrow> http_call \<Rightarrow> 'w \<Rightarrow> (http_failure + http_response) \<times> 'w" where
  "http_request_inner hc q w = (case hc_send hc q w of (answer, w') \<Rightarrow> (http_result hc answer, w'))"

definition http_request ::
  "'w httpx_client \<Rightarrow> http_call \<Rightarrow> 'w \<Rightarrow> (http_failure + http_response) \<times> 'w" where
  "http_request hc q = http_request_inner hc q"

definition bare_call :: "string \<Rightarrow> string \<Rightarrow> http_call" where
  "bare_call m path = \<lparr> hq_method = m, hq_path = path, hq_params = None, hq_json = None, hq_headers = None \<rparr>"

definition http_get where
  "http_get hc path params headers =
     http_request hc ((bare_call ''GET'' path) \<lparr> hq_params := params, hq_headers := headers \<rparr>)"

definition http_post where
  "http_post hc path json headers =
     http_request hc ((bare_call ''POST'' path) \<lparr> hq_json := json, hq_headers := headers \<rparr>)"

definition http_put where
  "http_put hc path json headers =
     http_request hc ((bare_call ''PUT'' path) \<lparr> hq_json := json, hq_headers := headers \<rparr>)"

definition http_patch where
  "http_patch hc path json headers =
     http_request hc ((bare_call ''PATCH'' path) \<lparr> hq_json := json, hq_headers := headers \<rparr>)"

definition http_delete where
  "http_delete hc path headers = http_request hc ((bare_call ''DELETE'' path) \<lparr> hq_headers := headers \<rparr>)"

definition http_close :: "'w httpx_client \<Rightarrow> ('w, unit) act" where
  "http_close hc = call (hc_close hc)"

section \<open>Errors of remote services\<close>

definition remote_error_of_status :: "int \<Rightarrow> string" where
  "remote_error_of_status code =
     (if code = 400 then ''ValidationError''
      else if code = 401 then ''AuthenticationError''
      else if code = 403 then ''AuthorizationError''
      else if code = 404 then ''ResourceNotFoundError''
      else if code = 409 then ''ConflictError''
      else if code = 429 then ''RateLimitError''
      else if code = 503 then ''ServiceUnavailableError''
      else ''RemoteServiceError'')"

text \<open>The class \<open>RemoteServiceError\<close> and its subclasses.\<close>

definition remote_service_errors :: "string list" where
  "remote_service_errors =
     [''RemoteServiceError'', ''AuthenticationError'', ''AuthorizationError'', ''ResourceNotFoundError'',
      ''ValidationError'', ''ConflictError'', ''RateLimitError'', ''ServiceUnavailableError'',
      ''RemoteTimeoutError'']"

definition is_remote_error :: "exn \<Rightarrow> bool" where
  "is_remote_error e \<longleftrightarrow> is_Exn e \<and> exn_class e \<in> set remote_service_errors"

text \<open>
  \<open>HttpExceptionMapper.translate\<close> of the two HTTP errors; another exception is not caught. And the
  exception a failure is while it is not translated.
\<close>

fun translate_http :: "http_failure \<Rightarrow> exn" where
  "translate_http (Request_failed t) = Exn ''RemoteTimeoutError'' t"
| "translate_http (Error_response code t) = Exn (remote_error_of_status code) t"
| "translate_http (Other_failure e) = e"

fun http_exn :: "http_failure \<Rightarrow> exn" where
  "http_exn (Request_failed t) = Exn ''HttpRequestError'' t"
| "http_exn (Error_response code t) = Exn ''HttpResponseError'' t"
| "http_exn (Other_failure e) = e"

section \<open>The Airflow client\<close>

text \<open>
  \<open>av_format\<close> is what a value becomes in an f-string. The client keeps the token it was given,
  \<open>JNull\<close> being \<open>None\<close>.
\<close>

record 'w airflow_env =
  av_http :: "'w httpx_client"
  av_username :: string
  av_password :: string
  av_format :: "json \<Rightarrow> string"
  av_fromisoformat :: "string \<Rightarrow> int outcome"

record 'w airflow_client =
  ac_token :: json
  ac_world :: 'w

definition new_client :: "'w \<Rightarrow> 'w airflow_client" where
  "new_client w = \<lparr> ac_token = JNull, ac_world = w \<rparr>"

definition send ::
  "('w \<Rightarrow> (http_failure + http_response) \<times> 'w) \<Rightarrow> ('w airflow_client, http_failure + http_response) act" where
  "send f c = (case f (ac_world c) of (r, w) \<Rightarrow> Some (Inr r, c \<lparr> ac_world := w \<rparr>))"

definition authenticate :: "'w airflow_env \<Rightarrow> ('w airflow_client, unit) act" where
  "authenticate v =
     bindA (get ac_token) (\<lambda>token.
       if token \<noteq> JNull then ret ()
       else
         bindA (send (http_post (av_http v) ''/auth/token''
             (Some (JObj [(''username'', JStr (av_username v)), (''password'', JStr (av_password v))])) None))
           (\<lambda>r. case r of
              Inl f \<Rightarrow> raise (http_exn f)
            | Inr response \<Rightarrow>
                bindA (lift (json_sub (rp_body response) ''access_token'')) (\<lambda>token.
                  modify (\<lambda>c. c \<lparr> ac_token := token \<rparr>))))"

definition clear_authentication :: "('w airflow_client, unit) act" where
  "clear_authentication = modify (\<lambda>c. c \<lparr> ac_token := JNull \<rparr>)"

definition bearer :: "'w airflow_env \<Rightarrow> json \<Rightarrow> (string, string) dict" where
  "bearer v token = [(''Authorization'', ''Bearer '' @ av_format v token)]"

definition authorization_headers :: "'w airflow_env \<Rightarrow> ('w airflow_client, (string, string) dict) act" where
  "authorization_headers v = thenA (authenticate v) (bindA (get ac_token) (\<lambda>token. ret (bearer v token)))"

text \<open>
  The headers of the first request are computed before the \<open>try\<close> and those of the second in an
  \<open>except\<close> clause, so an error of authentication is not translated.
\<close>

definition airflow_request :: "'w airflow_env \<Rightarrow> http_call \<Rightarrow> ('w airflow_client, http_response) act" where
  "airflow_request v q =
     bindA (authorization_headers v) (\<lambda>headers.
     bindA (send (http_request (av_http v) (q \<lparr> hq_headers := Some headers \<rparr>))) (\<lambda>r.
       case r of
         Inr response \<Rightarrow> ret response
       | Inl (Error_response code t) \<Rightarrow>
           (if code = 401 then
              thenA clear_authentication
             (bindA (authorization_headers v) (\<lambda>headers.
              bindA (send (http_request (av_http v) (q \<lparr> hq_headers := Some headers \<rparr>))) (\<lambda>r.
                case r of
                  Inr response \<Rightarrow> ret response
                | Inl f \<Rightarrow> raise (translate_http f))))
            else raise (translate_http (Error_response code t)))
       | Inl f \<Rightarrow> raise (translate_http f)))"

definition api_prefix :: string where
  "api_prefix = ''/api/v2''"

definition runs_path :: "string \<Rightarrow> string" where
  "runs_path dag_id = api_prefix @ ''/dags/'' @ dag_id @ ''/dagRuns''"

definition list_dags :: "'w airflow_env \<Rightarrow> ('w airflow_client, http_response) act" where
  "list_dags v = airflow_request v (bare_call ''GET'' (api_prefix @ ''/dags''))"

definition get_dag :: "'w airflow_env \<Rightarrow> string \<Rightarrow> ('w airflow_client, http_response) act" where
  "get_dag v dag_id = airflow_request v (bare_call ''GET'' (api_prefix @ ''/dags/'' @ dag_id))"

definition trigger_dag ::
  "'w airflow_env \<Rightarrow> string \<Rightarrow> (string, json) dict \<Rightarrow> ('w airflow_client, http_response) act" where
  "trigger_dag v dag_id payload =
     airflow_request v ((bare_call ''POST'' (runs_path dag_id))
       \<lparr> hq_json := Some (JObj [(''logical_date'', JNull), (''conf'', JObj payload)]) \<rparr>)"

definition list_dag_runs :: "'w airflow_env \<Rightarrow> string \<Rightarrow> ('w airflow_client, http_response) act" where
  "list_dag_runs v dag_id = airflow_request v (bare_call ''GET'' (runs_path dag_id))"

definition get_dag_run :: "'w airflow_env \<Rightarrow> string \<Rightarrow> string \<Rightarrow> ('w airflow_client, http_response) act" where
  "get_dag_run v dag_id run_id = airflow_request v (bare_call ''GET'' (runs_path dag_id @ ''/'' @ run_id))"

definition cancel_dag_run :: "'w airflow_env \<Rightarrow> string \<Rightarrow> string \<Rightarrow> ('w airflow_client, http_response) act" where
  "cancel_dag_run v dag_id run_id =
     airflow_request v ((bare_call ''PATCH'' (runs_path dag_id @ ''/'' @ run_id))
       \<lparr> hq_json := Some (JObj [(''state'', JStr ''failed'')]) \<rparr>)"

section \<open>Workflows and their runs\<close>

datatype workflow_status =
  Workflow_PENDING | Workflow_RUNNING | Workflow_SUCCESS | Workflow_FAILED | Workflow_CANCELLED

record 'v workflow =
  wf_identifier :: 'v
  wf_name :: 'v
  wf_description :: 'v
  wf_parameters :: "(string, 'v) dict"

record 'v workflow_run =
  wr_run_id :: 'v
  wr_workflow_id :: 'v
  wr_workflow_name :: 'v
  wr_status :: workflow_status
  wr_queued_at :: "int option"
  wr_started_at :: "int option"
  wr_finished_at :: "int option"
  wr_parameters :: 'v
  wr_metadata :: "(string, 'v) dict"

section \<open>The Airflow mapper\<close>

definition status_mapping :: "(string, workflow_status) dict" where
  "status_mapping =
     [(''queued'', Workflow_PENDING), (''scheduled'', Workflow_PENDING), (''running'', Workflow_RUNNING),
      (''success'', Workflow_SUCCESS), (''failed'', Workflow_FAILED), (''up_for_retry'', Workflow_RUNNING),
      (''upstream_failed'', Workflow_FAILED), (''skipped'', Workflow_SUCCESS),
      (''removed'', Workflow_CANCELLED)]"

text \<open>\<open>data.get(k, default)\<close>, \<open>value.lower()\<close> and \<open>value.replace(''Z'', ''+00:00'')\<close>.\<close>

fun json_get_or :: "json \<Rightarrow> json \<Rightarrow> string \<Rightarrow> json outcome" where
  "json_get_or d (JObj kvs) k = Inr (case map_of kvs k of None \<Rightarrow> d | Some x \<Rightarrow> x)"
| "json_get_or d v k = Inl (attribute_error ''get'')"

fun json_lower :: "json \<Rightarrow> string outcome" where
  "json_lower (JStr s) = Inr (lower s)"
| "json_lower v = Inl (attribute_error ''lower'')"

fun json_utc :: "json \<Rightarrow> string outcome" where
  "json_utc (JStr s) = Inr (concat (map (\<lambda>c. if c = CHR ''Z'' then ''+00:00'' else [c]) s))"
| "json_utc v = Inl (attribute_error ''replace'')"

definition parse_datetime :: "(string \<Rightarrow> int outcome) \<Rightarrow> json \<Rightarrow> int option outcome" where
  "parse_datetime fromiso v =
     (if v = JNull then Inr None
      else bindE (json_utc v) (\<lambda>s. bindE (fromiso s) (\<lambda>t. Inr (Some t))))"

definition to_workflow :: "json \<Rightarrow> json workflow outcome" where
  "to_workflow data =
     bindE (json_sub data ''dag_id'') (\<lambda>dag_id.
     bindE (json_get data ''dag_display_name'') (\<lambda>display.
     bindE (json_get data ''description'') (\<lambda>description.
       Inr \<lparr> wf_identifier = dag_id, wf_name = (if json_truth display then display else dag_id),
             wf_description = description, wf_parameters = [] \<rparr>)))"

definition to_workflows :: "json \<Rightarrow> json workflow list outcome" where
  "to_workflows payload =
     bindE (json_get_or (JList []) payload ''dags'') (\<lambda>dags. bindE (json_iter dags) (mapE to_workflow))"

definition to_workflow_run ::
  "(string \<Rightarrow> int outcome) \<Rightarrow> json \<Rightarrow> json \<Rightarrow> json \<Rightarrow> json workflow_run outcome" where
  "to_workflow_run fromiso workflow_id workflow_name data =
     bindE (json_sub data ''dag_run_id'') (\<lambda>run_id.
     bindE (bindE (json_get_or (JStr []) data ''state'') json_lower) (\<lambda>state.
     bindE (bindE (json_get data ''queued_at'') (parse_datetime fromiso)) (\<lambda>queued.
     bindE (bindE (json_get data ''start_date'') (parse_datetime fromiso)) (\<lambda>started.
     bindE (bindE (json_get data ''end_date'') (parse_datetime fromiso)) (\<lambda>finished.
     bindE (json_get_or (JObj []) data ''conf'') (\<lambda>conf.
     bindE (mapE (\<lambda>k. bindE (json_get data k) (\<lambda>x. Inr (k, x)))
              [''logical_date'', ''run_type'', ''note'', ''external_trigger'']) (\<lambda>metadata.
       Inr \<lparr> wr_run_id = run_id, wr_workflow_id = workflow_id, wr_workflow_name = workflow_name,
             wr_status = (case map_of status_mapping state of Some s \<Rightarrow> s | None \<Rightarrow> Workflow_PENDING),
             wr_queued_at = queued, wr_started_at = started, wr_finished_at = finished,
             wr_parameters = conf, wr_metadata = metadata \<rparr>)))))))"

definition to_workflow_runs ::
  "(string \<Rightarrow> int outcome) \<Rightarrow> json \<Rightarrow> json \<Rightarrow> json \<Rightarrow> json workflow_run list outcome" where
  "to_workflow_runs fromiso workflow_id workflow_name payload =
     bindE (json_get_or (JList []) payload ''dag_runs'') (\<lambda>runs.
     bindE (json_iter runs) (mapE (to_workflow_run fromiso workflow_id workflow_name)))"

section \<open>The Airflow workflow provider\<close>

definition list_workflows :: "'w airflow_env \<Rightarrow> ('w airflow_client, json workflow list) act" where
  "list_workflows v = bindA (list_dags v) (\<lambda>response. lift (to_workflows (rp_body response)))"

definition get_workflow :: "'w airflow_env \<Rightarrow> string \<Rightarrow> ('w airflow_client, json workflow) act" where
  "get_workflow v workflow_id =
     bindA (get_dag v workflow_id) (\<lambda>response. lift (to_workflow (rp_body response)))"

definition trigger_workflow ::
  "'w airflow_env \<Rightarrow> string \<Rightarrow> (string, json) dict option \<Rightarrow> ('w airflow_client, json workflow_run) act" where
  "trigger_workflow v workflow_id parameters =
     bindA (trigger_dag v workflow_id (or_empty parameters)) (\<lambda>response.
     bindA (get_workflow v workflow_id) (\<lambda>workflow.
       lift (to_workflow_run (av_fromisoformat v) (wf_identifier workflow) (wf_name workflow) (rp_body response))))"

definition list_runs :: "'w airflow_env \<Rightarrow> string \<Rightarrow> ('w airflow_client, json workflow_run list) act" where
  "list_runs v workflow_id =
     bindA (get_workflow v workflow_id) (\<lambda>workflow.
     bindA (list_dag_runs v workflow_id) (\<lambda>response.
       lift (to_workflow_runs (av_fromisoformat v) (wf_identifier workflow) (wf_name workflow) (rp_body response))))"

definition get_run :: "'w airflow_env \<Rightarrow> string \<Rightarrow> string \<Rightarrow> ('w airflow_client, json workflow_run) act" where
  "get_run v workflow_id run_id =
     bindA (get_workflow v workflow_id) (\<lambda>workflow.
     bindA (get_dag_run v workflow_id run_id) (\<lambda>response.
       lift (to_workflow_run (av_fromisoformat v) (wf_identifier workflow) (wf_name workflow) (rp_body response))))"

definition cancel_run :: "'w airflow_env \<Rightarrow> string \<Rightarrow> string \<Rightarrow> ('w airflow_client, unit) act" where
  "cancel_run v workflow_id run_id = thenA (cancel_dag_run v workflow_id run_id) (ret ())"

section \<open>Writing a run to the context\<close>

definition publish_given :: "context_key \<Rightarrow> py_value \<Rightarrow> processing_context \<Rightarrow> processing_context" where
  "publish_given k x c = (if x = PyNone then c else publish k (CVPy x) c)"

definition metadata_value :: "string \<Rightarrow> py_value workflow_run \<Rightarrow> py_value" where
  "metadata_value k run = (case map_of (wr_metadata run) k of None \<Rightarrow> PyNone | Some x \<Rightarrow> x)"

definition write_run :: "py_value workflow_run \<Rightarrow> processing_context \<Rightarrow> processing_context" where
  "write_run run c =
     (let c = publish (WorkflowKey Workflow_WORKFLOW_ID) (CVPy (wr_workflow_id run)) c;
          c = publish_given (WorkflowKey Workflow_WORKFLOW_NAME) (wr_workflow_name run) c;
          c = publish (WorkflowKey Workflow_RUN_ID) (CVPy (wr_run_id run)) c;
          c = publish_given (WorkflowKey Workflow_EXECUTION_URL) (metadata_value ''execution_url'' run) c
      in publish_given (WorkflowKey Workflow_SCHEDULE_ID) (metadata_value ''schedule_id'' run) c)"

end
