(* ===== verification/Databricks.thy ===== *)
theory Databricks
  imports Workflow
begin

text \<open>
  Databricks jobs as a compute provider (\<open>integrations/databricks\<close>): the context that resolves job
  names, the client, the translation of SDK errors, the mapper of runs, the provider, the shipper of
  task outputs, and the writer of compute results
  (\<open>processing/context_writers/compute_context_writer.py\<close>). The SDK is a parameter acting on a
  world \<open>'w\<close>.
\<close>

section \<open>Compute models\<close>

datatype compute_status =
  Compute_PENDING | Compute_RUNNING | Compute_SUCCEEDED | Compute_FAILED | Compute_CANCELLED

record workload =
  wl_identifier :: string
  wl_parameters :: "(string, py_value) dict"

record execution =
  xe_execution_id :: string
  xe_status :: compute_status

section \<open>What the SDK returns\<close>

text \<open>The states of a run, by name; \<open>None\<close> is an attribute that is \<open>None\<close>.\<close>

record run_state =
  rs_life_cycle :: "string option"
  rs_result :: "string option"

record run_task =
  rt_task_key :: string
  rt_run_id :: "int option"
  rt_state :: "run_state option"

record dbx_run =
  dr_run_id :: "int option"
  dr_state :: "run_state option"
  dr_tasks :: "run_task list option"

record dbx_job =
  dj_job_id :: "int option"
  dj_settings_name :: "string option option"

record run_output =
  ro_notebook :: "(string option \<times> bool) option"
  ro_logs :: "string option"
  ro_logs_truncated :: bool
  ro_error :: "string option"
  ro_error_trace :: "string option"

text \<open>
  \<open>da_run\<close> is \<open>run_now\<close> and waiting for its result; \<open>da_is_a\<close> tells whether an exception is of a class
  of \<open>databricks.sdk.errors\<close>, subclasses included.
\<close>

record 'w dbx_api =
  da_workspace :: "'w \<Rightarrow> unit outcome \<times> 'w"
  da_jobs :: "'w \<Rightarrow> (dbx_job list \<times> exn option) \<times> 'w"
  da_run :: "int \<Rightarrow> (string, py_value) dict \<Rightarrow> 'w \<Rightarrow> dbx_run outcome \<times> 'w"
  da_get_run :: "int \<Rightarrow> 'w \<Rightarrow> dbx_run outcome \<times> 'w"
  da_get_run_output :: "int \<Rightarrow> 'w \<Rightarrow> run_output outcome \<times> 'w"
  da_is_a :: "exn \<Rightarrow> string \<Rightarrow> bool"

section \<open>The context\<close>

text \<open>The two cached properties: built once, kept unless building raises.\<close>

record 'w dbx_state =
  ds_workspace :: bool
  ds_jobs :: "(string, int) dict option"
  ds_world :: 'w

type_synonym ('w, 'a) dbx = "('w dbx_state, 'a) act"

definition on_dbx :: "('w \<Rightarrow> 'a outcome \<times> 'w) \<Rightarrow> ('w, 'a) dbx" where
  "on_dbx f s = (case f (ds_world s) of (r, w) \<Rightarrow> Some (r, s \<lparr> ds_world := w \<rparr>))"

definition workspace :: "'w dbx_api \<Rightarrow> ('w, unit) dbx" where
  "workspace api =
     bindA (get ds_workspace) (\<lambda>built.
       if built then ret ()
       else thenA (on_dbx (da_workspace api)) (modify (\<lambda>s. s \<lparr> ds_workspace := True \<rparr>)))"

fun named_jobs :: "dbx_job list \<Rightarrow> (string, int) dict \<Rightarrow> (string, int) dict" where
  "named_jobs [] d = d"
| "named_jobs (job # rest) d =
     named_jobs rest
       (case (dj_settings_name job, dj_job_id job) of
          (Some (Some n), Some i) \<Rightarrow> AList.update n i d
        | _ \<Rightarrow> d)"

definition list_jobs :: "'w dbx_api \<Rightarrow> ('w, (string, int) dict) dbx" where
  "list_jobs api =
     on_dbx (\<lambda>w. case da_jobs api w of
       ((js, None), w') \<Rightarrow> (Inr (named_jobs js []), w')
     | ((js, Some e), w') \<Rightarrow> (Inl e, w'))"

definition jobs_of :: "'w dbx_api \<Rightarrow> ('w, (string, int) dict) dbx" where
  "jobs_of api =
     bindA (get ds_jobs) (\<lambda>cached. case cached of
       Some d \<Rightarrow> ret d
     | None \<Rightarrow>
         thenA (workspace api)
        (bindA (list_jobs api) (\<lambda>d.
         thenA (modify (\<lambda>s. s \<lparr> ds_jobs := Some d \<rparr>)) (ret d))))"

definition job_not_found :: "string \<Rightarrow> exn" where
  "job_not_found n = value_error (''Databricks Job '' @ quoted n @ '' was not found.'')"

definition resolve_job :: "'w dbx_api \<Rightarrow> string \<Rightarrow> ('w, int) dbx" where
  "resolve_job api n =
     bindA (jobs_of api) (\<lambda>d. case map_of d n of Some i \<Rightarrow> ret i | None \<Rightarrow> raise (job_not_found n))"

section \<open>The client\<close>

definition dbx_error_classes :: "(string, string) dict" where
  "dbx_error_classes =
     [(''Unauthenticated'', ''AuthenticationError''), (''PermissionDenied'', ''AuthorizationError''),
      (''NotFound'', ''ResourceNotFoundError''), (''ResourceConflict'', ''ConflictError''),
      (''TooManyRequests'', ''RateLimitError''), (''TemporarilyUnavailable'', ''ServiceUnavailableError''),
      (''DeadlineExceeded'', ''RemoteTimeoutError''), (''BadRequest'', ''ValidationError'')]"

definition translate_dbx :: "'w dbx_api \<Rightarrow> exn \<Rightarrow> exn" where
  "translate_dbx api e =
     Exn (case find (\<lambda>(c, _). da_is_a api e c) dbx_error_classes of
            Some (_, platform) \<Rightarrow> platform
          | None \<Rightarrow> ''RemoteServiceError'') (exn_text e)"

text \<open>\<open>except DatabricksError as exception: raise translate(exception)\<close>.\<close>

definition translating :: "'w dbx_api \<Rightarrow> ('w, 'a) dbx \<Rightarrow> ('w, 'a) dbx" where
  "translating api m =
     try_except m (\<lambda>e. raise (if da_is_a api e ''DatabricksError'' then translate_dbx api e else e))"

definition no_run_id :: exn where
  "no_run_id = runtime_error ''Databricks returned a completed run without a run_id.''"

definition client_run :: "'w dbx_api \<Rightarrow> workload \<Rightarrow> ('w, dbx_run) dbx" where
  "client_run api load =
     bindA (translating api
             (bindA (resolve_job api (wl_identifier load)) (\<lambda>job_id.
              thenA (workspace api) (on_dbx (da_run api job_id (wl_parameters load))))))
       (\<lambda>completed. case dr_run_id completed of
          None \<Rightarrow> raise no_run_id
        | Some i \<Rightarrow> translating api (thenA (workspace api) (on_dbx (da_get_run api i))))"

section \<open>The mapper and the provider\<close>

definition show_opt_int :: "int option \<Rightarrow> string" where
  "show_opt_int i = (case i of None \<Rightarrow> ''None'' | Some n \<Rightarrow> show_int n)"

definition status_of_state :: "run_state option \<Rightarrow> compute_status" where
  "status_of_state st =
     (case st of
        None \<Rightarrow> Compute_PENDING
      | Some state \<Rightarrow>
          if rs_life_cycle state \<in> {Some ''PENDING'', Some ''QUEUED''} then Compute_PENDING
          else if rs_life_cycle state \<in> {Some ''RUNNING'', Some ''BLOCKED'', Some ''WAITING_FOR_RETRY'',
              Some ''TERMINATING''} then Compute_RUNNING
          else if rs_life_cycle state = Some ''TERMINATED'' then
            (if rs_result state = Some ''SUCCESS'' then Compute_SUCCEEDED
             else if rs_result state = Some ''CANCELED'' then Compute_CANCELLED
             else Compute_FAILED)
          else Compute_FAILED)"

definition to_execution :: "dbx_run \<Rightarrow> execution" where
  "to_execution run =
     \<lparr> xe_execution_id = show_opt_int (dr_run_id run), xe_status = status_of_state (dr_state run) \<rparr>"

definition execute_workload :: "'w dbx_api \<Rightarrow> workload \<Rightarrow> ('w, execution) dbx" where
  "execute_workload api load = bindA (client_run api load) (\<lambda>run. ret (to_execution run))"

definition write_execution :: "workload \<Rightarrow> execution \<Rightarrow> processing_context \<Rightarrow> processing_context" where
  "write_execution load x c =
     publish (ComputeKey Compute_RUN_ID) (text_value (xe_execution_id x))
       (publish (ComputeKey Compute_JOB_ID) (text_value (wl_identifier load)) c)"

section \<open>Shipping the output of tasks\<close>

text \<open>An enum prints as its class and name; a missing state as \<open>None\<close>.\<close>

definition show_state :: "string \<Rightarrow> string option \<Rightarrow> string" where
  "show_state cls n = (case n of None \<Rightarrow> ''None'' | Some s \<Rightarrow> cls @ ''.'' @ s)"

definition cut_mark :: "bool \<Rightarrow> string" where
  "cut_mark truncated = (if truncated then '' (truncated)'' else [])"

definition task_succeeded :: "run_task \<Rightarrow> bool" where
  "task_succeeded t \<longleftrightarrow> Option.bind (rt_state t) rs_result = Some ''SUCCESS''"

definition format_task_output :: "int \<Rightarrow> run_task \<Rightarrow> run_output \<Rightarrow> string" where
  "format_task_output run_id t out = join '' | ''
     ([''run_id='' @ show_int run_id, ''task_key='' @ rt_task_key t,
       ''task_run_id='' @ show_opt_int (rt_run_id t),
       ''life_cycle_state='' @ show_state ''RunLifeCycleState'' (Option.bind (rt_state t) rs_life_cycle),
       ''result_state='' @ show_state ''RunResultState'' (Option.bind (rt_state t) rs_result)] @
      (case ro_notebook out of
         Some (res, truncated) \<Rightarrow>
           (case given res of Some r \<Rightarrow> [''notebook_result'' @ cut_mark truncated @ ''='' @ r] | None \<Rightarrow> [])
       | None \<Rightarrow> []) @
      (case given (ro_logs out) of
         Some l \<Rightarrow> [''logs'' @ cut_mark (ro_logs_truncated out) @ ''='' @ l] | None \<Rightarrow> []) @
      (case given (ro_error out) of
         Some e \<Rightarrow> if task_succeeded t then [] else [''error='' @ e] | None \<Rightarrow> []) @
      (case given (ro_error_trace out) of
         Some e \<Rightarrow> if task_succeeded t then [] else [''error_trace='' @ e] | None \<Rightarrow> []))"

text \<open>
  The events reach the log handler in order; \<open>lk_open\<close> and \<open>lk_close\<close> make and close it. The
  number of events shipped is the number of tasks with a run of their own.
\<close>

record 'w log_sink =
  lk_open :: "string \<Rightarrow> 'w \<Rightarrow> unit outcome \<times> 'w"
  lk_info :: "string \<Rightarrow> 'w \<Rightarrow> unit outcome \<times> 'w"
  lk_close :: "'w \<Rightarrow> unit outcome \<times> 'w"

fun ship_tasks :: "'w dbx_api \<Rightarrow> 'w log_sink \<Rightarrow> int \<Rightarrow> run_task list \<Rightarrow> int \<Rightarrow> ('w, int) act" where
  "ship_tasks api sink run_id [] shipped = ret shipped"
| "ship_tasks api sink run_id (t # ts) shipped =
     (case rt_run_id t of
        None \<Rightarrow> ship_tasks api sink run_id ts shipped
      | Some i \<Rightarrow>
          bindA (call (da_get_run_output api i)) (\<lambda>out.
          thenA (call (lk_info sink (format_task_output run_id t out)))
            (ship_tasks api sink run_id ts (shipped + 1))))"

text \<open>\<open>try: body finally: cleanup\<close>.\<close>

definition try_finally :: "('s, 'a) act \<Rightarrow> ('s, unit) act \<Rightarrow> ('s, 'a) act" where
  "try_finally body cleanup s =
     (case body s of
        None \<Rightarrow> None
      | Some (r, s') \<Rightarrow>
          (case cleanup s' of
             None \<Rightarrow> None
           | Some (Inl e, s'') \<Rightarrow> Some (Inl e, s'')
           | Some (Inr _, s'') \<Rightarrow> Some (r, s'')))"

definition no_tasks_error :: "int \<Rightarrow> exn" where
  "no_tasks_error run_id = value_error (''Databricks run '' @ show_int run_id @ '' has no task runs to ship.'')"

definition ship_run_output :: "'w dbx_api \<Rightarrow> 'w log_sink \<Rightarrow> int \<Rightarrow> string \<Rightarrow> ('w, int) act" where
  "ship_run_output api sink run_id log_group =
     bindA (call (da_get_run api run_id)) (\<lambda>run.
       let tasks = or_empty (dr_tasks run)
       in if tasks = [] then raise (no_tasks_error run_id)
          else thenA (call (lk_open sink log_group))
                 (try_finally (ship_tasks api sink run_id tasks 0) (call (lk_close sink))))"

section \<open>Notebook parameters\<close>

definition get_parameter ::
  "(string \<Rightarrow> string \<Rightarrow> 'w \<Rightarrow> unit outcome \<times> 'w) \<Rightarrow> (string \<Rightarrow> 'w \<Rightarrow> string outcome \<times> 'w) \<Rightarrow>
     string \<Rightarrow> string option \<Rightarrow> ('w, string option) act" where
  "get_parameter widget_text widget_get n fallback =
     thenA (call (widget_text n (case fallback of None \<Rightarrow> [] | Some d \<Rightarrow> d)))
    (bindA (call (widget_get n)) (\<lambda>x.
       ret (if x = [] \<and> fallback = None then None else Some x)))"

end
