(* ===== verification/Jobs.thy ===== *)
theory Jobs
  imports Observers Executor_Parallel Postgres_Extraction Databricks
begin

text \<open>
  The programs that run pipelines: the one-off scripts (\<open>scripts/run_postgres_extraction_once.py\<close>,
  \<open>scripts/run_silver_catalog_registration_once.py\<close>) and the tasks of the batch DAG
  (\<open>airflow/dags/marketplace_batch_pipeline.py\<close>). Here the stages meet the executors, with the three
  hooks. What is printed is left out; building settings and the registry is the factory's part.
\<close>

section \<open>Stages in a pipeline\<close>

text \<open>
  The \<open>execute\<close> of a stage that acts on a context and a world. The stages of the platform return
  whenever their providers do; one that does not would keep the executor waiting, and is given an
  exception nobody catches here.
\<close>

definition body_of :: "('w, stage_result) stage_act \<Rightarrow> 'w stage_body" where
  "body_of m c w =
     (case m \<lparr> sw_ctx = c, sw_world = w \<rparr> of
        Some (r, s) \<Rightarrow> (r, sw_ctx s, sw_world s)
      | None \<Rightarrow> (Inl (BaseExn ''NotReturned'' []), c, w))"

definition as_stage :: "('b, 'w) stage_base \<Rightarrow> ('w, stage_result) stage_act \<Rightarrow> 'w stage" where
  "as_stage b m =
     \<lparr> st_id = sb_id b, st_name = sb_name b, st_max_attempts = default_max_attempts, st_execute = body_of m \<rparr>"

section \<open>What the programs keep\<close>

text \<open>One metrics hook serves all the runs of a program; the other two hooks are new in each run.\<close>

record 'w job_state =
  js_world :: 'w
  js_metrics :: metrics

type_synonym ('w, 'a) job_act = "('w job_state, 'a) act"

definition in_world :: "('w, 'a) act \<Rightarrow> ('w, 'a) job_act" where
  "in_world m s = (case m (js_world s) of None \<Rightarrow> None | Some (r, w) \<Rightarrow> Some (r, s \<lparr> js_world := w \<rparr>))"

definition start_run :: "processing_context \<Rightarrow> 'w job_state \<Rightarrow> (observations, 'w) Executor_Base.run_state" where
  "start_run c s = new_run c (nothing_observed \<lparr> ob_metrics := js_metrics s \<rparr>) (js_world s)"

definition end_run ::
  "(pipeline_result outcome \<times> (observations, 'w) Executor_Base.run_state) option \<Rightarrow>
     ((pipeline_result \<times> processing_context) outcome \<times> 'w job_state) option" where
  "end_run run =
     (case run of
        None \<Rightarrow> None
      | Some (r, t) \<Rightarrow>
          Some (bindE r (\<lambda>res. Inr (res, rt_ctx t)), \<lparr> js_world = rs_env t, js_metrics = ob_metrics (rs_obs t) \<rparr>))"

text \<open>The clocks of a run: the hooks' and the executor's.\<close>

type_synonym run_clocks = "(nat \<Rightarrow> int) \<times> (nat \<Rightarrow> int)"

definition run_sequential ::
  "run_clocks \<Rightarrow> 'w pipeline \<Rightarrow> processing_context \<Rightarrow> ('w, pipeline_result \<times> processing_context) job_act" where
  "run_sequential clocks p c s =
     end_run (execute_sequential (observed_executor (fst clocks) (snd clocks) None) p (start_run c s))"

definition run_parallel ::
  "run_clocks \<Rightarrow> nat list list \<Rightarrow> 'w pipeline \<Rightarrow> processing_context \<Rightarrow>
     ('w, pipeline_result \<times> processing_context) job_act" where
  "run_parallel clocks scheds p c s =
     end_run (execute_parallel (observed_executor (fst clocks) (snd clocks) None) scheds p (start_run c s))"

text \<open>The Pushgateway and the URL the settings have for it.\<close>

record push_env =
  pu_gateway :: "string \<Rightarrow> string \<Rightarrow> sample list \<Rightarrow> exn option"
  pu_default_url :: string

definition push_metrics :: "push_env \<Rightarrow> string \<Rightarrow> string option \<Rightarrow> ('w, unit) job_act" where
  "push_metrics pu job url s =
     (case metrics_push (pu_gateway pu) job url (pu_default_url pu) (js_metrics s) of
        (r, mx) \<Rightarrow> Some (r, s \<lparr> js_metrics := mx \<rparr>))"

section \<open>Texts\<close>

text \<open>\<open>str.title\<close> of ASCII text, an optional text in an f-string, and \<open>SystemExit\<close> with a message.\<close>

fun title_from :: "bool \<Rightarrow> string \<Rightarrow> string" where
  "title_from inside [] = []"
| "title_from inside (c # s) =
     (if inside then lower [c] else if is_alpha c then upper_ascii [c] else [c]) @ title_from (is_alpha c) s"

definition title :: "string \<Rightarrow> string" where
  "title s = title_from False s"

definition show_opt :: "string option \<Rightarrow> string" where
  "show_opt x = (case x of None \<Rightarrow> ''None'' | Some t \<Rightarrow> t)"

definition system_exit :: "string \<Rightarrow> exn" where
  "system_exit m = BaseExn ''SystemExit'' m"

section \<open>The registration script\<close>

definition silver_entities :: "string list" where
  "silver_entities =
     [''orders'', ''order_items'', ''products'', ''payments'', ''sellers'', ''categories'', ''order_status_history'']"

definition registration_stage :: "('b, 'w) provider_factory \<Rightarrow> string \<Rightarrow> ('b, 'w) silver_stage" where
  "registration_stage f entity =
     \<lparr> sb_id = ''register-silver-'' @ entity @ ''-once'',
       sb_name = ''Register Silver '' @ title entity @ '' (one-off)'', sb_factory = Some f,
       ss_storage_provider = ''aws.s3'', ss_catalog_provider = ''aws.glue'', ss_entity = entity,
       ss_database = default_database \<rparr>"

definition register_one ::
  "'w delta_env \<Rightarrow> run_clocks \<Rightarrow> ('b, 'w) provider_factory \<Rightarrow> string \<Rightarrow>
     ('w, ctx_value option \<times> ctx_value option) job_act" where
  "register_one v clocks f entity =
     (let st = registration_stage f entity;
          context = new_context (''context-silver-catalog-registration-once-'' @ entity)
            (new_metadata (''execution-silver-catalog-registration-once-'' @ entity))
      in bindA (lift (make_pipeline (''silver-catalog-registration-once-'' @ entity)
             (''Silver Catalog Registration (one-off) - '' @ entity)
             [Lone (Some (as_stage (stage_base.truncate st) (silver_registration v st)))])) (\<lambda>pipeline.
         bindA (run_sequential clocks pipeline context) (\<lambda>(result, context).
           if pr_status result \<noteq> COMPLETED then
             raise (system_exit (''Registration failed for '' @ quoted entity @ '': '' @
               show_opt (pr_error_type result) @ '' - '' @ show_opt (pr_error_message result)))
           else ret (ctx_get context (CatalogKey Catalog_DATABASE), ctx_get context (CatalogKey Catalog_TABLE)))))"

fun register_all ::
  "'w delta_env \<Rightarrow> (string \<Rightarrow> run_clocks) \<Rightarrow> ('b, 'w) provider_factory \<Rightarrow> string list \<Rightarrow> ('w, unit) job_act" where
  "register_all v clocks f [] = ret ()"
| "register_all v clocks f (e # es) =
     thenA (register_one v (clocks e) f e) (register_all v clocks f es)"

definition registration_main ::
  "'w delta_env \<Rightarrow> (string \<Rightarrow> run_clocks) \<Rightarrow> push_env \<Rightarrow> string \<Rightarrow> ('b, 'w) provider_factory \<Rightarrow> ('w, unit) job_act" where
  "registration_main v clocks pu host_url f =
     thenA (modify (\<lambda>s. s \<lparr> js_metrics := new_metrics \<rparr>))
    (thenA (register_all v clocks f silver_entities)
           (push_metrics pu ''silver_catalog_registration_once'' (Some host_url)))"

section \<open>The extraction script\<close>

definition marketplace_entities :: "(string \<times> string) list" where
  "marketplace_entities =
     map (\<lambda>e. (e, ''marketplace.'' @ e))
       [''customers'', ''orders'', ''order_items'', ''products'', ''payments'', ''sellers'', ''categories'']"

definition extraction_once :: "('b, 'w) provider_factory \<Rightarrow> string \<Rightarrow> string \<Rightarrow> ('b, 'w) extraction_stage" where
  "extraction_once f entity table_name =
     \<lparr> sb_id = ''extract-'' @ entity @ ''-once'', sb_name = ''Extract '' @ title entity @ '' (one-off)'',
       sb_factory = Some f, es_provider = ''aws.s3'', es_table_name = table_name, es_entity = entity \<rparr>"

text \<open>The first result is read before the status is looked at.\<close>

definition extract_one ::
  "('w, 'v, 't) pg_env \<Rightarrow> run_clocks \<Rightarrow> ('b, 'w) provider_factory \<Rightarrow> string \<Rightarrow> string \<Rightarrow> ('w, py_value) job_act" where
  "extract_one env clocks f entity table_name =
     (let st = extraction_once f entity table_name;
          context = new_context (''context-postgres-extraction-once-'' @ entity)
            (new_metadata (''execution-postgres-extraction-once-'' @ entity))
      in bindA (lift (make_pipeline (''postgres-extraction-once-'' @ entity)
             (''Postgres Extraction (one-off) - '' @ entity)
             [Lone (Some (as_stage (stage_base.truncate st) (postgres_extraction env st)))])) (\<lambda>pipeline.
         bindA (run_sequential clocks pipeline context) (\<lambda>(result, context).
         bindA (lift (cell 0 (pl_stage_results result))) (\<lambda>stage_result.
           if pr_status result \<noteq> COMPLETED then
             raise (system_exit (''Extraction failed for '' @ quoted entity @ '': '' @
               show_opt (pr_error_type stage_result) @ '' - '' @ show_opt (pr_error_message stage_result)))
           else lift (required ''uri'' (map_of (sr_output stage_result) ''uri''))))))"

fun extract_all ::
  "('w, 'v, 't) pg_env \<Rightarrow> (string \<Rightarrow> run_clocks) \<Rightarrow> ('b, 'w) provider_factory \<Rightarrow> (string \<times> string) list \<Rightarrow>
     ('w, unit) job_act" where
  "extract_all env clocks f [] = ret ()"
| "extract_all env clocks f ((entity, table_name) # es) =
     thenA (extract_one env (clocks entity) f entity table_name) (extract_all env clocks f es)"

definition extraction_main ::
  "('w, 'v, 't) pg_env \<Rightarrow> (string \<Rightarrow> run_clocks) \<Rightarrow> push_env \<Rightarrow> ('b, 'w) provider_factory \<Rightarrow> ('w, unit) job_act" where
  "extraction_main env clocks pu f =
     thenA (modify (\<lambda>s. s \<lparr> js_metrics := new_metrics \<rparr>))
    (thenA (extract_all env clocks f marketplace_entities) (push_metrics pu ''postgres_extraction_once'' None))"

end
