(* ===== verification/Batch_Dag.thy ===== *)
theory Batch_Dag
  imports Jobs
begin

text \<open>
  The tasks of the batch DAG (\<open>airflow/dags/marketplace_batch_pipeline.py\<close>): the extraction of the
  marketplace's tables, which counts the rows, clears the raw layer, runs the stages in one parallel
  group and verifies what landed; the parameter handed to Databricks; and the shipping of the run's
  logs. The operators of Airflow (the Databricks run, the two dbt commands) are not the repository's.
\<close>

section \<open>What the extraction relies on\<close>

text \<open>
  \<open>mk_count\<close> is the cursor's block (execute, fetch one); \<open>mk_leave\<close> the exit of the connection's
  block, told whether its body raised; \<open>mk_page\<close> one request of the paginator for the objects
  under a key, with the token of the page; \<open>mk_num_rows\<close> the rows in the metadata of a Parquet file.
\<close>

record 'w market_env =
  mk_connect :: "'w \<Rightarrow> unit outcome \<times> 'w"
  mk_count :: "string \<Rightarrow> 'w \<Rightarrow> int outcome \<times> 'w"
  mk_leave :: "bool \<Rightarrow> 'w \<Rightarrow> unit outcome \<times> 'w"
  mk_page :: "string \<Rightarrow> string \<Rightarrow> string option \<Rightarrow> 'w \<Rightarrow> (s3_object list \<times> string option) outcome \<times> 'w"
  mk_num_rows :: "string \<Rightarrow> 'w \<Rightarrow> int outcome \<times> 'w"

definition batch_entities :: "(string \<times> string) list" where
  "batch_entities = marketplace_entities @ [(''order_status_history'', ''marketplace.order_status_history'')]"

section \<open>Before the run\<close>

text \<open>
  \<open>for existing in storage_provider.list(prefix): storage_provider.delete(existing.location)\<close>: the
  generator asks for a page when the objects of the page before it are gone.
\<close>

fun delete_objects :: "'w provider \<Rightarrow> storage_location \<Rightarrow> s3_object list \<Rightarrow> ('w, unit) act" where
  "delete_objects storage place [] = ret ()"
| "delete_objects storage place (r # rs) =
     bindA (lift (to_storage_object_summary (sl_scheme place) (sl_bucket place) r)) (\<lambda>existing.
     thenA (pv_delete storage (so_location existing)) (delete_objects storage place rs))"

partial_function (option) clear_prefix ::
  "'w market_env \<Rightarrow> 'w provider \<Rightarrow> storage_location \<Rightarrow> string option \<Rightarrow> ('w, unit) act" where
  "clear_prefix mk storage place token w =
     (case mk_page mk (sl_bucket place) (sl_key place) token w of
        (Inl e, w1) \<Rightarrow> Some (Inl e, w1)
      | (Inr (objects, next_token), w1) \<Rightarrow>
          (case delete_objects storage place objects w1 of
             None \<Rightarrow> None
           | Some (Inl e, w2) \<Rightarrow> Some (Inl e, w2)
           | Some (Inr _, w2) \<Rightarrow>
               (case next_token of None \<Rightarrow> Some (Inr (), w2) | Some t \<Rightarrow> clear_prefix mk storage place (Some t) w2)))"

declare clear_prefix.simps [code]

definition prepare_entity ::
  "'w market_env \<Rightarrow> ('w, 'v, 't) pg_env \<Rightarrow> 'w provider \<Rightarrow> string \<times> string \<Rightarrow> ('w, string \<times> int) act" where
  "prepare_entity mk env storage e =
     (case e of (entity, table_name) \<Rightarrow>
        bindA (call (mk_count mk table_name)) (\<lambda>count.
        bindA (lift (from_uri (pe_check_netloc env) (config_raw entity @ ''/''))) (\<lambda>place.
        thenA (clear_prefix mk storage place None) (ret (entity, count)))))"

fun prepare_all ::
  "'w market_env \<Rightarrow> ('w, 'v, 't) pg_env \<Rightarrow> 'w provider \<Rightarrow> (string \<times> string) list \<Rightarrow> ('w, (string \<times> int) list) act" where
  "prepare_all mk env storage [] = ret []"
| "prepare_all mk env storage (e # es) =
     bindA (prepare_entity mk env storage e) (\<lambda>c.
     bindA (prepare_all mk env storage es) (\<lambda>cs. ret (c # cs)))"

definition extraction_stage_for :: "('b, 'w) provider_factory \<Rightarrow> string \<times> string \<Rightarrow> ('b, 'w) extraction_stage" where
  "extraction_stage_for f e =
     \<lparr> sb_id = ''extract-'' @ fst e, sb_name = ''Extract '' @ title (fst e), sb_factory = Some f,
       es_provider = ''aws.s3'', es_table_name = snd e, es_entity = fst e \<rparr>"

definition extraction_group ::
  "('w, 'v, 't) pg_env \<Rightarrow> ('b, 'w) provider_factory \<Rightarrow> (string \<times> string) list \<Rightarrow> 'w pipeline outcome" where
  "extraction_group env f entities =
     make_pipeline ''marketplace-batch-pipeline-extract-postgres'' ''Postgres Extraction''
       [Group (map (\<lambda>e. let st = extraction_stage_for f e
          in Some (as_stage (stage_base.truncate st) (postgres_extraction env st))) entities)]"

section \<open>After the run\<close>

definition result_of :: "stage_result list \<Rightarrow> string \<Rightarrow> stage_result option" where
  "result_of results entity = List.find (\<lambda>r. sr_stage_id r = ''extract-'' @ entity) results"

definition incomplete :: "stage_result option \<Rightarrow> bool" where
  "incomplete r \<longleftrightarrow> (case r of None \<Rightarrow> True | Some r \<Rightarrow> failed r)"

definition failure_detail :: "string \<times> stage_result option \<Rightarrow> string" where
  "failure_detail x =
     (case x of
        (entity, None) \<Rightarrow> entity @ '': did not complete (pipeline-level failure)''
      | (entity, Some r) \<Rightarrow> entity @ '': '' @ show_opt (pr_error_type r) @ '' - '' @ show_opt (pr_error_message r))"

definition extraction_failed :: "(string \<times> stage_result option) list \<Rightarrow> exn" where
  "extraction_failed xs = runtime_error (''Extraction failed for: '' @ join ''; '' (map failure_detail xs))"

text \<open>The rows of the object that landed, read from a file in a temporary directory.\<close>

definition landed_rows ::
  "'w market_env \<Rightarrow> 'w delta_env \<Rightarrow> 'w provider \<Rightarrow> storage_location \<Rightarrow> ('w, int) act" where
  "landed_rows mk v storage l =
     with_tmp v (\<lambda>tmp.
       thenA (pv_download storage l (tmp @ ''/landed.parquet'')) (call (mk_num_rows mk (tmp @ ''/landed.parquet''))))"

fun py_text :: "py_value \<Rightarrow> string outcome" where
  "py_text (PyStr s) = Inr s"
| "py_text v = Inl (type_error ''expected a string'')"

definition count_mismatch :: "string \<Rightarrow> int \<Rightarrow> string \<Rightarrow> int \<Rightarrow> exn" where
  "count_mismatch entity expected uri landed = runtime_error
     (''Row count mismatch for '' @ quoted entity @ '': Postgres has '' @ show_int expected @
      '', landed parquet ('' @ uri @ '') has '' @ show_int landed @ ''.'')"

definition verify_entity ::
  "'w market_env \<Rightarrow> ('w, 'v, 't) pg_env \<Rightarrow> 'w delta_env \<Rightarrow> 'w provider \<Rightarrow> (string \<times> int) list \<Rightarrow>
     string \<Rightarrow> stage_result \<Rightarrow> ('w, string \<times> int) act" where
  "verify_entity mk env v storage postgres_counts entity r =
     bindA (lift (bindE (required ''uri'' (map_of (sr_output r) ''uri'')) py_text)) (\<lambda>uri.
     bindA (lift (from_uri (pe_check_netloc env) uri)) (\<lambda>landed_location.
     bindA (landed_rows mk v storage landed_location) (\<lambda>landed_count.
     bindA (lift (required entity (map_of postgres_counts entity))) (\<lambda>postgres_count.
       if landed_count \<noteq> postgres_count then raise (count_mismatch entity postgres_count uri landed_count)
       else ret (entity, postgres_count)))))"

fun verify_all ::
  "'w market_env \<Rightarrow> ('w, 'v, 't) pg_env \<Rightarrow> 'w delta_env \<Rightarrow> 'w provider \<Rightarrow> (string \<times> int) list \<Rightarrow>
     (string \<times> stage_result option) list \<Rightarrow> ('w, (string \<times> int) list) act" where
  "verify_all mk env v storage counts [] = ret []"
| "verify_all mk env v storage counts ((entity, None) # xs) = raise (attribute_error ''output'')"
| "verify_all mk env v storage counts ((entity, Some r) # xs) =
     bindA (verify_entity mk env v storage counts entity r) (\<lambda>c.
     bindA (verify_all mk env v storage counts xs) (\<lambda>cs. ret (c # cs)))"

section \<open>The tasks\<close>

text \<open>The connection's block counts and clears; then the group runs, and what landed is verified.\<close>

definition extract_entities ::
  "'w market_env \<Rightarrow> ('w, 'v, 't) pg_env \<Rightarrow> 'w delta_env \<Rightarrow> run_clocks \<Rightarrow> nat list list \<Rightarrow> push_env \<Rightarrow>
     ('b, 'w) provider_factory \<Rightarrow> (string \<times> string) list \<Rightarrow> ('w, (string \<times> int) list) job_act" where
  "extract_entities mk env v clocks scheds pu f entities =
     bindA (in_world (factory_create f ''aws.s3'')) (\<lambda>storage.
     thenA (modify (\<lambda>s. s \<lparr> js_metrics := new_metrics \<rparr>))
    (bindA (in_world (thenA (call (mk_connect mk))
              (leaving (mk_leave mk) (prepare_all mk env storage entities)))) (\<lambda>postgres_counts.
     bindA (lift (extraction_group env f entities)) (\<lambda>pipeline.
     bindA (run_parallel clocks scheds pipeline
              (new_context ''context-extract-postgres'' (new_metadata ''execution-extract-postgres''))) (\<lambda>(result, context).
       let results = map (\<lambda>e. (fst e, result_of (pl_stage_results result) (fst e))) entities;
           failed_or_missing = filter (\<lambda>x. incomplete (snd x)) results
       in if failed_or_missing \<noteq> [] then raise (extraction_failed failed_or_missing)
          else
            bindA (in_world (verify_all mk env v storage postgres_counts results)) (\<lambda>counts.
            thenA (push_metrics pu ''extract_postgres'' None) (ret counts)))))))"

definition extract_postgres ::
  "'w market_env \<Rightarrow> ('w, 'v, 't) pg_env \<Rightarrow> 'w delta_env \<Rightarrow> run_clocks \<Rightarrow> nat list list \<Rightarrow> push_env \<Rightarrow>
     ('b, 'w) provider_factory \<Rightarrow> ('w, (string \<times> int) list) job_act" where
  "extract_postgres mk env v clocks scheds pu f = extract_entities mk env v clocks scheds pu f batch_entities"

definition entities_parameter :: "(string \<times> int) list \<Rightarrow> string" where
  "entities_parameter counts = join '','' (map fst counts)"

text \<open>\<open>run_id\<close> is what the run's operator pushed; the client is built from a connection of Airflow.\<close>

definition ship_databricks_run_logs ::
  "('w \<Rightarrow> 'w dbx_api outcome \<times> 'w) \<Rightarrow> 'w log_sink \<Rightarrow> string \<Rightarrow> int option \<Rightarrow> ('w, int) act" where
  "ship_databricks_run_logs client sink log_group run_id =
     (case run_id of
        None \<Rightarrow> raise (runtime_error
          (''run_databricks_full_pipeline did not push a run_id XCom -- cannot ship its output to CloudWatch.''))
      | Some i \<Rightarrow> bindA (call client) (\<lambda>workspace. ship_run_output workspace sink i log_group))"

end
