(* ===== verification/Parallel_Facts.thy ===== *)
theory Parallel_Facts
  imports Executor_Parallel
begin

text \<open>
  The tasks of a parallel group under any schedule. A group of independent stages computes what
  each stage computes alone, and a schedule that gives every task its turns finishes the group.
\<close>

section \<open>Independent stages\<close>

text \<open>
  The world is a component per stage. A stage is independent when its answer depends on its own
  component only, it changes no other, and it leaves the shared context alone (the convention the
  executor documents: outputs are returned, not published).
\<close>

definition independent :: "(string \<Rightarrow> 'w) stage \<Rightarrow> ('w \<Rightarrow> stage_result outcome \<times> 'w) \<Rightarrow> bool" where
  "independent st f \<longleftrightarrow>
     (\<forall>c env. st_execute st c env =
        (fst (f (env (st_id st))), c, env(st_id st := snd (f (env (st_id st))))))"

fun alone :: "nat \<Rightarrow> ('w \<Rightarrow> stage_result outcome \<times> 'w) \<Rightarrow> 'w \<Rightarrow> stage_result outcome \<times> 'w" where
  "alone 0 f w = f w"
| "alone (Suc k) f w =
     (case f w of (Inl (Exn _ _), w') \<Rightarrow> alone k f w' | other \<Rightarrow> other)"

lemma spec_attempts_alone:
  assumes "independent st f"
  shows "spec_attempts k st c env =
    (fst (alone k f (env (st_id st))), c, env(st_id st := snd (alone k f (env (st_id st)))))"
proof (induction k arbitrary: env)
  case 0
  then show ?case using assms by (simp add: independent_def fun_eq_iff)
next
  case (Suc k)
  show ?case
    using assms Suc.IH
    by (cases "f (env (st_id st))")
       (auto simp: independent_def split: sum.split exn.split)
qed

definition outcome_of :: "bool \<Rightarrow> stage_result outcome \<Rightarrow> (stage_result \<times> bool) outcome" where
  "outcome_of ff r = (case r of Inl e \<Rightarrow> Inl e | Inr a \<Rightarrow> Inr (a, failed a \<and> ff))"

section \<open>One task\<close>

definition remaining :: "'e stage \<Rightarrow> int \<Rightarrow> nat" where
  "remaining st n = nat (or_one (Some (st_max_attempts st)) - n)"

text \<open>
  \<open>task_ok ff st f goal w tk\<close>: the task runs \<open>st\<close>, and from the component \<open>w\<close> it is on its way
  to \<open>goal\<close>, the answer and the final component of running the stage alone.
\<close>

definition task_ok ::
  "bool \<Rightarrow> 'e stage \<Rightarrow> ('w \<Rightarrow> stage_result outcome \<times> 'w) \<Rightarrow> stage_result outcome \<times> 'w \<Rightarrow> 'w \<Rightarrow>
     stage_vars \<Rightarrow> task_pc \<Rightarrow> bool" where
  "task_ok ff st f goal w v pc \<longleftrightarrow>
     (case pc of
        Starting \<Rightarrow> alone (budget st) f w = goal
      | Running n \<Rightarrow> attempt_vars st n v \<and> alone (remaining st n) f w = goal
      | Handling n r \<Rightarrow>
          attempt_vars st n v \<and> (\<forall>c x. r \<noteq> Inl (BaseExn c x)) \<and>
          (if (\<exists>c x. r = Inl (Exn c x)) \<and> n < or_one (Some (st_max_attempts st))
           then alone (remaining st (n + 1)) f w = goal
           else goal = (r, w))
      | Finished out \<Rightarrow> out = outcome_of ff (fst goal) \<and> w = snd goal)"

lemma remaining_step:
  "n < or_one (Some (st_max_attempts st)) \<Longrightarrow> remaining st n = Suc (remaining st (n + 1))"
  by (simp add: remaining_def)

lemma remaining_last: "\<not> n < or_one (Some (st_max_attempts st)) \<Longrightarrow> remaining st n = 0"
  by (simp add: remaining_def)

lemma alone_step:
  assumes "alone (remaining st n) f w = goal" "f w = (r, w')"
  shows "if (\<exists>c x. r = Inl (Exn c x)) \<and> n < or_one (Some (st_max_attempts st))
    then alone (remaining st (n + 1)) f w' = goal else goal = (r, w')"
proof (cases "n < or_one (Some (st_max_attempts st))")
  case True
  then show ?thesis
    using assms remaining_step [OF True] by (auto split: sum.splits exn.splits)
next
  case False
  then show ?thesis
    using assms remaining_last [OF False] by simp
qed

text \<open>What a step of the task leaves alone.\<close>

definition same_but :: "string \<Rightarrow> ('o, string \<Rightarrow> 'w) run_state \<Rightarrow> ('o, string \<Rightarrow> 'w) run_state \<Rightarrow> bool" where
  "same_but i s t \<longleftrightarrow>
     rt_ctx t = rt_ctx s \<and> rs_results t = rs_results s \<and> (\<forall>j. j \<noteq> i \<longrightarrow> rs_env t j = rs_env s j)"

text \<open>The turns a task still needs.\<close>

fun turns_left :: "'e stage \<Rightarrow> task_pc \<Rightarrow> nat" where
  "turns_left st Starting = 2 * Suc (budget st) + 1"
| "turns_left st (Running n) = 2 * Suc (remaining st n)"
| "turns_left st (Handling n r) = 2 * remaining st n + 1"
| "turns_left st (Finished r) = 0"

lemma wp_task_step:
  assumes std: "standard x ff" and ind: "independent st f"
    and ok: "task_ok ff st f goal (rs_env s (st_id st)) (rt_vars s) pc"
  shows "wp (task_step x p (Some st) pc)
    (\<lambda>pc' t. task_ok ff st f goal (rs_env t (st_id st)) (rt_vars t) pc' \<and> same_but (st_id st) s t \<and>
       turns_left st pc' \<le> turns_left st pc - 1)
    (\<lambda>e t. task_ok ff st f goal (rs_env t (st_id st)) (rt_vars t) (Finished (Inl e)) \<and>
       same_but (st_id st) s t) s"
proof -
  have quiet: "hooks_quiet (ex_run x) (ex_hooks x)"
    using std by (simp add: standard_def)
  show ?thesis
  proof (cases pc)
    case Starting
    then show ?thesis
      using ok
      by (auto simp: task_step_def run_stage_start_def emit_defs task_ok_def same_but_def
          stage_started_def set_max_attempts_def attempt_vars_def remaining_def budget_def
          intro!: wp_emit_quiet [OF quiet])
  next
    case (Running n)
    obtain r w' where f: "f (rs_env s (st_id st)) = (r, w')" by (cases "f (rs_env s (st_id st))")
    have run: "st_execute st (rt_ctx s) (rs_env s) = (r, rt_ctx s, (rs_env s)(st_id st := w'))"
      using ind f by (simp add: independent_def)
    have vars: "attempt_vars st n (rt_vars s)"
      and "alone (remaining st n) f (rs_env s (st_id st)) = goal"
      using ok Running by (simp_all add: task_ok_def)
    from alone_step [OF this(2) f] vars show ?thesis
      by (auto simp: Running task_step_def run_stage_body_def wp_execute_stage run Let_def
          task_ok_def same_but_def outcome_of_def split: sum.split exn.split)
  next
    case (Handling n r)
    have vars: "attempt_vars st n (rt_vars s)"
      using ok Handling by (simp add: task_ok_def)
    show ?thesis
    proof (cases r)
      case (Inl e)
      then obtain c y where e: "e = Exn c y"
        using ok Handling by (cases e) (simp_all add: task_ok_def)
      show ?thesis
        using ok vars
        by (auto simp: Handling Inl e task_step_def run_stage_handle_def emit_defs task_ok_def same_but_def
            set_stage_failed_def retry_started_def stage_finished_def attempt_vars_def outcome_of_def
            or_one_pos_Some remaining_step
            intro!: wp_emit_quiet [OF quiet] wp_standard_exception [OF std])
    next
      case (Inr a)
      show ?thesis
        using ok vars
        by (auto simp: Handling Inr task_step_def run_stage_handle_def emit_defs task_ok_def same_but_def
            set_stage_result_def stage_finished_def attempt_vars_def outcome_of_def failed_def
            intro!: wp_emit_quiet [OF quiet] wp_standard_failure [OF std])
    qed
  next
    case (Finished out)
    then show ?thesis
      using ok by (simp add: task_step_def same_but_def)
  qed
qed

lemma step_task_ok:
  assumes std: "standard x ff" and ind: "independent st f" and stage: "tk_stage tk = Some st"
    and ok: "task_ok ff st f goal (rs_env s (st_id st)) (tk_vars tk) (tk_pc tk)"
  obtains tk' t where "step_task x p tk s = Some (tk', t)" "tk_stage tk' = Some st"
    "task_ok ff st f goal (rs_env t (st_id st)) (tk_vars tk') (tk_pc tk')"
    "same_but (st_id st) s t" "rt_vars t = rt_vars s"
    "turns_left st (tk_pc tk') \<le> turns_left st (tk_pc tk) - 1"
proof -
  let ?s = "s \<lparr> rt_vars := tk_vars tk \<rparr>"
  have wp: "wp (task_step x p (Some st) (tk_pc tk))
    (\<lambda>pc' t. task_ok ff st f goal (rs_env t (st_id st)) (rt_vars t) pc' \<and> same_but (st_id st) ?s t \<and>
       turns_left st pc' \<le> turns_left st (tk_pc tk) - 1)
    (\<lambda>e t. task_ok ff st f goal (rs_env t (st_id st)) (rt_vars t) (Finished (Inl e)) \<and>
       same_but (st_id st) ?s t) ?s"
    using wp_task_step [OF std ind, of goal ?s] ok by simp
  then obtain r t where run: "task_step x p (Some st) (tk_pc tk) ?s = Some (r, t)"
    by (blast dest: wp_returns)
  show ?thesis
  proof (cases r)
    case (Inl e)
    with wp run have "task_ok ff st f goal (rs_env t (st_id st)) (rt_vars t) (Finished (Inl e))"
      "same_but (st_id st) ?s t" by (simp_all add: wp_def)
    with run Inl show ?thesis
      by (intro that [of "tk \<lparr> tk_vars := rt_vars t, tk_pc := Finished (Inl e) \<rparr>" "t \<lparr> rt_vars := rt_vars s \<rparr>"])
         (simp_all add: step_task_def stage same_but_def)
  next
    case (Inr pc)
    with wp run have "task_ok ff st f goal (rs_env t (st_id st)) (rt_vars t) pc"
      "same_but (st_id st) ?s t" "turns_left st pc \<le> turns_left st (tk_pc tk) - 1"
      by (simp_all add: wp_def)
    with run Inr show ?thesis
      by (intro that [of "tk \<lparr> tk_vars := rt_vars t, tk_pc := pc \<rparr>" "t \<lparr> rt_vars := rt_vars s \<rparr>"])
         (simp_all add: step_task_def stage same_but_def)
  qed
qed

section \<open>A group under a schedule\<close>

definition group_ok ::
  "bool \<Rightarrow> (string \<Rightarrow> 'w \<Rightarrow> stage_result outcome \<times> 'w) \<Rightarrow> (string \<Rightarrow> 'w) \<Rightarrow>
     (string \<Rightarrow> 'w) stage list \<Rightarrow> (string \<Rightarrow> 'w) task list \<times> ('o, string \<Rightarrow> 'w) run_state \<Rightarrow> bool" where
  "group_ok ff F env0 sts cfg \<longleftrightarrow>
     (case cfg of (tks, s) \<Rightarrow>
        length tks = length sts \<and>
        (\<forall>i < length sts. tk_stage (tks ! i) = Some (sts ! i) \<and>
           task_ok ff (sts ! i) (F (st_id (sts ! i)))
             (alone (budget (sts ! i)) (F (st_id (sts ! i))) (env0 (st_id (sts ! i))))
             (rs_env s (st_id (sts ! i))) (tk_vars (tks ! i)) (tk_pc (tks ! i))) \<and>
        (\<forall>j. j \<notin> st_id ` set sts \<longrightarrow> rs_env s j = env0 j))"

lemma run_tasks_ok:
  assumes std: "standard x ff" and dist: "distinct (map st_id sts)"
    and ind: "\<And>st. st \<in> set sts \<Longrightarrow> independent st (F (st_id st))"
  shows "group_ok ff F env0 sts (tks, s) \<Longrightarrow>
    \<exists>tks' t. run_tasks x p sched (tks, s) = Some (tks', t) \<and> group_ok ff F env0 sts (tks', t) \<and>
      rt_ctx t = rt_ctx s \<and> rt_vars t = rt_vars s \<and> rs_results t = rs_results s \<and>
      (\<forall>i < length sts. turns_left (sts ! i) (tk_pc (tks' ! i)) \<le>
         turns_left (sts ! i) (tk_pc (tks ! i)) - count_list sched i)"
proof (induction sched arbitrary: tks s)
  case Nil
  then show ?case by simp
next
  case (Cons i sched)
  show ?case
  proof (cases "i < length tks")
    case False
    have len: "length tks = length sts" using Cons.prems by (simp add: group_ok_def)
    have eq: "j < length sts \<Longrightarrow> count_list (i # sched) j = count_list sched j" for j
      using False len by auto
    show ?thesis
      using Cons.IH [OF Cons.prems] False eq by simp
  next
    case True
    have i: "i < length sts" using Cons.prems True by (simp add: group_ok_def)
    let ?st = "sts ! i"
    have ok: "tk_stage (tks ! i) = Some ?st"
      "task_ok ff ?st (F (st_id ?st)) (alone (budget ?st) (F (st_id ?st)) (env0 (st_id ?st)))
         (rs_env s (st_id ?st)) (tk_vars (tks ! i)) (tk_pc (tks ! i))"
      using Cons.prems i by (simp_all add: group_ok_def)
    obtain tk' t where step: "step_task x p (tks ! i) s = Some (tk', t)" "tk_stage tk' = Some ?st"
      "task_ok ff ?st (F (st_id ?st)) (alone (budget ?st) (F (st_id ?st)) (env0 (st_id ?st)))
         (rs_env t (st_id ?st)) (tk_vars tk') (tk_pc tk')"
      "same_but (st_id ?st) s t" "rt_vars t = rt_vars s"
      "turns_left ?st (tk_pc tk') \<le> turns_left ?st (tk_pc (tks ! i)) - 1"
      by (rule step_task_ok [OF std ind [OF nth_mem [OF i]] ok])
    have other: "st_id (sts ! j) \<noteq> st_id ?st" if "j < length sts" "j \<noteq> i" for j
      using nth_eq_iff_index_eq [OF dist, of j i] that i by auto
    have outside: "j \<noteq> st_id ?st" if "j \<notin> st_id ` set sts" for j
      using that i by auto
    have "group_ok ff F env0 sts (tks[i := tk'], t)"
      using Cons.prems step(2-4) other outside i
      by (auto simp: group_ok_def same_but_def nth_list_update)
    from Cons.IH [OF this] obtain tks' t' where rest: "run_tasks x p sched (tks[i := tk'], t) = Some (tks', t')"
      "group_ok ff F env0 sts (tks', t')"
      "rt_ctx t' = rt_ctx t" "rt_vars t' = rt_vars t" "rs_results t' = rs_results t"
      "\<forall>j < length sts. turns_left (sts ! j) (tk_pc (tks' ! j)) \<le>
         turns_left (sts ! j) (tk_pc (tks[i := tk'] ! j)) - count_list sched j"
      by blast
    have "turns_left (sts ! j) (tk_pc (tks' ! j)) \<le>
        turns_left (sts ! j) (tk_pc (tks ! j)) - count_list (i # sched) j" if "j < length sts" for j
    proof (cases "j = i")
      case True
      have "turns_left ?st (tk_pc (tks' ! i)) \<le> turns_left ?st (tk_pc tk') - count_list sched i"
        using rest(6) i \<open>i < length tks\<close> by auto
      also have "\<dots> \<le> turns_left ?st (tk_pc (tks ! i)) - 1 - count_list sched i"
        using step(6) by (rule diff_le_mono)
      finally show ?thesis by (simp add: True)
    next
      case False
      then show ?thesis using rest(6) that by auto
    qed
    then show ?thesis
      using step(1,4,5) True rest by (simp add: same_but_def)
  qed
qed

lemma new_group_ok:
  "group_ok ff F (rs_env s) sts (map (new_task v) (map Some sts), s)"
  by (simp add: group_ok_def new_task_def task_ok_def)

lemma finished_outcomes:
  assumes "group_ok ff F env0 sts (tks, t)"
    and "\<And>i. i < length sts \<Longrightarrow> turns_left (sts ! i) (tk_pc (tks ! i)) = 0"
  shows "those (map (task_outcome \<circ> tk_pc) tks) =
      Some (map (\<lambda>st. outcome_of ff (fst (alone (budget st) (F (st_id st)) (env0 (st_id st))))) sts)"
    and "\<And>st. st \<in> set sts \<Longrightarrow>
      rs_env t (st_id st) = snd (alone (budget st) (F (st_id st)) (env0 (st_id st)))"
proof -
  have fin: "\<exists>r. tk_pc (tks ! i) = Finished r" if "i < length sts" for i
    using assms(2) [OF that] by (cases "tk_pc (tks ! i)") auto
  have task: "tk_pc (tks ! i) = Finished (outcome_of ff (fst (alone (budget (sts ! i)) (F (st_id (sts ! i)))
        (env0 (st_id (sts ! i)))))) \<and>
      rs_env t (st_id (sts ! i)) = snd (alone (budget (sts ! i)) (F (st_id (sts ! i))) (env0 (st_id (sts ! i))))"
    if "i < length sts" for i
    using fin [OF that] assms(1) that by (auto simp: group_ok_def task_ok_def)
  have "map (task_outcome \<circ> tk_pc) tks =
      map Some (map (\<lambda>st. outcome_of ff (fst (alone (budget st) (F (st_id st)) (env0 (st_id st))))) sts)"
    using assms(1) task by (intro nth_equalityI) (auto simp: group_ok_def)
  moreover have "those (map Some ys) = Some ys" for ys :: "'x list"
    by (induction ys) auto
  ultimately show "those (map (task_outcome \<circ> tk_pc) tks) =
      Some (map (\<lambda>st. outcome_of ff (fst (alone (budget st) (F (st_id st)) (env0 (st_id st))))) sts)"
    by (simp only:)
  show "rs_env t (st_id st) = snd (alone (budget st) (F (st_id st)) (env0 (st_id st)))"
    if "st \<in> set sts" for st
    using that task by (auto simp: in_set_conv_nth)
qed

lemma gather_independent:
  assumes std: "standard x ff" and dist: "distinct (map st_id sts)"
    and ind: "\<And>st. st \<in> set sts \<Longrightarrow> independent st (F (st_id st))"
    and turns: "\<And>i. i < length sts \<Longrightarrow> 2 * Suc (budget (sts ! i)) + 1 \<le> count_list sched i"
  shows "\<exists>t. gather x p sched (map Some sts) s =
      Some (Inr (map (\<lambda>st. outcome_of ff (fst (spec_attempts (budget st) st (rt_ctx s) (rs_env s)))) sts), t) \<and>
    (\<forall>st \<in> set sts. rs_env t (st_id st) =
       snd (snd (spec_attempts (budget st) st (rt_ctx s) (rs_env s))) (st_id st)) \<and>
    (\<forall>j. j \<notin> st_id ` set sts \<longrightarrow> rs_env t j = rs_env s j) \<and>
    rt_ctx t = rt_ctx s \<and> rt_vars t = rt_vars s \<and> rs_results t = rs_results s"
proof -
  let ?tks = "map (new_task (rt_vars s)) (map Some sts)"
  have alone: "fst (spec_attempts (budget st) st (rt_ctx s) (rs_env s)) =
        fst (alone (budget st) (F (st_id st)) (rs_env s (st_id st)))"
      "snd (snd (spec_attempts (budget st) st (rt_ctx s) (rs_env s))) (st_id st) =
        snd (alone (budget st) (F (st_id st)) (rs_env s (st_id st)))" if "st \<in> set sts" for st
    using spec_attempts_alone [OF ind [OF that]] by simp_all
  obtain tks t where run: "run_tasks x p sched (?tks, s) = Some (tks, t)"
    and ok: "group_ok ff F (rs_env s) sts (tks, t)"
    and same: "rt_ctx t = rt_ctx s" "rt_vars t = rt_vars s" "rs_results t = rs_results s"
    and left: "\<And>i. i < length sts \<Longrightarrow> turns_left (sts ! i) (tk_pc (tks ! i)) \<le>
         turns_left (sts ! i) (tk_pc (?tks ! i)) - count_list sched i"
    using run_tasks_ok [OF std dist ind new_group_ok] by blast
  have "turns_left (sts ! i) (tk_pc (tks ! i)) = 0" if "i < length sts" for i
    using left [OF that] turns [OF that] that by (simp add: new_task_def)
  from finished_outcomes [OF ok this] run ok same show ?thesis
    by (auto simp: gather_def group_ok_def alone)
qed

end
