(* ===== verification/Parallel_Safety.thy ===== *)
theory Parallel_Safety
  imports Parallel_Facts
begin

text \<open>
  What a completed parallel execution guarantees under any schedule, any hooks and any policies.
\<close>

lemma wp_policies_any:
  assumes "\<And>r. Q r (s \<lparr> rs_ticks := Suc (rs_ticks s) \<rparr>)" and "\<And>e. E e (s \<lparr> rs_ticks := Suc (rs_ticks s) \<rparr>)"
  shows "wp (evaluate_policies x p st ev) Q E s"
  using assms by (simp add: wp_evaluate_policies split: sum.split)

section \<open>Tasks\<close>

text \<open>The answers a task holds are answers of its stage.\<close>

definition task_answers :: "'e stage option \<Rightarrow> task_pc \<Rightarrow> bool" where
  "task_answers st pc \<longleftrightarrow>
     (case pc of
        Handling n (Inr r) \<Rightarrow> \<exists>st'. st = Some st' \<and> answers st' r
      | Finished (Inr (r, c)) \<Rightarrow> \<exists>st'. st = Some st' \<and> answers st' r
      | _ \<Rightarrow> True)"

lemma wp_task_step_answers:
  assumes "task_answers st pc"
  shows "wp (task_step x p st pc) (\<lambda>pc' t. task_answers st pc' \<and> rs_results t = rs_results s)
    (\<lambda>e t. rs_results t = rs_results s) s"
proof (cases st)
  case None
  then show ?thesis using assms by (cases pc) (simp_all add: task_step_def task_answers_def)
next
  case (Some st')
  have answer: "st_execute st' (rt_ctx s) (rs_env s) = (Inr r, c, env) \<Longrightarrow> answers st' r" for r c env
    unfolding answers_def by (metis fst_conv)
  show ?thesis
  proof (cases pc)
    case (Handling n r)
    show ?thesis
      using assms
      by (cases r)
         (auto simp: Some Handling task_step_def run_stage_handle_def emit_defs task_answers_def
           intro!: wp_emit_any wp_policies_any)
  qed (use assms in \<open>auto simp: Some task_step_def run_stage_start_def run_stage_body_def emit_defs
         task_answers_def wp_execute_stage Let_def answer split: prod.split sum.split exn.split
         intro!: wp_emit_any\<close>)
qed

lemma step_task_answers:
  assumes "task_answers (tk_stage tk) (tk_pc tk)"
  obtains tk' t where "step_task x p tk s = Some (tk', t)" "tk_stage tk' = tk_stage tk"
    "task_answers (tk_stage tk') (tk_pc tk')" "rs_results t = rs_results s"
proof -
  obtain r t where run: "task_step x p (tk_stage tk) (tk_pc tk) (s \<lparr> rt_vars := tk_vars tk \<rparr>) = Some (r, t)"
    using wp_task_step_answers [OF assms, of x p "s \<lparr> rt_vars := tk_vars tk \<rparr>"] by (blast dest: wp_returns)
  then have "case r of Inl e \<Rightarrow> rs_results t = rs_results s
      | Inr pc \<Rightarrow> task_answers (tk_stage tk) pc \<and> rs_results t = rs_results s"
    using wp_task_step_answers [OF assms, of x p "s \<lparr> rt_vars := tk_vars tk \<rparr>"]
    by (simp add: wp_def split: sum.splits)
  then show ?thesis
    using run that by (cases r) (auto simp: step_task_def task_answers_def)
qed

lemma run_tasks_answers:
  assumes "\<forall>tk \<in> set tks. task_answers (tk_stage tk) (tk_pc tk)" and "run_tasks x p sched (tks, s) = Some (tks', t)"
  shows "(\<forall>tk \<in> set tks'. task_answers (tk_stage tk) (tk_pc tk)) \<and> map tk_stage tks' = map tk_stage tks \<and>
    rs_results t = rs_results s"
  using assms
proof (induction sched arbitrary: tks s)
  case Nil
  then show ?case by simp
next
  case (Cons i sched)
  show ?case
  proof (cases "i < length tks")
    case True
    obtain tk' t' where step: "step_task x p (tks ! i) s = Some (tk', t')" "tk_stage tk' = tk_stage (tks ! i)"
      "task_answers (tk_stage tk') (tk_pc tk')" "rs_results t' = rs_results s"
      by (rule step_task_answers [of "tks ! i" x p s]) (use Cons.prems(1) True in auto)
    have "\<forall>tk \<in> set (tks[i := tk']). task_answers (tk_stage tk) (tk_pc tk)"
      using Cons.prems(1) step(3) by (auto dest: set_update_subset_insert [THEN subsetD])
    moreover have "map tk_stage (tks[i := tk']) = map tk_stage tks"
      using step(2) True by (simp add: map_update list_update_same_conv)
    ultimately show ?thesis
      using Cons.IH [of "tks[i := tk']" t'] Cons.prems(2) step True by simp
  next
    case False
    then show ?thesis using Cons by simp
  qed
qed

lemma those_eq_Some: "those xs = Some ys \<Longrightarrow> xs = map Some ys"
  by (induction xs arbitrary: ys) (auto split: option.splits)

definition outcome_answers :: "'e stage option \<Rightarrow> (stage_result \<times> bool) outcome \<Rightarrow> bool" where
  "outcome_answers st out \<longleftrightarrow>
     (case out of Inl e \<Rightarrow> True | Inr (r, c) \<Rightarrow> \<exists>st'. st = Some st' \<and> answers st' r)"

lemma gather_answers:
  "wlp (gather x p sched grp) (\<lambda>os t. list_all2 outcome_answers grp os \<and> rs_results t = rs_results s)
    (\<lambda>_ _. False) s"
proof (cases "gather x p sched grp s")
  case None
  then show ?thesis by (simp add: wlp_def)
next
  case (Some res)
  let ?tks = "map (new_task (rt_vars s)) grp"
  obtain tks t os where run: "run_tasks x p sched (?tks, s) = Some (tks, t)"
    and os: "those (map (task_outcome \<circ> tk_pc) tks) = Some os" and res: "res = (Inr os, t)"
    using Some by (auto simp: gather_def split: option.splits)
  have start: "\<forall>tk \<in> set ?tks. task_answers (tk_stage tk) (tk_pc tk)"
    by (simp add: new_task_def task_answers_def)
  have inv: "\<forall>tk \<in> set tks. task_answers (tk_stage tk) (tk_pc tk)" "map tk_stage tks = grp"
      "rs_results t = rs_results s"
    using run_tasks_answers [OF start run] by (simp_all add: new_task_def comp_def)
  have outs: "map (task_outcome \<circ> tk_pc) tks = map Some os"
    using os by (rule those_eq_Some)
  have answer: "outcome_answers (tk_stage tk) out" if "task_outcome (tk_pc tk) = Some out" "tk \<in> set tks" for tk out
    using that inv(1) by (cases "tk_pc tk") (auto simp: outcome_answers_def task_answers_def split: sum.splits)
  have "length tks = length os"
    using arg_cong [OF outs, of length] by simp
  then have "list_all2 (\<lambda>tk out. task_outcome (tk_pc tk) = Some out) tks os"
    using outs by (simp add: list_all2_conv_all_nth) (metis comp_apply nth_map)
  then have "list_all2 outcome_answers (map tk_stage tks) os"
    using answer by (auto simp: list_all2_conv_all_nth)
  with inv Some res show ?thesis by (simp add: wlp_def)
qed

section \<open>Groups and the pipeline\<close>

definition answers_opt :: "'e stage option \<Rightarrow> stage_result \<Rightarrow> bool" where
  "answers_opt st r \<longleftrightarrow> (\<exists>st'. st = Some st' \<and> answers st' r)"

lemma all_answered:
  assumes "list_all2 outcome_answers grp os" and "first_failure os = None"
  shows "list_all2 answers_opt grp (group_results os)"
  using assms
proof (induction grp os rule: list_all2_induct)
  case (Cons st grp out os)
  then show ?case by (cases out) (auto simp: outcome_answers_def answers_opt_def)
qed simp

definition groups_post ::
  "'e stage option list \<Rightarrow> bool \<Rightarrow> stage_result list \<Rightarrow> stage_end \<Rightarrow> ('o, 'e) run_state \<Rightarrow> bool" where
  "groups_post sts tol rs0 l t \<longleftrightarrow>
     (case l of
        Return_status status \<Rightarrow> status = FAILED
      | Next tolerated \<Rightarrow> \<exists>rs. rs_results t = rs0 @ rs \<and> list_all2 answers_opt sts rs \<and>
          (\<not> tolerated \<longrightarrow> \<not> tol \<and> list_all succeeded rs))"

lemma wlp_par_group:
  "wlp (par_group x p sched grp) (groups_post grp False (rs_results s)) (\<lambda>_ _. True) s"
proof -
  have tail: "py_last n (rs0 @ rs) = rs" if "length rs = n" "n \<noteq> 0" for n and rs0 rs :: "stage_result list"
    using that by (simp add: py_last_def)
  have good: "list_all succeeded rs"
    if "\<forall>r \<in> set (py_last (length grp) (rs0 @ rs)). \<not> failed r" "list_all2 answers_opt grp rs" for rs0 rs
  proof (cases "rs = []")
    case False
    have "length rs = length grp" using that(2) by (simp add: list_all2_lengthD)
    with False have "length grp \<noteq> 0" by (metis length_0_conv)
    with \<open>length rs = length grp\<close> have "py_last (length grp) (rs0 @ rs) = rs" by (rule tail)
    with that(1) show ?thesis by (simp add: list_all_iff failed_def)
  qed simp
  show ?thesis
    unfolding par_group_def wlp_bindA
    by (rule wlp_mono [OF gather_answers])
       (auto simp: emit_defs groups_post_def wlp_emit split: option.split
         intro!: wp_wlp [OF wp_execution_failed_any] wp_emit_any all_answered good)
qed

lemma wlp_par_groups:
  fixes x :: "('h, 'o, 'e) executor"
  shows "wlp (par_groups x p scheds gs tol) (groups_post (concat gs) tol (rs_results s)) (\<lambda>_ _. True) s"
proof (induction gs arbitrary: scheds tol s)
  case Nil
  then show ?case by (simp add: groups_post_def)
next
  case (Cons g gs)
  have step: "groups_post (concat (g # gs)) tol rs0 l u"
    if first: "groups_post g False rs0 (Next b) t" and rest: "groups_post (concat gs) (tol \<or> b) (rs_results t) l u"
    for rs0 b l and t u :: "('o, 'e) run_state"
  proof (cases l)
    case (Next b')
    obtain r1 where r1: "rs_results t = rs0 @ r1" "list_all2 answers_opt g r1" "\<not> b \<longrightarrow> list_all succeeded r1"
      using first by (auto simp: groups_post_def)
    obtain r2 where r2: "rs_results u = rs_results t @ r2" "list_all2 answers_opt (concat gs) r2"
        "\<not> b' \<longrightarrow> \<not> (tol \<or> b) \<and> list_all succeeded r2"
      using rest Next by (auto simp: groups_post_def)
    have "rs_results u = rs0 @ (r1 @ r2)" "list_all2 answers_opt (concat (g # gs)) (r1 @ r2)"
        "\<not> b' \<longrightarrow> \<not> tol \<and> list_all succeeded (r1 @ r2)"
      using r1 r2 by (simp_all add: list_all2_appendI)
    then show ?thesis
      unfolding groups_post_def Next stage_end.case by blast
  next
    case (Return_status status)
    with rest show ?thesis by (simp add: groups_post_def)
  qed
  show ?case
    unfolding par_groups.simps wlp_bindA
  proof (rule wlp_mono [OF wlp_par_group])
    fix l and t :: "('o, 'e) run_state"
    assume l: "groups_post g False (rs_results s) l t"
    show "wlp (case l of Return_status status \<Rightarrow> ret (Return_status status)
        | Next b \<Rightarrow> par_groups x p (tl scheds) gs (tol \<or> b))
      (groups_post (concat (g # gs)) tol (rs_results s)) (\<lambda>_ _. True) t"
    proof (cases l)
      case (Next b)
      show ?thesis
        unfolding Next stage_end.case
        by (rule wlp_mono [OF Cons.IH]) (use l Next step in auto)
    next
      case (Return_status status)
      with l show ?thesis by (simp add: groups_post_def)
    qed
  qed simp
qed

lemma wlp_execute_parallel:
  "wlp (execute_parallel x scheds p)
    (\<lambda>r t. pr_status r = COMPLETED \<longrightarrow>
       list_all2 answers_opt (flatten (pp_stages p)) (pl_stage_results r) \<and>
       list_all succeeded (pl_stage_results r))
    (\<lambda>_ _. True) s"
proof -
  have groups: "wlp (par_groups x p scheds (pipeline_groups p) False)
      (groups_post (flatten (pp_stages p)) False []) (\<lambda>_ _. True) t" if "rs_results t = []" for t
    using wlp_par_groups [of x p scheds "pipeline_groups p" False t] that by (simp add: flatten_groups)
  have strategy: "wlp (parallel_pipeline x scheds p)
    (\<lambda>status t. status \<noteq> FAILED \<longrightarrow> status = COMPLETED \<and>
       list_all2 answers_opt (flatten (pp_stages p)) (rs_results t) \<and> list_all succeeded (rs_results t))
    (\<lambda>_ _. True) t" if "rs_results t = []" for t
    unfolding parallel_pipeline_def
    by (auto simp: emit_defs groups_post_def wlp_emit that split: stage_end.splits
        intro!: wp_emit_any wlp_mono [OF groups] wp_wlp [OF wp_execution_failed_any]
          wp_wlp [OF wp_execution_completed_any])
  show ?thesis
    unfolding execute_parallel_def execute_with_def
    by (auto simp: close_pipeline_def Let_def wlp_def modify_def bindA_def try_except_def
        split: option.splits prod.splits sum.splits exn.splits dest!: wlp_Inr [OF strategy, rotated])
qed

end
