(* ===== verification/Batch_Properties.thy ===== *)
theory Batch_Properties
  imports Batch_Dag Parallel_Safety
begin

text \<open>
  What the extraction task of the batch DAG establishes: every result of a parallel run was given by
  one of its stages, a completed extraction names an object of its entity, and the counts the task
  returns are verified against the objects they name. Theory \<open>Batch_Run\<close> holds the property.
\<close>

section \<open>Every result of a parallel run was given by a stage\<close>

lemma wlp_True [simp]: "wlp m (\<lambda>_ _. True) (\<lambda>_ _. True) s"
  by (simp add: wlp_def split: option.split prod.split sum.split)

definition answered :: "'e stage option list \<Rightarrow> ('o, 'e) Executor_Base.run_state \<Rightarrow> bool" where
  "answered sts t \<longleftrightarrow> (\<forall>r \<in> set (rs_results t). \<exists>st \<in> set sts. answers_opt st r)"

lemma answered_frame [simp]:
  "answered sts (s \<lparr> rs_ticks := n \<rparr>) = answered sts s" "answered sts (execution_started now s) = answered sts s"
  "answered sts (set_pipeline_result r s) = answered sts s" "answered sts (s \<lparr> rs_obs := ob \<rparr>) = answered sts s"
  "answered sts (s \<lparr> rs_trace := tr \<rparr>) = answered sts s" "answered sts (s \<lparr> rt_ctx := c \<rparr>) = answered sts s"
  "answered sts (s \<lparr> rt_vars := v \<rparr>) = answered sts s"
  by (simp_all add: answered_def set_pipeline_result_def execution_started_def Let_def)

lemma outcomes_answered:
  "list_all2 outcome_answers grp os \<Longrightarrow> r \<in> set (group_results os) \<Longrightarrow> \<exists>st \<in> set grp. answers_opt st r"
proof (induction grp os rule: list_all2_induct)
  case (Cons st grp out os)
  then show ?case by (cases out) (auto simp: outcome_answers_def answers_opt_def)
qed simp

lemma par_group_answered:
  fixes x :: "('h, 'o, 'e) executor"
  assumes "answered sts s" and "set grp \<subseteq> set sts"
  shows "wlp (par_group x p sched grp) (\<lambda>_. answered sts) (\<lambda>_. answered sts) s"
  unfolding par_group_def wlp_bindA
proof (rule wlp_mono [OF gather_answers])
  fix os and t :: "('o, 'e) Executor_Base.run_state"
  assume "list_all2 outcome_answers grp os \<and> rs_results t = rs_results s"
  with assms have "answered sts (t \<lparr> rs_results := rs_results t @ group_results os \<rparr>)"
    by (auto simp: answered_def dest!: outcomes_answered)
  then show "wlp (modify (\<lambda>s. s \<lparr> rs_results := rs_results s @ group_results os \<rparr>))
      (\<lambda>_. wlp (case first_failure os of
           Some e \<Rightarrow> bindA (read_clock x) (\<lambda>now. thenA (execution_failed now (Some (as_exception e)))
             (thenA (emit_pipeline_failed x p None (Some (as_exception e))) (raise e)))
         | None \<Rightarrow> if group_cancelled os then
               bindA (read_clock x) (\<lambda>now. thenA (execution_failed now (Some cancelled_error))
                 (thenA (emit_pipeline_failed x p None (Some cancelled_error)) (ret (Return_status FAILED))))
             else bindA (get rs_results) (\<lambda>results.
               ret (Next (\<exists>r \<in> set (py_last (length grp) results). failed r))))
         (\<lambda>_. answered sts) (\<lambda>_. answered sts)) (\<lambda>_. answered sts) t"
    by (auto simp: emit_defs wlp_emit split: option.split
        intro!: wp_emit_any wp_wlp [OF wp_execution_failed_any])
qed simp

lemma par_groups_answered:
  assumes "answered sts s" and "set (concat gs) \<subseteq> set sts"
  shows "wlp (par_groups x p scheds gs tol) (\<lambda>_. answered sts) (\<lambda>_. answered sts) s"
  using assms
proof (induction gs arbitrary: scheds tol s)
  case (Cons g gs)
  have "wlp (par_groups x p scheds gs b) (\<lambda>_. answered sts) (\<lambda>_. answered sts) t" if "answered sts t" for scheds b t
    using Cons.IH [OF that] Cons.prems(2) by simp
  then show ?case
    unfolding par_groups.simps wlp_bindA
    by (intro wlp_mono [OF par_group_answered [OF Cons.prems(1)]]) (use Cons.prems(2) in \<open>auto split: stage_end.split\<close>)
qed simp

lemma parallel_results_answered:
  "wlp (execute_parallel x scheds p)
    (\<lambda>r t. \<forall>a \<in> set (pl_stage_results r). \<exists>st \<in> set (flatten (pp_stages p)). answers_opt st a) (\<lambda>_ _. True) s"
proof -
  let ?A = "answered (flatten (pp_stages p))"
  have strategy: "wlp (parallel_pipeline x scheds p) (\<lambda>_. ?A) (\<lambda>_. ?A) t" if "?A t" for t
    unfolding parallel_pipeline_def using that
    by (auto simp: emit_defs wlp_emit flatten_groups split: stage_end.splits
        intro!: wp_emit_any wlp_mono [OF par_groups_answered] wp_wlp [OF wp_execution_failed_any]
          wp_wlp [OF wp_execution_completed_any])
  have "?A (s \<lparr> rs_results := [] \<rparr>)" by (simp add: answered_def)
  from strategy [OF this] show ?thesis
    unfolding execute_parallel_def execute_with_def
    by (auto simp: close_pipeline_def Let_def wlp_def modify_def bindA_def try_except_def answered_def
        split: option.splits prod.splits sum.splits exn.splits)
qed

section \<open>What the stage answers\<close>

text \<open>The object a completed extraction says it wrote: a new one of its entity.\<close>

definition names_object :: "('w, 'v, 't) pg_env \<Rightarrow> string \<Rightarrow> stage_result \<Rightarrow> storage_location \<Rightarrow> bool" where
  "names_object env entity r l \<longleftrightarrow>
     map_of (sr_output r) ''uri'' = Some (PyStr (location_uri l)) \<and>
     (\<exists>u. from_uri (pe_check_netloc env) (raw_object_uri entity u) = Inr l)"

lemma wlp_skip: "(\<And>a t. wlp (f a) Q (\<lambda>_ _. True) t) \<Longrightarrow> wlp (bindA m f) Q (\<lambda>_ _. True) s"
  by (simp add: wlp_mono [OF wlp_True])

lemma upload_location:
  "wlp (extract_and_upload env provider table_name entity)
    (\<lambda>l _. \<exists>u. from_uri (pe_check_netloc env) (raw_object_uri entity u) = Inr l) (\<lambda>_ _. True) w"
  unfolding extract_and_upload_def
  by (rule wlp_skip, rule wlp_skip) (auto split: sum.split intro!: wlp_mono [OF wlp_True])

lemma wlp_in_stage:
  "wlp (on_world m) Q E s =
     wlp m (\<lambda>a w. Q a (s \<lparr> sw_world := w \<rparr>)) (\<lambda>e w. E e (s \<lparr> sw_world := w \<rparr>)) (sw_world s)"
  by (simp add: wlp_def on_world_def split: option.split prod.split sum.split)

lemma wlp_stage_outcome:
  "wlp (stage_outcome_of b status ety emsg out) Q E s =
     Q \<lparr> pr_status = status, pr_metadata = cx_metadata (sw_ctx s), pr_error_type = ety, pr_error_message = emsg,
         sr_stage_id = sb_id b, sr_stage_name = sb_name b, sr_attempt = 1, sr_output = out \<rparr> s"
  by (simp add: wlp_def stage_outcome_of_def)

lemma extraction_answer:
  "wlp (postgres_extraction env st)
    (\<lambda>r _. sr_stage_id r = sb_id st \<and> (succeeded r \<longrightarrow> (\<exists>l. names_object env (es_entity st) r l))) (\<lambda>_ _. True) s"
  unfolding postgres_extraction_def Let_def
proof (rule wlp_skip)
  fix provider s
  show "wlp (bindA (caught (on_world (extract_and_upload env provider (es_table_name st) (es_entity st)))) (\<lambda>r. case r of
        Inl e \<Rightarrow> if pe_undefined_table env e
          then stage_outcome_of (stage_base.truncate st) FAILED (Some ''UndefinedTable'') (Some (exn_text e)) []
          else raise e
      | Inr location \<Rightarrow> stage_outcome_of (stage_base.truncate st) COMPLETED None None
          [(''uri'', PyStr (location_uri location)), (''bucket'', PyStr (sl_bucket location)),
           (''object_key'', PyStr (sl_key location))]))
    (\<lambda>r _. sr_stage_id r = sb_id st \<and> (succeeded r \<longrightarrow> (\<exists>l. names_object env (es_entity st) r l))) (\<lambda>_ _. True) s"
    unfolding wlp_bindA caught_wlp wlp_in_stage names_object_def
    by (rule wlp_mono [OF upload_location])
       (auto simp: wlp_stage_outcome succeeded_def stage_base.truncate_def split: exn.split)
qed

lemma answered_extraction:
  assumes "answers_opt (Some (as_stage b (postgres_extraction env st))) r" and "sb_id b = sb_id st"
  shows "sr_stage_id r = sb_id st \<and> (succeeded r \<longrightarrow> (\<exists>l. names_object env (es_entity st) r l))"
proof -
  obtain c w where "fst (body_of (postgres_extraction env st) c w) = Inr r"
    using assms(1) by (auto simp: answers_opt_def answers_def as_stage_def)
  then obtain s' where "postgres_extraction env st \<lparr> sw_ctx = c, sw_world = w \<rparr> = Some (Inr r, s')"
    by (auto simp: body_of_def split: option.splits prod.splits)
  with wlp_Inr [OF extraction_answer] show ?thesis by blast
qed

section \<open>What is read back\<close>

text \<open>
  A store with its contents, files and the rows a Parquet text has: a download that returns leaves
  the object's text in the file, the number of rows is that of the file's text, and neither, nor the
  temporary directory, changes an object.
\<close>

definition reads_back ::
  "'w market_env \<Rightarrow> 'w delta_env \<Rightarrow> 'w provider \<Rightarrow> ('w \<Rightarrow> storage_location \<Rightarrow> string option) \<Rightarrow>
     ('w \<Rightarrow> string \<Rightarrow> string option) \<Rightarrow> (string \<Rightarrow> int) \<Rightarrow> bool" where
  "reads_back mk v storage contents file rows \<longleftrightarrow>
     (\<forall>l d w. wlp (pv_download storage l d) (\<lambda>_ w'. file w' d = contents w l \<and> contents w' = contents w)
        (\<lambda>_ w'. contents w' = contents w) w) \<and>
     (\<forall>d w. wlp (call (mk_num_rows mk d)) (\<lambda>n w'. (\<exists>t. file w d = Some t \<and> n = rows t) \<and> contents w' = contents w)
        (\<lambda>_ w'. contents w' = contents w) w) \<and>
     (\<forall>w. contents (snd (dv_make_tmp v w)) = contents w) \<and>
     (\<forall>d w. contents (snd (dv_remove_tmp v d w)) = contents w)"

lemma landed_rows_wlp:
  assumes "reads_back mk v storage contents file rows"
  shows "wlp (landed_rows mk v storage l)
    (\<lambda>n w'. (\<exists>t. contents w l = Some t \<and> n = rows t) \<and> contents w' = contents w) (\<lambda>_ _. True) w"
proof -
  have body: "wlp (thenA (pv_download storage l d) (call (mk_num_rows mk d)))
      (\<lambda>n w'. (\<exists>t. contents w1 l = Some t \<and> n = rows t) \<and> contents w' = contents w1) (\<lambda>_ _. True) w1" for d w1
    unfolding wlp_bindA
  proof (rule wlp_mono)
    show "wlp (pv_download storage l d) (\<lambda>_ w'. file w' d = contents w1 l \<and> contents w' = contents w1)
        (\<lambda>_ w'. contents w' = contents w1) w1"
      using assms by (simp add: reads_back_def)
    fix w2
    assume w2: "file w2 d = contents w1 l \<and> contents w2 = contents w1"
    have "wlp (call (mk_num_rows mk d)) (\<lambda>n w'. (\<exists>t. file w2 d = Some t \<and> n = rows t) \<and> contents w' = contents w2)
        (\<lambda>_ w'. contents w' = contents w2) w2"
      using assms by (simp add: reads_back_def)
    then show "wlp (call (mk_num_rows mk d))
        (\<lambda>n w'. (\<exists>t. contents w1 l = Some t \<and> n = rows t) \<and> contents w' = contents w1) (\<lambda>_ _. True) w2"
      by (rule wlp_mono) (use w2 in auto)
  qed simp
  have tmp: "contents (snd (dv_make_tmp v w)) = contents w" "contents (snd (dv_remove_tmp v d w)) = contents w" for d w
    using assms by (simp_all add: reads_back_def)
  obtain r w1 where make: "dv_make_tmp v w = (r, w1)" by fastforce
  show ?thesis
  proof (cases r)
    case (Inl e)
    then show ?thesis by (simp add: landed_rows_def with_tmp_step make)
  next
    case (Inr d)
    have same: "contents w1 = contents w" using tmp(1) [of w] make by simp
    show ?thesis
      unfolding landed_rows_def with_tmp_step make Inr prod.case sum.case
      by (rule wlp_mono [OF body]) (use tmp(2) [of d] same in \<open>auto split: prod.split sum.split, metis snd_conv\<close>)
  qed
qed

section \<open>The counts\<close>

text \<open>What the task vouches for: the object of one entity, counted on both sides.\<close>

definition vouched ::
  "('w, 'v, 't) pg_env \<Rightarrow> ('w \<Rightarrow> storage_location \<Rightarrow> string option) \<Rightarrow> (string \<Rightarrow> int) \<Rightarrow> 'w \<Rightarrow>
     (string \<times> int) list \<Rightarrow> string \<times> stage_result option \<Rightarrow> string \<times> int \<Rightarrow> bool" where
  "vouched env contents rows w postgres_counts x c \<longleftrightarrow> fst c = fst x \<and> map_of postgres_counts (fst c) = Some (snd c) \<and>
     (\<exists>r uri l t. snd x = Some r \<and> map_of (sr_output r) ''uri'' = Some (PyStr uri) \<and>
        from_uri (pe_check_netloc env) uri = Inr l \<and> contents w l = Some t \<and> rows t = snd c)"

lemma verify_entity_wlp:
  assumes "reads_back mk v storage contents file rows"
  shows "wlp (verify_entity mk env v storage pcs entity r)
    (\<lambda>c w'. vouched env contents rows w pcs (entity, Some r) c \<and> contents w' = contents w) (\<lambda>_ _. True) w"
proof -
  have str: "py_text u = Inr t \<longleftrightarrow> u = PyStr t" for u t by (cases u) auto
  show ?thesis
    unfolding verify_entity_def wlp_bindA wlp_lift
    by (auto split: sum.split option.split intro!: wlp_mono [OF landed_rows_wlp [OF assms]]
        simp: bindE_eq_Inr_iff required_def vouched_def str split: option.splits)
qed

lemma verify_all_wlp:
  assumes "reads_back mk v storage contents file rows"
  shows "wlp (verify_all mk env v storage pcs xs)
    (\<lambda>cs w'. list_all2 (vouched env contents rows w pcs) xs cs \<and> contents w' = contents w) (\<lambda>_ _. True) w"
proof (induction xs arbitrary: w)
  case (Cons x xs)
  obtain entity r where x: "x = (entity, r)" by fastforce
  show ?case
  proof (cases r)
    case (Some a)
    have moved: "list_all2 (vouched env contents rows w1 pcs) xs cs \<Longrightarrow> contents w1 = contents w \<Longrightarrow>
        list_all2 (vouched env contents rows w pcs) xs cs" for w1 cs
      by (simp add: vouched_def [abs_def])
    show ?thesis
      unfolding x Some verify_all.simps wlp_bindA
    proof (rule wlp_mono [OF verify_entity_wlp [OF assms]])
      fix c w1
      assume c: "vouched env contents rows w pcs (entity, Some a) c \<and> contents w1 = contents w"
      show "wlp (verify_all mk env v storage pcs xs) (\<lambda>cs. wlp (ret (c # cs))
          (\<lambda>cs w'. list_all2 (vouched env contents rows w pcs) ((entity, Some a) # xs) cs \<and> contents w' = contents w)
          (\<lambda>_ _. True)) (\<lambda>_ _. True) w1"
        by (rule wlp_mono [OF Cons.IH]) (use c moved [of w1] in auto)
    qed simp
  qed (simp add: x)
qed simp

definition counted :: "'w market_env \<Rightarrow> (string \<times> string) list \<Rightarrow> string \<times> int \<Rightarrow> bool" where
  "counted mk es c \<longleftrightarrow> (\<exists>table_name w w'. (fst c, table_name) \<in> set es \<and> mk_count mk table_name w = (Inr (snd c), w'))"

lemma prepare_entity_wlp:
  "wlp (prepare_entity mk env storage e) (\<lambda>c _. fst c = fst e \<and> counted mk [e] c) (\<lambda>_ _. True) w"
proof (cases e)
  case (Pair entity table_name)
  have rest: "wlp (clear_prefix mk storage p t) (\<lambda>_ _. b) (\<lambda>_ _. True) w" if b for p t b w
    by (rule wlp_mono [OF wlp_True]) (use that in simp_all)
  show ?thesis
    by (auto simp: Pair prepare_entity_def wlp_call counted_def split: prod.split sum.split intro!: rest)
qed

lemma prepare_all_wlp:
  "wlp (prepare_all mk env storage es)
    (\<lambda>cs _. map fst cs = map fst es \<and> (\<forall>c \<in> set cs. counted mk es c)) (\<lambda>_ _. True) w"
proof (induction es arbitrary: w)
  case (Cons e es)
  have more: "counted mk es c \<Longrightarrow> counted mk (e # es) c" "counted mk [e] c \<Longrightarrow> counted mk (e # es) c" for c
    by (auto simp: counted_def)
  show ?case
    unfolding prepare_all.simps wlp_bindA
    by (rule wlp_mono [OF prepare_entity_wlp], rule wlp_mono [OF Cons.IH]) (auto dest: more)
qed simp

section \<open>The task\<close>

lemma wlp_in_world:
  "wlp (in_world m) Q E s =
     wlp m (\<lambda>a w. Q a (s \<lparr> js_world := w \<rparr>)) (\<lambda>e w. E e (s \<lparr> js_world := w \<rparr>)) (js_world s)"
  by (simp add: wlp_def in_world_def split: option.split prod.split sum.split)

lemma run_parallel_answered:
  "wlp (run_parallel clocks scheds p c)
    (\<lambda>(res, c') _. \<forall>a \<in> set (pl_stage_results res). \<exists>st \<in> set (flatten (pp_stages p)). answers_opt st a) (\<lambda>_ _. True) s"
  using parallel_results_answered [of "observed_executor (fst clocks) (snd clocks) None" scheds p "start_run c s"]
  by (auto simp: run_parallel_def end_run_def wlp_def split: option.splits prod.splits sum.splits)

lemma group_stages:
  "extraction_group env f es = Inr p \<Longrightarrow> st \<in> set (flatten (pp_stages p)) \<Longrightarrow>
     \<exists>e \<in> set es. st = Some (as_stage (stage_base.truncate (extraction_stage_for f e))
       (postgres_extraction env (extraction_stage_for f e)))"
  by (auto simp: extraction_group_def make_pipeline_def Let_def bindE_eq_Inr_iff flatten_def)

lemma group_answer:
  assumes "extraction_group env f es = Inr p" and "st \<in> set (flatten (pp_stages p))" and "answers_opt st r"
    and "sr_stage_id r = ''extract-'' @ entity" and "succeeded r"
  shows "\<exists>l. names_object env entity r l"
proof -
  obtain e where e: "st = Some (as_stage (stage_base.truncate (extraction_stage_for f e))
      (postgres_extraction env (extraction_stage_for f e)))"
    using group_stages [OF assms(1,2)] by blast
  have "sb_id (stage_base.truncate (extraction_stage_for f e)) = sb_id (extraction_stage_for f e)"
    by (simp add: stage_base.truncate_def)
  from answered_extraction [OF assms(3) [unfolded e] this] assms(4,5) show ?thesis
    by (simp add: extraction_stage_for_def)
qed

lemma result_of_found: "result_of rs e = Some r \<Longrightarrow> r \<in> set rs \<and> sr_stage_id r = ''extract-'' @ e"
  by (auto simp: result_of_def find_Some_iff)

text \<open>What a returned count means, in the world the task leaves.\<close>

definition verified ::
  "'w market_env \<Rightarrow> ('w, 'v, 't) pg_env \<Rightarrow> ('w \<Rightarrow> storage_location \<Rightarrow> string option) \<Rightarrow> (string \<Rightarrow> int) \<Rightarrow>
     (string \<times> string) list \<Rightarrow> 'w \<Rightarrow> string \<times> int \<Rightarrow> bool" where
  "verified mk env contents rows es w c \<longleftrightarrow> counted mk es c \<and>
     (\<exists>u written l t. from_uri (pe_check_netloc env) (raw_object_uri (fst c) u) = Inr written \<and>
        from_uri (pe_check_netloc env) (location_uri written) = Inr l \<and> contents w l = Some t \<and> rows t = snd c)"

lemma vouched_verified:
  assumes "vouched env contents rows w pcs (entity, r) c" and "\<forall>c \<in> set pcs. counted mk es c"
    and "\<And>a. r = Some a \<Longrightarrow> \<exists>l. names_object env entity a l"
  shows "verified mk env contents rows es w c"
proof -
  obtain a uri l t where a: "fst c = entity" "r = Some a" "map_of (sr_output a) ''uri'' = Some (PyStr uri)"
      "from_uri (pe_check_netloc env) uri = Inr l" "contents w l = Some t" "rows t = snd c"
      "map_of pcs entity = Some (snd c)"
    using assms(1) by (auto simp: vouched_def)
  obtain written u where "uri = location_uri written"
      "from_uri (pe_check_netloc env) (raw_object_uri entity u) = Inr written"
    using assms(3) [OF a(2)] a(3) by (auto simp: names_object_def)
  moreover have "counted mk es c"
    using assms(2) map_of_SomeD [OF a(7)] a(1) by (metis prod.collapse)
  ultimately show ?thesis
    unfolding verified_def using a by blast
qed

lemma leaving_wlp: "wlp body (\<lambda>a _. Q a) (\<lambda>_ _. True) w \<Longrightarrow> wlp (leaving l body) (\<lambda>a _. Q a) (\<lambda>_ _. True) w"
  by (auto simp: leaving_def wlp_def split: option.splits prod.splits sum.splits)

lemma created_by: "wlp m (\<lambda>a _. \<exists>w w'. m w = Some (Inr a, w')) (\<lambda>_ _. True) w"
  by (auto simp: wlp_def split: option.split prod.split sum.split)

lemma extract_entities_wlp:
  assumes reads: "\<And>storage. (\<exists>w w'. factory_create f ''aws.s3'' w = Some (Inr storage, w')) \<Longrightarrow>
      reads_back mk v storage contents file rows"
  shows "wlp (extract_entities mk env v clocks scheds pu f es)
    (\<lambda>counts s'. map fst counts = map fst es \<and> (\<forall>c \<in> set counts. verified mk env contents rows es (js_world s') c))
    (\<lambda>_ _. True) s"
proof -
  let ?Q = "\<lambda>counts s'. map fst counts = map fst es \<and> (\<forall>c \<in> set counts. verified mk env contents rows es (js_world s') c)"
  have finish: "wlp (bindA (in_world (verify_all mk env v storage pcs xs)) (\<lambda>counts.
      thenA (push_metrics pu job url) (ret counts))) ?Q (\<lambda>_ _. True) s1"
    if storage: "reads_back mk v storage contents file rows" and pcs: "\<forall>c \<in> set pcs. counted mk es c"
      and xs: "map fst xs = map fst es" "\<And>e a. (e, Some a) \<in> set xs \<Longrightarrow> \<exists>l. names_object env e a l"
    for storage pcs xs job url s1
    unfolding wlp_bindA wlp_in_world
  proof (rule wlp_mono [OF verify_all_wlp [OF storage]])
    fix cs w'
    assume cs: "list_all2 (vouched env contents rows (js_world s1) pcs) xs cs \<and> contents w' = contents (js_world s1)"
    have "map fst cs = map fst xs"
      using cs by (auto simp: list_all2_conv_all_nth vouched_def intro!: nth_equalityI)
    moreover have "verified mk env contents rows es w' c" if c: "c \<in> set cs" for c
    proof -
      obtain i where i: "i < length cs" "c = cs ! i" using c by (auto simp: in_set_conv_nth)
      obtain e r where er: "xs ! i = (e, r)" by fastforce
      have "(e, r) \<in> set xs" "vouched env contents rows (js_world s1) pcs (e, r) c"
        using cs i er by (auto simp: list_all2_conv_all_nth in_set_conv_nth)
      then have "verified mk env contents rows es (js_world s1) c"
        by (intro vouched_verified [OF _ pcs xs(2)]) auto
      then show ?thesis using cs by (simp add: verified_def)
    qed
    ultimately show "wlp (push_metrics pu job url) (\<lambda>_. wlp (ret cs) ?Q (\<lambda>_ _. True)) (\<lambda>_ _. True)
        (s1 \<lparr> js_world := w' \<rparr>)"
      using xs(1) by (auto simp: push_metrics_def wlp_def ret_def split: prod.split sum.split)
  qed simp
  have run: "wlp (bindA (run_parallel clocks scheds p ctx) (\<lambda>(result, context).
       let results = map (\<lambda>e. (fst e, result_of (pl_stage_results result) (fst e))) es;
           failed_or_missing = filter (\<lambda>x. incomplete (snd x)) results
       in if failed_or_missing \<noteq> [] then raise (extraction_failed failed_or_missing)
          else
            bindA (in_world (verify_all mk env v storage pcs results)) (\<lambda>counts.
            thenA (push_metrics pu job url) (ret counts)))) ?Q (\<lambda>_ _. True) s1"
    if storage: "reads_back mk v storage contents file rows" and pcs: "\<forall>c \<in> set pcs. counted mk es c"
      and p: "extraction_group env f es = Inr p"
    for storage pcs p ctx job url s1
    unfolding wlp_bindA [of "run_parallel clocks scheds p ctx"]
  proof (rule wlp_mono [OF run_parallel_answered], goal_cases)
    case (1 rc s2)
    obtain result context' where rc: "rc = (result, context')" by fastforce
    let ?xs = "map (\<lambda>e. (fst e, result_of (pl_stage_results result) (fst e))) es"
    show ?case
    proof (cases "filter (\<lambda>x. incomplete (snd x)) ?xs = []")
      case True
      have names: "\<exists>l. names_object env e a l" if a: "(e, Some a) \<in> set ?xs" for e a
      proof -
        have r: "result_of (pl_stage_results result) e = Some a" using a by force
        obtain st where st: "st \<in> set (flatten (pp_stages p))" "answers_opt st a"
          using 1 result_of_found [OF r] by (auto simp: rc)
        have "\<not> incomplete (Some a)" using True a by (auto simp: filter_empty_conv)
        then have "succeeded a" by (simp add: incomplete_def failed_def)
        then show ?thesis by (rule group_answer [OF p st conjunct2 [OF result_of_found [OF r]]])
      qed
      show ?thesis
        using finish [OF storage pcs _ names, of ?xs] True by (simp add: rc Let_def del: wlp_bindA)
    next
      case False
      then show ?thesis by (simp add: rc Let_def del: wlp_bindA)
    qed
  qed simp
  have prep: "wlp (thenA (call (mk_connect mk)) (leaving (mk_leave mk) (prepare_all mk env storage es)))
      (\<lambda>pcs _. \<forall>c \<in> set pcs. counted mk es c) (\<lambda>_ _. True) w" for storage w
    by (rule wlp_skip, rule leaving_wlp, rule wlp_mono [OF prepare_all_wlp]) simp_all
  show ?thesis
    unfolding extract_entities_def wlp_bindA [of "in_world m" for m] wlp_bindA [of "modify g" for g]
      wlp_bindA [of "lift g" for g] wlp_in_world wlp_modify wlp_lift
  proof (rule wlp_mono [OF created_by], rule wlp_mono [OF prep], goal_cases)
    case (1 storage w1 pcs w2)
    then show ?case
      by (auto split: sum.split intro!: run reads simp del: wlp_bindA)
  qed simp_all
qed

end
