(* ===== verification/Glue_Contract.thy ===== *)
theory Glue_Contract
  imports Glue
begin

text \<open>
  What the Glue service documents (\<open>glue_laws\<close>, over observers of its world), what the provider
  makes of it, and a service in memory that satisfies the laws, for the witnesses. A request that
  fails may still have had its effect, as it has when only the answer is lost. Glue folds names to
  lower case, so the laws of the requests that create something are about lower-case names.
\<close>

section \<open>What the service documents\<close>

record 'w glue_view =
  gv_databases :: "'w \<Rightarrow> string \<Rightarrow> glue_database option"
  gv_tables :: "'w \<Rightarrow> string \<Rightarrow> string \<Rightarrow> glue_table option"

definition same_catalog :: "'w glue_view \<Rightarrow> 'w \<Rightarrow> 'w \<Rightarrow> bool" where
  "same_catalog V w w' \<longleftrightarrow> gv_databases V w' = gv_databases V w \<and> gv_tables V w' = gv_tables V w"

definition set_table :: "'w glue_view \<Rightarrow> string \<Rightarrow> string \<Rightarrow> glue_table option \<Rightarrow> 'w \<Rightarrow> 'w \<Rightarrow> bool" where
  "set_table V db n t w w' \<longleftrightarrow>
     gv_databases V w' = gv_databases V w \<and>
     gv_tables V w' = (gv_tables V w)(db := (gv_tables V w db)(n := t))"

definition set_database :: "'w glue_view \<Rightarrow> string \<Rightarrow> glue_database option \<Rightarrow> 'w \<Rightarrow> 'w \<Rightarrow> bool" where
  "set_database V n d w w' \<longleftrightarrow>
     gv_databases V w' = (gv_databases V w)(n := d) \<and>
     gv_tables V w' = (if d = None then (gv_tables V w)(n := (\<lambda>_. None)) else gv_tables V w)"

text \<open>The service keeps what a request gives and adds keys of its own.\<close>

definition stored_as :: "glue_table \<Rightarrow> glue_table \<Rightarrow> bool" where
  "stored_as t s \<longleftrightarrow> s \<lparr> gt_server := [] \<rparr> = t \<lparr> gt_server := [] \<rparr>"

text \<open>A request that changes something: done, or failed with or without its effect.\<close>

definition request :: "('w \<Rightarrow> unit outcome \<times> 'w) \<Rightarrow> ('w \<Rightarrow> bool) \<Rightarrow> ('w \<Rightarrow> 'w \<Rightarrow> bool) \<Rightarrow> ('w \<Rightarrow> 'w \<Rightarrow> bool) \<Rightarrow> bool" where
  "request f pre done same \<longleftrightarrow>
     (\<forall>w. case f w of
        (Inr u, w') \<Rightarrow> pre w \<and> done w w'
      | (Inl e, w') \<Rightarrow> same w w' \<or> pre w \<and> done w w')"

definition database_laws :: "'w glue_api \<Rightarrow> 'w glue_view \<Rightarrow> bool" where
  "database_laws api V \<longleftrightarrow>
     (\<forall>n w. case ga_get_database api n w of
        (Inr d, w') \<Rightarrow> same_catalog V w w' \<and> gv_databases V w n = Some d
      | (Inl e, w') \<Rightarrow> same_catalog V w w' \<and> (entity_not_found e \<longrightarrow> gv_databases V w n = None)) \<and>
     (\<forall>d. lower (gd_name d) = gd_name d \<longrightarrow>
        request (ga_create_database api d) (\<lambda>w. gv_databases V w (gd_name d) = None)
          (set_database V (gd_name d) (Some d)) (same_catalog V)) \<and>
     (\<forall>n. request (ga_delete_database api n) (\<lambda>w. gv_databases V w n \<noteq> None)
        (set_database V n None) (same_catalog V)) \<and>
     (\<forall>w. case ga_get_databases api w of ((ps, e), w') \<Rightarrow> same_catalog V w w' \<and>
        (e = None \<longrightarrow> distinct (map gd_name (concat ps)) \<and> set (concat ps) = ran (gv_databases V w)))"

definition table_laws :: "'w glue_api \<Rightarrow> 'w glue_view \<Rightarrow> bool" where
  "table_laws api V \<longleftrightarrow>
     (\<forall>db n w. case ga_get_table api db n w of
        (Inr t, w') \<Rightarrow> same_catalog V w w' \<and> gv_tables V w db n = Some t
      | (Inl e, w') \<Rightarrow> same_catalog V w w' \<and> (entity_not_found e \<longrightarrow> gv_tables V w db n = None)) \<and>
     (\<forall>db t. lower (gt_name t) = gt_name t \<longrightarrow>
        request (ga_create_table api db t) (\<lambda>w. gv_tables V w db (gt_name t) = None)
          (\<lambda>w w'. \<exists>s. stored_as t s \<and> set_table V db (gt_name t) (Some s) w w') (same_catalog V)) \<and>
     (\<forall>db t. lower (gt_name t) = gt_name t \<longrightarrow>
        request (ga_update_table api db t) (\<lambda>w. gv_tables V w db (gt_name t) \<noteq> None)
          (\<lambda>w w'. \<exists>s. stored_as t s \<and> set_table V db (gt_name t) (Some s) w w') (same_catalog V)) \<and>
     (\<forall>db n. request (ga_delete_table api db n) (\<lambda>w. gv_tables V w db n \<noteq> None)
        (set_table V db n None) (same_catalog V)) \<and>
     (\<forall>db w. case ga_get_tables api db w of ((ps, e), w') \<Rightarrow> same_catalog V w w' \<and>
        (e = None \<longrightarrow> distinct (map gt_name (concat ps)) \<and> set (concat ps) = ran (gv_tables V w db)))"

definition named_right :: "'w glue_view \<Rightarrow> bool" where
  "named_right V \<longleftrightarrow>
     (\<forall>w db n t. gv_tables V w db n = Some t \<longrightarrow> gt_name t = n \<and> lower n = n) \<and>
     (\<forall>w n d. gv_databases V w n = Some d \<longrightarrow> gd_name d = n)"

definition glue_laws :: "'w glue_api \<Rightarrow> 'w glue_view \<Rightarrow> bool" where
  "glue_laws api V \<longleftrightarrow> database_laws api V \<and> table_laws api V \<and> named_right V"

section \<open>The rules of the calls\<close>

lemma same_refl [simp]: "same_catalog V w w"
  by (simp add: same_catalog_def)

lemma same_trans: "same_catalog V w w' \<Longrightarrow> same_catalog V w' w'' \<Longrightarrow> same_catalog V w w''"
  by (simp add: same_catalog_def)

lemma get_table_wlp:
  assumes "glue_laws api V"
    and "\<And>t w'. same_catalog V w w' \<Longrightarrow> gv_tables V w db n = Some t \<Longrightarrow> Q t w'"
    and "\<And>e w'. same_catalog V w w' \<Longrightarrow> (entity_not_found e \<Longrightarrow> gv_tables V w db n = None) \<Longrightarrow> E e w'"
  shows "wlp (call (ga_get_table api db n)) Q E w"
proof -
  obtain r w' where r: "ga_get_table api db n w = (r, w')" by (cases "ga_get_table api db n w")
  have "case ga_get_table api db n w of
      (Inr t, w') \<Rightarrow> same_catalog V w w' \<and> gv_tables V w db n = Some t
    | (Inl e, w') \<Rightarrow> same_catalog V w w' \<and> (entity_not_found e \<longrightarrow> gv_tables V w db n = None)"
    using assms(1) by (simp add: glue_laws_def table_laws_def)
  with r show ?thesis by (cases r) (auto simp: wlp_call intro: assms(2,3))
qed

lemma table_exists_wlp:
  assumes "glue_laws api V"
    and "\<And>w'. same_catalog V w w' \<Longrightarrow> Q (gv_tables V w db n \<noteq> None) w'"
    and "\<And>e w'. same_catalog V w w' \<Longrightarrow> E e w'"
  shows "wlp (glue_table_exists api db n) Q E w"
  unfolding glue_table_exists_def
  using assms(2,3)
  by (auto intro!: get_table_wlp [OF assms(1)] split: exn.split)

lemma get_database_wlp:
  assumes "glue_laws api V"
    and "\<And>d w'. same_catalog V w w' \<Longrightarrow> gv_databases V w n = Some d \<Longrightarrow> Q d w'"
    and "\<And>e w'. same_catalog V w w' \<Longrightarrow> (entity_not_found e \<Longrightarrow> gv_databases V w n = None) \<Longrightarrow> E e w'"
  shows "wlp (call (ga_get_database api n)) Q E w"
proof -
  obtain r w' where r: "ga_get_database api n w = (r, w')" by (cases "ga_get_database api n w")
  have "case ga_get_database api n w of
      (Inr d, w') \<Rightarrow> same_catalog V w w' \<and> gv_databases V w n = Some d
    | (Inl e, w') \<Rightarrow> same_catalog V w w' \<and> (entity_not_found e \<longrightarrow> gv_databases V w n = None)"
    using assms(1) by (simp add: glue_laws_def database_laws_def)
  with r show ?thesis by (cases r) (auto simp: wlp_call intro: assms(2,3))
qed

lemma database_exists_wlp:
  assumes "glue_laws api V"
    and "\<And>w'. same_catalog V w w' \<Longrightarrow> Q (gv_databases V w n \<noteq> None) w'"
    and "\<And>e w'. same_catalog V w w' \<Longrightarrow> E e w'"
  shows "wlp (glue_database_exists api n) Q E w"
  unfolding glue_database_exists_def
  using assms(2,3)
  by (auto intro!: get_database_wlp [OF assms(1)] split: exn.split)

lemma request_wlp:
  assumes "request f pre done same"
    and "\<And>w'. pre w \<Longrightarrow> done w w' \<Longrightarrow> Q () w'"
    and "\<And>e w'. same w w' \<Longrightarrow> E e w'" and "\<And>e w'. pre w \<Longrightarrow> done w w' \<Longrightarrow> E e w'"
  shows "wlp (call f) Q E w"
proof -
  obtain r w' where r: "f w = (r, w')" by (cases "f w")
  have "case f w of (Inr u, w') \<Rightarrow> pre w \<and> done w w' | (Inl e, w') \<Rightarrow> same w w' \<or> pre w \<and> done w w'"
    using assms(1) by (simp add: request_def)
  with r show ?thesis by (cases r) (auto simp: wlp_call intro: assms(2-4))
qed

section \<open>What the operations do to the catalog\<close>

text \<open>Apart from the table \<open>n\<close> of \<open>db\<close>, the catalog is the same.\<close>

definition only_table :: "'w glue_view \<Rightarrow> string \<Rightarrow> string \<Rightarrow> 'w \<Rightarrow> 'w \<Rightarrow> bool" where
  "only_table V db n w w' \<longleftrightarrow>
     gv_databases V w' = gv_databases V w \<and>
     (\<forall>db' n'. (db', n') \<noteq> (db, n) \<longrightarrow> gv_tables V w' db' n' = gv_tables V w db' n')"

lemma set_table_only: "set_table V db n t w w' \<Longrightarrow> only_table V db n w w' \<and> gv_tables V w' db n = t"
  by (auto simp: set_table_def only_table_def)

lemma same_only: "same_catalog V w w' \<Longrightarrow> only_table V db n w w'"
  by (simp add: same_catalog_def only_table_def)

lemma only_table_after: "same_catalog V w w' \<Longrightarrow> only_table V db n w' w'' \<Longrightarrow> only_table V db n w w''"
  by (simp add: same_catalog_def only_table_def)

lemma create_table_request:
  "glue_laws api V \<Longrightarrow> lower (gt_name t) = gt_name t \<Longrightarrow>
     request (ga_create_table api db t) (\<lambda>w. gv_tables V w db (gt_name t) = None)
       (\<lambda>w w'. \<exists>s. stored_as t s \<and> set_table V db (gt_name t) (Some s) w w') (same_catalog V)"
  by (simp add: glue_laws_def table_laws_def)

lemma update_table_request:
  "glue_laws api V \<Longrightarrow> lower (gt_name t) = gt_name t \<Longrightarrow>
     request (ga_update_table api db t) (\<lambda>w. gv_tables V w db (gt_name t) \<noteq> None)
       (\<lambda>w w'. \<exists>s. stored_as t s \<and> set_table V db (gt_name t) (Some s) w w') (same_catalog V)"
  by (simp add: glue_laws_def table_laws_def)

lemma delete_table_request:
  "glue_laws api V \<Longrightarrow>
     request (ga_delete_table api db n) (\<lambda>w. gv_tables V w db n \<noteq> None)
       (set_table V db n None) (same_catalog V)"
  by (simp add: glue_laws_def table_laws_def)

lemma table_input_name [simp]: "gt_name (table_input t) = ct_name t"
  by (simp add: table_input_def Let_def split: prod.split)

text \<open>Creating: the table was not there, and is there as the request gave it; or it may be.\<close>

definition created :: "'w glue_view \<Rightarrow> catalog_table \<Rightarrow> 'w \<Rightarrow> 'w \<Rightarrow> bool" where
  "created V t w w' \<longleftrightarrow> gv_tables V w (ct_database t) (ct_name t) = None \<and>
     only_table V (ct_database t) (ct_name t) w w' \<and>
     (\<exists>s. stored_as (table_input t) s \<and> gv_tables V w' (ct_database t) (ct_name t) = Some s)"

lemma created_after: "same_catalog V w w' \<Longrightarrow> created V t w' w'' \<Longrightarrow> created V t w w''"
  by (auto simp: created_def same_catalog_def only_table_def)

lemma create_table_wlp:
  assumes laws: "glue_laws api V" and name: "lower (ct_name t) = ct_name t"
  shows "wlp (glue_create_table api t) (\<lambda>_. created V t w)
    (\<lambda>_ w'. same_catalog V w w' \<or> created V t w w') w"
proof -
  have request: "wlp (call (ga_create_table api (ct_database t) (table_input t))) (\<lambda>_. created V t w)
      (\<lambda>_ w'. same_catalog V w w' \<or> created V t w w') w'"
    if same: "same_catalog V w w'" for w'
  proof (rule request_wlp [OF create_table_request [OF laws]])
    show "lower (gt_name (table_input t)) = gt_name (table_input t)" by (simp add: name)
    fix w''
    assume "gv_tables V w' (ct_database t) (gt_name (table_input t)) = None"
      and "\<exists>s. stored_as (table_input t) s \<and>
        set_table V (ct_database t) (gt_name (table_input t)) (Some s) w' w''"
    then have "created V t w' w''"
      by (auto simp: created_def dest!: set_table_only)
    with same show "created V t w w''" "same_catalog V w w'' \<or> created V t w w''"
      by (auto intro: created_after)
  qed (auto intro: same_trans [OF same])
  show ?thesis
    unfolding glue_create_table_def wlp_bindA
    by (rule table_exists_wlp [OF laws]) (auto intro: request)
qed

text \<open>Moving a table: as it was, but for its location and the keys of the service.\<close>

definition moved :: "'w glue_view \<Rightarrow> string \<Rightarrow> string \<Rightarrow> storage_location \<Rightarrow> 'w \<Rightarrow> 'w \<Rightarrow> bool" where
  "moved V db n location w w' \<longleftrightarrow> only_table V db n w w' \<and>
     (\<exists>t storage s. gv_tables V w db n = Some t \<and> gt_storage t = Some storage \<and> gv_tables V w' db n = Some s \<and>
        stored_as (t \<lparr> gt_storage := Some (storage \<lparr> gs_location := Some (location_uri location) \<rparr>) \<rparr>) s)"

lemma moved_after: "same_catalog V w w' \<Longrightarrow> moved V db n l w' w'' \<Longrightarrow> moved V db n l w w''"
  by (auto simp: moved_def same_catalog_def only_table_def)

lemma update_location_wlp:
  assumes laws: "glue_laws api V"
  shows "wlp (glue_update_table_location api db n location) (\<lambda>_. moved V db n location w)
    (\<lambda>_ w'. same_catalog V w w' \<or> moved V db n location w w') w"
proof -
  let ?put = "\<lambda>t storage. t \<lparr> gt_storage := Some (storage \<lparr> gs_location := Some (location_uri location) \<rparr>),
    gt_server := filter (\<lambda>(k, v). k \<notin> set popped_fields) (gt_server t) \<rparr>"
  have request: "wlp (call (ga_update_table api db (?put t storage))) (\<lambda>_. moved V db n location w)
      (\<lambda>_ w'. same_catalog V w w' \<or> moved V db n location w w') w'"
    if same: "same_catalog V w w'" and t: "gv_tables V w db n = Some t" "gt_storage t = Some storage"
    for w' t storage
  proof (rule request_wlp [OF update_table_request [OF laws]])
    have "gt_name t = n" "lower n = n"
      using laws t(1) by (auto simp: glue_laws_def named_right_def)
    then show "lower (gt_name (?put t storage)) = gt_name (?put t storage)" by simp
    fix w''
    assume "\<exists>s. stored_as (?put t storage) s \<and> set_table V db (gt_name (?put t storage)) (Some s) w' w''"
    then have "moved V db n location w' w''"
      using t same \<open>gt_name t = n\<close>
      by (auto simp: moved_def same_catalog_def stored_as_def dest!: set_table_only)
    with same show "moved V db n location w w''" "same_catalog V w w'' \<or> moved V db n location w w''"
      by (auto intro: moved_after)
  qed (auto intro: same_trans [OF same])
  show ?thesis
    unfolding glue_update_table_location_def wlp_bindA
    by (rule get_table_wlp [OF laws]) (auto simp: required_def split: option.split intro: request)
qed

definition dropped :: "'w glue_view \<Rightarrow> string \<Rightarrow> string \<Rightarrow> 'w \<Rightarrow> 'w \<Rightarrow> bool" where
  "dropped V db n w w' \<longleftrightarrow> only_table V db n w w' \<and> gv_tables V w db n \<noteq> None \<and> gv_tables V w' db n = None"

lemma dropped_after: "same_catalog V w w' \<Longrightarrow> dropped V db n w' w'' \<Longrightarrow> dropped V db n w w''"
  by (auto simp: dropped_def same_catalog_def only_table_def)

lemma delete_table_wlp:
  assumes laws: "glue_laws api V"
  shows "wlp (glue_delete_table api db n) (\<lambda>_. dropped V db n w)
    (\<lambda>_ w'. same_catalog V w w' \<or> dropped V db n w w') w"
proof -
  have request: "wlp (call (ga_delete_table api db n)) (\<lambda>_. dropped V db n w)
      (\<lambda>_ w'. same_catalog V w w' \<or> dropped V db n w w') w'" if same: "same_catalog V w w'" for w'
  proof (rule request_wlp [OF delete_table_request [OF laws]])
    fix w''
    assume "gv_tables V w' db n \<noteq> None" "set_table V db n None w' w''"
    then have "dropped V db n w' w''" by (auto simp: dropped_def dest!: set_table_only)
    with same show "dropped V db n w w''" "same_catalog V w w'' \<or> dropped V db n w w''"
      by (auto intro: dropped_after)
  qed (auto intro: same_trans [OF same])
  show ?thesis
    unfolding glue_delete_table_def wlp_bindA
    by (rule table_exists_wlp [OF laws]) (auto intro: request)
qed

section \<open>What the reads give\<close>

text \<open>A table as the catalog gives it back: nullability, the delta format and empty texts are gone.\<close>

definition registered :: "catalog_table \<Rightarrow> catalog_table" where
  "registered t = t
     \<lparr> ct_columns := map (\<lambda>c. c \<lparr> cc_nullable := True, cc_comment := given (cc_comment c) \<rparr>) (ct_columns t),
       ct_description := given (ct_description t), ct_format := ''generic'' \<rparr>"

lemma response_of_input:
  assumes "stored_as (table_input t) s" and "addressable (ct_location t)"
    and "check (sl_bucket (ct_location t)) = Inr ()"
  shows "table_of_response check (ct_database t) s = Inr (registered t)"
proof -
  have s: "gt_name s = ct_name t" "gt_description s = given (ct_description t)"
      "gt_partition_keys s = Some (map partition_input (ct_partitions t))"
      "gt_storage s = gt_storage (table_input t)"
    using assms(1) unfolding stored_as_def
    by (cases s; simp add: table_input_def Let_def split: prod.splits if_splits)+
  obtain storage where storage: "gt_storage s = Some storage"
      "gs_location storage = Some (location_uri (ct_location t))"
      "gs_columns storage = Some (map column_input (ct_columns t))"
    unfolding s(4) by (cases "ct_format t = ''delta''") (simp_all add: table_input_def Let_def)
  have "mapE column_of_response (map column_input cs) =
      Inr (map (\<lambda>c. c \<lparr> cc_nullable := True, cc_comment := given (cc_comment c) \<rparr>) cs)" for cs
    by (induction cs) (simp_all add: column_of_response_def column_input_def required_def)
  then show ?thesis
    using from_uri_uri [where check_netloc = check, OF assms(2,3)]
    by (simp add: table_of_response_def required_def storage s or_empty_def registered_def
        partition_input_def comp_def)
qed

lemma get_table_result_wlp:
  assumes laws: "glue_laws api V"
  shows "wlp (glue_get_table api db n)
    (\<lambda>r w'. same_catalog V w w' \<and> (\<exists>t. gv_tables V w db n = Some t \<and>
       table_of_response (ga_check_netloc api) db t = Inr r))
    (\<lambda>_. same_catalog V w) w"
proof -
  have request: "wlp (call (ga_get_table api db n))
      (\<lambda>t. wlp (lift (table_of_response (ga_check_netloc api) db t))
        (\<lambda>r w'. same_catalog V w w' \<and> (\<exists>t. gv_tables V w db n = Some t \<and>
           table_of_response (ga_check_netloc api) db t = Inr r)) (\<lambda>_. same_catalog V w))
      (\<lambda>_. same_catalog V w) w'" if same: "same_catalog V w w'" for w'
  proof (rule get_table_wlp [OF laws])
    fix t w''
    assume "same_catalog V w' w''" "gv_tables V w' db n = Some t"
    with same show "wlp (lift (table_of_response (ga_check_netloc api) db t))
        (\<lambda>r w'. same_catalog V w w' \<and> (\<exists>t. gv_tables V w db n = Some t \<and>
           table_of_response (ga_check_netloc api) db t = Inr r)) (\<lambda>_. same_catalog V w) w''"
      by (auto simp: same_catalog_def split: sum.split)
  qed (use same in \<open>auto intro: same_trans\<close>)
  show ?thesis
    unfolding glue_get_table_def wlp_bindA
    by (rule table_exists_wlp [OF laws]) (auto intro: request)
qed

section \<open>A service in memory\<close>

text \<open>
  Databases and tables in lists, the first entry of a name being the one in force. The service
  gives back keys of its own, refuses to create what exists and to change what does not.
\<close>

record mem_glue =
  mg_databases :: "glue_database list"
  mg_tables :: "(string \<times> glue_table) list"

definition missing :: exn where
  "missing = Exn ''EntityNotFoundException'' ''not found''"

definition already_there :: exn where
  "already_there = Exn ''AlreadyExistsException'' ''already exists''"

definition mem_database :: "mem_glue \<Rightarrow> string \<Rightarrow> glue_database option" where
  "mem_database w n = List.find (\<lambda>d. gd_name d = n) (mg_databases w)"

definition mem_table :: "mem_glue \<Rightarrow> string \<Rightarrow> string \<Rightarrow> glue_table option" where
  "mem_table w db n =
     (if lower n = n
      then map_option snd (List.find (\<lambda>dt. fst dt = db \<and> gt_name (snd dt) = n) (mg_tables w))
      else None)"

definition mem_store :: "string \<Rightarrow> glue_table \<Rightarrow> mem_glue \<Rightarrow> mem_glue" where
  "mem_store db t w = w \<lparr> mg_tables :=
     (db, t \<lparr> gt_server := [(''DatabaseName'', db), (''VersionId'', ''1'')] \<rparr>) # mg_tables w \<rparr>"

definition mem_drop_table :: "string \<Rightarrow> string \<Rightarrow> mem_glue \<Rightarrow> mem_glue" where
  "mem_drop_table db n w =
     w \<lparr> mg_tables := filter (\<lambda>dt. \<not> (fst dt = db \<and> gt_name (snd dt) = n)) (mg_tables w) \<rparr>"

definition mem_drop_database :: "string \<Rightarrow> mem_glue \<Rightarrow> mem_glue" where
  "mem_drop_database n w =
     w \<lparr> mg_databases := filter (\<lambda>d. gd_name d \<noteq> n) (mg_databases w),
         mg_tables := filter (\<lambda>dt. fst dt \<noteq> n) (mg_tables w) \<rparr>"

definition in_force :: "('k \<Rightarrow> 'v option) \<Rightarrow> 'k list \<Rightarrow> 'v list" where
  "in_force look ks = map (\<lambda>k. the (look k)) (filter (\<lambda>k. look k \<noteq> None) (remdups ks))"

definition mem_glue_api :: "mem_glue glue_api" where
  "mem_glue_api =
     \<lparr> ga_get_database = (\<lambda>n w. (case mem_database w n of None \<Rightarrow> Inl missing | Some d \<Rightarrow> Inr d, w)),
       ga_create_database = (\<lambda>d w.
         if mem_database w (gd_name d) \<noteq> None then (Inl already_there, w)
         else (Inr (), w \<lparr> mg_databases := d # mg_databases w \<rparr>)),
       ga_delete_database = (\<lambda>n w.
         if mem_database w n = None then (Inl missing, w) else (Inr (), mem_drop_database n w)),
       ga_get_databases = (\<lambda>w. (([in_force (mem_database w) (map gd_name (mg_databases w))], None), w)),
       ga_get_table = (\<lambda>db n w. (case mem_table w db n of None \<Rightarrow> Inl missing | Some t \<Rightarrow> Inr t, w)),
       ga_create_table = (\<lambda>db t w.
         if mem_table w db (gt_name t) \<noteq> None then (Inl already_there, w) else (Inr (), mem_store db t w)),
       ga_update_table = (\<lambda>db t w.
         if mem_table w db (gt_name t) = None then (Inl missing, w) else (Inr (), mem_store db t w)),
       ga_delete_table = (\<lambda>db n w.
         if mem_table w db n = None then (Inl missing, w) else (Inr (), mem_drop_table db n w)),
       ga_get_tables = (\<lambda>db w.
         (([in_force (mem_table w db) (map (gt_name \<circ> snd) (mg_tables w))], None), w)),
       ga_check_netloc = (\<lambda>_. Inr ()) \<rparr>"

definition mem_glue_view :: "mem_glue glue_view" where
  "mem_glue_view = \<lparr> gv_databases = mem_database, gv_tables = mem_table \<rparr>"

lemma find_filter: "List.find P (filter R xs) = List.find (\<lambda>x. P x \<and> R x) xs"
  by (induction xs) auto

lemma find_cong: "(\<And>x. x \<in> set xs \<Longrightarrow> P x = R x) \<Longrightarrow> List.find P xs = List.find R xs"
  by (induction xs) auto

lemma find_none: "(\<And>x. \<not> P x) \<Longrightarrow> List.find P xs = None"
  by (induction xs) auto

lemma in_force_listing:
  assumes "\<And>k v. look k = Some v \<Longrightarrow> name v = k \<and> k \<in> set ks"
  shows "distinct (map name (in_force look ks)) \<and> set (in_force look ks) = ran look"
proof
  have "map name (in_force look ks) = filter (\<lambda>k. look k \<noteq> None) (remdups ks)"
    using assms by (force simp: in_force_def comp_def intro!: map_idI)
  then show "distinct (map name (in_force look ks))" by simp
  show "set (in_force look ks) = ran look"
    using assms by (force simp: in_force_def ran_def)
qed

lemma mem_database_name: "mem_database w n = Some d \<Longrightarrow> gd_name d = n \<and> n \<in> set (map gd_name (mg_databases w))"
  by (auto simp: mem_database_def find_Some_iff)

lemma mem_table_name:
  "mem_table w db n = Some t \<Longrightarrow> gt_name t = n \<and> lower n = n \<and> n \<in> set (map (gt_name \<circ> snd) (mg_tables w))"
  by (auto simp: mem_table_def find_Some_iff split: if_splits) (metis nth_mem rev_image_eqI snd_conv)

lemma mem_store_tables:
  "lower (gt_name t) = gt_name t \<Longrightarrow> mem_table (mem_store db t w) =
     (mem_table w)(db := (mem_table w db)(gt_name t \<mapsto>
        t \<lparr> gt_server := [(''DatabaseName'', db), (''VersionId'', ''1'')] \<rparr>))"
  by (auto simp: fun_eq_iff mem_table_def mem_store_def)

lemma mem_drop_tables: "mem_table (mem_drop_table db n w) = (mem_table w)(db := (mem_table w db)(n := None))"
  by (auto simp: fun_eq_iff mem_table_def mem_drop_table_def find_filter intro!: find_none
      intro: arg_cong [OF find_cong])

lemma mem_drop_databases:
  "mem_database (mem_drop_database n w) = (mem_database w)(n := None)"
  "mem_table (mem_drop_database n w) = (mem_table w)(n := (\<lambda>_. None))"
  by (auto simp: fun_eq_iff mem_table_def mem_database_def mem_drop_database_def find_filter
      intro!: find_none intro: arg_cong [OF find_cong] find_cong)

lemma mem_other_tables [simp]: "mem_table (w \<lparr> mg_databases := ds \<rparr>) = mem_table w"
  "mem_database (w \<lparr> mg_tables := ts \<rparr>) = mem_database w"
  "mem_database (mem_store db t w) = mem_database w" "mem_database (mem_drop_table db n w) = mem_database w"
  by (auto simp: fun_eq_iff mem_table_def mem_database_def mem_store_def mem_drop_table_def)

lemma mem_cons_database: "mem_database (w \<lparr> mg_databases := d # mg_databases w \<rparr>) = (mem_database w)(gd_name d \<mapsto> d)"
  by (auto simp: fun_eq_iff mem_database_def)

lemma stored_server: "stored_as t (t \<lparr> gt_server := kvs \<rparr>)"
  by (simp add: stored_as_def)

lemma mem_glue_laws: "glue_laws mem_glue_api mem_glue_view"
proof -
  note defs = mem_glue_api_def mem_glue_view_def same_catalog_def request_def missing_def entity_not_found_def
  have "named_right mem_glue_view"
    by (auto simp: named_right_def mem_glue_view_def dest: mem_table_name mem_database_name)
  moreover have "database_laws mem_glue_api mem_glue_view"
    using in_force_listing [where look = "mem_database _" and name = gd_name, OF mem_database_name]
    by (auto simp: database_laws_def defs set_database_def mem_cons_database mem_drop_databases
        split: option.split)
  moreover have "table_laws mem_glue_api mem_glue_view"
  proof -
    have "distinct (map gt_name (in_force (mem_table w db) (map (gt_name \<circ> snd) (mg_tables w)))) \<and>
        set (in_force (mem_table w db) (map (gt_name \<circ> snd) (mg_tables w))) = ran (mem_table w db)" for w db
      by (rule in_force_listing) (auto dest: mem_table_name)
    then show ?thesis
      by (auto simp: table_laws_def defs set_table_def mem_store_tables mem_drop_tables
          intro!: exI [where x = "_ \<lparr> gt_server := _ \<rparr>"] stored_server split: option.split)
  qed
  ultimately show ?thesis by (simp add: glue_laws_def)
qed

end
