(* ===== verification/Glue_Properties.thy ===== *)
theory Glue_Properties
  imports Glue_Contract
begin

text \<open>
  The properties of the Glue catalog provider, for any service that keeps \<open>glue_laws\<close>, each with a
  witness on the service in memory.
\<close>

section \<open>A table for the witnesses\<close>

definition orders_table :: catalog_table where
  "orders_table =
     \<lparr> ct_database = ''silver'', ct_name = ''orders'', ct_location = sample_location,
       ct_columns = [\<lparr> cc_name = ''id'', cc_type = ''string'', cc_nullable = False, cc_comment = Some ''key'' \<rparr>],
       ct_partitions = [''day''], ct_description = Some [], ct_format = ''delta'' \<rparr>"

definition empty_glue :: mem_glue where
  "empty_glue = \<lparr> mg_databases = [], mg_tables = [] \<rparr>"

lemma orders_table_facts [simp]:
  "ct_database orders_table = ''silver''" "ct_name orders_table = ''orders''"
  "ct_location orders_table = sample_location"
  by (simp_all add: orders_table_def)

lemma orders_lower [simp]: "lower ''orders'' = ''orders''"
  by code_simp

lemma mem_create:
  "glue_create_table mem_glue_api orders_table empty_glue =
     Some (Inr (), mem_store ''silver'' (table_input orders_table) empty_glue)"
  by (simp add: glue_create_table_def glue_table_exists_def mem_glue_api_def mem_table_def empty_glue_def
      bindA_def caught_def try_except_def call_def ret_def missing_def entity_not_found_def)

lemma mem_get:
  assumes "mem_table w db n = Some s" and "table_of_response (\<lambda>_. Inr ()) db s = Inr r"
  shows "glue_get_table mem_glue_api db n w = Some (Inr r, w)"
  using assms
  by (simp add: glue_get_table_def glue_table_exists_def mem_glue_api_def bindA_def caught_def
      try_except_def call_def ret_def lift_def)

section \<open>Properties\<close>

text \<open>
  C32. A table registered in Glue is read back as it was given, but for what Glue or the provider do
  not keep: \<open>get_table\<close> after a successful \<open>create_table\<close> gives the same names, types, partitions
  and location, every column nullable, the format \<open>generic\<close> (also of a Delta table), and no empty
  description or comment.
\<close>

theorem glue_table_roundtrip:
  assumes "glue_laws api V" and "lower (ct_name t) = ct_name t" and "addressable (ct_location t)"
    and "ga_check_netloc api (sl_bucket (ct_location t)) = Inr ()"
    and "glue_create_table api t w = Some (Inr (), w1)" and "same_catalog V w1 w2"
    and "glue_get_table api (ct_database t) (ct_name t) w2 = Some (Inr r, w3)"
  shows "r = registered t \<and> same_catalog V w2 w3"
proof -
  have "created V t w w1"
    using create_table_wlp [OF assms(1,2)] assms(5) by (rule wlp_Inr)
  then obtain s where s: "stored_as (table_input t) s" "gv_tables V w1 (ct_database t) (ct_name t) = Some s"
    by (auto simp: created_def)
  obtain t' where t': "gv_tables V w2 (ct_database t) (ct_name t) = Some t'"
      "table_of_response (ga_check_netloc api) (ct_database t) t' = Inr r" "same_catalog V w2 w3"
    using wlp_Inr [OF get_table_result_wlp [OF assms(1)] assms(7)] by auto
  have "t' = s" using t'(1) s(2) assms(6) by (simp add: same_catalog_def)
  with response_of_input [where check = "ga_check_netloc api", OF s(1) assms(3,4)] t' show ?thesis by simp
qed

lemma glue_table_roundtrip_witness:
  "\<exists>w1 w3. glue_create_table mem_glue_api orders_table empty_glue = Some (Inr (), w1) \<and>
     glue_get_table mem_glue_api ''silver'' ''orders'' w1 = Some (Inr (registered orders_table), w3) \<and>
     ct_format (registered orders_table) = ''generic''"
proof -
  let ?w1 = "mem_store ''silver'' (table_input orders_table) empty_glue"
  have ok: "addressable sample_location" by code_simp
  obtain s where "mem_table ?w1 ''silver'' ''orders'' = Some s" and "stored_as (table_input orders_table) s"
    using mem_store_tables [of "table_input orders_table" "''silver''" empty_glue] stored_server by simp
  with response_of_input [where check = "\<lambda>_. Inr ()", of orders_table s] ok
  obtain r where r: "glue_get_table mem_glue_api ''silver'' ''orders'' ?w1 = Some (Inr r, ?w1)"
    using mem_get by simp
  have "ga_check_netloc mem_glue_api b = Inr ()" for b by (simp add: mem_glue_api_def)
  with glue_table_roundtrip [OF mem_glue_laws, of orders_table empty_glue ?w1 ?w1 r ?w1] r mem_create ok
  have "r = registered orders_table" by simp
  with r mem_create show ?thesis by (simp add: registered_def)
qed

text \<open>
  C33. An operation of the provider changes the catalog only where it says, however its requests
  fail. \<open>create_table\<close> never touches a table that exists (so registering again is harmless), and
  adds at most the one asked for; moving a table changes its location and nothing else of it;
  deleting removes that table alone; an error means the catalog is as it was, or the one change was
  made and only the answer was lost.
\<close>

theorem glue_changes_only_its_table:
  assumes "glue_laws api V"
  shows "(\<forall>t w r w'. lower (ct_name t) = ct_name t \<longrightarrow> glue_create_table api t w = Some (r, w') \<longrightarrow>
      created V t w w' \<or> \<not> r = Inr () \<and> same_catalog V w w') \<and>
    (\<forall>db n l w r w'. glue_update_table_location api db n l w = Some (r, w') \<longrightarrow>
      moved V db n l w w' \<or> \<not> r = Inr () \<and> same_catalog V w w') \<and>
    (\<forall>db n w r w'. glue_delete_table api db n w = Some (r, w') \<longrightarrow>
      dropped V db n w w' \<or> \<not> r = Inr () \<and> same_catalog V w w') \<and>
    (\<forall>db n w r w'. glue_get_table api db n w = Some (r, w') \<longrightarrow> same_catalog V w w')"
proof (intro conjI allI impI)
  fix t w r w'
  assume "lower (ct_name t) = ct_name t" and run: "glue_create_table api t w = Some (r, w')"
  from create_table_wlp [OF assms this(1), of w] run show "created V t w w' \<or> \<not> r = Inr () \<and> same_catalog V w w'"
    by (cases r) (auto simp: wlp_def)
next
  fix db n l w r w'
  assume "glue_update_table_location api db n l w = Some (r, w')"
  with update_location_wlp [OF assms, of db n l w] show "moved V db n l w w' \<or> \<not> r = Inr () \<and> same_catalog V w w'"
    by (cases r) (auto simp: wlp_def)
next
  fix db n w r w'
  assume "glue_delete_table api db n w = Some (r, w')"
  with delete_table_wlp [OF assms, of db n w] show "dropped V db n w w' \<or> \<not> r = Inr () \<and> same_catalog V w w'"
    by (cases r) (auto simp: wlp_def)
next
  fix db n w r w'
  assume "glue_get_table api db n w = Some (r, w')"
  with get_table_result_wlp [OF assms, of db n w] show "same_catalog V w w'"
    by (cases r) (auto simp: wlp_def)
qed

lemma glue_changes_only_its_table_witness:
  "\<exists>w. glue_create_table mem_glue_api orders_table empty_glue = Some (Inr (), w) \<and>
     created mem_glue_view orders_table empty_glue w"
  using glue_changes_only_its_table [OF mem_glue_laws] mem_create orders_lower orders_table_facts(2) by metis

text \<open>
  The mapper and the provider agree: on a response that names its database, the conversions of
  \<open>GlueCatalogMapper\<close> are those the provider writes inline, and so is its database request; its
  table request is the provider's exactly when the table is not a Delta table and its description
  is not empty.
\<close>

theorem mapper_agrees_with_provider:
  assumes "map_of (gt_server s) ''DatabaseName'' = Some db"
  shows "mapper_catalog_table check s = table_of_response check db s \<and>
    mapper_catalog_database check d = database_of_response check d \<and>
    mapper_glue_database cd = database_input cd \<and>
    (mapper_glue_table t = table_input t \<longleftrightarrow> ct_format t \<noteq> ''delta'' \<and> ct_description t \<noteq> Some [])"
proof -
  have col: "mapper_catalog_column = column_of_response"
    by (rule ext) (simp add: mapper_catalog_column_def column_of_response_def required_def split: option.split)
  have table: "mapper_catalog_table check s = table_of_response check db s"
    using assms
    by (simp add: mapper_catalog_table_def table_of_response_def col required_def split: option.split)
  have database: "mapper_catalog_database check d = database_of_response check d"
  proof (cases "from_uri check (the (gd_location_uri d))")
    case (Inl e)
    then show ?thesis
      by (auto simp: mapper_catalog_database_def database_of_response_def given_def Let_def split: option.split)
  next
    case (Inr l)
    then show ?thesis
      by (auto simp: mapper_catalog_database_def database_of_response_def given_def Let_def split: option.split)
  qed
  have out_col: "mapper_glue_column = column_input"
    by (rule ext) (simp add: mapper_glue_column_def column_input_def)
  have "delta_input_format \<noteq> generic_input_format"
    by (simp add: delta_input_format_def generic_input_format_def)
  then have request: "mapper_glue_table t = table_input t \<longleftrightarrow>
      ct_format t \<noteq> ''delta'' \<and> ct_description t \<noteq> Some []"
    by (auto simp: mapper_glue_table_def table_input_def Let_def out_col given_def
        generic_input_format_def generic_output_format_def generic_serde_def)
  show ?thesis
    using table database request by (simp add: mapper_glue_database_def database_input_def)
qed

lemma mapper_agrees_with_provider_witness:
  "mapper_catalog_table (\<lambda>_. Inr ()) ((table_input orders_table) \<lparr> gt_server := [(''DatabaseName'', ''silver'')] \<rparr>) =
     table_of_response (\<lambda>_. Inr ()) ''silver''
       ((table_input orders_table) \<lparr> gt_server := [(''DatabaseName'', ''silver'')] \<rparr>) \<and>
   mapper_glue_table orders_table \<noteq> table_input orders_table"
  using mapper_agrees_with_provider
    [of "(table_input orders_table) \<lparr> gt_server := [(''DatabaseName'', ''silver'')] \<rparr>" "''silver''"
      "\<lambda>_. Inr ()" undefined undefined orders_table]
  by (simp add: orders_table_def)

end
