(* ===== verification/Registration.thy ===== *)
theory Registration
  imports Stages Glue_Properties
begin

text \<open>
  What the registration of a Silver table does to the catalog: the stage over any object store, the
  Glue provider and any service that keeps \<open>glue_laws\<close>.
\<close>

section \<open>What leaves the catalog alone\<close>

lemma wlp_on_world [simp]:
  "wlp (on_world m) Q E s =
     wlp m (\<lambda>a w. Q a (s \<lparr> sw_world := w \<rparr>)) (\<lambda>e w. E e (s \<lparr> sw_world := w \<rparr>)) (sw_world s)"
  by (simp add: wlp_def on_world_def split: option.split prod.split sum.split)

lemma wlp_stage_outcome_of [simp]:
  "wlp (stage_outcome_of b status ety emsg out) Q E s =
     Q \<lparr> pr_status = status, pr_metadata = cx_metadata (sw_ctx s), pr_error_type = ety, pr_error_message = emsg,
         sr_stage_id = sb_id b, sr_stage_name = sb_name b, sr_attempt = 1, sr_output = out \<rparr> s"
  by (simp add: wlp_def stage_outcome_of_def)

definition keeps :: "'w glue_view \<Rightarrow> ('w, 'a) act \<Rightarrow> bool" where
  "keeps V m \<longleftrightarrow> (\<forall>w. wlp m (\<lambda>_. same_catalog V w) (\<lambda>_. same_catalog V w) w)"

lemma keeps_wlp:
  assumes "keeps V m" and "\<And>a w'. same_catalog V w w' \<Longrightarrow> Q a w'" and "\<And>e w'. same_catalog V w w' \<Longrightarrow> E e w'"
  shows "wlp m Q E w"
  by (rule wlp_mono [of m "\<lambda>_. same_catalog V w" "\<lambda>_. same_catalog V w"])
     (use assms in \<open>auto simp: keeps_def\<close>)

lemma leaves_bind: "keeps V m \<Longrightarrow> (\<And>a. keeps V (f a)) \<Longrightarrow> keeps V (bindA m f)"
  unfolding keeps_def wlp_bindA by (blast intro: wlp_mono same_trans)

lemma leaves_pure: "keeps V (ret a)" "keeps V (raise e)" "keeps V (lift r)"
  by (simp_all add: keeps_def split: sum.split)

text \<open>Reading a Delta log through a store and a file system that are apart from the catalog.\<close>

definition catalog_apart :: "'w glue_view \<Rightarrow> 'w delta_env \<Rightarrow> 'w provider \<Rightarrow> bool" where
  "catalog_apart V v storage \<longleftrightarrow>
     (\<forall>l. keeps V (pv_list storage l)) \<and> (\<forall>l d. keeps V (pv_download storage l d)) \<and>
     (\<forall>d. keeps V (call (dv_read_text v d))) \<and> keeps V (call (dv_make_tmp v)) \<and>
     (\<forall>tmp. keeps V (call (dv_remove_tmp v tmp)))"

lemma keeps_scan:
  assumes "catalog_apart V v storage"
  shows "keeps V (scan_commits v storage tmp none commits)"
proof (induction commits)
  case (Cons c commits)
  have "keeps V (case found of Some schema \<Rightarrow> ret schema | None \<Rightarrow> scan_commits v storage tmp none commits)" for found
    using Cons by (cases found) (simp_all add: leaves_pure)
  with assms show ?case
    unfolding catalog_apart_def scan_commits.simps Let_def
    by (intro leaves_bind) (auto simp: leaves_pure)
qed (simp add: leaves_pure)

lemma keeps_with_tmp:
  assumes "catalog_apart V v storage" and "\<And>tmp. keeps V (body tmp)"
  shows "keeps V (with_tmp v body)"
  unfolding keeps_def
proof
  fix w
  have make: "same_catalog V w (snd (dv_make_tmp v w))" for w
    using assms(1) by (cases "dv_make_tmp v w")
      (auto simp: catalog_apart_def keeps_def wlp_call split: sum.splits dest!: spec [of _ w])
  have remove: "same_catalog V w (snd (dv_remove_tmp v tmp w))" for w tmp
    using assms(1) by (cases "dv_remove_tmp v tmp w")
      (auto simp: catalog_apart_def keeps_def wlp_call split: sum.splits dest!: spec [of _ w] spec [of _ tmp])
  obtain r w1 where r: "dv_make_tmp v w = (r, w1)" by fastforce
  then have same: "same_catalog V w w1" using make [of w] by simp
  have after: "same_catalog V w w3" if "same_catalog V w1 w2" "dv_remove_tmp v tmp w2 = (x, w3)" for w2 w3 x tmp
    using same_trans [OF same that(1)] remove [of w2 tmp] that(2) by (auto intro: same_trans)
  show "wlp (with_tmp v body) (\<lambda>_. same_catalog V w) (\<lambda>_. same_catalog V w) w"
    unfolding with_tmp_step r
    by (auto simp: same split: sum.split prod.split intro!: keeps_wlp [OF assms(2)] dest: after)
qed

lemma keeps_read_schema:
  assumes "catalog_apart V v storage"
  shows "keeps V (read_delta_schema v storage table)"
proof -
  have "keeps V (if commits = [] then ret None else with_tmp v (\<lambda>tmp.
      bindA (scan_commits v storage tmp none commits) (\<lambda>schema. ret (Some schema))))" for commits none
    by (auto intro!: keeps_with_tmp [OF assms] leaves_bind keeps_scan [OF assms] simp: leaves_pure)
  moreover have "keeps V (pv_list storage l)" for l using assms by (simp add: catalog_apart_def)
  ultimately show ?thesis
    unfolding read_delta_schema_def Let_def by (intro leaves_bind) (auto simp: leaves_pure)
qed

section \<open>Resolving providers\<close>

text \<open>The factory builds the provider \<open>p\<close> under the name, if it builds one, and leaves the catalog alone.\<close>

definition resolves :: "'w glue_view \<Rightarrow> ('b, 'w) provider_factory \<Rightarrow> string \<Rightarrow> 'w provider \<Rightarrow> bool" where
  "resolves V f n p \<longleftrightarrow>
     (\<exists>b. registry_get n (pf_registry f) = Inr b \<and>
        (\<forall>w. case pf_build f b w of
           (Inr q, w') \<Rightarrow> q = p \<and> same_catalog V w w' | (Inl e, w') \<Rightarrow> same_catalog V w w'))"

lemma resolve_wlp:
  assumes "resolves V f n p"
    and "\<And>w'. same_catalog V w w' \<Longrightarrow> Q p w'" and "\<And>e w'. same_catalog V w w' \<Longrightarrow> E e w'"
  shows "wlp (resolve_provider nm (Some f) n) Q E w"
proof -
  obtain b where b: "registry_get n (pf_registry f) = Inr b"
      and builds: "\<forall>w. case pf_build f b w of
        (Inr q, w') \<Rightarrow> q = p \<and> same_catalog V w w' | (Inl e, w') \<Rightarrow> same_catalog V w w'"
    using assms(1) unfolding resolves_def by (elim exE conjE)
  have "case pf_build f b w of (Inr q, w') \<Rightarrow> q = p \<and> same_catalog V w w' | (Inl e, w') \<Rightarrow> same_catalog V w w'"
    by (rule spec [OF builds])
  with b assms(2,3) show ?thesis
    by (cases "pf_build f b w") (auto simp: resolve_provider_def factory_create_def wlp_call split: sum.splits)
qed

section \<open>Registering\<close>

text \<open>No error of the service is the platform's own \<open>TableAlreadyExistsError\<close>.\<close>

definition own_errors :: "'w glue_api \<Rightarrow> bool" where
  "own_errors api \<longleftrightarrow>
     (\<forall>db n w e w'. ga_get_table api db n w = (Inl e, w') \<longrightarrow> \<not> is_table_exists e) \<and>
     (\<forall>db t w e w'. ga_create_table api db t w = (Inl e, w') \<longrightarrow> \<not> is_table_exists e)"

text \<open>After registering: the table was there and the catalog is as it was, or it was created.\<close>

definition in_catalog :: "'w glue_view \<Rightarrow> catalog_table \<Rightarrow> 'w \<Rightarrow> 'w \<Rightarrow> bool" where
  "in_catalog V t w w' \<longleftrightarrow>
     gv_tables V w (ct_database t) (ct_name t) \<noteq> None \<and> same_catalog V w w' \<or> created V t w w'"

lemma in_catalog_after: "same_catalog V w w1 \<Longrightarrow> in_catalog V t w1 w2 \<Longrightarrow> in_catalog V t w w2"
  by (auto simp: in_catalog_def intro: created_after same_trans) (auto simp: same_catalog_def)

lemma exists_error_wlp:
  assumes laws: "glue_laws api V" and own: "own_errors api"
  shows "wlp (glue_create_table api t) (\<lambda>_ _. True)
    (\<lambda>e w'. is_table_exists e \<longrightarrow> gv_tables V w (ct_database t) (ct_name t) \<noteq> None \<and> same_catalog V w w') w"
proof -
  let ?old = "gv_tables V w (ct_database t) (ct_name t)"
  have own_get: "\<not> is_table_exists e" if "ga_get_table api (ct_database t) (ct_name t) w = (Inl e, w')" for e w'
    using own that unfolding own_errors_def by blast
  have "wlp (glue_table_exists api (ct_database t) (ct_name t))
      (\<lambda>b w'. b = (?old \<noteq> None) \<and> same_catalog V w w') (\<lambda>e _. \<not> is_table_exists e) w"
  proof -
    have "wlp (glue_table_exists api (ct_database t) (ct_name t))
        (\<lambda>b w'. b = (?old \<noteq> None) \<and> same_catalog V w w') (\<lambda>_ _. True) w"
      by (rule table_exists_wlp [OF laws]) simp_all
    moreover have "wlp (glue_table_exists api (ct_database t) (ct_name t)) (\<lambda>_ _. True) (\<lambda>e _. \<not> is_table_exists e) w"
      by (auto simp: glue_table_exists_def wlp_call is_table_exists_def own_get split: prod.split sum.split exn.split
          dest: own_get)
    ultimately show ?thesis
      by (rule wlp_mono [OF wlp_conj]) auto
  qed
  then show ?thesis
    unfolding glue_create_table_def wlp_bindA
  proof (rule wlp_mono)
    fix b w'
    assume "b = (?old \<noteq> None) \<and> same_catalog V w w'"
    then show "wlp (if b then raise (table_already_exists (ct_name t))
        else call (ga_create_table api (ct_database t) (table_input t))) (\<lambda>_ _. True)
      (\<lambda>e w'. is_table_exists e \<longrightarrow> ?old \<noteq> None \<and> same_catalog V w w') w'"
      using own by (auto simp: wlp_call own_errors_def split: prod.split sum.split)
  qed simp
qed

lemma register_table_wlp:
  assumes laws: "glue_laws api V" and own: "own_errors api" and name: "lower (ct_name t) = ct_name t"
  shows "wlp (register_table (glue_provider api) t) (\<lambda>_. in_catalog V t w)
    (\<lambda>_ w'. same_catalog V w w' \<or> created V t w w') w"
proof -
  from wlp_conj [OF create_table_wlp [OF laws name] exists_error_wlp [OF laws own]]
  show ?thesis
    unfolding register_table_def wlp_try_except glue_provider_def provider.select_convs
    by (rule wlp_mono) (auto simp: in_catalog_def split: exn.split)
qed

text \<open>The table a stage registers: that of a schema read, at the place of the entity.\<close>

definition silver_table :: "'w delta_env \<Rightarrow> ('b, 'w) silver_stage \<Rightarrow> catalog_table \<Rightarrow> bool" where
  "silver_table v st t \<longleftrightarrow>
     (\<exists>l schema. from_uri (dv_check_netloc v) (config_silver (ss_entity st)) = Inr l \<and>
        table_of_schema (dv_repr v) (ss_database st) (ss_entity st) l schema = Inr t)"

lemma silver_table_name: "silver_table v st t \<Longrightarrow> ct_name t = ss_entity st"
  by (auto simp: silver_table_def table_of_schema_def bindE_eq_Inr_iff)

text \<open>How a stage that returned leaves things, and how one that raised does.\<close>

definition registered_by ::
  "'w glue_view \<Rightarrow> 'w delta_env \<Rightarrow> ('b, 'w) silver_stage \<Rightarrow> 'w stage_state \<Rightarrow> stage_result \<Rightarrow> 'w stage_state \<Rightarrow> bool" where
  "registered_by V v st s res s' \<longleftrightarrow>
     pr_status res = COMPLETED \<and>
       (\<exists>t. silver_table v st t \<and> in_catalog V t (sw_world s) (sw_world s') \<and>
          sw_ctx s' = write_table t (sw_ctx s)) \<or>
     pr_status res = FAILED \<and> same_catalog V (sw_world s) (sw_world s') \<and> sw_ctx s' = sw_ctx s"

definition stopped_at ::
  "'w glue_view \<Rightarrow> 'w delta_env \<Rightarrow> ('b, 'w) silver_stage \<Rightarrow> 'w stage_state \<Rightarrow> 'w stage_state \<Rightarrow> bool" where
  "stopped_at V v st s s' \<longleftrightarrow> sw_ctx s' = sw_ctx s \<and>
     (same_catalog V (sw_world s) (sw_world s') \<or>
      (\<exists>t. silver_table v st t \<and> created V t (sw_world s) (sw_world s')))"

lemmas outcome_defs = registered_by_def stopped_at_def

lemma publish_schema_wlp:
  assumes laws: "glue_laws api V" "own_errors api" and name: "lower (ss_entity st) = ss_entity st"
    and f: "sb_factory st = Some f" and catalog: "resolves V f (ss_catalog_provider st) (glue_provider api)"
    and l: "from_uri (dv_check_netloc v) (config_silver (ss_entity st)) = Inr l"
    and same: "same_catalog V (sw_world s) w"
  shows "wlp (publish_schema v st l schema) (registered_by V v st s) (\<lambda>_. stopped_at V v st s) (s \<lparr> sw_world := w \<rparr>)"
proof (cases "table_of_schema (dv_repr v) (ss_database st) (ss_entity st) l schema")
  case (Inl e)
  with same show ?thesis by (simp add: publish_schema_def Let_def stopped_at_def)
next
  case (Inr t)
  with l have t: "silver_table v st t" by (auto simp: silver_table_def)
  have factory: "sb_factory (stage_base.truncate st) = Some f" "sb_name (stage_base.truncate st) = sb_name st"
    using f by (simp_all add: stage_base.truncate_def)
  have register: "wlp (register_table (glue_provider api) t) (\<lambda>_ w'. in_catalog V t (sw_world s) w')
      (\<lambda>_ w'. same_catalog V (sw_world s) w' \<or> created V t (sw_world s) w') w1"
    if "same_catalog V (sw_world s) w1" for w1
    by (rule wlp_mono [OF register_table_wlp [OF laws]])
       (use that name silver_table_name [OF t] in \<open>auto intro: in_catalog_after same_trans created_after\<close>)
  show ?thesis
    unfolding publish_schema_def Let_def Inr resolve_def factory wlp_bindA wlp_lift sum.case wlp_on_world
      stage_state.simps
  proof (rule resolve_wlp [OF catalog], goal_cases)
    case (1 w1)
    then have "same_catalog V w w1" by simp
    with same have after: "same_catalog V (sw_world s) w1" by (rule same_trans)
    show ?case
      by (simp, rule wlp_mono [OF register [OF after]]) (use t in \<open>auto simp: outcome_defs\<close>)
  next
    case (2 e w1)
    then have "same_catalog V w w1" by simp
    with same have "same_catalog V (sw_world s) w1" by (rule same_trans)
    then show ?case by (simp add: stopped_at_def)
  qed
qed

lemma silver_registration_wlp:
  assumes "glue_laws api V" and "own_errors api" and "lower (ss_entity st) = ss_entity st"
    and "sb_factory st = Some f" and "resolves V f (ss_storage_provider st) storage"
    and "resolves V f (ss_catalog_provider st) (glue_provider api)" and "catalog_apart V v storage"
  shows "wlp (silver_registration v st) (registered_by V v st s) (\<lambda>_. stopped_at V v st s) s"
proof -
  have factory: "sb_factory (stage_base.truncate st) = Some f"
    using assms(4) by (simp add: stage_base.truncate_def)
  have read: "wlp (read_delta_schema v storage l) (\<lambda>schema w'. wlp (case schema of
        None \<Rightarrow> stage_outcome_of (stage_base.truncate st) FAILED (Some ''DeltaTableNotFoundError'')
          (Some (delta_missing_message l)) []
      | Some schema \<Rightarrow> publish_schema v st l schema)
        (registered_by V v st s) (\<lambda>_. stopped_at V v st s) (s \<lparr> sw_world := w' \<rparr>))
      (\<lambda>_ w'. stopped_at V v st s (s \<lparr> sw_world := w' \<rparr>)) w"
    if l: "from_uri (dv_check_netloc v) (config_silver (ss_entity st)) = Inr l"
      and same: "same_catalog V (sw_world s) w" for l w
  proof (rule keeps_wlp [OF keeps_read_schema [OF assms(7)]], goal_cases)
    case (1 schema w')
    with publish_schema_wlp [OF assms(1-4,6) l] same_trans [OF same] show ?case
      by (cases schema) (auto simp: outcome_defs)
  qed (use same_trans [OF same] in \<open>auto simp: outcome_defs\<close>)
  show ?thesis
    unfolding silver_registration_def Let_def resolve_def factory wlp_bindA [of "on_world _"] wlp_on_world
  proof (rule resolve_wlp [OF assms(5)], goal_cases)
    case (1 w')
    then show ?case
      using read [OF _ 1]
      by (cases "from_uri (dv_check_netloc v) (config_silver (ss_entity st))") (auto simp: stopped_at_def)
  qed (auto simp: stopped_at_def)
qed

text \<open>
  C25. Registering a Silver table publishes it and is harmless to repeat: a stage that completes has
  read a schema, the table of that schema is in the catalog (created, or it was there before and then the
  catalog is as it was), and the context names it; one that answers \<open>FAILED\<close> changed neither the
  catalog nor the context; one that raises left the context alone and added at most that table.
\<close>

theorem silver_registration_registers:
  assumes "glue_laws api V" and "own_errors api" and "lower (ss_entity st) = ss_entity st"
    and "sb_factory st = Some f" and "resolves V f (ss_storage_provider st) storage"
    and "resolves V f (ss_catalog_provider st) (glue_provider api)" and "catalog_apart V v storage"
    and "silver_registration v st s = Some (r, s')"
  shows "case r of
      Inr res \<Rightarrow>
        pr_status res = COMPLETED \<and>
          (\<exists>t. silver_table v st t \<and> in_catalog V t (sw_world s) (sw_world s') \<and>
             sw_ctx s' = write_table t (sw_ctx s)) \<or>
        pr_status res = FAILED \<and> same_catalog V (sw_world s) (sw_world s') \<and> sw_ctx s' = sw_ctx s
    | Inl e \<Rightarrow> sw_ctx s' = sw_ctx s \<and>
        (same_catalog V (sw_world s) (sw_world s') \<or>
         (\<exists>t. silver_table v st t \<and> created V t (sw_world s) (sw_world s')))"
  using silver_registration_wlp [OF assms(1-7), of s] assms(8)
  by (cases r) (auto simp: wlp_def registered_by_def stopped_at_def)

section \<open>A stage for the witness\<close>

definition orders_schema :: json where
  "orders_schema = JObj [(''fields'', JList [JObj
     [(''name'', JStr ''id''), (''type'', JStr ''long''), (''nullable'', JBool False)]])]"

definition orders_env :: "mem_glue delta_env" where
  "orders_env =
     \<lparr> dv_make_tmp = (\<lambda>w. (Inr ''/tmp/d'', w)), dv_remove_tmp = (\<lambda>_ w. (Inr (), w)),
       dv_read_text = (\<lambda>_ w. (Inr ''commit'', w)),
       dv_loads = (\<lambda>s. Inr (if s = ''commit''
         then JObj [(''metaData'', JObj [(''schemaString'', JStr ''schema'')])] else orders_schema)),
       dv_repr = (\<lambda>_. []), dv_check_netloc = (\<lambda>_. Inr ()) \<rparr>"

definition one_commit :: "mem_glue provider" where
  "one_commit = (glue_provider mem_glue_api)
     \<lparr> pv_list := (\<lambda>l. ret [\<lparr> so_location = l \<lparr> sl_key := sl_key l @ ''/0.json'' \<rparr>, so_metadata = None \<rparr>]),
       pv_download := (\<lambda>_ _. ret ()) \<rparr>"

definition orders_factory :: "(bool, mem_glue) provider_factory" where
  "orders_factory =
     \<lparr> pf_registry = [(''s3'', True), (''glue'', False)],
       pf_build = (\<lambda>b w. (Inr (if b then one_commit else glue_provider mem_glue_api), w)) \<rparr>"

definition orders_stage :: "(bool, mem_glue) silver_stage" where
  "orders_stage =
     \<lparr> sb_id = ''1'', sb_name = ''register'', sb_factory = Some orders_factory, ss_storage_provider = ''s3'',
       ss_catalog_provider = ''glue'', ss_entity = ''orders'', ss_database = default_database \<rparr>"

definition orders_state :: "mem_glue stage_state" where
  "orders_state = \<lparr> sw_ctx = new_context ''ctx-1'' (new_metadata ''run-1''), sw_world = empty_glue \<rparr>"

lemma orders_resolves:
  "resolves mem_glue_view orders_factory ''s3'' one_commit"
  "resolves mem_glue_view orders_factory ''glue'' (glue_provider mem_glue_api)"
  by (auto simp: resolves_def registry_get_def orders_factory_def)

lemma orders_apart: "catalog_apart mem_glue_view orders_env one_commit"
  by (simp add: catalog_apart_def keeps_def one_commit_def orders_env_def wlp_call)

lemma mem_own_errors: "own_errors mem_glue_api"
  by (auto simp: own_errors_def mem_glue_api_def is_table_exists_def missing_def already_there_def
      split: option.splits if_splits)

lemma Inr_map_sum_eq: "map_sum id f r = Inr b \<Longrightarrow> (\<And>a. r = Inr a \<Longrightarrow> f a = b \<Longrightarrow> P) \<Longrightarrow> P"
  by (cases r) simp_all

lemma silver_registration_registers_witness:
  "\<exists>r s' t. silver_registration orders_env orders_stage orders_state = Some (Inr r, s') \<and>
     pr_status r = COMPLETED \<and> silver_table orders_env orders_stage t \<and>
     in_catalog mem_glue_view t empty_glue (sw_world s')"
proof -
  have "map_option (\<lambda>(r, _). map_sum id pr_status r) (silver_registration orders_env orders_stage orders_state) =
      Some (Inr COMPLETED)"
    by code_simp
  then obtain r s' where run: "silver_registration orders_env orders_stage orders_state = Some (Inr r, s')"
      and "pr_status r = COMPLETED"
    by (auto elim: Inr_map_sum_eq)
  moreover have "sw_world orders_state = empty_glue" by (simp add: orders_state_def)
  moreover have "ss_storage_provider orders_stage = ''s3''" "ss_catalog_provider orders_stage = ''glue''"
      "ss_entity orders_stage = ''orders''" "sb_factory orders_stage = Some orders_factory"
    by (simp_all add: orders_stage_def)
  moreover note silver_registration_registers [OF mem_glue_laws mem_own_errors, of orders_stage orders_factory
      one_commit orders_env orders_state "Inr r" s'] orders_resolves orders_apart orders_lower
  ultimately show ?thesis by auto
qed

end
