(* ===== verification/Observed.thy ===== *)
theory Observed
  imports Observers Parallel_Safety
begin

text \<open>
  What hooks may rely on of the executors. \<open>observed\<close> is the interface: an invariant of the
  hooks' state and of the events so far, kept by every event an executor can send, holds after
  any execution, whatever the stages and the policies do and however the tasks interleave.
\<close>

section \<open>The events an executor sends\<close>

definition sendable :: "'e hook_context \<Rightarrow> bool" where
  "sendable c \<longleftrightarrow>
     (hc_type c \<in> {BEFORE_PIPELINE, AFTER_PIPELINE, PIPELINE_FAILED} \<longrightarrow>
        hc_stage c = None \<and> hc_result c = None) \<and>
     (hc_type c \<in> {BEFORE_STAGE, AFTER_STAGE, STAGE_FAILED} \<longrightarrow> hc_stage c \<noteq> None)"

text \<open>Either executor ran the pipeline and ended in \<open>t\<close>.\<close>

definition executes ::
  "('h, 'o, 'e) executor \<Rightarrow> 'e pipeline \<Rightarrow> ('o, 'e) run_state \<Rightarrow> pipeline_result outcome \<Rightarrow>
     ('o, 'e) run_state \<Rightarrow> bool" where
  "executes x p s r t \<longleftrightarrow>
     execute_sequential x p s = Some (r, t) \<or> (\<exists>scheds. execute_parallel x scheds p s = Some (r, t))"

lemma seq_loop_raw:
  assumes "seq_loop x p st n s = Some rt"
    and "\<And>f x p st n s rt. (\<And>x p st n s rt. f x p st n s = Some rt \<Longrightarrow> P x p st n s rt) \<Longrightarrow>
      (case seq_attempt x p st n s of None \<Rightarrow> None | Some (Inl e, t) \<Rightarrow> Some (Inl e, t)
       | Some (Inr (Leave r), t) \<Rightarrow> Some (Inr r, t) | Some (Inr (Again n), t) \<Rightarrow> f x p st n t) = Some rt \<Longrightarrow>
      P x p st n s rt"
  shows "P x p st n s rt"
  by (rule seq_loop.raw_induct [where P = P and xa = "((((x, p), st), n), s)" and y = rt, unfolded prod.case])
     (rule assms(2), assumption, assumption, rule assms(1))

locale observed =
  fixes x :: "('h, 'o, 'e) executor" and I :: "'o \<Rightarrow> exec_event list \<Rightarrow> bool"
  assumes sent: "sendable c \<Longrightarrow> I ob tr \<Longrightarrow>
      I (snd (hook_dispatch (ex_run x) (ex_hooks x) c ob))
        (tr @ [Emitted (hc_type c) (map_option st_id (hc_stage c))])"
    and called: "I ob tr \<Longrightarrow> I ob (tr @ [Called i])"
begin

definition holds :: "('o, 'e) run_state \<Rightarrow> bool" where
  "holds s \<longleftrightarrow> I (rs_obs s) (rs_trace s)"

lemma holds_frame [simp]:
  "holds (s \<lparr> rt_ctx := c \<rparr>) = holds s" "holds (s \<lparr> rt_vars := v \<rparr>) = holds s"
  "holds (s \<lparr> rs_ticks := n \<rparr>) = holds s" "holds (s \<lparr> rs_results := rs \<rparr>) = holds s"
  "holds (s \<lparr> rs_env := env \<rparr>) = holds s"
  "holds (execution_started now s) = holds s" "holds (set_pipeline_result r s) = holds s"
  by (simp_all add: holds_def execution_started_def set_pipeline_result_def Let_def)

lemma wlp_emit_holds:
  assumes "holds s"
    and "ty \<in> {BEFORE_PIPELINE, AFTER_PIPELINE, PIPELINE_FAILED} \<Longrightarrow> st = None \<and> res = None"
    and "ty \<in> {BEFORE_STAGE, AFTER_STAGE, STAGE_FAILED} \<Longrightarrow> st \<noteq> None"
  shows "wlp (emit x ty p st res exc) (\<lambda>_. holds) (\<lambda>_. holds) s"
proof -
  let ?c = "\<lparr> hc_type = ty, hc_pipeline = p, hc_context = rt_ctx s, hc_stage = st, hc_result = res,
    hc_exception = exc, hc_timestamp = ex_clock x (rs_ticks s) \<rparr>"
  have "sendable ?c" using assms(2,3) by (simp add: sendable_def)
  from sent [OF this] assms(1)
  have "I (snd (hook_dispatch (ex_run x) (ex_hooks x) ?c (rs_obs s)))
      (rs_trace s @ [Emitted ty (map_option st_id st)])"
    by (fastforce simp: holds_def)
  then show ?thesis
    by (auto simp: wlp_emit wp_emit Let_def holds_def split: prod.split option.split)
qed

lemma wlp_record_duration_holds: "holds s \<Longrightarrow> wlp (record_duration now) (\<lambda>_. holds) (\<lambda>_. holds) s"
  by (rule wp_wlp, rule wp_record_duration_any) simp_all

lemma wlp_failed_holds: "holds s \<Longrightarrow> wlp (execution_failed now exc) (\<lambda>_. holds) (\<lambda>_. holds) s"
  by (rule wp_wlp, rule wp_execution_failed_any) simp_all

lemma wlp_completed_holds: "holds s \<Longrightarrow> wlp (execution_completed now) (\<lambda>_. holds) (\<lambda>_. holds) s"
  by (rule wp_wlp, rule wp_execution_completed_any) simp_all

lemma wlp_policies_holds: "holds s \<Longrightarrow> wlp (evaluate_policies x p st ev) (\<lambda>_. holds) (\<lambda>_. holds) s"
  by (rule wp_wlp, rule wp_policies_any) simp_all

lemma wlp_body_holds: "holds s \<Longrightarrow> wlp (execute_stage st) (\<lambda>_. holds) (\<lambda>_. holds) s"
  using called by (auto simp: execute_stage_def wlp_def Let_def holds_def split: prod.split sum.split)

text \<open>The rule for a sequence: what keeps the invariant may be followed by anything that does.\<close>

definition keeps :: "(('o, 'e) run_state, 'a) act \<Rightarrow> bool" where
  "keeps m \<longleftrightarrow> (\<forall>s. holds s \<longrightarrow> wlp m (\<lambda>_. holds) (\<lambda>_. holds) s)"

lemma keeps_bind [intro!]:
  assumes "keeps m" and "\<And>a. keeps (f a)"
  shows "keeps (bindA m f)"
  unfolding keeps_def wlp_bindA
proof (intro allI impI)
  fix s
  assume "holds s"
  with assms(1) have "wlp m (\<lambda>_. holds) (\<lambda>_. holds) s" by (simp add: keeps_def)
  then show "wlp m (\<lambda>a. wlp (f a) (\<lambda>_. holds) (\<lambda>_. holds)) (\<lambda>_. holds) s"
    by (rule wlp_mono) (use assms(2) in \<open>simp_all add: keeps_def\<close>)
qed

lemma keeps_caught [intro!]: "keeps m \<Longrightarrow> keeps (caught m)"
  unfolding keeps_def caught_wlp by (auto elim!: wlp_mono split: exn.split)

lemma keeps_try [intro!]:
  assumes "keeps m" and "\<And>e. keeps (h e)"
  shows "keeps (try_except m h)"
  unfolding keeps_def wlp_try_except
proof (intro allI impI)
  fix s
  assume "holds s"
  with assms(1) have "wlp m (\<lambda>_. holds) (\<lambda>_. holds) s" by (simp add: keeps_def)
  then show "wlp m (\<lambda>_. holds) (\<lambda>e. case e of Exn c x \<Rightarrow> wlp (h (Exn c x)) (\<lambda>_. holds) (\<lambda>_. holds)
      | BaseExn c x \<Rightarrow> holds) s"
    by (rule wlp_mono) (use assms(2) in \<open>simp_all add: keeps_def split: exn.split\<close>)
qed

lemma keeps_at: "(\<And>s. keeps (\<lambda>s'. m s s')) \<Longrightarrow> keeps (\<lambda>s. m s s)"
  by (simp add: keeps_def wlp_def)

lemma keeps_modify [intro!]: "(\<And>s. holds s \<Longrightarrow> holds (f s)) \<Longrightarrow> keeps (modify f)"
  by (simp add: keeps_def)

lemma keeps_basic [intro!]:
  "keeps (ret a)" "keeps (raise e)" "keeps (read_clock x)" "keeps (get g)"
  "keeps (execution_failed now exc)" "keeps (execution_completed now)"
  "keeps (evaluate_policies x p st ev)" "keeps (execute_stage st')"
  by (simp_all add: keeps_def wlp_failed_holds wlp_completed_holds wlp_policies_holds wlp_body_holds)

lemma keeps_emit [intro!]:
  "keeps (emit_before_pipeline x p)" "keeps (emit_after_pipeline x p)"
  "keeps (emit_pipeline_failed x p None exc)" "keeps (emit_before_stage x p st)"
  "keeps (emit_after_stage x p st r)" "keeps (emit_stage_failed x p st r' exc)"
  by (auto simp: keeps_def emit_defs intro!: wlp_emit_holds)

lemma keeps_close [intro!]: "keeps (close_pipeline status ety emsg)"
  by (simp add: keeps_def close_pipeline_def wlp_def Let_def)

section \<open>The sequential executor\<close>

lemma keeps_attempt [intro!]: "keeps (seq_attempt x p st n)"
  unfolding seq_attempt_def by (auto split: sum.split)

lemma loop_holds:
  assumes "seq_loop x p st n s = Some rt" and "holds s"
  shows "holds (snd rt)"
proof -
  have "x = x \<longrightarrow> holds s \<longrightarrow> holds (snd rt)"
  proof (rule seq_loop_raw [OF assms(1), where P = "\<lambda>x' p st n s rt. x' = x \<longrightarrow> holds s \<longrightarrow> holds (snd rt)"],
      intro impI)
    fix f x' p st n s y
    assume hyp: "\<And>x' p st n s y. f x' p st n s = Some y \<Longrightarrow> x' = x \<longrightarrow> holds s \<longrightarrow> holds (snd y)"
      and body: "(case seq_attempt x' p st n s of None \<Rightarrow> None | Some (Inl e, t) \<Rightarrow> Some (Inl e, t)
        | Some (Inr (Leave r), t) \<Rightarrow> Some (Inr r, t) | Some (Inr (Again n), t) \<Rightarrow> f x' p st n t) = Some y"
      and eq: "x' = x" and s: "holds s"
    have "wlp (seq_attempt x p st n) (\<lambda>_. holds) (\<lambda>_. holds) s"
      using keeps_attempt s by (auto simp: keeps_def)
    then show "holds (snd y)"
      using body hyp eq
      by (auto simp: wlp_def split: option.splits prod.splits sum.splits attempt_end.splits)
  qed
  with assms(2) show ?thesis by simp
qed

lemma keeps_loop [intro!]: "keeps (seq_loop x p st n)"
  unfolding keeps_def wlp_def
  by (auto split: option.split prod.split sum.split dest: loop_holds)

lemma keeps_stages [intro!]: "keeps (seq_stages x p sts tolerated)"
  by (induction sts arbitrary: tolerated) (auto simp: seq_stage_def split: stage_end.split)

lemma keeps_if_state:
  "keeps m \<Longrightarrow> keeps n \<Longrightarrow> keeps (\<lambda>s. if b s then m s else n s)"
  by (simp add: keeps_def wlp_def)

lemma keeps_let_state: "(\<And>v. keeps (f v)) \<Longrightarrow> keeps (\<lambda>s. let v = g s in f v s)"
  by (simp add: keeps_def wlp_def)

lemma keeps_execute_with:
  assumes "keeps strategy"
  shows "keeps (execute_with strategy)"
  unfolding execute_with_def
  by (intro keeps_bind keeps_try keeps_modify keeps_close assms keeps_if_state keeps_let_state) auto

lemma keeps_sequential: "keeps (execute_sequential x p)"
  unfolding execute_sequential_def sequential_pipeline_def
  by (rule keeps_execute_with) (auto split: stage_end.split option.split)

section \<open>The parallel executor\<close>

lemma keeps_task_step: "keeps (task_step x p st pc)"
  unfolding task_step_def run_stage_start_def run_stage_body_def run_stage_handle_def
  by (auto split: option.split task_pc.split sum.split)

lemma step_task_holds:
  assumes "step_task x p tk s = Some (tk', t)" and "holds s"
  shows "holds t"
proof -
  have "wlp (task_step x p (tk_stage tk) (tk_pc tk)) (\<lambda>_. holds) (\<lambda>_. holds) (s \<lparr> rt_vars := tk_vars tk \<rparr>)"
    using keeps_task_step assms(2) by (simp add: keeps_def)
  then show ?thesis
    using assms(1) by (auto simp: step_task_def wlp_def split: option.splits prod.splits sum.splits)
qed

lemma run_tasks_holds: "run_tasks x p sched (tks, s) = Some (tks', t) \<Longrightarrow> holds s \<Longrightarrow> holds t"
proof (induction sched arbitrary: tks s)
  case (Cons i sched)
  then show ?case
    by (auto split: if_splits option.splits prod.splits dest: step_task_holds)
qed simp

lemma keeps_gather [intro!]: "keeps (gather x p sched grp)"
  unfolding keeps_def wlp_def gather_def
  by (auto split: option.splits prod.splits dest: run_tasks_holds)

lemma keeps_groups [intro!]: "keeps (par_groups x p scheds gs tolerated)"
  by (induction gs arbitrary: scheds tolerated)
     (auto simp: par_group_def split: stage_end.split option.split)

lemma keeps_parallel: "keeps (execute_parallel x scheds p)"
  unfolding execute_parallel_def parallel_pipeline_def
  by (rule keeps_execute_with) (auto split: stage_end.split)

lemma after_sequential:
  "execute_sequential x p s = Some (r, t) \<Longrightarrow> I (rs_obs s) (rs_trace s) \<Longrightarrow> I (rs_obs t) (rs_trace t)"
  using keeps_sequential [of p]
  by (cases r) (fastforce simp: keeps_def wlp_def holds_def)+

lemma after_parallel:
  "execute_parallel x scheds p s = Some (r, t) \<Longrightarrow> I (rs_obs s) (rs_trace s) \<Longrightarrow> I (rs_obs t) (rs_trace t)"
  using keeps_parallel [of scheds p]
  by (cases r) (fastforce simp: keeps_def wlp_def holds_def)+

lemma after_execution:
  "executes x p s r t \<Longrightarrow> I (rs_obs s) (rs_trace s) \<Longrightarrow> I (rs_obs t) (rs_trace t)"
  unfolding executes_def using after_sequential after_parallel by blast

end

end
