(* ===== verification/Executor_Properties.thy ===== *)
theory Executor_Properties
  imports Parallel_Safety
begin

text \<open>
  The properties of the executors, each with a witness on a small concrete pipeline.
\<close>

section \<open>A pipeline for the witnesses\<close>

definition sample_result :: "string \<Rightarrow> execution_status \<Rightarrow> stage_result" where
  "sample_result i status =
     \<lparr> pr_status = status, pr_metadata = new_metadata ''run-1'', pr_error_type = None,
       pr_error_message = None, sr_stage_id = i, sr_stage_name = i, sr_attempt = 1, sr_output = [] \<rparr>"

text \<open>The world counts the calls; this stage raises on the first call and then succeeds.\<close>

definition flaky_stage :: "nat stage" where
  "flaky_stage =
     \<lparr> st_id = ''flaky'', st_name = ''Flaky'', st_max_attempts = 3,
       st_execute = (\<lambda>c n. if n = 0 then (Inl (Exn ''TimeoutError'' ''slow''), c, Suc n)
                           else (Inr (sample_result ''flaky'' COMPLETED), c, Suc n)) \<rparr>"

definition steady_stage :: "string \<Rightarrow> execution_status \<Rightarrow> nat stage" where
  "steady_stage i status =
     \<lparr> st_id = i, st_name = i, st_max_attempts = 3,
       st_execute = (\<lambda>c n. (Inr (sample_result i status), c, Suc n)) \<rparr>"

definition sample_pipeline :: "nat stage list \<Rightarrow> nat pipeline" where
  "sample_pipeline sts =
     \<lparr> pp_id = ''p'', pp_name = ''P'', pp_stages = map (\<lambda>st. Lone (Some st)) sts \<rparr>"

definition plain_executor :: "(unit, unit, nat) executor" where
  "plain_executor = new_executor (\<lambda>_ _ ob. (None, ob)) int None"

definition sample_context :: processing_context where
  "sample_context = new_context ''ctx-1'' (new_metadata ''run-1'')"

lemmas sample_defs = sample_result_def flaky_stage_def steady_stage_def sample_pipeline_def
  plain_executor_def new_executor_def sample_context_def

lemma sample_fields [simp]:
  "st_id flaky_stage = ''flaky''" "st_max_attempts flaky_stage = 3"
  "st_id (steady_stage i status) = i"
  by (simp_all add: flaky_stage_def steady_stage_def)

lemma sample_keeps_start [simp]: "keeps_start flaky_stage" "keeps_start (steady_stage i status)"
  by (simp_all add: keeps_start_def flaky_stage_def steady_stage_def)

lemma plain_executor_facts [simp]:
  "ex_policies plain_executor = [failure_policy True, retry_policy]"
  "hooks_quiet (ex_run plain_executor) (ex_hooks plain_executor)"
  by (simp_all add: plain_executor_def new_executor_def default_policies_def hooks_quiet_def hooks_of_def)

section \<open>Sequential execution\<close>

text \<open>
  C2. The sequential executor does what running a pipeline means: with the failure and retry
  policies (fail-fast or not) and hooks that do not raise, \<open>execute\<close> on a valid pipeline returns,
  its result is the one the specification gives (each stage retried on exceptions up to its
  attempts, in order, stopping at the first failed result when fail-fast), the world is the one
  the specification leaves, and the status in the processing context agrees with the result's.
\<close>

theorem sequential_refines_spec:
  assumes "ex_policies x = [failure_policy ff, retry_policy]"
    and "hooks_quiet (ex_run x) (ex_hooks x)" and "valid_pipeline p"
    and "\<forall>st \<in> set (fst (pipeline_iter p)). keeps_start st"
    and "spec_stages ff (fst (pipeline_iter p)) [] False (started_ctx (ex_clock x 0) c0) env0 =
      (fin, rs, c, env)"
  shows "\<exists>t. execute_sequential x p (new_run c0 ob env0) =
      Some (spec_result (cx_metadata (rt_ctx t)) fin rs, t) \<and> rs_env t = env \<and>
      (\<forall>r. spec_result (cx_metadata (rt_ctx t)) fin rs = Inr r \<longrightarrow>
         ctx_status (rt_ctx t) = Some (CVStatus (pr_status r)))"
proof -
  obtain sts where iter: "pipeline_iter p = (sts, None)"
    using assms(3) by (rule valid_pipeline_iter)
  have "wp (execute_sequential x p)
      (\<lambda>r t. spec_result (cx_metadata (rt_ctx t)) fin rs = Inr r \<and> rs_env t = env \<and> marked (pr_status r) t)
      (\<lambda>e t. spec_result (cx_metadata (rt_ctx t)) fin rs = Inl e \<and> rs_env t = env)
      (new_run c0 ob env0)"
    using assms iter
    by (intro wp_execute_sequential_spec [where ff = ff and sts = sts and c = c])
       (auto simp: standard_def new_run_def)
  then show ?thesis
    by (auto simp: wp_def marked_def split: option.splits prod.splits sum.splits)
qed

lemma sequential_refines_spec_witness:
  "\<exists>t. execute_sequential plain_executor
        (sample_pipeline [flaky_stage, steady_stage ''b'' FAILED, steady_stage ''c'' COMPLETED])
        (new_run sample_context () 0) =
      Some (spec_result (cx_metadata (rt_ctx t)) Stopped
        [sample_result ''flaky'' COMPLETED, sample_result ''b'' FAILED], t) \<and> rs_env t = 3"
proof -
  let ?p = "sample_pipeline [flaky_stage, steady_stage ''b'' FAILED, steady_stage ''c'' COMPLETED]"
  have iter: "pipeline_iter ?p = ([flaky_stage, steady_stage ''b'' FAILED, steady_stage ''c'' COMPLETED], None)"
    by (simp add: pipeline_iter_def sample_pipeline_def flatten_def)
  have valid: "valid_pipeline ?p"
    by (simp add: valid_pipeline_def pipeline_post_init_def sample_defs flatten_def)
  have spec: "spec_stages True (fst (pipeline_iter ?p)) [] False
      (started_ctx (ex_clock plain_executor 0) sample_context) 0 =
      (Stopped, [sample_result ''flaky'' COMPLETED, sample_result ''b'' FAILED],
       started_ctx (ex_clock plain_executor 0) sample_context, 3)"
    unfolding iter
    by (simp add: flaky_stage_def steady_stage_def sample_result_def budget_def or_one_def
        succeeded_def eval_nat_numeral)
  show ?thesis
    using sequential_refines_spec [OF _ _ valid _ spec, of "()"] iter by auto
qed

text \<open>
  C6. The sequential executor always returns, whatever the stages, the hooks and the pipeline do,
  when its policies are any composition of the built-in ones; and it calls the body of each stage
  of a valid pipeline at most \<open>max(1, max_attempts)\<close> times, and nothing else.
\<close>

theorem sequential_returns_within_attempts:
  assumes "set (ex_policies x) \<subseteq> builtin_policies" and "valid_pipeline p"
  shows "\<exists>r t. execute_sequential x p (new_run c ob env) = Some (r, t) \<and>
    (\<forall>st \<in> set (fst (pipeline_iter p)). calls (st_id st) t \<le> nat (max 1 (st_max_attempts st))) \<and>
    (\<forall>i. i \<notin> st_id ` set (fst (pipeline_iter p)) \<longrightarrow> calls i t = 0)"
proof -
  obtain sts where iter: "pipeline_iter p = (sts, None)" "distinct (map st_id sts)"
    using assms(2) by (rule valid_pipeline_iter)
  have outside: "i \<notin> st_id ` set sts \<Longrightarrow> allowed_calls sts i = 0" for i
    by (induction sts) (auto simp: allowed_calls_def)
  have inside: "st \<in> set sts \<Longrightarrow> allowed_calls sts (st_id st) = nat (max 1 (st_max_attempts st))" for st
    using allowed_calls_valid [OF iter(2)] by (simp add: allowed_def)
  obtain r t where run: "execute_sequential x p (new_run c ob env) = Some (r, t)"
    and bound: "\<And>i. calls i t \<le> allowed_calls sts i"
    using bounded_retry.wp_execute_calls [OF builtin_bounded_retry [OF assms(1)] refl, of p "new_run c ob env"]
    by (auto simp: wp_same iter calls_def new_run_def)
  show ?thesis
    using run by (simp add: iter) (metis bound inside outside le_zero_eq)
qed

lemma sequential_returns_within_attempts_witness:
  "\<exists>r t. execute_sequential plain_executor (sample_pipeline [flaky_stage]) (new_run sample_context () 0) =
      Some (r, t) \<and> calls ''flaky'' t \<le> 3"
proof -
  have iter: "pipeline_iter (sample_pipeline [flaky_stage]) = ([flaky_stage], None)"
    by (simp add: pipeline_iter_def sample_pipeline_def flatten_def)
  have valid: "valid_pipeline (sample_pipeline [flaky_stage])"
    by (simp add: valid_pipeline_def pipeline_post_init_def sample_defs flatten_def)
  have "set (ex_policies plain_executor) \<subseteq> builtin_policies"
    by (auto simp: builtin_policies_def)
  from sequential_returns_within_attempts [OF this valid, of sample_context "()" 0] show ?thesis
    by (auto simp: iter sample_fields)
qed

text \<open>
  C7. A pipeline reported as completed did all its work: every stage of it gave an answer, in
  order, and every answer is a success. This holds of any hooks, any stages, and any pipeline
  (also one that bypassed validation).
\<close>

theorem sequential_completed_sound:
  assumes "set (ex_policies x) \<subseteq> builtin_policies"
    and "execute_sequential x p s = Some (Inr r, t)" and "pr_status r = COMPLETED"
  shows "snd (pipeline_iter p) = None \<and>
    list_all2 answers (fst (pipeline_iter p)) (pl_stage_results r) \<and>
    successful_stages r = length (fst (pipeline_iter p)) \<and> \<not> has_failures r"
proof -
  have "snd (pipeline_iter p) = None \<and>
    list_all2 answers (fst (pipeline_iter p)) (pl_stage_results r) \<and>
    list_all succeeded (pl_stage_results r)"
    using wp_Inr [OF bounded_retry.wp_execute_completed [OF builtin_bounded_retry [OF assms(1)] refl] assms(2)]
      assms(3) by blast
  moreover from this have "\<not> has_failures r"
    by (auto simp: has_failures_iff list_all_iff failed_def)
  moreover from this have "failed_stages r = 0" by (simp add: has_failures_def)
  ultimately show ?thesis
    using stage_counts_partition [of r] by (auto simp: total_stages_def dest: list_all2_lengthD)
qed

lemmas run_steps = execute_sequential_def execute_with_def sequential_pipeline_def seq_stage_def
  seq_attempt_def seq_loop.simps bindA_def ret_def raise_def modify_def get_def try_except_def
  caught_def read_clock_def emit_defs emit_def evaluate_policies_def execute_stage_def
  hook_dispatch_def hooks_of_def close_pipeline_def record_duration_def execution_completed_def
  execution_failed_def execution_started_def Let_def pipeline_iter_def flatten_def new_run_def

lemma sequential_completed_sound_witness:
  "\<exists>r t. execute_sequential plain_executor (sample_pipeline [steady_stage ''a'' COMPLETED])
      (new_run sample_context () 0) = Some (Inr r, t) \<and> successful_stages r = 1 \<and> \<not> has_failures r"
proof -
  have policies: "set (ex_policies plain_executor) \<subseteq> builtin_policies"
    by (auto simp: builtin_policies_def)
  obtain r t where run: "execute_sequential plain_executor (sample_pipeline [steady_stage ''a'' COMPLETED])
      (new_run sample_context () 0) = Some (Inr r, t)" and "pr_status r = COMPLETED"
    by (simp add: run_steps sample_defs succeeded_def stage_finished_def base_result_def)
  with sequential_completed_sound [OF policies run] show ?thesis
    by (simp add: pipeline_iter_def sample_pipeline_def flatten_def)
qed

section \<open>Parallel execution\<close>

text \<open>
  C3. The interleaving of a parallel group does not matter. For independent stages, any schedule
  that gives every task its turns (two per allowed attempt and one to start) finishes the group,
  and every task ends with what the stage computes alone, retries included: its outcome (with the
  cancel flag of a failed result when fail-fast) and its part of the world. The parent's
  variables, context and results are untouched, and so is the rest of the world. A failing stage
  therefore never stops or changes a sibling.
\<close>

theorem parallel_group_schedule_independent:
  assumes "ex_policies x = [failure_policy ff, retry_policy]"
    and "hooks_quiet (ex_run x) (ex_hooks x)" and "distinct (map st_id sts)"
    and "\<forall>st \<in> set sts. independent st (F (st_id st))"
    and "\<forall>i < length sts. 2 * Suc (budget (sts ! i)) + 1 \<le> count_list sched i"
  shows "\<exists>t. gather x p sched (map Some sts) s =
      Some (Inr (map (\<lambda>st. outcome_of ff (fst (spec_attempts (budget st) st (rt_ctx s) (rs_env s)))) sts), t) \<and>
    (\<forall>st \<in> set sts. rs_env t (st_id st) =
       snd (snd (spec_attempts (budget st) st (rt_ctx s) (rs_env s))) (st_id st)) \<and>
    (\<forall>j. j \<notin> st_id ` set sts \<longrightarrow> rs_env t j = rs_env s j) \<and>
    rt_ctx t = rt_ctx s \<and> rt_vars t = rt_vars s \<and> rs_results t = rs_results s"
  using assms by (intro gather_independent [where F = F]) (simp_all add: standard_def)

text \<open>Two tasks for the witness: one raises twice before it succeeds, one fails at once.\<close>

definition count_body :: "string \<Rightarrow> nat \<Rightarrow> execution_status \<Rightarrow> nat \<Rightarrow> stage_result outcome \<times> nat" where
  "count_body i k status n =
     (if n < k then Inl (Exn ''TimeoutError'' ''slow'') else Inr (sample_result i status), Suc n)"

definition count_stage :: "string \<Rightarrow> nat \<Rightarrow> execution_status \<Rightarrow> (string \<Rightarrow> nat) stage" where
  "count_stage i k status =
     \<lparr> st_id = i, st_name = i, st_max_attempts = 3,
       st_execute = (\<lambda>c env. (fst (count_body i k status (env i)), c,
                              env(i := snd (count_body i k status (env i))))) \<rparr>"

definition quiet_executor :: "(unit, unit, string \<Rightarrow> nat) executor" where
  "quiet_executor = new_executor (\<lambda>_ _ ob. (None, ob)) int None"

lemma quiet_executor_facts [simp]:
  "ex_policies quiet_executor = [failure_policy True, retry_policy]"
  "hooks_quiet (ex_run quiet_executor) (ex_hooks quiet_executor)"
  by (simp_all add: quiet_executor_def new_executor_def default_policies_def hooks_quiet_def hooks_of_def)

definition count_pipeline :: "(string \<Rightarrow> nat) pipeline" where
  "count_pipeline = \<lparr> pp_id = ''p'', pp_name = ''P'',
     pp_stages = [Group [Some (count_stage ''a'' 2 COMPLETED), Some (count_stage ''b'' 0 FAILED)]] \<rparr>"

lemma parallel_group_schedule_independent_witness:
  "\<exists>t. gather quiet_executor count_pipeline [0, 1, 1, 1, 0, 0, 1, 0, 0, 0, 1, 0, 1, 1]
      (map Some [count_stage ''a'' 2 COMPLETED, count_stage ''b'' 0 FAILED])
      (new_run sample_context () (\<lambda>_. 0)) =
    Some (Inr [Inr (sample_result ''a'' COMPLETED, False), Inr (sample_result ''b'' FAILED, True)], t) \<and>
    rs_env t ''a'' = 3 \<and> rs_env t ''b'' = 1"
proof -
  let ?sts = "[count_stage ''a'' 2 COMPLETED, count_stage ''b'' 0 FAILED]"
  let ?s = "new_run sample_context () (\<lambda>_. 0) :: (unit, string \<Rightarrow> nat) run_state"
  let ?F = "\<lambda>i. if i = ''a'' then count_body ''a'' 2 COMPLETED else count_body ''b'' 0 FAILED"
  have dist: "distinct (map st_id ?sts)" by (simp add: count_stage_def)
  have ind: "\<forall>st \<in> set ?sts. independent st (?F (st_id st))"
    by (simp add: independent_def count_stage_def)
  have turns: "\<forall>i < length ?sts. 2 * Suc (budget (?sts ! i)) + 1 \<le>
      count_list [0, 1, 1, 1, 0, 0, 1, 0, 0, 0, 1, 0, 1, 1 :: nat] i"
    by (simp add: count_stage_def budget_def or_one_def All_less_Suc eval_nat_numeral)
  have eval: "spec_attempts (budget (count_stage ''a'' 2 COMPLETED)) (count_stage ''a'' 2 COMPLETED) c (\<lambda>_. 0) =
        (Inr (sample_result ''a'' COMPLETED), c, (\<lambda>_. 0)(''a'' := 3))"
      "spec_attempts (budget (count_stage ''b'' 0 FAILED)) (count_stage ''b'' 0 FAILED) c (\<lambda>_. 0) =
        (Inr (sample_result ''b'' FAILED), c, (\<lambda>_. 0)(''b'' := 1))" for c
    by (simp_all add: count_stage_def count_body_def budget_def or_one_def numeral_2_eq_2 numeral_3_eq_3)
  obtain t where t: "gather quiet_executor count_pipeline [0, 1, 1, 1, 0, 0, 1, 0, 0, 0, 1, 0, 1, 1] (map Some ?sts)
      ?s =
      Some (Inr (map (\<lambda>st. outcome_of True (fst (spec_attempts (budget st) st
        (rt_ctx ?s) (rs_env ?s)))) ?sts), t)"
    and env: "\<forall>st \<in> set ?sts. rs_env t (st_id st) = snd (snd (spec_attempts (budget st) st
        (rt_ctx ?s) (rs_env ?s))) (st_id st)"
    using parallel_group_schedule_independent [OF quiet_executor_facts dist ind turns, of count_pipeline
      ?s] by blast
  show ?thesis
    using t env
    by (simp add: eval new_run_def outcome_of_def failed_def succeeded_def)
       (simp add: count_stage_def sample_result_def)
qed

text \<open>
  C8. A completed parallel pipeline did all its work, under any schedule, any hooks and any
  policies: every stage of every group answered, in definition order, and every answer is a
  success.
\<close>

theorem parallel_completed_sound:
  assumes "execute_parallel x scheds p s = Some (Inr r, t)" and "pr_status r = COMPLETED"
  shows "list_all2 (\<lambda>st a. \<exists>st'. st = Some st' \<and> answers st' a) (flatten (pp_stages p)) (pl_stage_results r) \<and>
    \<not> has_failures r"
  using wlp_Inr [OF wlp_execute_parallel assms(1)] assms(2)
  by (auto simp: answers_opt_def [abs_def] has_failures_iff list_all_iff failed_def)

lemmas parallel_steps = execute_parallel_def parallel_pipeline_def par_group_def gather_def
  step_task_def task_step_def run_stage_start_def run_stage_body_def run_stage_handle_def
  new_task_def pipeline_groups_def py_last_def group_cancelled_def

lemma parallel_completed_sound_witness:
  "\<exists>r t. execute_parallel plain_executor [[0, 1, 1, 0, 1, 0]]
      \<lparr> pp_id = ''p'', pp_name = ''P'',
        pp_stages = [Group [Some (steady_stage ''a'' COMPLETED), Some (steady_stage ''b'' COMPLETED)]] \<rparr>
      (new_run sample_context () 0) = Some (Inr r, t) \<and> \<not> has_failures r"
proof -
  let ?p = "\<lparr> pp_id = ''p'', pp_name = ''P'',
    pp_stages = [Group [Some (steady_stage ''a'' COMPLETED), Some (steady_stage ''b'' COMPLETED)]] \<rparr>"
  obtain r t where run: "execute_parallel plain_executor [[0, 1, 1, 0, 1, 0]] ?p
      (new_run sample_context () 0) = Some (Inr r, t)" and "pr_status r = COMPLETED"
    by (simp add: parallel_steps run_steps sample_defs succeeded_def failed_def stage_finished_def
        stage_started_def set_max_attempts_def set_stage_result_def base_result_def)
  with parallel_completed_sound [OF run] show ?thesis by auto
qed

end
