(* ===== verification/Observer_Properties.thy ===== *)
theory Observer_Properties
  imports Observed Executor_Properties
begin

text \<open>
  What the logging, tracing and metrics hooks report of an execution, proved for both executors,
  any pipeline, any stages, any policies and any schedule through the \<open>observed\<close> interface.
\<close>

section \<open>The executor with the three hooks\<close>

lemma hooks_of_observed [simp]:
  "hooks_of (ex_hooks (observed_executor clk clock policies)) ty = [Logging, Tracing, Metrics]"
  by (simp add: observed_executor_def ex_register_hooks_def new_executor_def)
     (simp add: hooks_of_def)

lemma ex_run_observed [simp]: "ex_run (observed_executor clk clock policies) = observe clk"
  by (simp add: observed_executor_def ex_register_hooks_def new_executor_def)

lemma dispatch_observed [simp]:
  "hook_dispatch (observe clk) (ex_hooks (observed_executor clk clock policies)) c ob =
     (None, \<lparr> ob_logging = logging_hook clk c (ob_logging ob),
              ob_tracing = tracing_hook clk c (ob_tracing ob),
              ob_metrics = metrics_hook c (ob_metrics ob) \<rparr>)"
  by (cases ob) (simp add: hook_dispatch_def observe_def)

lemma observed_quiet [simp]:
  "hooks_quiet (observe clk) (ex_hooks (observed_executor clk clock policies))"
  by (simp add: hooks_quiet_def observe_def)

section \<open>The log\<close>

text \<open>The level and the message an event is logged with.\<close>

fun log_line :: "hook_type \<Rightarrow> log_level \<times> string" where
  "log_line BEFORE_PIPELINE = (LINFO, ''Pipeline started.'')"
| "log_line AFTER_PIPELINE = (LINFO, ''Pipeline finished.'')"
| "log_line PIPELINE_FAILED = (LERROR, ''Pipeline failed.'')"
| "log_line BEFORE_STAGE = (LDEBUG, ''Stage started.'')"
| "log_line AFTER_STAGE = (LDEBUG, ''Stage finished.'')"
| "log_line STAGE_FAILED = (LERROR, ''Stage failed.'')"

fun log_lines :: "exec_event list \<Rightarrow> ((log_level \<times> string) \<times> string option) list" where
  "log_lines [] = []"
| "log_lines (Called i # evs) = log_lines evs"
| "log_lines (Emitted ty i # evs) = (log_line ty, i) # log_lines evs"

lemma log_lines_append [simp]: "log_lines (evs @ evs') = log_lines evs @ log_lines evs'"
  by (induction evs rule: log_lines.induct) auto

definition logged_as :: "log_entry \<Rightarrow> (log_level \<times> string) \<times> string option" where
  "logged_as e = ((le_level e, le_message e), le_stage_id e)"

definition log_matches :: "observations \<Rightarrow> exec_event list \<Rightarrow> bool" where
  "log_matches ob evs \<longleftrightarrow> map logged_as (lg_entries (ob_logging ob)) = log_lines evs"

lemma logging_hook_entries:
  assumes "sendable c"
  shows "map logged_as (lg_entries (logging_hook clk c lg)) =
    map logged_as (lg_entries lg) @ [(log_line (hc_type c), map_option st_id (hc_stage c))]"
  using assms
  by (cases "hc_type c"; cases "hc_stage c")
     (auto simp: sendable_def logging_hook_def log_stage_def log_event_def new_log_entry_def logged_as_def)

interpretation logging: observed "observed_executor clk clock policies" log_matches
  for clk clock :: "nat \<Rightarrow> int" and policies :: "'e policy list option"
  by unfold_locales (simp_all add: log_matches_def logging_hook_entries)

section \<open>Outcomes\<close>

definition outcomes_completed :: "observations \<Rightarrow> exec_event list \<Rightarrow> bool" where
  "outcomes_completed ob evs \<longleftrightarrow>
     (\<forall>tr \<in> set (tg_recorded (ob_tracing ob)). tc_status tr = COMPLETED) \<and>
     (\<forall>name label d. Pipeline_duration name label d \<in> set (mx_samples (ob_metrics ob)) \<longrightarrow>
        label = ''completed'')"

lemma completed_label [simp]: "status_label COMPLETED = ''completed''"
  by code_simp

lemma tracing_hook_recorded:
  "sendable c \<Longrightarrow> set (tg_recorded (tracing_hook clk c tg)) \<subseteq>
     set (tg_recorded tg) \<union> {tr. tc_status tr = COMPLETED}"
  by (cases "hc_type c")
     (auto simp: tracing_hook_def trace_before_pipeline_def trace_before_stage_def trace_after_stage_def
        trace_stage_failed_def trace_pipeline_failed_def trace_after_pipeline_def close_span_def Let_def
        sendable_def split: option.splits prod.splits)

lemma metrics_hook_durations:
  "sendable c \<Longrightarrow> Pipeline_duration name label d \<in> set (mx_samples (metrics_hook c mx)) \<Longrightarrow>
     Pipeline_duration name label d \<in> set (mx_samples mx) \<or> label = ''completed''"
  by (cases "hc_type c")
     (auto simp: metrics_hook_def on_before_pipeline_def on_before_stage_def on_after_stage_def
        on_after_pipeline_def event_status_def sendable_def split: option.splits prod.splits)

interpretation outcomes: observed "observed_executor clk clock policies" outcomes_completed
  for clk clock :: "nat \<Rightarrow> int" and policies :: "'e policy list option"
proof unfold_locales
  fix c :: "'e hook_context" and ob evs
  assume c: "sendable c" and inv: "outcomes_completed ob evs"
  show "outcomes_completed (snd (hook_dispatch (ex_run (observed_executor clk clock policies))
      (ex_hooks (observed_executor clk clock policies)) c ob))
    (evs @ [Emitted (hc_type c) (map_option st_id (hc_stage c))])"
    using inv tracing_hook_recorded [OF c] metrics_hook_durations [OF c]
    unfolding outcomes_completed_def by fastforce
qed (simp add: outcomes_completed_def)

section \<open>Spans\<close>

text \<open>
  With a clock that does not go back: a recorded trace has an end after its start, its duration
  is their difference, and the same holds of its spans, which lie within it.
\<close>

definition span_within :: "int \<Rightarrow> int \<Rightarrow> trace_span \<Rightarrow> bool" where
  "span_within lo hi sp \<longleftrightarrow>
     (\<exists>f. sp_finished_at sp = Some f \<and> lo \<le> sp_started_at sp \<and> sp_started_at sp \<le> f \<and> f \<le> hi \<and>
        sp_duration sp = Some (f - sp_started_at sp))"

definition trace_nested :: "trace \<Rightarrow> bool" where
  "trace_nested tr \<longleftrightarrow>
     (\<exists>f. tc_finished_at tr = Some f \<and> tc_started_at tr \<le> f \<and>
        tc_duration tr = Some (f - tc_started_at tr) \<and>
        (\<forall>sp \<in> set (tc_spans tr). span_within (tc_started_at tr) f sp))"

definition dict_values :: "('k, 'v) dict \<Rightarrow> 'v set" where
  "dict_values d = snd ` set d"

definition tracing_inv :: "(nat \<Rightarrow> int) \<Rightarrow> tracing \<Rightarrow> bool" where
  "tracing_inv clk tg \<longleftrightarrow>
     (\<forall>tr \<in> set (tg_recorded tg). trace_nested tr) \<and>
     (\<forall>tr. tg_trace tg = Some tr \<longrightarrow> tc_started_at tr \<le> clk (tg_ticks tg) \<and>
        (\<forall>sp \<in> set (tg_completed tg). span_within (tc_started_at tr) (clk (tg_ticks tg)) sp) \<and>
        (\<forall>sp \<in> dict_values (tg_active tg). tc_started_at tr \<le> sp_started_at sp)) \<and>
     (\<forall>sp \<in> dict_values (tg_active tg). sp_started_at sp \<le> clk (tg_ticks tg))"

lemma span_within_closed [simp]:
  "span_within lo hi \<lparr> sp_stage_id = i, sp_stage_name = n, sp_status = status, sp_started_at = a,
     sp_finished_at = Some f, sp_duration = Some (f - a), sp_exception = e, sp_attributes = at \<rparr> \<longleftrightarrow>
   lo \<le> a \<and> a \<le> f \<and> f \<le> hi"
  by (auto simp: span_within_def)

lemma span_within_mono: "span_within lo hi sp \<Longrightarrow> hi \<le> hi' \<Longrightarrow> span_within lo hi' sp"
  by (auto simp: span_within_def)

lemma dict_values_nil [simp]: "dict_values [] = {}"
  by (simp add: dict_values_def)

lemma dict_values_update: "v' \<in> dict_values (AList.update k v d) \<Longrightarrow> v' = v \<or> v' \<in> dict_values d"
  unfolding dict_values_def by (induction d) (auto split: if_splits)

lemma dict_values_delete: "v \<in> dict_values (AList.delete k d) \<Longrightarrow> v \<in> dict_values d"
  by (auto simp: dict_values_def AList.delete_eq)

lemma dict_values_lookup: "map_of d k = Some v \<Longrightarrow> v \<in> dict_values d"
  by (force simp: dict_values_def dest: map_of_SomeD)

text \<open>Reading the clock once, from any state the invariant holds in.\<close>

lemma tracing_hook_inv:
  assumes mono: "mono clk" and inv: "tracing_inv clk tg"
  shows "tracing_inv clk (tracing_hook clk c tg)"
proof -
  have le: "clk (tg_ticks tg) \<le> clk (Suc (tg_ticks tg))"
    using mono by (simp add: monoD)
  note wider = span_within_mono [OF _ le]
  have later: "a \<le> clk (tg_ticks tg) \<Longrightarrow> a \<le> clk (Suc (tg_ticks tg))" for a
    using le by simp
  have close: "tracing_inv clk (close_span clk status exc c tg)" for status exc
  proof (cases "hc_stage c")
    case (Some st)
    show ?thesis
    proof (cases "map_of (tg_active tg) (st_id st)")
      case None
      then show ?thesis
        using inv by (auto simp: Some close_span_def dict_pop_def tracing_inv_def dest: dict_values_delete)
    next
      case span: (Some sp)
      have sp: "sp_started_at sp \<le> clk (tg_ticks tg)"
          "\<And>tr. tg_trace tg = Some tr \<Longrightarrow> tc_started_at tr \<le> sp_started_at sp"
        using inv dict_values_lookup [OF span] by (auto simp: tracing_inv_def)
      show ?thesis
        using inv sp le
        by (auto simp: Some span close_span_def dict_pop_def tracing_inv_def Let_def new_span_def
            intro: wider later dest: dict_values_delete)
    qed
  qed (simp add: close_span_def inv)
  have finish: "tracing_inv clk (trace_after_pipeline clk c tg)"
    using inv le
    by (auto simp: trace_after_pipeline_def tracing_inv_def Let_def trace_nested_def split: option.split)
  have start: "tracing_inv clk (trace_before_pipeline clk c tg)"
    using inv le by (auto simp: trace_before_pipeline_def tracing_inv_def)
  have begin_stage: "tracing_inv clk (trace_before_stage clk c tg)"
    using inv le
    by (auto simp: trace_before_stage_def tracing_inv_def new_span_def split: option.split
        intro: wider later dest!: dict_values_update)
  show ?thesis
    by (cases "hc_type c")
       (simp_all add: tracing_hook_def trace_after_stage_def trace_stage_failed_def trace_pipeline_failed_def
          close finish start begin_stage)
qed

definition traces_nested :: "(nat \<Rightarrow> int) \<Rightarrow> observations \<Rightarrow> exec_event list \<Rightarrow> bool" where
  "traces_nested clk ob evs \<longleftrightarrow> (mono clk \<longrightarrow> tracing_inv clk (ob_tracing ob))"

interpretation spans: observed "observed_executor clk clock policies" "traces_nested clk"
  for clk clock :: "nat \<Rightarrow> int" and policies :: "'e policy list option"
  by unfold_locales (simp_all add: traces_nested_def tracing_hook_inv)

section \<open>Stages counted\<close>

text \<open>Every span and every counted execution goes back to a stage start of its own.\<close>

definition stage_starts :: "exec_event list \<Rightarrow> nat" where
  "stage_starts evs = length (filter (\<lambda>ev. case ev of Emitted BEFORE_STAGE _ \<Rightarrow> True | _ \<Rightarrow> False) evs)"

fun is_execution :: "sample \<Rightarrow> bool" where
  "is_execution (Stage_executed p st label) = True"
| "is_execution _ = False"

definition executions :: "metrics \<Rightarrow> nat" where
  "executions mx = length (filter is_execution (mx_samples mx))"

definition spans_seen :: "tracing \<Rightarrow> nat" where
  "spans_seen tg = sum_list (map (length \<circ> tc_spans) (tg_recorded tg)) + length (tg_completed tg)"

definition starts_counted :: "observations \<Rightarrow> exec_event list \<Rightarrow> bool" where
  "starts_counted ob evs \<longleftrightarrow>
     executions (ob_metrics ob) + length (mx_stage_started (ob_metrics ob)) \<le> stage_starts evs \<and>
     spans_seen (ob_tracing ob) + length (tg_active (ob_tracing ob)) \<le> stage_starts evs"

lemma length_update_le: "length (AList.update k v d) \<le> Suc (length d)"
  by (induction d) auto

lemma length_delete_le: "length (AList.delete k d) \<le> length d"
  by (simp add: AList.delete_eq)

lemma length_delete_less: "map_of d k = Some v \<Longrightarrow> Suc (length (AList.delete k d)) \<le> length d"
proof (induction d)
  case (Cons kv d)
  then show ?case
    using length_delete_le [of k d] by (cases kv) (auto split: if_splits)
qed simp

lemma stage_starts_sent [simp]:
  "stage_starts (evs @ [Emitted ty i]) = stage_starts evs + (if ty = BEFORE_STAGE then 1 else 0)"
  "stage_starts (evs @ [Called j]) = stage_starts evs"
  by (auto simp: stage_starts_def split: hook_type.split)

lemma metrics_hook_count:
  "executions (metrics_hook c mx) + length (mx_stage_started (metrics_hook c mx)) \<le>
     executions mx + length (mx_stage_started mx) + (if hc_type c = BEFORE_STAGE then 1 else 0)"
  by (cases "hc_type c")
     (auto simp: metrics_hook_def on_before_pipeline_def on_before_stage_def on_after_stage_def
        on_after_pipeline_def executions_def dict_pop_def length_update_le length_delete_le
        dest: length_delete_less split: option.split)

lemma tracing_hook_count:
  "spans_seen (tracing_hook clk c tg) + length (tg_active (tracing_hook clk c tg)) \<le>
     spans_seen tg + length (tg_active tg) + (if hc_type c = BEFORE_STAGE then 1 else 0)"
  by (cases "hc_type c")
     (auto simp: tracing_hook_def trace_before_pipeline_def trace_before_stage_def trace_after_stage_def
        trace_stage_failed_def trace_pipeline_failed_def trace_after_pipeline_def close_span_def Let_def
        spans_seen_def dict_pop_def length_update_le length_delete_le
        dest: length_delete_less split: option.split)

interpretation starts: observed "observed_executor clk clock policies" starts_counted
  for clk clock :: "nat \<Rightarrow> int" and policies :: "'e policy list option"
proof unfold_locales
  fix c :: "'e hook_context" and ob evs
  assume inv: "starts_counted ob evs"
  show "starts_counted (snd (hook_dispatch (ex_run (observed_executor clk clock policies))
      (ex_hooks (observed_executor clk clock policies)) c ob))
    (evs @ [Emitted (hc_type c) (map_option st_id (hc_stage c))])"
    using inv metrics_hook_count [of c "ob_metrics ob"] tracing_hook_count [of clk c "ob_tracing ob"]
    by (simp add: starts_counted_def)
qed (simp add: starts_counted_def)

section \<open>Properties\<close>

definition observed_run :: "processing_context \<Rightarrow> 'e \<Rightarrow> (observations, 'e) run_state" where
  "observed_run c env = new_run c nothing_observed env"

lemma observed_run_start [simp]:
  "log_matches (rs_obs (observed_run c env)) (rs_trace (observed_run c env))"
  "outcomes_completed (rs_obs (observed_run c env)) (rs_trace (observed_run c env))"
  "traces_nested clk (rs_obs (observed_run c env)) (rs_trace (observed_run c env))"
  "starts_counted (rs_obs (observed_run c env)) (rs_trace (observed_run c env))"
  by (simp_all add: observed_run_def new_run_def nothing_observed_def log_matches_def outcomes_completed_def
      traces_nested_def tracing_inv_def starts_counted_def new_tracing_def new_metrics_def executions_def
      spans_seen_def stage_starts_def)

text \<open>The run of the witnesses: one stage raises, one answers with a failure.\<close>

definition failing_pipeline :: "nat pipeline" where
  "failing_pipeline = sample_pipeline [flaky_stage, steady_stage ''b'' FAILED]"

definition watched :: "(observer, observations, nat) executor" where
  "watched = observed_executor int int None"

lemma watched_facts [simp]:
  "ex_policies watched = [failure_policy True, retry_policy]"
  "hooks_quiet (ex_run watched) (ex_hooks watched)"
  by (simp_all add: watched_def)
     (simp add: observed_executor_def ex_register_hooks_def new_executor_def default_policies_def)

lemma failing_run:
  "\<exists>r t. executes watched failing_pipeline (observed_run sample_context 0) (Inr r) t \<and> pr_status r = FAILED"
proof -
  let ?p = failing_pipeline
  have iter: "pipeline_iter ?p = ([flaky_stage, steady_stage ''b'' FAILED], None)"
    by (simp add: pipeline_iter_def failing_pipeline_def sample_pipeline_def flatten_def)
  have valid: "valid_pipeline ?p"
    by (simp add: valid_pipeline_def pipeline_post_init_def failing_pipeline_def sample_defs flatten_def)
  have spec: "spec_stages True (fst (pipeline_iter ?p)) [] False (started_ctx (ex_clock watched 0) sample_context) 0 =
      (Stopped, [sample_result ''flaky'' COMPLETED, sample_result ''b'' FAILED],
       started_ctx (ex_clock watched 0) sample_context, 3)"
    unfolding iter
    by (simp add: flaky_stage_def steady_stage_def sample_result_def budget_def or_one_def
        succeeded_def eval_nat_numeral)
  have keeps: "\<forall>st \<in> set (fst (pipeline_iter ?p)). keeps_start st" by (simp add: iter)
  have "wp (execute_sequential watched ?p)
      (\<lambda>r t. spec_result (cx_metadata (rt_ctx t)) Stopped
          [sample_result ''flaky'' COMPLETED, sample_result ''b'' FAILED] = Inr r \<and>
        rs_env t = 3 \<and> marked (pr_status r) t)
      (\<lambda>e t. spec_result (cx_metadata (rt_ctx t)) Stopped
          [sample_result ''flaky'' COMPLETED, sample_result ''b'' FAILED] = Inl e \<and> rs_env t = 3)
      (observed_run sample_context 0)"
    using valid keeps spec iter
    by (intro wp_execute_sequential_spec [where ff = True and sts = "fst (pipeline_iter ?p)" and
          c = "started_ctx (ex_clock watched 0) sample_context"])
       (auto simp: standard_def new_run_def observed_run_def)
  then show ?thesis
    by (auto simp: wp_def executes_def split: option.splits prod.splits sum.splits)
qed

text \<open>
  C19. The log is the sequence of lifecycle events. After any execution by either executor, whatever
  the stages, the policies, the clocks and the schedule, the log entries are the events that were
  emitted, one for one and in order, each with its level, its message and its stage.
\<close>

theorem log_is_event_sequence:
  assumes "executes (observed_executor clk clock policies) p (observed_run c env) r t"
  shows "map logged_as (lg_entries (ob_logging (rs_obs t))) = log_lines (rs_trace t)"
  using logging.after_execution [OF assms observed_run_start(1)] by (simp add: log_matches_def)

lemma log_is_event_sequence_witness:
  "\<exists>r t. executes watched failing_pipeline (observed_run sample_context 0) r t \<and>
     map logged_as (lg_entries (ob_logging (rs_obs t))) = log_lines (rs_trace t)"
proof -
  obtain r t where "executes watched failing_pipeline (observed_run sample_context 0) (Inr r) t"
    and "pr_status r = FAILED"
    using failing_run by blast
  then show ?thesis
    using log_is_event_sequence [of int int None failing_pipeline sample_context 0 "Inr r" t] unfolding watched_def by blast
qed

text \<open>
  C20. The outcome of a pipeline never reaches the tracer or the metrics: the executors send
  \<open>AFTER_PIPELINE\<close> and \<open>PIPELINE_FAILED\<close> without a result, so every trace recorded by any
  execution has the status \<open>COMPLETED\<close> and every pipeline duration the label \<open>completed\<close>, also
  when the pipeline failed.
\<close>

theorem failed_runs_reported_completed:
  assumes "executes (observed_executor clk clock policies) p (observed_run c env) r t"
  shows "(\<forall>tr \<in> set (tg_recorded (ob_tracing (rs_obs t))). tc_status tr = COMPLETED) \<and>
    (\<forall>name label d. Pipeline_duration name label d \<in> set (mx_samples (ob_metrics (rs_obs t))) \<longrightarrow>
       label = ''completed'')"
  using outcomes.after_execution [OF assms observed_run_start(2)] by (simp add: outcomes_completed_def)

lemma failed_runs_reported_completed_witness:
  "\<exists>r t. executes watched failing_pipeline (observed_run sample_context 0) (Inr r) t \<and> pr_status r = FAILED \<and>
     (\<forall>tr \<in> set (tg_recorded (ob_tracing (rs_obs t))). tc_status tr = COMPLETED)"
proof -
  obtain r t where "executes watched failing_pipeline (observed_run sample_context 0) (Inr r) t"
    and "pr_status r = FAILED"
    using failing_run by blast
  then show ?thesis
    using failed_runs_reported_completed [of int int None failing_pipeline sample_context 0 "Inr r" t] unfolding watched_def by blast
qed

text \<open>
  C21. Traces are well formed. With a clock of the tracing hook that does not go back, every trace
  recorded by any execution ends after it starts, its duration is the difference, and so it is for
  each of its spans, which lie within the trace.
\<close>

theorem recorded_traces_nested:
  assumes "executes (observed_executor clk clock policies) p (observed_run c env) r t" and "mono clk"
  shows "\<forall>tr \<in> set (tg_recorded (ob_tracing (rs_obs t))). trace_nested tr"
  using spans.after_execution [OF assms(1) observed_run_start(3)] assms(2) by (simp add: traces_nested_def tracing_inv_def)

lemma recorded_traces_nested_witness:
  "\<exists>r t. executes watched failing_pipeline (observed_run sample_context 0) r t \<and>
     (\<forall>tr \<in> set (tg_recorded (ob_tracing (rs_obs t))). trace_nested tr)"
proof -
  have mono: "mono int" by (simp add: mono_def)
  obtain r t where "executes watched failing_pipeline (observed_run sample_context 0) (Inr r) t"
    using failing_run by blast
  then show ?thesis
    using recorded_traces_nested [of int int None failing_pipeline sample_context 0 "Inr r" t] mono
    unfolding watched_def by blast
qed

text \<open>
  A stage is counted at most once per start: after any execution, the executions the metrics hook
  counted and the spans the tracing hook closed are each at most the \<open>BEFORE_STAGE\<close> events
  emitted, however often the stages were retried.
\<close>

lemma executions_counted_once:
  assumes "executes (observed_executor clk clock policies) p (observed_run c env) r t"
  shows "executions (ob_metrics (rs_obs t)) \<le> stage_starts (rs_trace t) \<and>
    spans_seen (ob_tracing (rs_obs t)) \<le> stage_starts (rs_trace t)"
  using starts.after_execution [OF assms observed_run_start(4)] by (simp add: starts_counted_def)

text \<open>
  C22. A stage that raises and then succeeds is reported by its failure alone. The executor keeps
  the successful answer, but the tracing hook closes one span, with the status \<open>FAILED\<close>, and the
  metrics hook counts one execution, of the attempt that raised, labelled \<open>completed\<close>: the success
  leaves no span, no duration and no count.
\<close>

theorem retried_stage_misreported:
  fixes st :: "'e stage"
  assumes "st_execute st (rt_ctx s) (rs_env s) = (Inl (Exn cls msg), c1, env1)"
    and "st_execute st c1 env1 = (Inr r, c2, env2)" and "succeeded r" and "2 \<le> st_max_attempts st"
  shows "\<exists>t. seq_stage (observed_executor clk clock (Some [failure_policy ff, retry_policy])) p st s =
      Some (Inr (Next False), t) \<and> rs_results t = rs_results s @ [r] \<and>
    (\<exists>sp. tg_completed (ob_tracing (rs_obs t)) = tg_completed (ob_tracing (rs_obs s)) @ [sp] \<and>
       sp_stage_id sp = st_id st \<and> sp_status sp = FAILED \<and> sp_exception sp = Some msg) \<and>
    (\<exists>d. mx_samples (ob_metrics (rs_obs t)) = mx_samples (ob_metrics (rs_obs s)) @
       [Stage_duration (pp_name p) (st_name st) ''completed'' d,
        Stage_executed (pp_name p) (st_name st) ''completed''])"
proof -
  let ?x = "observed_executor clk clock (Some [failure_policy ff, retry_policy]) ::
    (observer, observations, 'e) executor"
  have policies: "ex_policies ?x = [failure_policy ff, retry_policy]"
    by (simp add: observed_executor_def ex_register_hooks_def new_executor_def)
  have retry: "\<exists>q. manager_evaluate (ex_policies ?x) (build_policy_context c1 p PE_STAGE_FAILED (Some st)
      (set_stage_failed e (set_max_attempts (st_max_attempts st) (stage_started i v))) now) = Inr q \<and> po_retry q"
    for e i v now
    using default_manager_exception [of "build_policy_context c1 p PE_STAGE_FAILED (Some st)
        (set_stage_failed e (set_max_attempts (st_max_attempts st) (stage_started i v))) now" e ff] assms(4)
    by (auto simp: policies build_policy_context_def pc_exception_def pc_current_attempt_def
        pc_max_attempts_def stage_ops current_stage_exception_def current_attempt_def
        current_max_attempts_def or_one_def)
  note hooks = tracing_hook_def trace_before_stage_def trace_stage_failed_def trace_after_stage_def
    close_span_def dict_pop_def dict_simps Let_def new_span_def metrics_hook_def on_before_stage_def
    on_after_stage_def event_status_def
  have "wp (seq_stage ?x p st) (\<lambda>l t. l = Next False \<and> rs_results t = rs_results s @ [r] \<and>
    (\<exists>sp. tg_completed (ob_tracing (rs_obs t)) = tg_completed (ob_tracing (rs_obs s)) @ [sp] \<and>
       sp_stage_id sp = st_id st \<and> sp_status sp = FAILED \<and> sp_exception sp = Some msg) \<and>
    (\<exists>d. mx_samples (ob_metrics (rs_obs t)) = mx_samples (ob_metrics (rs_obs s)) @
       [Stage_duration (pp_name p) (st_name st) ''completed'' d,
        Stage_executed (pp_name p) (st_name st) ''completed''])) (\<lambda>_ _. False) s"
  proof -
    obtain q where q: "manager_evaluate (ex_policies ?x) (build_policy_context c1 p PE_STAGE_FAILED (Some st)
        (set_stage_failed (Exn cls msg) (set_max_attempts (st_max_attempts st) (stage_started (st_id st) (rt_vars s))))
        (ex_clock ?x (Suc (Suc (rs_ticks s))))) = Inr q" "po_retry q"
      using retry by blast
    show ?thesis
      using assms q
      by (simp add: seq_stage_def emit_defs wp_emit Let_def wp_seq_loop [of ?x p st 1] seq_attempt_def
          wp_execute_stage wp_evaluate_policies)
         (simp add: wp_seq_loop [of ?x p st 2] seq_attempt_def emit_defs wp_emit Let_def
          wp_execute_stage hooks)
  qed
  then show ?thesis
    by (auto simp: wp_def split: option.splits prod.splits sum.splits)
qed

lemma retried_stage_misreported_witness:
  "\<exists>t. seq_stage (observed_executor int int (Some [failure_policy True, retry_policy]))
      (sample_pipeline [flaky_stage]) flaky_stage (observed_run sample_context 0) = Some (Inr (Next False), t) \<and>
    rs_results t = [sample_result ''flaky'' COMPLETED] \<and>
    map sp_status (tg_completed (ob_tracing (rs_obs t))) = [FAILED]"
proof -
  let ?s = "observed_run sample_context (0 :: nat)"
  have s: "rs_results ?s = []" "tg_completed (ob_tracing (rs_obs ?s)) = []"
    by (simp_all add: observed_run_def new_run_def nothing_observed_def new_tracing_def)
  have "st_execute flaky_stage (rt_ctx ?s) (rs_env ?s) =
        (Inl (Exn ''TimeoutError'' ''slow''), rt_ctx ?s, 1)"
      "st_execute flaky_stage (rt_ctx ?s) 1 = (Inr (sample_result ''flaky'' COMPLETED), rt_ctx ?s, 2)"
    by (simp_all add: flaky_stage_def observed_run_def new_run_def)
  from retried_stage_misreported [OF this, of int int True "sample_pipeline [flaky_stage]"]
  obtain t sp where "seq_stage (observed_executor int int (Some [failure_policy True, retry_policy]))
      (sample_pipeline [flaky_stage]) flaky_stage ?s = Some (Inr (Next False), t)"
    and "rs_results t = [sample_result ''flaky'' COMPLETED]"
    and "tg_completed (ob_tracing (rs_obs t)) = [sp]" and "sp_status sp = FAILED"
    by (auto simp: s succeeded_def sample_result_def)
  then show ?thesis by auto
qed

end
