(* ===== verification/Job_Properties.thy ===== *)
theory Job_Properties
  imports Jobs Registration Observer_Properties
begin

text \<open>
  The properties of the programs that run pipelines: what the registration script does to the
  catalog, through the executor, its retries and its hooks.
\<close>

section \<open>How a catalog only_grows\<close>

text \<open>Nothing that is there changes; what is added satisfies \<open>P\<close>.\<close>

definition only_grows :: "'w glue_view \<Rightarrow> (string \<Rightarrow> string \<Rightarrow> glue_table \<Rightarrow> bool) \<Rightarrow> 'w \<Rightarrow> 'w \<Rightarrow> bool" where
  "only_grows V P w w' \<longleftrightarrow> gv_databases V w' = gv_databases V w \<and>
     (\<forall>db n. gv_tables V w' db n = gv_tables V w db n \<or>
        gv_tables V w db n = None \<and> (\<exists>s. gv_tables V w' db n = Some s \<and> P db n s))"

lemma growth_same: "same_catalog V w w' \<Longrightarrow> only_grows V P w w'"
  by (simp add: only_grows_def same_catalog_def)

lemma growth_trans: "only_grows V P w w' \<Longrightarrow> only_grows V P w' w'' \<Longrightarrow> only_grows V P w w''"
  unfolding only_grows_def by (metis option.distinct(1))

lemma growth_mono: "only_grows V P w w' \<Longrightarrow> (\<And>db n s. P db n s \<Longrightarrow> P' db n s) \<Longrightarrow> only_grows V P' w w'"
  unfolding only_grows_def by blast

lemma growth_present: "only_grows V P w w' \<Longrightarrow> gv_tables V w db n \<noteq> None \<Longrightarrow> gv_tables V w' db n \<noteq> None"
  unfolding only_grows_def by metis

text \<open>A table of the stage: that of a schema it read, as the request gave it.\<close>

definition table_of_stage ::
  "'w delta_env \<Rightarrow> ('b, 'w) silver_stage \<Rightarrow> string \<Rightarrow> string \<Rightarrow> glue_table \<Rightarrow> bool" where
  "table_of_stage v st db n s \<longleftrightarrow> db = ss_database st \<and> n = ss_entity st \<and>
     (\<exists>t. silver_table v st t \<and> stored_as (table_input t) s)"

lemma silver_table_database: "silver_table v st t \<Longrightarrow> ct_database t = ss_database st"
  by (auto simp: silver_table_def table_of_schema_def bindE_eq_Inr_iff)

lemma created_grows:
  assumes "silver_table v st t" and "created V t w w'"
  shows "only_grows V (table_of_stage v st) w w'"
  using assms silver_table_name [OF assms(1)] silver_table_database [OF assms(1)]
  unfolding only_grows_def created_def only_table_def table_of_stage_def by (metis prod.inject)

lemma in_catalog_present: "in_catalog V t w w' \<Longrightarrow> gv_tables V w' (ct_database t) (ct_name t) \<noteq> None"
  by (auto simp: in_catalog_def created_def same_catalog_def)

section \<open>One registration\<close>

text \<open>What the script relies on: the service, its errors, and the two providers.\<close>

definition registers_with ::
  "'w glue_api \<Rightarrow> 'w glue_view \<Rightarrow> 'w delta_env \<Rightarrow> 'w provider \<Rightarrow> ('b, 'w) silver_stage \<Rightarrow> bool" where
  "registers_with api V v storage st \<longleftrightarrow>
     glue_laws api V \<and> own_errors api \<and> lower (ss_entity st) = ss_entity st \<and>
     (\<exists>f. sb_factory st = Some f \<and> resolves V f (ss_storage_provider st) storage \<and>
        resolves V f (ss_catalog_provider st) (glue_provider api)) \<and> catalog_apart V v storage"

definition after_body ::
  "'w glue_view \<Rightarrow> 'w delta_env \<Rightarrow> ('b, 'w) silver_stage \<Rightarrow> stage_result outcome \<Rightarrow> processing_context \<Rightarrow> 'w \<Rightarrow>
     processing_context \<Rightarrow> 'w \<Rightarrow> bool" where
  "after_body V v st r c w c' w' \<longleftrightarrow> only_grows V (table_of_stage v st) w w' \<and> (start_ok c \<longrightarrow> start_ok c') \<and>
     (\<forall>res. r = Inr res \<longrightarrow> pr_status res \<in> {COMPLETED, FAILED} \<and>
        (pr_status res = COMPLETED \<longrightarrow> gv_tables V w' (ss_database st) (ss_entity st) \<noteq> None))"

lemma write_table_start: "start_ok c \<Longrightarrow> start_ok (write_table t c)"
  by (simp add: write_table_def publish_def)

lemma body_after:
  assumes "registers_with api V v storage st" and "body_of (silver_registration v st) c w = (r, c', w')"
  shows "after_body V v st r c w c' w'"
proof -
  let ?s = "\<lparr> sw_ctx = c, sw_world = w \<rparr>"
  have run: "wlp (silver_registration v st) (registered_by V v st ?s) (\<lambda>_. stopped_at V v st ?s) ?s"
    using assms(1) by (auto simp: registers_with_def intro: silver_registration_wlp)
  show ?thesis
  proof (cases "silver_registration v st ?s")
    case None
    with assms(2) show ?thesis
      by (auto simp: body_of_def after_body_def growth_same)
  next
    case (Some rs)
    then obtain s' where s': "silver_registration v st ?s = Some (r, s')" "c' = sw_ctx s'" "w' = sw_world s'"
      using assms(2) by (cases rs) (auto simp: body_of_def)
    show ?thesis
    proof (cases r)
      case (Inl e)
      with wlp_Inl [OF run] s' show ?thesis
        by (auto simp: after_body_def stopped_at_def growth_same created_grows)
    next
      case (Inr res)
      with wlp_Inr [OF run] s' have "registered_by V v st ?s res s'" by simp
      then consider t where "pr_status res = COMPLETED" "silver_table v st t" "in_catalog V t w w'"
          "c' = write_table t c"
        | "pr_status res = FAILED" "same_catalog V w w'" "c' = c"
        using s'(2,3) by (auto simp: registered_by_def)
      then show ?thesis
      proof cases
        case 1
        moreover have "only_grows V (table_of_stage v st) w w'"
          using 1(2,3) by (auto simp: in_catalog_def growth_same created_grows)
        moreover have "gv_tables V w' (ss_database st) (ss_entity st) \<noteq> None"
          using in_catalog_present [OF 1(3)] silver_table_name [OF 1(2)] silver_table_database [OF 1(2)] by simp
        ultimately show ?thesis using Inr by (simp add: after_body_def write_table_start)
      qed (simp_all add: after_body_def growth_same Inr)
    qed
  qed
qed

lemma attempts_after:
  assumes "registers_with api V v storage st"
    and "spec_attempts k (as_stage b (silver_registration v st)) c w = (r, c', w')"
  shows "after_body V v st r c w c' w'"
  using assms(2)
proof (induction k arbitrary: c w)
  case 0
  then show ?case using body_after [OF assms(1)] by (simp add: as_stage_def)
next
  case (Suc k)
  obtain r1 c1 w1 where once: "body_of (silver_registration v st) c w = (r1, c1, w1)"
    using prod_cases3 by blast
  note after = body_after [OF assms(1) once]
  show ?case
  proof (cases "\<exists>n m. r1 = Inl (Exn n m)")
    case True
    with Suc.prems once have "spec_attempts k (as_stage b (silver_registration v st)) c1 w1 = (r, c', w')"
      by (auto simp: as_stage_def)
    from Suc.IH [OF this] after show ?thesis
      unfolding after_body_def by (blast intro: growth_trans)
  next
    case False
    with Suc.prems once have "(r1, c1, w1) = (r, c', w')"
      by (auto simp: as_stage_def split: sum.splits exn.splits)
    with after show ?thesis by simp
  qed
qed

lemma registration_keeps_start:
  assumes "registers_with api V v storage st"
  shows "keeps_start (as_stage b (silver_registration v st))"
proof -
  have "start_ok (fst (snd (body_of (silver_registration v st) c w)))" if "start_ok c" for c w
  proof -
    obtain r c' w' where once: "body_of (silver_registration v st) c w = (r, c', w')"
      using prod_cases3 by blast
    with body_after [OF assms once] that show ?thesis by (simp add: after_body_def)
  qed
  then show ?thesis by (simp add: keeps_start_def as_stage_def)
qed

section \<open>A run of the executor\<close>

text \<open>After a run of one stage: how the catalog grew, and the table when it completed.\<close>

lemma run_one_after:
  fixes p :: "'w pipeline"
  assumes "registers_with api V v storage st" and "pp_stages p = [Lone (Some (as_stage b (silver_registration v st)))]"
  shows "wlp (run_sequential clocks p c)
    (\<lambda>(res, c') s'. only_grows V (table_of_stage v st) (js_world s) (js_world s') \<and>
       (pr_status res = COMPLETED \<longrightarrow> gv_tables V (js_world s') (ss_database st) (ss_entity st) \<noteq> None))
    (\<lambda>_ s'. only_grows V (table_of_stage v st) (js_world s) (js_world s')) s"
proof -
  let ?st = "as_stage b (silver_registration v st)"
  let ?x = "observed_executor (fst clocks) (snd clocks) None :: (observer, observations, 'w) executor"
  let ?c0 = "started_ctx (ex_clock ?x (rs_ticks (start_run c s))) (rt_ctx (start_run c s))"
  obtain r c1 w1 where attempts: "spec_attempts (budget ?st) ?st ?c0 (js_world s) = (r, c1, w1)"
    using prod_cases3 by blast
  define fin where "fin = (case r of Inl e \<Rightarrow> Raised e | Inr a \<Rightarrow> if succeeded a then All_run False else Stopped)"
  define rs where "rs = (case r of Inl e \<Rightarrow> [] | Inr a \<Rightarrow> [a])"
  note after = attempts_after [OF assms(1) attempts]
  have std: "standard ?x True"
    by (simp add: standard_def) (simp add: observed_executor_def ex_register_hooks_def new_executor_def default_policies_def)
  have iter: "pipeline_iter p = ([?st], None)"
    using assms(2) by (simp add: pipeline_iter_def flatten_def)
  have spec: "spec_stages True [?st] [] False ?c0 (rs_env (start_run c s)) = (fin, rs, c1, w1)"
    using attempts by (simp add: start_run_def new_run_def fin_def rs_def split: sum.split)
  have "wp (execute_sequential ?x p)
      (\<lambda>r t. spec_result (cx_metadata (rt_ctx t)) fin rs = Inr r \<and> rs_env t = w1 \<and> marked (pr_status r) t)
      (\<lambda>e t. spec_result (cx_metadata (rt_ctx t)) fin rs = Inl e \<and> rs_env t = w1) (start_run c s)"
    by (rule wp_execute_sequential_spec [OF std iter _ spec]) (simp add: registration_keeps_start [OF assms(1)])
  moreover have "gv_tables V w1 (ss_database st) (ss_entity st) \<noteq> None"
    if "spec_result m fin rs = Inr res" "pr_status res = COMPLETED" for m res
    using that after
    by (auto simp: fin_def rs_def after_body_def succeeded_def spec_result_raised split: sum.splits if_splits)
  ultimately show ?thesis
    using after
    by (auto simp: run_sequential_def end_run_def wlp_def wp_def after_body_def split: option.splits prod.splits sum.splits)
qed

text \<open>A stage whose body always completes makes the run complete.\<close>

lemma run_one_completes:
  fixes p :: "'w pipeline"
  assumes "registers_with api V v storage st"
    and "pp_stages p = [Lone (Some (as_stage b (silver_registration v st)))]"
    and "\<And>c w. \<exists>res c' w'. body_of (silver_registration v st) c w = (Inr res, c', w') \<and> pr_status res = COMPLETED"
  shows "wp (run_sequential clocks p c) (\<lambda>(res, c') s'. pr_status res = COMPLETED) (\<lambda>_ _. False) s"
proof -
  let ?st = "as_stage b (silver_registration v st)"
  let ?x = "observed_executor (fst clocks) (snd clocks) None :: (observer, observations, 'w) executor"
  let ?c0 = "started_ctx (ex_clock ?x (rs_ticks (start_run c s))) (rt_ctx (start_run c s))"
  obtain res c1 w1 where once: "body_of (silver_registration v st) ?c0 (js_world s) = (Inr res, c1, w1)"
      and res: "pr_status res = COMPLETED"
    using assms(3) by blast
  have "spec_attempts (budget ?st) ?st ?c0 (js_world s) = (Inr res, c1, w1)"
    using once by (cases "budget ?st") (simp_all add: as_stage_def)
  then have spec: "spec_stages True [?st] [] False ?c0 (rs_env (start_run c s)) = (All_run False, [res], c1, w1)"
    using res by (simp add: start_run_def new_run_def succeeded_def)
  have std: "standard ?x True"
    by (simp add: standard_def) (simp add: observed_executor_def ex_register_hooks_def new_executor_def default_policies_def)
  have iter: "pipeline_iter p = ([?st], None)"
    using assms(2) by (simp add: pipeline_iter_def flatten_def)
  have "wp (execute_sequential ?x p)
      (\<lambda>r t. spec_result (cx_metadata (rt_ctx t)) (All_run False) [res] = Inr r \<and> rs_env t = w1 \<and> marked (pr_status r) t)
      (\<lambda>e t. spec_result (cx_metadata (rt_ctx t)) (All_run False) [res] = Inl e \<and> rs_env t = w1) (start_run c s)"
    by (rule wp_execute_sequential_spec [OF std iter _ spec]) (simp add: registration_keeps_start [OF assms(1)])
  then show ?thesis
    by (auto simp: run_sequential_def end_run_def wp_def split: option.splits prod.splits sum.splits)
qed

section \<open>The registration script\<close>

lemma wlp_in_job [simp]: "wlp (push_metrics pu job url) Q E s =
    (case metrics_push (pu_gateway pu) job url (pu_default_url pu) (js_metrics s) of
       (Inl e, mx) \<Rightarrow> E e (s \<lparr> js_metrics := mx \<rparr>) | (Inr u, mx) \<Rightarrow> Q u (s \<lparr> js_metrics := mx \<rparr>))"
  by (auto simp: push_metrics_def wlp_def split: prod.split sum.split)

text \<open>What a table that the script added is.\<close>

definition silver_entry ::
  "'w delta_env \<Rightarrow> ('b, 'w) provider_factory \<Rightarrow> string list \<Rightarrow> string \<Rightarrow> string \<Rightarrow> glue_table \<Rightarrow> bool" where
  "silver_entry v f es db n s \<longleftrightarrow> n \<in> set es \<and> table_of_stage v (registration_stage f n) db n s"

lemma registration_stage_facts [simp]:
  "ss_entity (registration_stage f e) = e" "ss_database (registration_stage f e) = default_database"
  "sb_factory (registration_stage f e) = Some f" "ss_storage_provider (registration_stage f e) = ''aws.s3''"
  "ss_catalog_provider (registration_stage f e) = ''aws.glue''"
  by (simp_all add: registration_stage_def)

lemma make_pipeline_stages: "make_pipeline i n items = Inr p \<Longrightarrow> pp_stages p = items"
  by (auto simp: make_pipeline_def Let_def bindE_eq_Inr_iff)

lemma register_one_after:
  assumes "registers_with api V v storage (registration_stage f e)" and "e \<in> set es"
  shows "wlp (register_one v clocks f e)
    (\<lambda>_ s'. only_grows V (silver_entry v f es) (js_world s) (js_world s') \<and>
       gv_tables V (js_world s') default_database e \<noteq> None)
    (\<lambda>_ s'. only_grows V (silver_entry v f es) (js_world s) (js_world s')) s"
proof -
  have entry: "only_grows V (silver_entry v f es) w w'" if "only_grows V (table_of_stage v (registration_stage f e)) w w'" for w w'
    using that assms(2) by (auto simp: silver_entry_def table_of_stage_def elim!: growth_mono)
  have refl: "only_grows V P w w" for P w by (simp add: growth_same)
  show ?thesis
    unfolding register_one_def Let_def wlp_bindA wlp_lift
    by (auto simp: refl entry split: sum.split dest!: make_pipeline_stages
        intro!: wlp_mono [OF run_one_after [OF assms(1)]])
qed

lemma register_all_after:
  fixes s :: "'w job_state"
  assumes "\<And>e. e \<in> set es \<Longrightarrow> registers_with api V v storage (registration_stage f e)" and "set ds \<subseteq> set es"
  shows "wlp (register_all v clocks f ds)
    (\<lambda>_ s'. only_grows V (silver_entry v f es) (js_world s) (js_world s') \<and>
       (\<forall>e \<in> set ds. gv_tables V (js_world s') default_database e \<noteq> None))
    (\<lambda>_ s'. only_grows V (silver_entry v f es) (js_world s) (js_world s')) s"
  using assms(2)
proof (induction ds arbitrary: s)
  case Nil
  then show ?case by (simp add: growth_same)
next
  case (Cons d ds)
  then have d: "d \<in> set es" by simp
  show ?case
    unfolding register_all.simps wlp_bindA
  proof (rule wlp_mono [OF register_one_after [OF assms(1) [OF d] d]])
    fix a and s1 :: "'w job_state"
    assume one: "only_grows V (silver_entry v f es) (js_world s) (js_world s1) \<and>
      gv_tables V (js_world s1) default_database d \<noteq> None"
    have keep: "only_grows V Q (js_world s1) w \<Longrightarrow> gv_tables V w default_database d \<noteq> None" for Q w
      by (rule growth_present, assumption) (use one in blast)
    show "wlp (register_all v clocks f ds)
      (\<lambda>_ s'. only_grows V (silver_entry v f es) (js_world s) (js_world s') \<and>
         (\<forall>e \<in> set (d # ds). gv_tables V (js_world s') default_database e \<noteq> None))
      (\<lambda>_ s'. only_grows V (silver_entry v f es) (js_world s) (js_world s')) s1"
      by (rule wlp_mono [OF Cons.IH]) (use Cons.prems one keep in \<open>auto intro: growth_trans\<close>)
  qed
qed

lemma silver_entities_lower: "e \<in> set silver_entities \<Longrightarrow> lower e = e"
proof -
  have "list_all (\<lambda>e. lower e = e) silver_entities" by code_simp
  then show "e \<in> set silver_entities \<Longrightarrow> lower e = e" by (simp add: list_all_iff)
qed

text \<open>
  C26. The registration script publishes the Silver tables and disturbs nothing. Through the
  executor, its retries and its hooks, however the script ends, no database and no table of the
  catalog has changed, and a table that is new is one of the script's entities in its database, as a
  schema read from the entity's Delta log gives it. When the script ends without an error, the table
  of every entity is in the catalog.
\<close>

theorem registration_script_publishes:
  assumes "glue_laws api V" and "own_errors api" and "catalog_apart V v storage"
    and "resolves V f ''aws.s3'' storage" and "resolves V f ''aws.glue'' (glue_provider api)"
    and "registration_main v clocks pu host_url f s = Some (r, s')"
  shows "gv_databases V (js_world s') = gv_databases V (js_world s) \<and>
    (\<forall>db n. gv_tables V (js_world s') db n = gv_tables V (js_world s) db n \<or>
       gv_tables V (js_world s) db n = None \<and> n \<in> set silver_entities \<and> db = default_database \<and>
       (\<exists>t glue. silver_table v (registration_stage f n) t \<and> stored_as (table_input t) glue \<and>
          gv_tables V (js_world s') db n = Some glue)) \<and>
    (r = Inr () \<longrightarrow> (\<forall>e \<in> set silver_entities. gv_tables V (js_world s') default_database e \<noteq> None))"
proof -
  have each: "registers_with api V v storage (registration_stage f e)" if "e \<in> set silver_entities" for e
    using assms(1-5) silver_entities_lower [OF that] by (simp add: registers_with_def)
  have "wlp (registration_main v clocks pu host_url f)
      (\<lambda>_ s'. only_grows V (silver_entry v f silver_entities) (js_world s) (js_world s') \<and>
         (\<forall>e \<in> set silver_entities. gv_tables V (js_world s') default_database e \<noteq> None))
      (\<lambda>_ s'. only_grows V (silver_entry v f silver_entities) (js_world s) (js_world s')) s"
    unfolding registration_main_def wlp_bindA wlp_modify
    by (rule wlp_mono [OF register_all_after [where es = silver_entities, OF each]])
       (auto split: prod.split sum.split)
  with assms(6) have "only_grows V (silver_entry v f silver_entities) (js_world s) (js_world s')"
      "r = Inr () \<longrightarrow> (\<forall>e \<in> set silver_entities. gv_tables V (js_world s') default_database e \<noteq> None)"
    by (cases r; simp add: wlp_def)+
  then show ?thesis
    unfolding only_grows_def silver_entry_def table_of_stage_def registration_stage_facts by blast
qed

section \<open>A run for the witness\<close>

definition silver_factory :: "(bool, mem_glue) provider_factory" where
  "silver_factory = orders_factory \<lparr> pf_registry := [(''aws.s3'', True), (''aws.glue'', False)] \<rparr>"

definition job_start :: "mem_glue job_state" where
  "job_start = \<lparr> js_world = empty_glue, js_metrics = new_metrics \<rparr>"

definition no_push :: push_env where
  "no_push = \<lparr> pu_gateway = (\<lambda>_ _ _. None), pu_default_url = [] \<rparr>"

text \<open>Whatever the catalog holds, the Delta log of each entity has the one schema.\<close>

definition reads_orders :: "string \<Rightarrow> mem_glue \<Rightarrow> bool" where
  "reads_orders e w \<longleftrightarrow>
     (case from_uri (dv_check_netloc orders_env) (config_silver e) of
        Inl x \<Rightarrow> False
      | Inr l \<Rightarrow> read_delta_schema orders_env one_commit l w = Some (Inr (Some orders_schema), w))"

lemma silver_reads:
  "reads_orders ''orders'' w" "reads_orders ''order_items'' w" "reads_orders ''products'' w"
  "reads_orders ''payments'' w" "reads_orders ''sellers'' w" "reads_orders ''categories'' w"
  "reads_orders ''order_status_history'' w"
  by code_simp+

lemma silver_reads_all: "e \<in> set silver_entities \<Longrightarrow> reads_orders e w"
  unfolding silver_entities_def using silver_reads by auto

lemma orders_table: "\<exists>t. table_of_schema (dv_repr orders_env) d e l orders_schema = Inr t"
proof -
  have "\<exists>cs. mapE (column_of_field (dv_repr orders_env))
      [JObj [(''name'', JStr ''id''), (''type'', JStr ''long''), (''nullable'', JBool False)]] = Inr cs"
    by (simp add: column_of_field_def to_glue_type_def spark_type_to_glue_type_def)
  then show ?thesis
    by (auto simp: table_of_schema_def orders_schema_def)
qed

lemma mem_register:
  "\<exists>w'. register_table (glue_provider mem_glue_api) t w = Some (Inr (), w')"
  by (cases "mem_table w (ct_database t) (ct_name t)")
     (auto simp: register_table_def glue_provider_def glue_create_table_def glue_table_exists_def mem_glue_api_def
       bindA_def caught_def try_except_def call_def ret_def raise_def missing_def entity_not_found_def
       is_table_exists_def table_already_exists_def)

lemma mem_resolve:
  "resolve_provider n (Some silver_factory) ''aws.s3'' w = Some (Inr one_commit, w)"
  "resolve_provider n (Some silver_factory) ''aws.glue'' w = Some (Inr (glue_provider mem_glue_api), w)"
  by (simp_all add: resolve_provider_def factory_create_def silver_factory_def orders_factory_def registry_get_def
      bindA_def lift_def call_def)

lemma mem_body_completes:
  assumes "e \<in> set silver_entities"
  shows "\<exists>res c' w'. body_of (silver_registration orders_env (registration_stage silver_factory e)) c w =
    (Inr res, c', w') \<and> pr_status res = COMPLETED"
proof -
  obtain l where l: "from_uri (dv_check_netloc orders_env) (config_silver e) = Inr l"
      "read_delta_schema orders_env one_commit l w = Some (Inr (Some orders_schema), w)"
    using silver_reads_all [OF assms, of w] by (auto simp: reads_orders_def split: sum.splits)
  obtain t where t: "table_of_schema (dv_repr orders_env) default_database e l orders_schema = Inr t"
    using orders_table by blast
  obtain w' where "register_table (glue_provider mem_glue_api) t w = Some (Inr (), w')"
    using mem_register by blast
  with l t show ?thesis
    by (simp add: body_of_def silver_registration_def publish_schema_def Let_def resolve_def on_world_def
        stage_base.truncate_def mem_resolve bindA_def lift_def modify_def stage_outcome_of_def)
qed

lemma silver_resolves:
  "resolves mem_glue_view silver_factory ''aws.s3'' one_commit"
  "resolves mem_glue_view silver_factory ''aws.glue'' (glue_provider mem_glue_api)"
  by (auto simp: resolves_def registry_get_def silver_factory_def orders_factory_def)

lemma silver_registers:
  "e \<in> set silver_entities \<Longrightarrow>
     registers_with mem_glue_api mem_glue_view orders_env one_commit (registration_stage silver_factory e)"
  by (simp add: registers_with_def mem_glue_laws mem_own_errors silver_resolves orders_apart silver_entities_lower)

lemma register_one_completes:
  assumes "e \<in> set silver_entities"
  shows "wp (register_one orders_env clocks silver_factory e) (\<lambda>_ _. True) (\<lambda>_ _. False) s"
proof -
  obtain p where p: "make_pipeline (''silver-catalog-registration-once-'' @ e)
      (''Silver Catalog Registration (one-off) - '' @ e)
      [Lone (Some (as_stage (stage_base.truncate (registration_stage silver_factory e))
        (silver_registration orders_env (registration_stage silver_factory e))))] = Inr p"
    by (auto simp: make_pipeline_def Let_def pipeline_post_init_def flatten_def)
  show ?thesis
    unfolding register_one_def Let_def wp_bindA p wp_lift sum.case
    by (rule wp_mono [OF run_one_completes [OF silver_registers [OF assms] make_pipeline_stages [OF p]
            mem_body_completes [OF assms]]]) auto
qed

lemma register_all_completes:
  "set es \<subseteq> set silver_entities \<Longrightarrow>
     wp (register_all orders_env clocks silver_factory es) (\<lambda>_ _. True) (\<lambda>_ _. False) s"
proof (induction es arbitrary: s)
  case (Cons e es)
  then show ?case
    unfolding register_all.simps wp_bindA by (intro wp_mono [OF register_one_completes]) auto
qed simp

lemma registration_script_publishes_witness:
  "\<exists>s'. registration_main orders_env (\<lambda>_. (int, int)) no_push [] silver_factory job_start = Some (Inr (), s') \<and>
     (\<forall>e \<in> set silver_entities. mem_table (js_world s') ''mdp_silver_dev'' e \<noteq> None)"
proof -
  have "wp (registration_main orders_env (\<lambda>_. (int, int)) no_push [] silver_factory) (\<lambda>_ _. True) (\<lambda>_ _. False) job_start"
    unfolding registration_main_def wp_bindA wp_modify
    by (rule wp_mono [OF register_all_completes])
       (auto simp: push_metrics_def metrics_push_def no_push_def wp_def)
  then obtain s' where run: "registration_main orders_env (\<lambda>_. (int, int)) no_push [] silver_factory job_start =
      Some (Inr (), s')"
    by (auto simp: wp_def split: option.splits prod.splits sum.splits)
  with registration_script_publishes [OF mem_glue_laws mem_own_errors orders_apart silver_resolves run]
  show ?thesis by (simp add: mem_glue_view_def default_database_def)
qed

end
