(* ===== verification/Batch_Run.thy ===== *)
theory Batch_Run
  imports Batch_Properties Job_Properties
begin

text \<open>
  The property of the extraction task of the batch DAG, and a whole run of the task over a lake in
  memory: the counting, the clearing, the parallel group with its retries and hooks, the
  verification and the push of the metrics.
\<close>

section \<open>The property\<close>

text \<open>
  C27. What the extraction task returns is verified. When the counts come back, there is one for each
  entity, in order; it is the number of rows Postgres reported for the entity's table; and, in the
  world the task leaves, an object of the entity's raw prefix exists whose text has exactly that
  many rows. This holds for any list of entities, any schedule of the parallel group, any retries
  and any behaviour of the database, as long as what a download leaves in a file is the object's
  text and the Parquet metadata count its rows.
\<close>

theorem extraction_counts_verified:
  assumes "\<And>storage w w'. factory_create f ''aws.s3'' w = Some (Inr storage, w') \<Longrightarrow>
      reads_back mk v storage contents file rows"
    and "extract_entities mk env v clocks scheds pu f entities s = Some (Inr counts, s')"
  shows "map fst counts = map fst entities \<and>
    (\<forall>(entity, n) \<in> set counts.
       (\<exists>table_name w w'. (entity, table_name) \<in> set entities \<and> mk_count mk table_name w = (Inr n, w')) \<and>
       (\<exists>u written l t. from_uri (pe_check_netloc env) (raw_object_uri entity u) = Inr written \<and>
          from_uri (pe_check_netloc env) (location_uri written) = Inr l \<and>
          contents (js_world s') l = Some t \<and> rows t = n))"
proof -
  have "wlp (extract_entities mk env v clocks scheds pu f entities)
    (\<lambda>counts s'. map fst counts = map fst entities \<and>
       (\<forall>c \<in> set counts. verified mk env contents rows entities (js_world s') c)) (\<lambda>_ _. True) s"
    by (rule extract_entities_wlp) (use assms(1) in blast)
  from wlp_Inr [OF this assms(2)] have names: "map fst counts = map fst entities"
    and each: "\<And>e n. (e, n) \<in> set counts \<Longrightarrow> verified mk env contents rows entities (js_world s') (e, n)"
    by blast+
  show ?thesis
    using each unfolding verified_def counted_def fst_conv snd_conv by (auto simp: names)
qed

section \<open>A group of one task that completes\<close>

lemma step_task_to:
  fixes s :: "('o, 'e) Executor_Base.run_state"
  assumes "\<And>v. wp (task_step x p (Some st) pc)
      (\<lambda>pc1 t. pc1 = pc' \<and> rt_ctx t = c \<and> rs_env t = w \<and> rs_results t = rs) (\<lambda>_ _. False) (s \<lparr> rt_vars := v \<rparr>)"
    and "tk_stage tk = Some st" and "tk_pc tk = pc"
  obtains tk' t where "step_task x p tk s = Some (tk', t)" "tk_pc tk' = pc'" "tk_stage tk' = Some st"
    "rt_ctx t = c" "rs_env t = w" "rs_results t = rs"
proof -
  obtain t where "task_step x p (Some st) pc (s \<lparr> rt_vars := tk_vars tk \<rparr>) = Some (Inr pc', t)"
      "rt_ctx t = c" "rs_env t = w" "rs_results t = rs"
    using assms(1) [of "tk_vars tk"] by (auto simp: wp_def split: option.splits prod.splits sum.splits)
  with assms(2,3) show ?thesis
    by (intro that [of "tk \<lparr> tk_vars := rt_vars t, tk_pc := pc' \<rparr>" "t \<lparr> rt_vars := rt_vars s \<rparr>"])
       (simp_all add: step_task_def)
qed

lemma gather_one:
  fixes s :: "('o, 'e) Executor_Base.run_state"
  assumes "standard x ff" and "st_execute st (rt_ctx s) (rs_env s) = (Inr a, rt_ctx s, w)" and "succeeded a"
  shows "wp (gather x p [0, 0, 0] [Some st])
    (\<lambda>os t. os = [Inr (a, False)] \<and> rt_ctx t = rt_ctx s \<and> rs_env t = w \<and> rs_results t = rs_results s) (\<lambda>_ _. False) s"
proof -
  have quiet: "hooks_quiet (ex_run x) (ex_hooks x)" using assms(1) by (simp add: standard_def)
  have start: "wp (task_step x p (Some st) Starting)
      (\<lambda>pc t. pc = Running 1 \<and> rt_ctx t = rt_ctx s \<and> rs_env t = rs_env s \<and> rs_results t = rs_results s)
      (\<lambda>_ _. False) (s \<lparr> rt_vars := v \<rparr>)" for v
    by (auto simp: task_step_def run_stage_start_def emit_defs intro!: wp_emit_quiet [OF quiet])
  obtain tk1 t1 where s1: "step_task x p (new_task (rt_vars s) (Some st)) s = Some (tk1, t1)"
      "tk_pc tk1 = Running 1" "tk_stage tk1 = Some st"
      "rt_ctx t1 = rt_ctx s" "rs_env t1 = rs_env s" "rs_results t1 = rs_results s"
    by (rule step_task_to [OF start, of "new_task (rt_vars s) (Some st)"]) (simp_all add: new_task_def)
  have run: "wp (task_step x p (Some st) (Running 1))
      (\<lambda>pc t. pc = Handling 1 (Inr a) \<and> rt_ctx t = rt_ctx s \<and> rs_env t = w \<and> rs_results t = rs_results s)
      (\<lambda>_ _. False) (t1 \<lparr> rt_vars := v \<rparr>)" for v
    by (simp add: task_step_def run_stage_body_def wp_execute_stage Let_def s1 assms(2))
  obtain tk2 t2 where s2: "step_task x p tk1 t1 = Some (tk2, t2)"
      "tk_pc tk2 = Handling 1 (Inr a)" "tk_stage tk2 = Some st"
      "rt_ctx t2 = rt_ctx s" "rs_env t2 = w" "rs_results t2 = rs_results s"
    by (rule step_task_to [OF run s1(3,2)])
  have end_: "wp (task_step x p (Some st) (Handling 1 (Inr a)))
      (\<lambda>pc t. pc = Finished (Inr (a, False)) \<and> rt_ctx t = rt_ctx s \<and> rs_env t = w \<and> rs_results t = rs_results s)
      (\<lambda>_ _. False) (t2 \<lparr> rt_vars := v \<rparr>)" for v
    using assms(3)
    by (auto simp: task_step_def run_stage_handle_def emit_defs s2 intro!: wp_emit_quiet [OF quiet])
  obtain tk3 t3 where s3: "step_task x p tk2 t2 = Some (tk3, t3)"
      "tk_pc tk3 = Finished (Inr (a, False))" "tk_stage tk3 = Some st"
      "rt_ctx t3 = rt_ctx s" "rs_env t3 = w" "rs_results t3 = rs_results s"
    by (rule step_task_to [OF end_ s2(3,2)])
  show ?thesis
    by (simp add: wp_def gather_def s1 s2 s3)
qed

lemma execute_parallel_one:
  fixes s :: "('o, 'e) Executor_Base.run_state"
  assumes std: "standard x ff" and p: "pp_stages p = [Group [Some st]]"
    and body: "\<And>c. st_execute st c (rs_env s) = (Inr (a c), c, w) \<and> succeeded (a c)"
  shows "wp (execute_parallel x [[0, 0, 0]] p) (\<lambda>r t. \<exists>c. pl_stage_results r = [a c] \<and> rs_env t = w) (\<lambda>_ _. False) s"
proof -
  have quiet: "hooks_quiet (ex_run x) (ex_hooks x)" using std by (simp add: standard_def)
  have grp: "wp (par_group x p [0, 0, 0] [Some st])
      (\<lambda>e t. e = Next False \<and> rs_env t = w \<and> (\<exists>c. rs_results t = [a c]) \<and> start_ok (rt_ctx t)) (\<lambda>_ _. False) s1"
    if "rs_env s1 = rs_env s" "rs_results s1 = []" "start_ok (rt_ctx s1)" for s1 :: "('o, 'e) Executor_Base.run_state"
    unfolding par_group_def wp_bindA
    by (rule wp_mono [OF gather_one [OF std, of st s1 "a (rt_ctx s1)" w]])
       (use body that in \<open>auto simp: group_cancelled_def py_last_def failed_def\<close>)
  show ?thesis
    unfolding execute_parallel_def wp_execute_with parallel_pipeline_def
    by (auto simp: emit_defs pipeline_groups_def p execution_started_ctx started_ctx_start_ok wp_close_pipeline Let_def
        intro!: wp_emit_quiet [OF quiet] wp_mono [OF grp] wp_execution_completed; blast)
qed

section \<open>A lake in memory for the witness\<close>

record mem_lake =
  ml_objects :: "(storage_location \<times> string) list"
  ml_files :: "(string \<times> string) list"
  ml_ids :: nat

definition mem_download :: "storage_location \<Rightarrow> string \<Rightarrow> (mem_lake, unit) act" where
  "mem_download l d w =
     (case map_of (ml_objects w) l of
        None \<Rightarrow> Some (Inl (Exn ''ClientError'' ''NoSuchKey''), w)
      | Some t \<Rightarrow> Some (Inr (), w \<lparr> ml_files := AList.update d t (ml_files w) \<rparr>))"

definition mem_upload :: "storage_location \<Rightarrow> upload_source \<Rightarrow> (mem_lake, unit) act" where
  "mem_upload l src w =
     (case src of
        From_path f \<Rightarrow> Some (Inl (value_error f), w)
      | From_stream t \<Rightarrow> Some (Inr (), w \<lparr> ml_objects := AList.update l t (ml_objects w) \<rparr>))"

definition lake_provider :: "mem_lake provider" where
  "lake_provider =
     \<lparr> pv_exists = (\<lambda>l w. Some (Inr (map_of (ml_objects w) l \<noteq> None), w)), pv_upload = mem_upload,
       pv_download = mem_download,
       pv_delete = (\<lambda>l w. Some (Inr (), w \<lparr> ml_objects := AList.delete l (ml_objects w) \<rparr>)),
       pv_copy = (\<lambda>_ _. raise (no_method ''copy'')), pv_move = (\<lambda>_ _. raise (no_method ''move'')),
       pv_list = (\<lambda>_. raise (no_method ''list'')), pv_head = (\<lambda>_. raise (no_method ''head'')),
       pv_create_table = (\<lambda>_. raise (no_method ''create_table'')) \<rparr>"

definition lake_factory :: "(unit, mem_lake) provider_factory" where
  "lake_factory = \<lparr> pf_registry = [(''aws.s3'', ())], pf_build = (\<lambda>_ w. (Inr lake_provider, w)) \<rparr>"

text \<open>Two rows in every table; a row is a character of the Parquet text, and one object is stale.\<close>

definition lake_market :: "mem_lake market_env" where
  "lake_market =
     \<lparr> mk_connect = (\<lambda>w. (Inr (), w)), mk_count = (\<lambda>_ w. (Inr 2, w)), mk_leave = (\<lambda>_ w. (Inr (), w)),
       mk_page = (\<lambda>bucket key _ w. (Inr (map (\<lambda>(l, t). \<lparr> s3_key = sl_key l, s3_size = 1, s3_etag = [], s3_last_modified = 0 \<rparr>)
          (filter (\<lambda>(l, t). sl_bucket l = bucket \<and> take (length key) (sl_key l) = key) (ml_objects w)), None), w)),
       mk_num_rows = (\<lambda>d w. (case map_of (ml_files w) d of
          None \<Rightarrow> Inl (value_error d) | Some t \<Rightarrow> Inr (int (length t)), w)) \<rparr>"

definition lake_tables :: "(mem_lake, int, (string, int option list) dict) pg_env" where
  "lake_tables =
     \<lparr> pe_select = (\<lambda>_ w. (Inr [\<lparr> pg_name = ''id'', pg_type_code = 23, pg_precision = None, pg_scale = None \<rparr>], w)),
       pe_fetchall = (\<lambda>w. (Inr [[Some 1], [Some 2]], w)), pe_leave = (\<lambda>_ w. (Inr (), w)),
       pe_str = id, pe_decimal128 = (\<lambda>p s. Inr (ArrowDecimal128 p s)), pe_table = (\<lambda>d s. Inr d),
       pe_write_parquet = (\<lambda>d. Inr (case d of [] \<Rightarrow> [] | (n, vs) # _ \<Rightarrow> map (\<lambda>_. CHR ''#'') vs)),
       pe_uuid4 = (\<lambda>w. (Inr (show_nat (ml_ids w)), w \<lparr> ml_ids := Suc (ml_ids w) \<rparr>)),
       pe_check_netloc = (\<lambda>_. Inr ()), pe_undefined_table = (\<lambda>_. False) \<rparr>"

definition lake_files :: "mem_lake delta_env" where
  "lake_files =
     \<lparr> dv_make_tmp = (\<lambda>w. (Inr ''/tmp/d'', w)), dv_remove_tmp = (\<lambda>_ w. (Inr (), w \<lparr> ml_files := [] \<rparr>)),
       dv_read_text = (\<lambda>_ w. (Inr [], w)), dv_loads = (\<lambda>s. Inr (JObj [])), dv_repr = (\<lambda>_. []),
       dv_check_netloc = (\<lambda>_. Inr ()) \<rparr>"

definition lake_start :: "mem_lake job_state" where
  "lake_start = \<lparr> js_world = \<lparr> ml_objects = [], ml_files = [], ml_ids = 0 \<rparr>, js_metrics = new_metrics \<rparr>"

lemma lake_reads_back:
  "reads_back lake_market lake_files lake_provider (map_of \<circ> ml_objects) (map_of \<circ> ml_files) (int \<circ> length)"
  by (auto simp: reads_back_def lake_provider_def lake_market_def lake_files_def mem_download_def wlp_def call_def
      update_conv' fun_eq_iff split: option.split)

definition lake_object :: storage_location where
  "lake_object = \<lparr> sl_scheme = ''s3'', sl_bucket = default_bucket, sl_key = ''raw/orders/0.parquet'' \<rparr>"

definition lake_loaded :: mem_lake where
  "lake_loaded = \<lparr> ml_objects = [(lake_object, ''##'')], ml_files = [], ml_ids = 1 \<rparr>"

lemma lake_upload:
  "extract_and_upload lake_tables lake_provider ''marketplace.orders'' ''orders'' (js_world lake_start) =
    Some (Inr lake_object, lake_loaded)"
  by code_simp

lemma lake_prepared:
  "prepare_all lake_market lake_tables lake_provider [(''orders'', ''marketplace.orders'')] (js_world lake_start) =
    Some (Inr [(''orders'', 2)], js_world lake_start)"
  by code_simp

lemma lake_location: "from_uri (\<lambda>_. Inr ()) (location_uri lake_object) = Inr lake_object"
  by code_simp

lemma lake_verified:
  "map_of (sr_output r) ''uri'' = Some (PyStr (location_uri lake_object)) \<Longrightarrow>
     \<exists>w. verify_entity lake_market lake_tables lake_files lake_provider [(''orders'', 2)] ''orders'' r lake_loaded =
       Some (Inr (''orders'', 2), w)"
  by (simp add: verify_entity_def bindA_def lift_def required_def lake_tables_def lake_location landed_rows_def with_tmp_def
      lake_files_def call_def lake_provider_def mem_download_def lake_loaded_def lake_market_def ret_def)

lemma lake_body:
  "body_of (postgres_extraction lake_tables (extraction_stage_for lake_factory (''orders'', ''marketplace.orders''))) c
     (js_world lake_start) =
   (Inr \<lparr> pr_status = COMPLETED, pr_metadata = cx_metadata c, pr_error_type = None,
           pr_error_message = None, sr_stage_id = ''extract-orders'', sr_stage_name = ''Extract '' @ title ''orders'',
           sr_attempt = 1, sr_output = [(''uri'', PyStr (location_uri lake_object)),
             (''bucket'', PyStr (sl_bucket lake_object)), (''object_key'', PyStr (sl_key lake_object))] \<rparr>, c, lake_loaded)"
  by (simp add: body_of_def postgres_extraction_def extraction_stage_for_def Let_def resolve_def on_world_def
      resolve_provider_def factory_create_def lake_factory_def registry_get_def bindA_def lift_def call_def caught_def try_except_def ret_def
      stage_base.truncate_def lake_upload stage_outcome_of_def)

lemma wp_in_world:
  "wp (in_world m) Q E s =
     wp m (\<lambda>a w. Q a (s \<lparr> js_world := w \<rparr>)) (\<lambda>e w. E e (s \<lparr> js_world := w \<rparr>)) (js_world s)"
  by (simp add: wp_def in_world_def split: option.split prod.split sum.split)

definition lake_run :: "(mem_lake, (string \<times> int) list) job_act" where
  "lake_run = extract_entities lake_market lake_tables lake_files (int, int) [[0, 0, 0]] no_push lake_factory
     [(''orders'', ''marketplace.orders'')]"

lemma lake_run_completes:
  "wp lake_run (\<lambda>counts s. counts = [(''orders'', 2)]) (\<lambda>_ _. False) lake_start"
proof -
  let ?es = "[(''orders'', ''marketplace.orders'')]"
  let ?x = "observed_executor int int None :: (observer, observations, mem_lake) executor"
  let ?st = "as_stage (stage_base.truncate (extraction_stage_for lake_factory (''orders'', ''marketplace.orders'')))
    (postgres_extraction lake_tables (extraction_stage_for lake_factory (''orders'', ''marketplace.orders'')))"
  obtain p where p: "extraction_group lake_tables lake_factory ?es = Inr p" "pp_stages p = [Group [Some ?st]]"
    by (auto simp: extraction_group_def make_pipeline_def Let_def pipeline_post_init_def flatten_def)
  have std: "standard ?x True"
    by (simp add: standard_def) (simp add: observed_executor_def ex_register_hooks_def new_executor_def default_policies_def)
  let ?a = "\<lambda>c :: processing_context. \<lparr> pr_status = COMPLETED, pr_metadata = cx_metadata c, pr_error_type = None,
           pr_error_message = None, sr_stage_id = ''extract-orders'', sr_stage_name = ''Extract '' @ title ''orders'',
           sr_attempt = 1, sr_output = [(''uri'', PyStr (location_uri lake_object)),
             (''bucket'', PyStr (sl_bucket lake_object)), (''object_key'', PyStr (sl_key lake_object))] \<rparr>"
  have run: "\<exists>res c' s'. run_parallel (int, int) [[0, 0, 0]] p c s = Some (Inr (res, c'), s') \<and>
      (\<exists>c. pl_stage_results res = [?a c]) \<and> js_world s' = lake_loaded" if "js_world s = js_world lake_start" for c s
  proof -
    have "wp (execute_parallel ?x [[0, 0, 0]] p) (\<lambda>r t. \<exists>c. pl_stage_results r = [?a c] \<and> rs_env t = lake_loaded)
        (\<lambda>_ _. False) (start_run c s)"
      by (rule execute_parallel_one [OF std p(2), where a = ?a and w = lake_loaded])
         (simp add: start_run_def new_run_def that as_stage_def lake_body succeeded_def)
    then show ?thesis
      by (auto simp: run_parallel_def end_run_def wp_def split: option.splits prod.splits sum.splits)
  qed
  have create: "factory_create lake_factory ''aws.s3'' w = Some (Inr lake_provider, w)" for w
    by (simp add: factory_create_def lake_factory_def registry_get_def bindA_def lift_def call_def)
  have create_wp: "wp (factory_create lake_factory ''aws.s3'') Q E w = Q lake_provider w" for Q E and w :: mem_lake
    by (simp add: wp_def create)
  have prep: "wp (thenA (call (mk_connect lake_market)) (leaving (mk_leave lake_market)
      (prepare_all lake_market lake_tables lake_provider ?es))) Q E (js_world lake_start) =
      Q [(''orders'', 2)] (js_world lake_start)" for Q E
    using lake_prepared by (simp add: wp_def bindA_def call_def leaving_def lake_market_def)
  obtain res c' s' c where ran: "run_parallel (int, int) [[0, 0, 0]] p
      (new_context ''context-extract-postgres'' (new_metadata ''execution-extract-postgres''))
      \<lparr> js_world = js_world lake_start, js_metrics = new_metrics \<rparr> = Some (Inr (res, c'), s')"
      "pl_stage_results res = [?a c]" "js_world s' = lake_loaded"
    using run [of "\<lparr> js_world = js_world lake_start, js_metrics = new_metrics \<rparr>"] by fastforce
  obtain w where w: "verify_entity lake_market lake_tables lake_files lake_provider [(''orders'', 2)] ''orders'' (?a c)
      lake_loaded = Some (Inr (''orders'', 2), w)"
    using lake_verified [of "?a c"] by auto
  have found: "result_of (pl_stage_results res) ''orders'' = Some (?a c)" "\<not> incomplete (Some (?a c))"
    by (simp_all add: ran result_of_def incomplete_def failed_def succeeded_def)
  have ran_wp: "wp (run_parallel (int, int) [[0, 0, 0]] p
      (new_context ''context-extract-postgres'' (new_metadata ''execution-extract-postgres''))) Q E
      \<lparr> js_world = js_world lake_start, js_metrics = new_metrics \<rparr> = Q (res, c') s'" for Q E
    by (simp add: wp_def ran(1))
  have verified: "wp (verify_all lake_market lake_tables lake_files lake_provider [(''orders'', 2)]
      [(''orders'', Some (?a c))]) Q E lake_loaded = Q [(''orders'', 2)] w" for Q E
    using w by (simp add: wp_def bindA_def ret_def)
  have push: "wp (push_metrics no_push job url) (\<lambda>_. wp (ret a) (\<lambda>x _. x = a) (\<lambda>_ _. False)) (\<lambda>_ _. False) s"
      for job url a and s :: "mem_lake job_state"
    by (simp add: wp_def ret_def push_metrics_def metrics_push_def no_push_def)
  have start: "lake_start \<lparr> js_world := js_world lake_start \<rparr> = lake_start"
      "js_world (lake_start \<lparr> js_metrics := new_metrics \<rparr>) = js_world lake_start"
      "lake_start \<lparr> js_metrics := new_metrics, js_world := js_world lake_start \<rparr> =
        \<lparr> js_world = js_world lake_start, js_metrics = new_metrics \<rparr>"
    by (simp_all add: lake_start_def)
  show ?thesis
    unfolding lake_run_def extract_entities_def
    by (simp only: wp_bindA [of "in_world m" for m] wp_bindA [of "modify g" for g] wp_bindA [of "lift g" for g]
      wp_bindA [of "run_parallel a b c d" for a b c d] wp_bindA [of "push_metrics a b c" for a b c] wp_in_world wp_modify
      wp_lift create_wp prep start p(1) sum.case ran_wp prod.case list.map fst_conv snd_conv found Let_def filter.simps
      if_False if_True simp_thms ran(3) verified push)
qed

lemma extraction_counts_verified_witness:
  "\<exists>s'. lake_run lake_start = Some (Inr [(''orders'', 2)], s') \<and>
     (\<exists>l t. map_of (ml_objects (js_world s')) l = Some t \<and> length t = 2)"
proof -
  obtain s' where run: "lake_run lake_start = Some (Inr [(''orders'', 2)], s')"
    using lake_run_completes by (auto simp: wp_def split: option.splits prod.splits sum.splits)
  have reads: "reads_back lake_market lake_files storage (map_of \<circ> ml_objects) (map_of \<circ> ml_files) (int \<circ> length)"
    if "factory_create lake_factory ''aws.s3'' w = Some (Inr storage, w')" for storage w w'
    using that lake_reads_back
    by (simp add: factory_create_def lake_factory_def registry_get_def bindA_def lift_def call_def)
  show ?thesis
    by (rule revcut_rl [OF extraction_counts_verified [OF reads run [unfolded lake_run_def]]], assumption) (use run in auto)
qed

end
