(* ===== verification/Logging_Setup.thy ===== *)
theory Logging_Setup
  imports Batch_Properties
begin

text \<open>
  Where log lines go besides the console (\<open>observability/logging_config.py\<close> and
  \<open>cloudwatch_sink.py\<close>), and the wrapper that runs Terraform and ships its output
  (\<open>scripts/terraform_with_cloudwatch_logging.py\<close>). structlog, watchtower and the process are
  parameters. And that a failing CloudWatch disturbs nobody.
\<close>

section \<open>Choosing the sink and the level\<close>

text \<open>\<open>lg_handler\<close> builds the CloudWatch handler of a group; \<open>lg_warn\<close> writes to \<open>sys.stderr\<close>.\<close>

record 'w log_env =
  lg_getenv :: "string \<Rightarrow> 'w \<Rightarrow> string option"
  lg_handler :: "string \<Rightarrow> 'w \<Rightarrow> unit outcome \<times> 'w"
  lg_info :: "string \<Rightarrow> 'w \<Rightarrow> unit outcome \<times> 'w"
  lg_warn :: "string \<Rightarrow> 'w \<Rightarrow> unit outcome \<times> 'w"
  lg_repr :: "exn \<Rightarrow> string"
  lg_configure :: "string \<Rightarrow> 'w \<Rightarrow> unit outcome \<times> 'w"

text \<open>The two globals of the module: the cached logger and the latch.\<close>

record 'w log_state =
  ls_world :: 'w
  ls_cached :: bool
  ls_broken :: bool

definition log_levels :: "string list" where
  "log_levels = [''DEBUG'', ''INFO'', ''WARNING'', ''ERROR'', ''CRITICAL'']"

definition env_or_empty :: "'w log_env \<Rightarrow> string \<Rightarrow> 'w \<Rightarrow> string" where
  "env_or_empty env n w = strip (case lg_getenv env n w of None \<Rightarrow> [] | Some v \<Rightarrow> v)"

definition level_from_env :: "'w log_env \<Rightarrow> 'w \<Rightarrow> string" where
  "level_from_env env w =
     (let v = upper_ascii (env_or_empty env ''LOG_LEVEL'' w) in if v \<in> set log_levels then v else ''INFO'')"

definition cloudwatch_enabled :: "'w log_env \<Rightarrow> 'w \<Rightarrow> bool" where
  "cloudwatch_enabled env w \<longleftrightarrow> lower (env_or_empty env ''LOG_CLOUDWATCH_ENABLED'' w) \<in> {''1'', ''true'', ''yes''}"

definition sink_from_env :: "'w log_env \<Rightarrow> 'w \<Rightarrow> string" where
  "sink_from_env env w =
     (let v = lower (env_or_empty env ''LOG_SINK'' w)
      in if v \<in> {''stdout'', ''cloudwatch''} then v
         else if cloudwatch_enabled env w then ''cloudwatch'' else ''stdout'')"

section \<open>Shipping\<close>

definition on_log_world :: "('w \<Rightarrow> 'a outcome \<times> 'w) \<Rightarrow> ('w log_state, 'a) act" where
  "on_log_world f s = (case f (ls_world s) of (r, w) \<Rightarrow> Some (r, s \<lparr> ls_world := w \<rparr>))"

definition get_cloudwatch_logger :: "'w log_env \<Rightarrow> ('w log_state, unit) act" where
  "get_cloudwatch_logger env =
     bindA (get (\<lambda>s. (ls_cached s, env_or_empty env ''LOG_CLOUDWATCH_LOG_GROUP'' (ls_world s)))) (\<lambda>(cached, log_group).
       if cached then ret ()
       else if log_group = [] then
         raise (runtime_error ''CloudWatch log sink selected but LOG_CLOUDWATCH_LOG_GROUP is empty'')
       else
         thenA (on_log_world (lg_handler env log_group))
               (modify (\<lambda>s. s \<lparr> ls_cached := True \<rparr>)))"

definition shipping_disabled :: "'w log_env \<Rightarrow> exn \<Rightarrow> string" where
  "shipping_disabled env e =
     ''data_platform.observability: CloudWatch log shipping disabled '' @
     ''for the rest of this process, first failure was: '' @ lg_repr env e @ [CHR 0x0A]"

definition ship_to_cloudwatch :: "'w log_env \<Rightarrow> string \<Rightarrow> ('w log_state, string) act" where
  "ship_to_cloudwatch env event =
     bindA (get (\<lambda>s. sink_from_env env (ls_world s) \<noteq> ''cloudwatch'' \<or> ls_broken s)) (\<lambda>skip.
       if skip then ret event
       else
         bindA (caught (thenA (get_cloudwatch_logger env) (on_log_world (lg_info env event)))) (\<lambda>r. case r of
           Inl exc \<Rightarrow>
             thenA (modify (\<lambda>s. s \<lparr> ls_broken := True \<rparr>))
            (thenA (on_log_world (lg_warn env (shipping_disabled env exc))) (ret event))
         | Inr _ \<Rightarrow> ret event))"

definition configure_logging :: "'w log_env \<Rightarrow> string option \<Rightarrow> ('w log_state, unit) act" where
  "configure_logging env level =
     bindA (get (\<lambda>s.
       let resolved = upper_ascii (strip (case level of None \<Rightarrow> [] | Some l \<Rightarrow> l))
       in if resolved \<in> set log_levels then resolved else level_from_env env (ls_world s))) (\<lambda>resolved.
       on_log_world (lg_configure env resolved))"

section \<open>Terraform\<close>

text \<open>\<open>tf_line\<close> is the next line of the process's output, \<open>None\<close> at its end.\<close>

record 'w terraform_env =
  tf_handler :: "'w \<Rightarrow> unit outcome \<times> 'w"
  tf_info :: "string \<Rightarrow> 'w \<Rightarrow> unit outcome \<times> 'w"
  tf_popen :: "string list \<Rightarrow> 'w \<Rightarrow> unit outcome \<times> 'w"
  tf_line :: "'w \<Rightarrow> string option outcome \<times> 'w"
  tf_wait :: "'w \<Rightarrow> int outcome \<times> 'w"
  tf_close :: "'w \<Rightarrow> unit outcome \<times> 'w"
  tf_dir :: string

definition rstrip_newlines :: "string \<Rightarrow> string" where
  "rstrip_newlines s = rev (dropWhile (\<lambda>c. c = CHR 0x0A) (rev s))"

definition ship_line :: "'w terraform_env \<Rightarrow> bool \<Rightarrow> string \<Rightarrow> ('w, unit) act" where
  "ship_line tf shipping line = (if shipping \<and> line \<noteq> [] then call (tf_info tf line) else ret ())"

partial_function (option) ship_lines :: "'w terraform_env \<Rightarrow> bool \<Rightarrow> ('w, unit) act" where
  "ship_lines tf shipping w =
     (case tf_line tf w of
        (Inl e, w1) \<Rightarrow> Some (Inl e, w1)
      | (Inr None, w1) \<Rightarrow> Some (Inr (), w1)
      | (Inr (Some raw_line), w1) \<Rightarrow>
          (case ship_line tf shipping (rstrip_newlines raw_line) w1 of
             None \<Rightarrow> None
           | Some (Inl e, w2) \<Rightarrow> Some (Inl e, w2)
           | Some (Inr _, w2) \<Rightarrow> ship_lines tf shipping w2))"

declare ship_lines.simps [code]

definition terraform_main :: "'w terraform_env \<Rightarrow> string list \<Rightarrow> ('w, int) act" where
  "terraform_main tf argv =
     (if argv = [] then ret 2
      else
        bindA (caught (call (tf_handler tf))) (\<lambda>handler.
          let shipping = \<not> isl handler;
              command = [''terraform'', ''-chdir='' @ tf_dir tf] @ argv
          in
          thenA (if shipping then call (tf_info tf (''Running: '' @ join '' '' command)) else ret ())
         (thenA (call (tf_popen tf command))
         (thenA (ship_lines tf shipping)
         (bindA (call (tf_wait tf)) (\<lambda>exit_code.
          thenA (if shipping then
                   thenA (call (tf_info tf (''terraform exited with code '' @ show_int exit_code))) (call (tf_close tf))
                 else ret ())
                (ret exit_code)))))))"

section \<open>Facts\<close>

lemma wlp_on_log_world [simp]:
  "wlp (on_log_world f) Q E s =
     (case f (ls_world s) of (Inl e, w) \<Rightarrow> E e (s \<lparr> ls_world := w \<rparr>) | (Inr a, w) \<Rightarrow> Q a (s \<lparr> ls_world := w \<rparr>))"
  by (auto simp: wlp_def on_log_world_def split: prod.split sum.split)

text \<open>
  Shipping a line gives the line back and lets no \<open>Exception\<close> out while \<open>sys.stderr\<close> can be written;
  what is broken stays broken, and a broken sink is left alone.
\<close>

lemma shipping_never_raises:
  fixes env :: "'w log_env"
  assumes "\<And>x w. \<not> isl (fst (lg_warn env x w))"
  shows "wlp (ship_to_cloudwatch env event) (\<lambda>r s'. r = event \<and> (ls_broken s \<longrightarrow> s' = s))
    (\<lambda>e _. \<exists>c m. e = BaseExn c m) s"
proof -
  have warn: "lg_warn env x w = (r, w') \<Longrightarrow> \<exists>u. r = Inr u" for x w r w'
    using assms [of x w] by (cases r) auto
  show ?thesis
  proof (cases "sink_from_env env (ls_world s) \<noteq> ''cloudwatch'' \<or> ls_broken s")
    case True
    then show ?thesis unfolding ship_to_cloudwatch_def wlp_bindA [of "get f" for f] wlp_get by auto
  next
    case False
    have after: "wlp (case r of
          Inl exc \<Rightarrow>
            thenA (modify (\<lambda>s. s \<lparr> ls_broken := True \<rparr>))
           (thenA (on_log_world (lg_warn env (shipping_disabled env exc))) (ret event))
        | Inr _ \<Rightarrow> ret event) (\<lambda>r s'. r = event \<and> (ls_broken s \<longrightarrow> s' = s)) (\<lambda>e _. \<exists>c m. e = BaseExn c m) t"
      for r :: "exn + unit" and t
      using False by (auto split: sum.split prod.split dest: warn)
    have caught_then: "wlp (bindA (caught m) f) Q (\<lambda>e _. \<exists>c m. e = BaseExn c m) t"
      if "\<And>r t. wlp (f r) Q (\<lambda>e _. \<exists>c m. e = BaseExn c m) t"
      for m and f :: "exn + unit \<Rightarrow> ('w log_state, string) act" and Q t
      unfolding wlp_bindA caught_wlp by (rule wlp_mono [OF wlp_True]) (auto simp: that split: exn.split)
    show ?thesis
      unfolding ship_to_cloudwatch_def wlp_bindA [of "get f" for f] wlp_get if_not_P [OF False]
      by (rule caught_then, rule after)
  qed
qed

text \<open>The wrapper's exit code is that of Terraform.\<close>

lemma terraform_exit_code:
  fixes tf :: "'w terraform_env"
  assumes "argv \<noteq> []"
  shows "wlp (terraform_main tf argv) (\<lambda>code _. \<exists>w w'. tf_wait tf w = (Inr code, w')) (\<lambda>_ _. True) w"
proof -
  have exits: "wlp (bindA (call (tf_wait tf)) (\<lambda>exit_code. thenA (m exit_code) (ret exit_code)))
      (\<lambda>code _. \<exists>w w'. tf_wait tf w = (Inr code, w')) (\<lambda>_ _. True) t" for m :: "int \<Rightarrow> ('w, unit) act" and t
    unfolding wlp_bindA [of "call (tf_wait tf)"] wlp_call
    by (auto split: prod.split sum.split intro!: wlp_skip simp del: wlp_bindA; blast)
  show ?thesis
    unfolding terraform_main_def Let_def if_not_P [OF assms]
    by (intro wlp_skip [where m = "caught m" for m] wlp_skip [where m = "if b then m else n" for b m n]
        wlp_skip [where m = "call (tf_popen tf c)" for c] wlp_skip [where m = "ship_lines tf b" for b] exits)
qed

end
