(* ===== verification/Silver.thy ===== *)
theory Silver
  imports Py_Strings
begin

text \<open>
  The standard transformations of the Silver layer (\<open>processing/silver/transformations.py\<close>). Column
  names are normalised by regular expressions, written out here; the operations of a Spark
  DataFrame are parameters. And what normalised names are.
\<close>

section \<open>Normalising a column name\<close>

definition in_range :: "nat \<Rightarrow> nat \<Rightarrow> char \<Rightarrow> bool" where
  "in_range a b c \<longleftrightarrow> a \<le> of_char c \<and> of_char c \<le> b"

definition ascii_lower :: "char \<Rightarrow> bool" where
  "ascii_lower = in_range 97 122"

definition ascii_upper :: "char \<Rightarrow> bool" where
  "ascii_upper = in_range 65 90"

definition ascii_digit :: "char \<Rightarrow> bool" where
  "ascii_digit = in_range 48 57"

definition underscore :: "char \<Rightarrow> bool" where
  "underscore c \<longleftrightarrow> c = CHR ''_''"

text \<open>\<open>re.sub(''([a-z0-9])([A-Z])'', ...)\<close>: matches do not overlap, scanning from the left.\<close>

fun split_camel :: "string \<Rightarrow> string" where
  "split_camel (a # b # s) =
     (if (ascii_lower a \<or> ascii_digit a) \<and> ascii_upper b then a # CHR ''_'' # b # split_camel s
      else a # split_camel (b # s))"
| "split_camel s = s"

text \<open>\<open>re.sub(p+, d)\<close> for a class \<open>p\<close> of characters; the flag says whether the last one was in \<open>p\<close>.\<close>

fun squeeze :: "(char \<Rightarrow> bool) \<Rightarrow> char \<Rightarrow> bool \<Rightarrow> string \<Rightarrow> string" where
  "squeeze p d inside [] = []"
| "squeeze p d inside (c # s) =
     (if p c then (if inside then squeeze p d True s else d # squeeze p d True s)
      else c # squeeze p d False s)"

definition separator :: "char \<Rightarrow> bool" where
  "separator c \<longleftrightarrow> c \<in> set ''.-/'' \<or> is_space c"

definition word_char :: "char \<Rightarrow> bool" where
  "word_char c \<longleftrightarrow> ascii_lower c \<or> ascii_upper c \<or> ascii_digit c \<or> underscore c"

definition normalize_name :: "string \<Rightarrow> string" where
  "normalize_name s =
     (let s = split_camel s;
          s = squeeze separator CHR ''_'' False s;
          s = filter word_char s;
          s = squeeze underscore CHR ''_'' False s;
          s = trim underscore s
      in lower s)"

section \<open>The transformations\<close>

text \<open>
  \<open>sp_schema\<close> gives each field with whether its type is \<open>StringType\<close>; \<open>sp_row_number\<close> adds a column with
  the \<open>row_number()\<close> over a window partitioned by keys and ordered by a column, descending.
\<close>

record 'd spark_api =
  sp_columns :: "'d \<Rightarrow> string list"
  sp_schema :: "'d \<Rightarrow> (string \<times> bool) list"
  sp_to_df :: "string list \<Rightarrow> 'd \<Rightarrow> 'd outcome"
  sp_trim :: "string \<Rightarrow> 'd \<Rightarrow> 'd outcome"
  sp_drop_duplicates :: "string list option \<Rightarrow> 'd \<Rightarrow> 'd outcome"
  sp_row_number :: "string \<Rightarrow> string list \<Rightarrow> string \<Rightarrow> 'd \<Rightarrow> 'd outcome"
  sp_filter_eq :: "string \<Rightarrow> int \<Rightarrow> 'd \<Rightarrow> 'd outcome"
  sp_drop :: "string \<Rightarrow> 'd \<Rightarrow> 'd outcome"
  sp_current_timestamp :: "string \<Rightarrow> 'd \<Rightarrow> 'd outcome"
  sp_current_date :: "string \<Rightarrow> 'd \<Rightarrow> 'd outcome"

definition normalize_column_names :: "'d spark_api \<Rightarrow> 'd \<Rightarrow> 'd outcome" where
  "normalize_column_names api df = sp_to_df api (map normalize_name (sp_columns api df)) df"

fun trim_fields :: "'d spark_api \<Rightarrow> (string \<times> bool) list \<Rightarrow> 'd \<Rightarrow> 'd outcome" where
  "trim_fields api [] df = Inr df"
| "trim_fields api ((n, is_string) # rest) df =
     bindE (if is_string then sp_trim api n df else Inr df) (trim_fields api rest)"

definition trim_string_columns :: "'d spark_api \<Rightarrow> 'd \<Rightarrow> 'd outcome" where
  "trim_string_columns api df = trim_fields api (sp_schema api df) df"

definition remove_duplicates :: "'d spark_api \<Rightarrow> string list option \<Rightarrow> 'd \<Rightarrow> 'd outcome" where
  "remove_duplicates api cols df =
     (if cols \<noteq> None \<and> cols \<noteq> Some [] then sp_drop_duplicates api cols df
      else sp_drop_duplicates api None df)"

definition dedup_rank :: string where
  "dedup_rank = ''_dedup_rank''"

definition deduplicate_by_key :: "'d spark_api \<Rightarrow> string list \<Rightarrow> string \<Rightarrow> 'd \<Rightarrow> 'd outcome" where
  "deduplicate_by_key api key_columns order_column df =
     bindE (sp_row_number api dedup_rank key_columns order_column df) (\<lambda>df.
     bindE (sp_filter_eq api dedup_rank 1 df) (sp_drop api dedup_rank))"

definition add_metadata :: "'d spark_api \<Rightarrow> 'd \<Rightarrow> 'd outcome" where
  "add_metadata api df = bindE (sp_current_timestamp api ''processed_at'' df) (sp_current_date api ''processing_date'')"

definition default_order_column :: string where
  "default_order_column = ''cdc_ts_ms''"

definition apply_standard_transformations ::
  "'d spark_api \<Rightarrow> string list option \<Rightarrow> string \<Rightarrow> 'd \<Rightarrow> 'd outcome" where
  "apply_standard_transformations api natural_key_columns order_column df =
     bindE (normalize_column_names api df) (\<lambda>df.
     bindE (trim_string_columns api df) (\<lambda>df.
     bindE (remove_duplicates api None df) (\<lambda>df.
     bindE (case natural_key_columns of
              None \<Rightarrow> Inr df
            | Some keys \<Rightarrow> if keys = [] then Inr df else deduplicate_by_key api keys order_column df)
       (add_metadata api))))"

section \<open>Names in snake case\<close>

definition snake_char :: "char \<Rightarrow> bool" where
  "snake_char c \<longleftrightarrow> ascii_lower c \<or> ascii_digit c \<or> underscore c"

fun no_double :: "(char \<Rightarrow> bool) \<Rightarrow> string \<Rightarrow> bool" where
  "no_double p (a # b # s) \<longleftrightarrow> \<not> (p a \<and> p b) \<and> no_double p (b # s)"
| "no_double p s \<longleftrightarrow> True"

definition is_snake :: "string \<Rightarrow> bool" where
  "is_snake s \<longleftrightarrow> list_all snake_char s \<and> no_double underscore s \<and>
     (s = [] \<or> \<not> underscore (hd s) \<and> \<not> underscore (last s))"

lemma squeeze_head: "squeeze p d True s \<noteq> [] \<Longrightarrow> p d \<Longrightarrow> \<not> p (hd (squeeze p d True s))"
  by (induction s) (auto split: if_splits)

lemma no_double_Cons: "no_double p (c # s) \<longleftrightarrow> (s = [] \<or> \<not> (p c \<and> p (hd s))) \<and> no_double p s"
  by (cases s) auto

lemma squeeze_no_double: "p d \<Longrightarrow> no_double p (squeeze p d inside s)"
proof (induction s arbitrary: inside)
  case (Cons c s)
  then show ?case
    using squeeze_head [of p d s] by (auto simp: no_double_Cons)
qed simp

lemma squeeze_id:
  "no_double p s \<Longrightarrow> (\<forall>c \<in> set s. p c \<longrightarrow> c = d) \<Longrightarrow> (inside \<longrightarrow> s = [] \<or> \<not> p (hd s)) \<Longrightarrow> squeeze p d inside s = s"
  by (induction s arbitrary: inside) (auto simp: no_double_Cons)

lemma squeeze_set: "set (squeeze p d inside s) \<subseteq> insert d (set s)"
  by (induction s arbitrary: inside) (auto split: if_splits)

lemma squeeze_free: "\<forall>c \<in> set s. \<not> p c \<Longrightarrow> squeeze p d inside s = s"
  by (induction s arbitrary: inside) auto

lemma split_camel_id: "\<forall>c \<in> set s. \<not> ascii_upper c \<Longrightarrow> split_camel s = s"
  by (induction s rule: split_camel.induct) auto

lemma no_double_append: "no_double p (s @ t) \<Longrightarrow> no_double p s \<and> no_double p t"
  by (induction s) (auto simp: no_double_Cons)

lemma trim_within: "\<exists>a b. s = a @ trim p s @ b"
proof -
  have "s = takeWhile p s @ dropWhile p s" by simp
  moreover have "dropWhile p s = trim p s @ rev (takeWhile p (rev (dropWhile p s)))"
    unfolding trim_def by (metis rev_append rev_rev_ident takeWhile_dropWhile_id)
  ultimately show ?thesis by metis
qed

lemma underscore_code: "underscore c \<longleftrightarrow> of_char c = (95 :: nat)"
proof -
  have "(95 :: nat) = of_char CHR ''_''" by simp
  then show ?thesis unfolding underscore_def by (metis of_char_eq_iff)
qed

lemmas char_class = word_char_def snake_char_def ascii_lower_def ascii_upper_def ascii_digit_def in_range_def
  underscore_code

lemma lower_word_char:
  assumes "word_char c"
  shows "snake_char (lower_char c) \<and> (underscore (lower_char c) \<longleftrightarrow> underscore c)"
proof (cases "ascii_upper c")
  case True
  then have "of_char (lower_char c) = of_char c + (32 :: nat)"
    by (auto simp: char_class lower_char_def Let_def)
  with True show ?thesis by (auto simp: char_class)
next
  case False
  with assms have "lower_char c = c" by (auto simp: char_class lower_char_def Let_def)
  with assms False show ?thesis by (auto simp: word_char_def snake_char_def)
qed

lemma lower_snake_char: "snake_char c \<Longrightarrow> lower_char c = c"
  by (auto simp: char_class lower_char_def Let_def)

lemma snake_word_char: "snake_char c \<Longrightarrow> word_char c \<and> \<not> ascii_upper c \<and> \<not> separator c"
  by (auto simp: char_class separator_def is_space_def Let_def)

lemma no_double_lower: "list_all word_char s \<Longrightarrow> no_double underscore (lower s) \<longleftrightarrow> no_double underscore s"
proof (induction s)
  case (Cons c s)
  then show ?case by (cases s) (auto simp: lower_def no_double_Cons lower_word_char)
qed (simp add: lower_def)

lemma lower_is_snake:
  assumes "list_all word_char t" and "no_double underscore t"
    and "t = [] \<or> \<not> underscore (hd t) \<and> \<not> underscore (last t)"
  shows "is_snake (lower t)"
proof -
  have "list_all snake_char (lower t)"
    using assms(1) by (auto simp: lower_def list_all_iff lower_word_char)
  moreover have "t = [] \<or> \<not> underscore (hd (lower t)) \<and> \<not> underscore (last (lower t))"
  proof (cases "t = []")
    case False
    then have "word_char (hd t)" "word_char (last t)" using assms(1) by (simp_all add: list_all_iff)
    with assms(3) False show ?thesis by (simp add: lower_def hd_map last_map lower_word_char)
  qed simp
  ultimately show ?thesis
    using no_double_lower [OF assms(1)] assms(2) by (simp add: is_snake_def)
qed

lemma snake_normalized: "is_snake (normalize_name s)"
proof -
  let ?s1 = "filter word_char (squeeze separator CHR ''_'' False (split_camel s))"
  let ?s2 = "squeeze underscore CHR ''_'' False ?s1"
  let ?s3 = "trim underscore ?s2"
  have result: "normalize_name s = lower ?s3" by (simp add: normalize_name_def Let_def)
  have "underscore CHR ''_''" "word_char CHR ''_''" by (simp_all add: underscore_def word_char_def)
  then have words: "list_all word_char ?s2" and single: "no_double underscore ?s2"
    using squeeze_set [of underscore "CHR ''_''" False ?s1] by (auto simp: list_all_iff squeeze_no_double)
  obtain a b where "?s2 = a @ ?s3 @ b" using trim_within by blast
  with words single have "list_all word_char ?s3" "no_double underscore ?s3"
    by (metis list_all_append, metis no_double_append)
  moreover have "?s3 = [] \<or> \<not> underscore (hd ?s3) \<and> \<not> underscore (last ?s3)"
    by (rule trim_empty_or_ends)
  ultimately show ?thesis
    unfolding result by (rule lower_is_snake)
qed

lemma normalized_snake:
  assumes "is_snake s"
  shows "normalize_name s = s"
proof -
  have chars: "\<forall>c \<in> set s. snake_char c" and "no_double underscore s" and "trim underscore s = s"
    using assms by (auto simp: is_snake_def list_all_iff trim_id)
  moreover have "split_camel s = s" "squeeze separator CHR ''_'' False s = s" "filter word_char s = s"
    using chars snake_word_char by (auto simp: split_camel_id squeeze_free filter_id_conv)
  moreover have "squeeze underscore CHR ''_'' False s = s"
    using calculation by (intro squeeze_id) (auto simp: underscore_def)
  moreover have "lower s = s"
    using chars by (simp add: lower_def lower_snake_char map_idI)
  ultimately show ?thesis by (simp add: normalize_name_def)
qed

lemma normalize_fixed: "normalize_name (normalize_name s) = normalize_name s"
  by (rule normalized_snake [OF snake_normalized])

text \<open>
  C37. Normalising gives a name in snake case (lower-case letters, digits and single underscores, none
  at either end), and leaves exactly the names that are in snake case already; so it is idempotent.
\<close>

theorem normalize_is_snake:
  "is_snake (normalize_name s) \<and> (normalize_name s = s \<longleftrightarrow> is_snake s)"
  using snake_normalized normalized_snake by metis

end
