(* ===== verification/Bronze_Consumer.thy ===== *)
theory Bronze_Consumer
  imports Kafka Debezium
begin

text \<open>
  The Bronze consumer (\<open>streaming/consumers/bronze_consumer.py\<close>): a round-robin loop over the
  entities that buffers decoded change events and hands due buffers to worker threads, which
  write them to the entity's Delta table and commit the consumed offsets. The messaging provider,
  the table writer and the monotonic clock are parameters (\<open>bronze_env\<close>). A flush runs at one
  point of the schedule: while it is in flight the loop does not touch its entity, which is what
  makes that granularity enough.
\<close>

section \<open>Constants\<close>

definition topic_prefix :: string where
  "topic_prefix = ''marketplace.marketplace.''"

definition consumer_group_id :: string where
  "consumer_group_id = ''bronze-consumer''"

definition max_batch_size_default :: int where
  "max_batch_size_default = 100"

definition max_batch_size_overrides :: "(string, int) dict" where
  "max_batch_size_overrides = []"

definition max_poll_batch_size :: int where
  "max_poll_batch_size = 25"

definition max_poll_batch_size_overrides :: "(string, int) dict" where
  "max_poll_batch_size_overrides = [(''products'', 100), (''inventories'', 100)]"

text \<open>Times in milliseconds.\<close>

definition max_batch_age :: int where
  "max_batch_age = 300000"

definition poll_timeout :: int where
  "poll_timeout = 250"

definition idle_after_empty_polls :: nat where
  "idle_after_empty_polls = 3"

definition idle_poll_every_n_rounds :: nat where
  "idle_poll_every_n_rounds = 5"

definition streaming_entities :: "string list" where
  "streaming_entities =
     [''carriers'', ''categories'', ''customer_addresses'', ''customers'', ''inventories'',
      ''inventory_movements'', ''order_items'', ''order_status_history'', ''orders'',
      ''payment_methods'', ''payments'', ''products'', ''reviews'', ''sellers'', ''shipments'',
      ''warehouses'']"

definition topic_for :: "string \<Rightarrow> string" where
  "topic_for entity = topic_prefix @ entity"

section \<open>Buffers\<close>

record entity_buffer =
  eb_records :: "bz_record list"
  eb_opened_at :: "int option"
  eb_consecutive_empty_polls :: nat
  eb_rounds_since_last_poll :: nat
  eb_max_batch_size :: int

definition new_buffer :: "string \<Rightarrow> entity_buffer" where
  "new_buffer entity =
     \<lparr> eb_records = [], eb_opened_at = None, eb_consecutive_empty_polls = 0,
       eb_rounds_since_last_poll = 0,
       eb_max_batch_size =
         (case map_of max_batch_size_overrides entity of None \<Rightarrow> max_batch_size_default | Some n \<Rightarrow> n) \<rparr>"

text \<open>\<open>now\<close> is the clock reading \<open>add\<close> makes when it opens the buffer.\<close>

definition buffer_add :: "int \<Rightarrow> bz_record \<Rightarrow> entity_buffer \<Rightarrow> entity_buffer" where
  "buffer_add now r b =
     (let b' = (if eb_opened_at b = None then b \<lparr> eb_opened_at := Some now \<rparr> else b)
      in b' \<lparr> eb_records := eb_records b' @ [r] \<rparr>)"

definition is_due :: "int \<Rightarrow> entity_buffer \<Rightarrow> bool" where
  "is_due now b =
     (if eb_records b = [] then False
      else if int (length (eb_records b)) \<ge> eb_max_batch_size b then True
      else (case eb_opened_at b of None \<Rightarrow> False | Some t \<Rightarrow> now - t \<ge> max_batch_age))"

definition buffer_clear :: "entity_buffer \<Rightarrow> entity_buffer" where
  "buffer_clear b = b \<lparr> eb_records := [], eb_opened_at := None \<rparr>"

section \<open>The consumer's state\<close>

text \<open>
  \<open>be_write uri schema rows\<close> stands for building the Arrow table of the schema and appending it
  to the Delta table at the URI.
\<close>

record ('p, 'd) bronze_env =
  be_consume_batch :: "string \<Rightarrow> string \<Rightarrow> int \<Rightarrow> int \<Rightarrow> bool \<Rightarrow> ('p, message list) act"
  be_commit :: "string \<Rightarrow> string \<Rightarrow> ('p, unit) act"
  be_recover :: "string \<Rightarrow> string \<Rightarrow> exn \<Rightarrow> ('p, bool) act"
  be_lag :: "string \<Rightarrow> string \<Rightarrow> ('p, int option) act"
  be_write :: "string \<Rightarrow> arrow_schema \<Rightarrow> bz_record list \<Rightarrow> ('d, unit) act"
  be_codec :: codec
  be_round :: "string \<Rightarrow> int \<Rightarrow> string"
  be_schema :: "string \<Rightarrow> arrow_schema outcome"
  be_uri :: "string \<Rightarrow> string"
  be_clock :: "nat \<Rightarrow> int"

datatype metric =
    MessageConsumed string | WriteFailure string | RecordsWritten string nat | ConsumerLag string int

datatype flight = Submitted | Done "unit outcome"

record ('p, 'd) bronze_state =
  bs_provider :: 'p
  bs_sink :: 'd
  bs_buffers :: "string \<Rightarrow> entity_buffer"
  bs_in_flight :: "string \<Rightarrow> flight option"
  bs_ticks :: nat
  bs_metrics :: "metric list"

type_synonym ('p, 'd, 'a) bronze = "(('p, 'd) bronze_state, 'a) act"

definition on_provider :: "('p, 'a) act \<Rightarrow> ('p, 'd, 'a) bronze" where
  "on_provider m s =
     (case m (bs_provider s) of None \<Rightarrow> None | Some (r, p) \<Rightarrow> Some (r, s \<lparr> bs_provider := p \<rparr>))"

definition on_sink :: "('d, 'a) act \<Rightarrow> ('p, 'd, 'a) bronze" where
  "on_sink m s = (case m (bs_sink s) of None \<Rightarrow> None | Some (r, d) \<Rightarrow> Some (r, s \<lparr> bs_sink := d \<rparr>))"

definition monotonic :: "('p, 'd) bronze_env \<Rightarrow> ('p, 'd, int) bronze" where
  "monotonic env s = Some (Inr (be_clock env (bs_ticks s)), s \<lparr> bs_ticks := Suc (bs_ticks s) \<rparr>)"

definition metric :: "metric \<Rightarrow> ('p, 'd, unit) bronze" where
  "metric m = modify (\<lambda>s. s \<lparr> bs_metrics := bs_metrics s @ [m] \<rparr>)"

definition on_buffer :: "string \<Rightarrow> (entity_buffer \<Rightarrow> entity_buffer) \<Rightarrow> ('p, 'd, unit) bronze" where
  "on_buffer entity f =
     modify (\<lambda>s. s \<lparr> bs_buffers := (bs_buffers s)(entity := f (bs_buffers s entity)) \<rparr>)"

section \<open>Buffering a message\<close>

definition cdc_record :: "bz_record \<Rightarrow> json option \<Rightarrow> bz_record" where
  "cdc_record r ts = AList.update ''_cdc_ts_ms'' (Plain (case ts of None \<Rightarrow> JNull | Some t \<Rightarrow> t)) r"

definition buffer_message :: "('p, 'd) bronze_env \<Rightarrow> string \<Rightarrow> kbytes \<Rightarrow> ('p, 'd, unit) bronze" where
  "buffer_message env entity v =
     thenA (metric (MessageConsumed entity))
       (case decode_debezium_message (be_codec env) v of
          Inl (Exn c x) \<Rightarrow> ret ()
        | Inl (BaseExn c x) \<Rightarrow> raise (BaseExn c x)
        | Inr change \<Rightarrow>
            (case dc_record change of
               None \<Rightarrow> ret ()
             | Some r \<Rightarrow>
                bindA (get (\<lambda>s. eb_opened_at (bs_buffers s entity))) (\<lambda>opened.
                bindA (if opened = None then monotonic env else ret 0) (\<lambda>now.
                  on_buffer entity (buffer_add now (cdc_record r (dc_source_ts_ms change)))))))"

section \<open>Flushing\<close>

definition flush_rows :: "('p, 'd) bronze_env \<Rightarrow> arrow_schema \<Rightarrow> entity_buffer \<Rightarrow> bz_record list" where
  "flush_rows env schema b = map (\<lambda>r. coerce_record (be_round env) r schema) (eb_records b)"

definition write_and_commit ::
  "('p, 'd) bronze_env \<Rightarrow> string \<Rightarrow> arrow_schema \<Rightarrow> bz_record list \<Rightarrow> ('p, 'd, unit) bronze" where
  "write_and_commit env entity schema rows =
     thenA (on_sink (be_write env (be_uri env entity) schema rows))
           (on_provider (be_commit env (topic_for entity) consumer_group_id))"

definition flush :: "('p, 'd) bronze_env \<Rightarrow> string \<Rightarrow> arrow_schema \<Rightarrow> ('p, 'd, unit) bronze" where
  "flush env entity schema =
     bindA (get (\<lambda>s. flush_rows env schema (bs_buffers s entity))) (\<lambda>rows.
     bindA (caught (write_and_commit env entity schema rows))
       (\<lambda>outcome. case outcome of
          Inl exc \<Rightarrow>
            thenA (metric (WriteFailure entity))
            (bindA (on_provider (be_recover env (topic_for entity) consumer_group_id exc)) (\<lambda>recovered.
              if recovered then on_buffer entity buffer_clear else ret ()))
        | Inr _ \<Rightarrow>
            thenA (metric (RecordsWritten entity (length rows)))
            (bindA (on_provider (be_lag env (topic_for entity) consumer_group_id)) (\<lambda>lag.
              thenA (case lag of None \<Rightarrow> ret () | Some n \<Rightarrow> metric (ConsumerLag entity n))
                    (on_buffer entity buffer_clear)))))"

section \<open>A turn of an entity\<close>

definition poll_room :: "string \<Rightarrow> entity_buffer \<Rightarrow> int" where
  "poll_room entity b =
     min (eb_max_batch_size b - int (length (eb_records b)))
         (case map_of max_poll_batch_size_overrides entity of None \<Rightarrow> max_poll_batch_size | Some n \<Rightarrow> n)"

fun buffer_messages :: "('p, 'd) bronze_env \<Rightarrow> string \<Rightarrow> message list \<Rightarrow> ('p, 'd, unit) bronze" where
  "buffer_messages env entity [] = ret ()"
| "buffer_messages env entity (m # ms) =
     thenA (buffer_message env entity (ms_value m)) (buffer_messages env entity ms)"

definition poll_entity :: "('p, 'd) bronze_env \<Rightarrow> string \<Rightarrow> int \<Rightarrow> ('p, 'd, unit) bronze" where
  "poll_entity env entity remaining =
     bindA (on_provider (be_consume_batch env (topic_for entity) consumer_group_id remaining poll_timeout False))
       (\<lambda>messages.
          if messages \<noteq> [] then
            thenA (on_buffer entity (\<lambda>b. b \<lparr> eb_consecutive_empty_polls := 0 \<rparr>))
                  (buffer_messages env entity messages)
          else
            on_buffer entity (\<lambda>b. b \<lparr> eb_consecutive_empty_polls := Suc (eb_consecutive_empty_polls b) \<rparr>))"

definition skip_poll :: "entity_buffer \<Rightarrow> bool" where
  "skip_poll b \<longleftrightarrow>
     eb_consecutive_empty_polls b \<ge> idle_after_empty_polls \<and>
     eb_rounds_since_last_poll b < idle_poll_every_n_rounds - 1"

definition maybe_poll :: "('p, 'd) bronze_env \<Rightarrow> string \<Rightarrow> ('p, 'd, unit) bronze" where
  "maybe_poll env entity =
     bindA (get (\<lambda>s. bs_buffers s entity)) (\<lambda>b.
       if skip_poll b then
         on_buffer entity (\<lambda>b. b \<lparr> eb_rounds_since_last_poll := Suc (eb_rounds_since_last_poll b) \<rparr>)
       else
         thenA (on_buffer entity (\<lambda>b. b \<lparr> eb_rounds_since_last_poll := 0 \<rparr>))
           (if poll_room entity b > 0 then poll_entity env entity (poll_room entity b) else ret ()))"

definition set_flight :: "string \<Rightarrow> flight option \<Rightarrow> ('p, 'd, unit) bronze" where
  "set_flight entity f = modify (\<lambda>s. s \<lparr> bs_in_flight := (bs_in_flight s)(entity := f) \<rparr>)"

definition submit_if_due :: "('p, 'd) bronze_env \<Rightarrow> string \<Rightarrow> ('p, 'd, unit) bronze" where
  "submit_if_due env entity =
     bindA (monotonic env) (\<lambda>now.
     bindA (get (\<lambda>s. bs_buffers s entity)) (\<lambda>b.
       if is_due now b then set_flight entity (Some Submitted) else ret ()))"

definition turn :: "('p, 'd) bronze_env \<Rightarrow> string \<Rightarrow> ('p, 'd, unit) bronze" where
  "turn env entity =
     bindA (get (\<lambda>s. bs_in_flight s entity)) (\<lambda>future. case future of
       Some Submitted \<Rightarrow> ret ()
     | Some (Done (Inl e)) \<Rightarrow> raise e
     | Some (Done (Inr _)) \<Rightarrow>
         thenA (set_flight entity None) (thenA (maybe_poll env entity) (submit_if_due env entity))
     | None \<Rightarrow> thenA (maybe_poll env entity) (submit_if_due env entity))"

section \<open>Workers and the loop\<close>

text \<open>A worker runs the submitted flush of an entity; its outcome stays in the future.\<close>

definition work :: "('p, 'd) bronze_env \<Rightarrow> (string \<Rightarrow> arrow_schema) \<Rightarrow> string \<Rightarrow> ('p, 'd, unit) bronze" where
  "work env schemas entity s =
     (if bs_in_flight s entity = Some Submitted then
        (case flush env entity (schemas entity) s of
           None \<Rightarrow> None
         | Some (r, t) \<Rightarrow> set_flight entity (Some (Done r)) t)
      else ret () s)"

fun work_all :: "('p, 'd) bronze_env \<Rightarrow> (string \<Rightarrow> arrow_schema) \<Rightarrow> string list \<Rightarrow> ('p, 'd, unit) bronze" where
  "work_all env schemas [] = ret ()"
| "work_all env schemas (e # es) = thenA (work env schemas e) (work_all env schemas es)"

text \<open>
  One step of the whole consumer: the loop takes the turn of an entity, or a worker finishes the
  flush of one. A run is any sequence of steps; \<open>round_steps\<close> are those of the loop's rounds, with
  the workers that finish before each turn given by a schedule.
\<close>

datatype step = Turn string | Work string

fun do_step :: "('p, 'd) bronze_env \<Rightarrow> (string \<Rightarrow> arrow_schema) \<Rightarrow> step \<Rightarrow> ('p, 'd, unit) bronze" where
  "do_step env schemas (Turn e) = turn env e"
| "do_step env schemas (Work e) = work env schemas e"

fun do_steps :: "('p, 'd) bronze_env \<Rightarrow> (string \<Rightarrow> arrow_schema) \<Rightarrow> step list \<Rightarrow> ('p, 'd, unit) bronze" where
  "do_steps env schemas [] = ret ()"
| "do_steps env schemas (x # xs) = thenA (do_step env schemas x) (do_steps env schemas xs)"

definition round_steps :: "string list \<Rightarrow> (nat \<Rightarrow> nat \<Rightarrow> string list) \<Rightarrow> nat \<Rightarrow> step list" where
  "round_steps entities sched k =
     concat (map (\<lambda>(i, e). map Work (sched k i) @ [Turn e]) (enumerate 0 entities))"

definition loop_steps :: "string list \<Rightarrow> (nat \<Rightarrow> nat \<Rightarrow> string list) \<Rightarrow> nat \<Rightarrow> step list" where
  "loop_steps entities sched iterations = concat (map (round_steps entities sched) [0..<iterations])"

definition initial_state :: "'p \<Rightarrow> 'd \<Rightarrow> ('p, 'd) bronze_state" where
  "initial_state p d =
     \<lparr> bs_provider = p, bs_sink = d, bs_buffers = new_buffer, bs_in_flight = (\<lambda>_. None),
       bs_ticks = 0, bs_metrics = [] \<rparr>"

fun resolve_schemas :: "('p, 'd) bronze_env \<Rightarrow> string list \<Rightarrow> (string, arrow_schema) dict outcome" where
  "resolve_schemas env [] = Inr []"
| "resolve_schemas env (e # es) =
     bindE (be_schema env e) (\<lambda>sc. bindE (resolve_schemas env es) (\<lambda>d. Inr ((e, sc) # d)))"

definition schema_of :: "(string, arrow_schema) dict \<Rightarrow> string \<Rightarrow> arrow_schema" where
  "schema_of d e = (case map_of d e of None \<Rightarrow> [] | Some sc \<Rightarrow> sc)"

text \<open>
  \<open>run_bronze_consumer\<close> with \<open>max_iterations\<close>. Leaving the \<open>with\<close> block, by its end or by an
  exception, waits for every submitted flush. A run without a bound is the limit of these.
\<close>

definition run_bronze_consumer ::
  "('p, 'd) bronze_env \<Rightarrow> string list \<Rightarrow> (nat \<Rightarrow> nat \<Rightarrow> string list) \<Rightarrow> nat \<Rightarrow> ('p, 'd, unit) bronze" where
  "run_bronze_consumer env entities sched max_iterations s =
     (case resolve_schemas env entities of
        Inl e \<Rightarrow> raise e s
      | Inr d \<Rightarrow>
          (case do_steps env (schema_of d) (loop_steps entities sched max_iterations) s of
             None \<Rightarrow> None
           | Some (r, t) \<Rightarrow>
               (case work_all env (schema_of d) entities t of
                  None \<Rightarrow> None
                | Some (_, u) \<Rightarrow> Some (r, u))))"

end
