(* ===== verification/Dags.thy ===== *)
theory Dags
  imports Bronze_Consumer Storage Stages
begin

text \<open>
  Two DAGs of Airflow: the watcher that triggers the batch pipeline when Bronze has new records
  (\<open>airflow/dags/order_status_history_lag_watcher.py\<close>) and the daily maintenance of the streaming
  tables (\<open>airflow/dags/bronze_streaming_maintenance.py\<close>). Airflow's variables, Python's floats and
  the library \<open>deltalake\<close> are parameters; what is logged is left out.
\<close>

section \<open>The watcher\<close>

text \<open>\<open>vs_get\<close> gives \<open>None\<close> for a variable that is not set.\<close>

record 'w variable_store =
  vs_get :: "string \<Rightarrow> 'w \<Rightarrow> string option outcome \<times> 'w"
  vs_set :: "string \<Rightarrow> string \<Rightarrow> 'w \<Rightarrow> unit outcome \<times> 'w"

text \<open>\<open>float\<close> of a text and of a JSON value, \<open>str\<close> of a float, and \<open>==\<close>.\<close>

record 'f floats =
  fl_of_text :: "string \<Rightarrow> 'f outcome"
  fl_of_json :: "json \<Rightarrow> 'f outcome"
  fl_str :: "'f \<Rightarrow> string"
  fl_eq :: "'f \<Rightarrow> 'f \<Rightarrow> bool"

definition last_consumed_variable :: string where
  "last_consumed_variable = ''order_status_history_lag_watcher_last_consumed_count''"

definition variable_get :: "'w variable_store \<Rightarrow> string \<Rightarrow> string \<Rightarrow> ('w, string) act" where
  "variable_get vs k default_var =
     bindA (call (vs_get vs k)) (\<lambda>v. ret (case v of None \<Rightarrow> default_var | Some t \<Rightarrow> t))"

text \<open>\<open>v.get(k, d)\<close> and \<open>v[i]\<close> of a JSON value.\<close>

fun json_get_or :: "json \<Rightarrow> string \<Rightarrow> json \<Rightarrow> json outcome" where
  "json_get_or (JObj kvs) k d = Inr (case map_of kvs k of None \<Rightarrow> d | Some v \<Rightarrow> v)"
| "json_get_or v k d = Inl (Exn ''AttributeError'' ''get'')"

fun json_item :: "json \<Rightarrow> nat \<Rightarrow> json outcome" where
  "json_item (JList xs) i =
     (if i < length xs then Inr (xs ! i) else Inl (Exn ''IndexError'' ''list index out of range''))"
| "json_item (JStr s) i =
     (if i < length s then Inr (JStr [s ! i]) else Inl (Exn ''IndexError'' ''string index out of range''))"
| "json_item (JObj kvs) i = Inl (Exn ''KeyError'' (show_nat i))"
| "json_item v i = Inl (type_error ''object is not subscriptable'')"

text \<open>The results of the query, and the counter's value in the first of them.\<close>

definition query_results :: "json \<Rightarrow> json outcome" where
  "query_results payload =
     bindE (json_get_or payload ''data'' (JObj [])) (\<lambda>d. json_get_or d ''result'' (JList []))"

definition counter_value :: "'f floats \<Rightarrow> json \<Rightarrow> 'f outcome" where
  "counter_value fl results =
     bindE (json_item results 0) (\<lambda>r. bindE (json_sub r ''value'') (\<lambda>v.
     bindE (json_item v 1) (fl_of_json fl)))"

text \<open>\<open>response.json()\<close> is the argument: what it gave, or raised.\<close>

definition new_records_detected ::
  "'w variable_store \<Rightarrow> 'f floats \<Rightarrow> json outcome \<Rightarrow> ('w, bool) act" where
  "new_records_detected vs fl response =
     bindA (lift (bindE response query_results)) (\<lambda>results.
       if \<not> json_truth results then ret False
       else
         bindA (lift (counter_value fl results)) (\<lambda>current_value.
         bindA (variable_get vs last_consumed_variable ''0'') (\<lambda>text.
         bindA (lift (fl_of_text fl text)) (\<lambda>last_consumed.
           if fl_eq fl current_value last_consumed then ret False
           else thenA (call (vs_set vs last_consumed_variable (fl_str fl current_value))) (ret True)))))"

text \<open>The sensor pokes again until the check answers \<open>True\<close>; then the DAG triggers the pipeline and itself.\<close>

fun watch :: "'w variable_store \<Rightarrow> 'f floats \<Rightarrow> json outcome list \<Rightarrow> ('w, bool list) act" where
  "watch vs fl [] = ret []"
| "watch vs fl (r # rs) =
     bindA (new_records_detected vs fl r) (\<lambda>fired. bindA (watch vs fl rs) (\<lambda>later. ret (fired # later)))"

section \<open>Maintenance of the streaming tables\<close>

text \<open>
  \<open>dt_open\<close> is \<open>DeltaTable(uri, ...)\<close> with the credentials of the DAG; \<open>dt_vacuum\<close> is asked with a
  retention in hours, without a dry run.
\<close>

record ('w, 't) delta_tables =
  dt_open :: "string \<Rightarrow> 'w \<Rightarrow> 't outcome \<times> 'w"
  dt_compact :: "'t \<Rightarrow> 'w \<Rightarrow> (string, int) dict outcome \<times> 'w"
  dt_vacuum :: "'t \<Rightarrow> nat \<Rightarrow> 'w \<Rightarrow> string list outcome \<times> 'w"

definition retention_hours :: nat where
  "retention_hours = 168"

definition metric_or_zero :: "string \<Rightarrow> (string, int) dict \<Rightarrow> int" where
  "metric_or_zero k m = (case map_of m k of None \<Rightarrow> 0 | Some n \<Rightarrow> n)"

definition optimize_entity :: "('w, 't) delta_tables \<Rightarrow> string \<Rightarrow> ('w, (string, int) dict) act" where
  "optimize_entity dt entity =
     bindA (call (dt_open dt (config_bronze entity))) (\<lambda>t.
     bindA (call (dt_compact dt t)) (\<lambda>metrics.
       ret [(''filesAdded'', metric_or_zero ''numFilesAdded'' metrics),
            (''filesRemoved'', metric_or_zero ''numFilesRemoved'' metrics)]))"

definition vacuum_entity :: "('w, 't) delta_tables \<Rightarrow> string \<Rightarrow> ('w, string list) act" where
  "vacuum_entity dt entity =
     bindA (call (dt_open dt (config_bronze entity))) (\<lambda>t. call (dt_vacuum dt t retention_hours))"

text \<open>The loop over the entities: what each gave, and the text of each exception.\<close>

fun over_entities ::
  "(string \<Rightarrow> ('w, 'a) act) \<Rightarrow> string list \<Rightarrow> (string, 'a) dict \<Rightarrow> (string, string) dict \<Rightarrow>
     ('w, (string, 'a) dict \<times> (string, string) dict) act" where
  "over_entities f [] results errors = ret (results, errors)"
| "over_entities f (e # es) results errors =
     bindA (caught (f e)) (\<lambda>r. case r of
       Inr a \<Rightarrow> over_entities f es (AList.update e a results) errors
     | Inl exc \<Rightarrow> over_entities f es results (AList.update e (exn_text exc) errors))"

definition entities_failed :: "string \<Rightarrow> (string, string) dict \<Rightarrow> exn" where
  "entities_failed what errors = runtime_error
     (what @ '' failed for '' @ show_nat (length errors) @ '' of '' @ show_nat (length streaming_entities) @
      '' entities:'' @ [CHR 0x0A] @
      join [CHR 0x0A] (map (\<lambda>(e, m). ''  - '' @ e @ '': '' @ m) errors))"

definition optimize_bronze :: "('w, 't) delta_tables \<Rightarrow> ('w, (string, (string, int) dict) dict) act" where
  "optimize_bronze dt =
     bindA (over_entities (optimize_entity dt) streaming_entities [] []) (\<lambda>(results, errors).
       if errors \<noteq> [] then raise (entities_failed ''OPTIMIZE'' errors) else ret results)"

text \<open>The number of files deleted, which the task logs.\<close>

definition vacuum_bronze :: "('w, 't) delta_tables \<Rightarrow> ('w, nat) act" where
  "vacuum_bronze dt =
     bindA (over_entities (vacuum_entity dt) streaming_entities [] []) (\<lambda>(results, errors).
       if errors \<noteq> [] then raise (entities_failed ''VACUUM'' errors)
       else ret (sum_list (map (length \<circ> snd) results)))"

text \<open>The second task needs the result of the first, so it runs only when the first returned.\<close>

definition bronze_streaming_maintenance :: "('w, 't) delta_tables \<Rightarrow> ('w, nat) act" where
  "bronze_streaming_maintenance dt = bindA (optimize_bronze dt) (\<lambda>_. vacuum_bronze dt)"

end
