(* ===== verification/Notebooks.thy ===== *)
theory Notebooks
  imports Silver Databricks Dags
begin

text \<open>
  The notebooks of the Databricks job \<open>Full Pipeline\<close> (\<open>notebooks/bronze\<close>, \<open>notebooks/silver\<close>,
  \<open>infrastructure/databricks/full_pipeline.yml\<close>): the raw files of each entity become its Bronze table,
  which is looked at, compacted and transformed into its Silver table. Spark is a parameter, its
  DataFrames stand for their columns and rows; what is printed is left out, but not the jobs that
  printing runs.
\<close>

section \<open>Spark\<close>

text \<open>
  The two readers and the writer of \<open>compute/delta_io.py\<close> on a session; \<open>sk_show\<close> and \<open>sk_count\<close> run a
  job; \<open>sk_files\<close> is \<open>DESCRIBE DETAIL\<close> of a table; \<open>sk_nulls\<close> selects the counts of nulls, \<open>sk_repeated\<close>
  the rows that occur more than once.
\<close>

record ('d, 'w) spark_session =
  sk_widget_text :: "string \<Rightarrow> string \<Rightarrow> 'w \<Rightarrow> unit outcome \<times> 'w"
  sk_widget_get :: "string \<Rightarrow> 'w \<Rightarrow> string outcome \<times> 'w"
  sk_start :: "string \<Rightarrow> 'w \<Rightarrow> unit outcome \<times> 'w"
  sk_load :: "string \<Rightarrow> string \<Rightarrow> 'w \<Rightarrow> 'd outcome \<times> 'w"
  sk_save :: "string \<Rightarrow> string \<Rightarrow> 'd \<Rightarrow> string \<Rightarrow> 'w \<Rightarrow> unit outcome \<times> 'w"
  sk_show :: "'d \<Rightarrow> 'w \<Rightarrow> unit outcome \<times> 'w"
  sk_count :: "'d \<Rightarrow> 'w \<Rightarrow> int outcome \<times> 'w"
  sk_files :: "string \<Rightarrow> 'w \<Rightarrow> int outcome \<times> 'w"
  sk_coalesce :: "nat \<Rightarrow> 'd \<Rightarrow> 'd outcome"
  sk_nulls :: "'d \<Rightarrow> 'd outcome"
  sk_repeated :: "'d \<Rightarrow> 'd outcome"

definition read_delta :: "('d, 'w) spark_session \<Rightarrow> string \<Rightarrow> ('w, 'd) act" where
  "read_delta sk path = call (sk_load sk ''delta'' path)"

definition write_delta :: "('d, 'w) spark_session \<Rightarrow> 'd \<Rightarrow> string \<Rightarrow> string \<Rightarrow> ('w, unit) act" where
  "write_delta sk df path mode = call (sk_save sk ''delta'' mode df path)"

definition read_raw :: "('d, 'w) spark_session \<Rightarrow> string \<Rightarrow> ('w, 'd) act" where
  "read_raw sk path = call (sk_load sk ''parquet'' path)"

section \<open>What every notebook does\<close>

definition listed_entities :: "string \<Rightarrow> string list" where
  "listed_entities t = filter (\<lambda>e. e \<noteq> []) (map strip (split_on CHR '','' t))"

definition notebook_entities :: "('d, 'w) spark_session \<Rightarrow> ('w, string list) act" where
  "notebook_entities sk =
     bindA (get_parameter (sk_widget_text sk) (sk_widget_get sk) ''entities'' (Some ''customers'')) (\<lambda>x. case x of
       None \<Rightarrow> raise (attribute_error ''split'')
     | Some t \<Rightarrow> ret (listed_entities t))"

definition notebook_failed :: "(string, string) dict \<Rightarrow> string list \<Rightarrow> exn" where
  "notebook_failed errors entities = runtime_error
     (show_nat (length errors) @ '' of '' @ show_nat (length entities) @ '' entities failed:'' @ [CHR 0x0A] @
      join [CHR 0x0A] (map (\<lambda>(e, m). ''  - '' @ e @ '': '' @ m) errors))"

definition run_notebook ::
  "('d, 'w) spark_session \<Rightarrow> string \<Rightarrow> (string \<Rightarrow> ('w, unit) act) \<Rightarrow> ('w, unit) act" where
  "run_notebook sk app_name f =
     bindA (notebook_entities sk) (\<lambda>entities.
     thenA (call (sk_start sk app_name))
    (bindA (over_entities f entities [] []) (\<lambda>(_, errors).
       if errors \<noteq> [] then raise (notebook_failed errors entities) else ret ())))"

section \<open>The notebooks\<close>

definition ingest_entity :: "('d, 'w) spark_session \<Rightarrow> string \<Rightarrow> ('w, unit) act" where
  "ingest_entity sk entity =
     bindA (read_raw sk (config_raw entity)) (\<lambda>raw_df.
     thenA (call (sk_show sk raw_df))
    (thenA (write_delta sk raw_df (config_bronze_batch entity) ''overwrite'')
    (bindA (read_delta sk (config_bronze_batch entity)) (\<lambda>bronze_df.
     thenA (call (sk_count sk bronze_df)) (ret ())))))"

definition validate_entity :: "('d, 'w) spark_session \<Rightarrow> string \<Rightarrow> ('w, unit) act" where
  "validate_entity sk entity =
     bindA (read_delta sk (config_bronze_batch entity)) (\<lambda>bronze_df.
     thenA (call (sk_show sk bronze_df))
    (bindA (call (sk_count sk bronze_df)) (\<lambda>total_records.
     bindA (lift (sk_nulls sk bronze_df)) (\<lambda>null_counts.
     thenA (call (sk_show sk null_counts))
    (bindA (lift (sk_repeated sk bronze_df)) (\<lambda>duplicate_df.
     thenA (call (sk_show sk duplicate_df))
    (thenA (call (sk_count sk duplicate_df)) (ret ()))))))))"

definition optimize_batch_entity :: "('d, 'w) spark_session \<Rightarrow> string \<Rightarrow> ('w, unit) act" where
  "optimize_batch_entity sk entity =
     bindA (read_delta sk (config_bronze_batch entity)) (\<lambda>bronze_df.
     thenA (call (sk_show sk bronze_df))
    (thenA (call (sk_files sk (config_bronze_batch entity)))
    (bindA (lift (sk_coalesce sk 1 bronze_df)) (\<lambda>optimized_df.
     thenA (write_delta sk optimized_df (config_bronze_batch entity) ''overwrite'')
    (bindA (read_delta sk (config_bronze_batch entity)) (\<lambda>optimized_validation_df.
     thenA (call (sk_count sk optimized_validation_df))
    (thenA (call (sk_files sk (config_bronze_batch entity))) (ret ()))))))))"

definition transform_entity :: "('d, 'w) spark_session \<Rightarrow> 'd spark_api \<Rightarrow> string \<Rightarrow> ('w, unit) act" where
  "transform_entity sk api entity =
     bindA (read_delta sk (config_bronze_batch entity)) (\<lambda>df.
     bindA (lift (apply_standard_transformations api None default_order_column df)) (\<lambda>df.
     thenA (write_delta sk df (config_silver entity) ''overwrite'')
    (thenA (call (sk_count sk df)) (ret ()))))"

definition ingest_sources :: "('d, 'w) spark_session \<Rightarrow> ('w, unit) act" where
  "ingest_sources sk = run_notebook sk ''Bronze Ingestion'' (ingest_entity sk)"

definition validate_bronze :: "('d, 'w) spark_session \<Rightarrow> ('w, unit) act" where
  "validate_bronze sk = run_notebook sk ''Bronze Validation'' (validate_entity sk)"

definition optimize_batch_bronze :: "('d, 'w) spark_session \<Rightarrow> ('w, unit) act" where
  "optimize_batch_bronze sk = run_notebook sk ''Bronze Optimization'' (optimize_batch_entity sk)"

definition transform_silver :: "('d, 'w) spark_session \<Rightarrow> 'd spark_api \<Rightarrow> ('w, unit) act" where
  "transform_silver sk api = run_notebook sk ''Silver Layer'' (transform_entity sk api)"

text \<open>Each task of the job depends on the one before it.\<close>

definition full_pipeline :: "('d, 'w) spark_session \<Rightarrow> 'd spark_api \<Rightarrow> ('w, unit) act" where
  "full_pipeline sk api =
     thenA (ingest_sources sk)
    (thenA (validate_bronze sk)
    (thenA (optimize_batch_bronze sk)
           (transform_silver sk api)))"

end
