(* ===== verification/Silver_Rows.thy ===== *)
theory Silver_Rows
  imports Silver "HOL-Library.Multiset"
begin

text \<open>
  Which rows the Silver transformations leave, over what Spark documents of a DataFrame: a multiset of
  rows, each a map from its columns to values. And DataFrames in memory, for the witness.
\<close>

section \<open>What Spark documents\<close>

type_synonym 'v data_row = "string \<Rightarrow> 'v option"

text \<open>
  \<open>fv_num\<close> is the value of an integer, \<open>fv_ge\<close> the descending order of values, \<open>NULL\<close> included.
  \<open>row_number()\<close> numbers the rows of every partition from 1, in the order of the window, ties
  anyhow.
\<close>

record ('d, 'v) frame_view =
  fv_rows :: "'d \<Rightarrow> 'v data_row multiset"
  fv_num :: "int \<Rightarrow> 'v"
  fv_ge :: "'v option \<Rightarrow> 'v option \<Rightarrow> bool"

definition key_of :: "string list \<Rightarrow> 'v data_row \<Rightarrow> 'v option list" where
  "key_of keys r = map r keys"

definition numbering :: "('r \<Rightarrow> 'k) \<Rightarrow> ('r \<Rightarrow> 'r \<Rightarrow> bool) \<Rightarrow> ('r \<times> nat) list \<Rightarrow> bool" where
  "numbering key ge ps \<longleftrightarrow>
     (\<forall>\<kappa>. mset (map snd (filter (\<lambda>p. key (fst p) = \<kappa>) ps)) =
        mset [1..<Suc (length (filter (\<lambda>p. key (fst p) = \<kappa>) ps))]) \<and>
     (\<forall>p \<in> set ps. \<forall>q \<in> set ps. key (fst p) = key (fst q) \<longrightarrow> snd p \<le> snd q \<longrightarrow> ge (fst p) (fst q))"

definition row_number_law :: "'d spark_api \<Rightarrow> ('d, 'v) frame_view \<Rightarrow> bool" where
  "row_number_law api V \<longleftrightarrow>
     (\<forall>new keys ord d d'. sp_row_number api new keys ord d = Inr d' \<longrightarrow>
        set keys \<subseteq> set (sp_columns api d) \<and> ord \<in> set (sp_columns api d) \<and>
        (\<exists>ps. mset (map fst ps) = fv_rows V d \<and> numbering (key_of keys) (\<lambda>r r'. fv_ge V (r ord) (r' ord)) ps \<and>
           fv_rows V d' = mset (map (\<lambda>(r, k). r(new \<mapsto> fv_num V (int k))) ps)))"

definition spark_laws :: "'d spark_api \<Rightarrow> ('d, 'v) frame_view \<Rightarrow> bool" where
  "spark_laws api V \<longleftrightarrow> inj (fv_num V) \<and>
     (\<forall>d. \<forall>r \<in># fv_rows V d. dom r \<subseteq> set (sp_columns api d)) \<and>
     (\<forall>names d d'. sp_to_df api names d = Inr d' \<longrightarrow> sp_columns api d' = names) \<and>
     (\<forall>n d d'. sp_trim api n d = Inr d' \<longrightarrow> sp_columns api d' = sp_columns api d) \<and>
     (\<forall>cols d d'. sp_drop_duplicates api cols d = Inr d' \<longrightarrow> sp_columns api d' = sp_columns api d) \<and>
     row_number_law api V \<and>
     (\<forall>n k d d'. sp_filter_eq api n k d = Inr d' \<longrightarrow>
        fv_rows V d' = filter_mset (\<lambda>r. r n = Some (fv_num V k)) (fv_rows V d)) \<and>
     (\<forall>n d d'. sp_drop api n d = Inr d' \<longrightarrow> fv_rows V d' = image_mset (\<lambda>r. r(n := None)) (fv_rows V d))"

section \<open>The latest row of each key\<close>

definition latest_per_key :: "('r \<Rightarrow> 'k) \<Rightarrow> ('r \<Rightarrow> 'r \<Rightarrow> bool) \<Rightarrow> 'r multiset \<Rightarrow> 'r multiset \<Rightarrow> bool" where
  "latest_per_key key ge R R' \<longleftrightarrow> R' \<subseteq># R \<and>
     (\<forall>\<kappa>. size {#r \<in># R'. key r = \<kappa>#} = (if \<kappa> \<in> key ` set_mset R then 1 else 0)) \<and>
     (\<forall>r' \<in># R'. \<forall>r \<in># R. key r = key r' \<longrightarrow> ge r' r)"

lemma count_numbered: "count (mset (map snd (filter P ps))) k = length (filter (\<lambda>p. snd p = k \<and> P p) ps)"
  by (induction ps) auto

lemma count_upt_one: "count (mset [1..<Suc n]) 1 = (if n = 0 then 0 else 1)"
  by (induction n) auto

lemma numbering_latest:
  assumes "numbering key ge ps"
  shows "latest_per_key key ge (mset (map fst ps)) (mset (map fst (filter (\<lambda>p. snd p = 1) ps)))"
proof -
  have count: "length (filter (\<lambda>p. snd p = 1 \<and> key (fst p) = \<kappa>) ps) =
      (if \<kappa> \<in> key ` fst ` set ps then 1 else 0)" for \<kappa>
  proof -
    let ?group = "filter (\<lambda>p. key (fst p) = \<kappa>) ps"
    have "length (filter (\<lambda>p. snd p = 1 \<and> key (fst p) = \<kappa>) ps) = count (mset (map snd ?group)) 1"
      by (rule count_numbered [symmetric])
    also have "\<dots> = count (mset [1..<Suc (length ?group)]) 1"
      using assms by (simp add: numbering_def)
    also have "\<dots> = (if length ?group = 0 then 0 else 1)"
      by (rule count_upt_one)
    also have "\<dots> = (if \<kappa> \<in> key ` fst ` set ps then 1 else 0)"
      by (auto simp: filter_empty_conv)
    finally show ?thesis .
  qed
  have first: "1 \<le> snd p" if "p \<in> set ps" for p
  proof -
    let ?group = "filter (\<lambda>q. key (fst q) = key (fst p)) ps"
    have "mset (map snd ?group) = mset [1..<Suc (length ?group)]"
      using assms unfolding numbering_def by blast
    then have "set (map snd ?group) = set [1..<Suc (length ?group)]" by (metis set_mset_mset)
    moreover have "snd p \<in> set (map snd ?group)" using that by auto
    ultimately have "snd p \<in> set [1..<Suc (length ?group)]" by blast
    then show ?thesis by (simp only: set_upt atLeastLessThan_iff)
  qed
  show ?thesis
    unfolding latest_per_key_def
  proof (intro conjI allI ballI impI)
    show "mset (map fst (filter (\<lambda>p. snd p = 1) ps)) \<subseteq># mset (map fst ps)"
      by (simp add: image_mset_subseteq_mono)
    show "size {#r \<in># mset (map fst (filter (\<lambda>p. snd p = 1) ps)). key r = \<kappa>#} =
        (if \<kappa> \<in> key ` set_mset (mset (map fst ps)) then 1 else 0)" for \<kappa>
    proof -
      have "size {#r \<in># mset (map fst (filter (\<lambda>p. snd p = 1) ps)). key r = \<kappa>#} =
          length (filter (\<lambda>r. key r = \<kappa>) (map fst (filter (\<lambda>p. snd p = 1) ps)))"
        by (metis mset_filter size_mset)
      with count [of \<kappa>] show ?thesis by (simp add: filter_map o_def conj_commute)
    qed
    fix r' r
    assume "r' \<in># mset (map fst (filter (\<lambda>p. snd p = 1) ps))" and "r \<in># mset (map fst ps)" and "key r = key r'"
    then obtain p p' where "p \<in> set ps" "p' \<in> set ps" "snd p' = 1" "r = fst p" "r' = fst p'" "key (fst p) = key (fst p')"
      by auto
    with first [of p] assms show "ge r' r" unfolding numbering_def by metis
  qed
qed

lemma deduplicate_latest:
  assumes laws: "spark_laws api V" and dedup: "deduplicate_by_key api keys ord d = Inr d'"
    and fresh: "dedup_rank \<notin> set (sp_columns api d)"
  shows "latest_per_key (key_of keys) (\<lambda>r r'. fv_ge V (r ord) (r' ord)) (fv_rows V d) (fv_rows V d')"
proof -
  obtain d1 d2 where d1: "sp_row_number api dedup_rank keys ord d = Inr d1"
      and d2: "sp_filter_eq api dedup_rank 1 d1 = Inr d2" and d': "sp_drop api dedup_rank d2 = Inr d'"
    using dedup by (auto simp: deduplicate_by_key_def bindE_eq_Inr_iff)
  have row_law: "row_number_law api V" using laws by (simp add: spark_laws_def)
  obtain ps where ps: "mset (map fst ps) = fv_rows V d"
      and num: "numbering (key_of keys) (\<lambda>r r'. fv_ge V (r ord) (r' ord)) ps"
      and rows1: "fv_rows V d1 = mset (map (\<lambda>(r, k). r(dedup_rank \<mapsto> fv_num V (int k))) ps)"
    using row_law [unfolded row_number_law_def, rule_format, OF d1] by blast
  have inj: "fv_num V (int k) = fv_num V 1 \<longleftrightarrow> k = 1" for k
    using laws unfolding spark_laws_def inj_def by (metis of_nat_1 of_nat_eq_iff)
  have old: "(fst p)(dedup_rank := None) = fst p" if "p \<in> set ps" for p
  proof -
    have "fst p \<in># fv_rows V d" using that ps by (metis image_eqI list.set_map set_mset_mset)
    then have "dom (fst p) \<subseteq> set (sp_columns api d)" using laws unfolding spark_laws_def by blast
    with fresh have "fst p dedup_rank = None" by (meson domIff subsetD)
    then show ?thesis by (auto simp: fun_eq_iff)
  qed
  let ?firsts = "filter (\<lambda>p. snd p = 1) ps" and ?number = "\<lambda>(r, k). r(dedup_rank \<mapsto> fv_num V (int k))"
  have "fv_rows V d2 = filter_mset (\<lambda>r. r dedup_rank = Some (fv_num V 1)) (fv_rows V d1)"
    using laws d2 unfolding spark_laws_def by blast
  also have "\<dots> = mset (map ?number ?firsts)"
    unfolding rows1 mset_filter [symmetric] filter_map by (simp add: o_def case_prod_beta inj)
  finally have d2_rows: "fv_rows V d2 = mset (map ?number ?firsts)" .
  have "fv_rows V d' = image_mset (\<lambda>r. r(dedup_rank := None)) (fv_rows V d2)"
    using laws d' unfolding spark_laws_def by blast
  also have "\<dots> = mset (map (\<lambda>r. r(dedup_rank := None)) (map ?number ?firsts))"
    unfolding d2_rows by (simp only: mset_map)
  also have "map (\<lambda>r. r(dedup_rank := None)) (map ?number ?firsts) = map fst ?firsts"
    using old by force
  finally have "fv_rows V d' = mset (map fst ?firsts)" .
  with numbering_latest [OF num] ps show ?thesis by simp
qed

lemma trim_fields_columns:
  assumes "spark_laws api V"
  shows "trim_fields api fs d = Inr d' \<Longrightarrow> sp_columns api d' = sp_columns api d"
proof (induction fs arbitrary: d)
  case (Cons f fs)
  have "sp_trim api n d = Inr d1 \<Longrightarrow> sp_columns api d1 = sp_columns api d" for n d1
    using assms unfolding spark_laws_def by blast
  with Cons show ?case by (cases f) (auto simp: bindE_eq_Inr_iff split: if_splits)
qed simp

lemma normalized_fresh: "dedup_rank \<notin> set (map normalize_name columns)"
proof
  assume "dedup_rank \<in> set (map normalize_name columns)"
  then obtain c where "dedup_rank = normalize_name c" by auto
  moreover have "normalize_name dedup_rank \<noteq> dedup_rank" by code_simp
  ultimately show False using normalize_fixed by metis
qed

text \<open>
  C36. With natural keys, the Silver transformations leave one row per key: of the rows as they are after
  normalising, trimming and dropping duplicates, those kept are, for every key that occurs, exactly one
  row, and none with its key comes before it in the order asked for. The helper column cannot be
  taken for one of the table's, whose names have lost their leading underscores.
\<close>

theorem silver_latest_row_per_key:
  assumes "spark_laws api V" and "keys \<noteq> []"
    and "apply_standard_transformations api (Some keys) ord d = Inr d'"
  shows "\<exists>clean latest. bindE (bindE (normalize_column_names api d) (trim_string_columns api)) (remove_duplicates api None) = Inr clean \<and>
    latest_per_key (key_of keys) (\<lambda>r r'. fv_ge V (r ord) (r' ord)) (fv_rows V clean) (fv_rows V latest) \<and>
    add_metadata api latest = Inr d'"
proof -
  obtain named trimmed clean latest where named: "normalize_column_names api d = Inr named"
      and trimmed: "trim_string_columns api named = Inr trimmed"
      and clean: "remove_duplicates api None trimmed = Inr clean"
      and latest: "deduplicate_by_key api keys ord clean = Inr latest" and "add_metadata api latest = Inr d'"
    using assms(2,3) by (auto simp: apply_standard_transformations_def bindE_eq_Inr_iff)
  moreover have "sp_columns api named = map normalize_name (sp_columns api d)"
    using assms(1) named unfolding spark_laws_def normalize_column_names_def by blast
  moreover have "sp_columns api trimmed = sp_columns api named"
    using trim_fields_columns [OF assms(1)] trimmed by (simp add: trim_string_columns_def)
  moreover have "sp_columns api clean = sp_columns api trimmed"
    using assms(1) clean unfolding spark_laws_def remove_duplicates_def by simp
  ultimately show ?thesis
    using deduplicate_latest [OF assms(1) latest] normalized_fresh by auto
qed

section \<open>DataFrames in memory\<close>

text \<open>Columns, and rows of the values they have.\<close>

type_synonym frame = "string list \<times> (string, int) dict list"

fun number_rows :: "('r \<Rightarrow> 'k) \<Rightarrow> 'r list \<Rightarrow> 'r list \<Rightarrow> ('r \<times> nat) list" where
  "number_rows key seen [] = []"
| "number_rows key seen (r # rs) =
     (r, Suc (length (filter (\<lambda>x. key x = key r) seen))) # number_rows key (r # seen) rs"

lemma number_rows_fst: "map fst (number_rows key seen rs) = rs"
  by (induction rs arbitrary: seen) simp_all

lemma number_rows_group:
  "map snd (filter (\<lambda>p. key (fst p) = \<kappa>) (number_rows key seen rs)) =
     [Suc (length (filter (\<lambda>x. key x = \<kappa>) seen))..<
      Suc (length (filter (\<lambda>x. key x = \<kappa>) seen) + length (filter (\<lambda>x. key x = \<kappa>) rs))]"
proof (induction rs arbitrary: seen)
  case (Cons r rs)
  show ?case
    by (cases "key r = \<kappa>") (simp_all add: Cons.IH upt_conv_Cons del: upt_Suc)
qed simp

lemma number_rows_ge:
  assumes "sorted_wrt ge rs" and "\<And>r. ge r r"
  shows "\<forall>p \<in> set (number_rows key seen rs). \<forall>q \<in> set (number_rows key seen rs).
    key (fst p) = key (fst q) \<longrightarrow> snd p \<le> snd q \<longrightarrow> ge (fst p) (fst q)"
  using assms(1)
proof (induction rs arbitrary: seen)
  case (Cons r rs)
  have later: "length (filter (\<lambda>x. key x = key r) seen) + 2 \<le> snd p"
    if "p \<in> set (number_rows key (r # seen) rs)" "key (fst p) = key r" for p
  proof -
    have "snd p \<in> set (map snd (filter (\<lambda>p. key (fst p) = key r) (number_rows key (r # seen) rs)))"
      using that by auto
    then show ?thesis unfolding number_rows_group by (simp del: upt_Suc)
  qed
  have "fst ` set (number_rows key (r # seen) rs) = set rs"
    by (metis list.set_map number_rows_fst)
  then have head: "ge r (fst q)" if "q \<in> set (number_rows key (r # seen) rs)" for q
    using Cons.prems that by auto
  let ?h = "(r, Suc (length (filter (\<lambda>x. key x = key r) seen)))"
  show ?case
  proof (intro ballI impI)
    fix p q
    assume mem: "p \<in> set (number_rows key seen (r # rs))" "q \<in> set (number_rows key seen (r # rs))"
      and eq: "key (fst p) = key (fst q)" and le: "snd p \<le> snd q"
    show "ge (fst p) (fst q)"
    proof (cases "p = ?h")
      case True
      with mem(2) head [of q] assms(2) show ?thesis by auto
    next
      case False
      then have p: "p \<in> set (number_rows key (r # seen) rs)" using mem(1) by simp
      show ?thesis
      proof (cases "q = ?h")
        case True
        with later [OF p] eq le show ?thesis by simp
      next
        case False
        with mem(2) Cons.IH [of "r # seen"] Cons.prems p eq le show ?thesis by simp
      qed
    qed
  qed
qed simp

lemma number_rows_map:
  "number_rows key (map f seen) (map f rs) = map (map_prod f id) (number_rows (key \<circ> f) seen rs)"
proof (induction rs arbitrary: seen)
  case (Cons r rs)
  from Cons.IH [of "r # seen"] show ?case by (simp add: filter_map o_def)
qed simp

lemma number_rows_numbering:
  assumes "sorted_wrt ge rs" and "\<And>r. ge r r"
  shows "numbering key ge (number_rows key [] rs)"
proof -
  have "map snd (filter (\<lambda>p. key (fst p) = \<kappa>) (number_rows key [] rs)) =
      [1..<Suc (length (filter (\<lambda>p. key (fst p) = \<kappa>) (number_rows key [] rs)))]" for \<kappa>
  proof -
    note group = number_rows_group [of key \<kappa> "[]" rs]
    have size: "length (filter (\<lambda>p. key (fst p) = \<kappa>) (number_rows key [] rs)) = length (filter (\<lambda>x. key x = \<kappa>) rs)"
      using arg_cong [OF group, of length] by (simp del: upt_Suc)
    show ?thesis unfolding group size by (simp del: upt_Suc)
  qed
  then show ?thesis
    unfolding numbering_def by (intro conjI allI number_rows_ge [OF assms]) (simp only:)
qed

definition cells :: "string list \<Rightarrow> (string, int) dict \<Rightarrow> int data_row" where
  "cells cols r = (\<lambda>n. if n \<in> set cols then map_of r n else None)"

definition mem_row_number :: "string \<Rightarrow> string list \<Rightarrow> string \<Rightarrow> frame \<Rightarrow> frame outcome" where
  "mem_row_number new keys ord d =
     (case d of (cols, rows) \<Rightarrow>
        if set keys \<subseteq> set cols \<and> ord \<in> set cols \<and> (\<forall>r \<in> set rows. map_of r ord \<noteq> None) then
          Inr (new # cols,
            map (\<lambda>(r, k). AList.update new (int k) r)
              (number_rows (key_of keys \<circ> cells cols) [] (sort_key (\<lambda>r. - the (map_of r ord)) rows)))
        else Inl (Exn ''AnalysisException'' ''UNRESOLVED_COLUMN''))"

definition mem_spark :: "frame spark_api" where
  "mem_spark =
     \<lparr> sp_columns = fst, sp_schema = (\<lambda>d. map (\<lambda>c. (c, False)) (fst d)),
       sp_to_df = (\<lambda>names d.
         if length names = length (fst d) then
           Inr (names, map (map (\<lambda>(k, x). (case map_of (zip (fst d) names) k of Some n \<Rightarrow> n | None \<Rightarrow> k, x))) (snd d))
         else Inl (value_error ''toDF'')),
       sp_trim = (\<lambda>n d. Inr d),
       sp_drop_duplicates = (\<lambda>cols d. Inr (fst d, remdups (snd d))),
       sp_row_number = mem_row_number,
       sp_filter_eq = (\<lambda>n k d. Inr (fst d, filter (\<lambda>r. cells (fst d) r n = Some k) (snd d))),
       sp_drop = (\<lambda>n d. Inr (filter (\<lambda>c. c \<noteq> n) (fst d), snd d)),
       sp_current_timestamp = (\<lambda>n d. Inr (n # fst d, map (AList.update n 0) (snd d))),
       sp_current_date = (\<lambda>n d. Inr (n # fst d, map (AList.update n 0) (snd d))) \<rparr>"

definition mem_view :: "(frame, int) frame_view" where
  "mem_view =
     \<lparr> fv_rows = (\<lambda>d. mset (map (cells (fst d)) (snd d))), fv_num = (\<lambda>k. k),
       fv_ge = (\<lambda>x y. x = y \<or> (\<exists>a b. x = Some a \<and> y = Some b \<and> b \<le> a)) \<rparr>"

lemma cells_update: "cells (n # cols) (AList.update n x r) = (cells cols r)(n \<mapsto> x)"
  by (auto simp: cells_def fun_eq_iff dict_simps)

lemma cells_drop: "cells (filter (\<lambda>c. c \<noteq> n) cols) r = (cells cols r)(n := None)"
  by (auto simp: cells_def fun_eq_iff)

lemma mem_row_number_law: "row_number_law mem_spark mem_view"
  unfolding row_number_law_def
proof (intro allI impI)
  fix new keys ord d d'
  assume "sp_row_number mem_spark new keys ord d = Inr d'"
  then have run: "mem_row_number new keys ord d = Inr d'" by (simp add: mem_spark_def)
  obtain cols rows where d: "d = (cols, rows)" by (cases d)
  let ?sorted = "sort_key (\<lambda>r. - the (map_of r ord)) rows"
  let ?ge = "\<lambda>r r'. fv_ge mem_view (r ord) (r' ord)"
  let ?ps = "number_rows (key_of keys) [] (map (cells cols) ?sorted)"
  have cols: "set keys \<subseteq> set cols" "ord \<in> set cols" "\<forall>r \<in> set rows. map_of r ord \<noteq> None"
    and d': "d' = (new # cols, map (\<lambda>(r, k). AList.update new (int k) r)
              (number_rows (key_of keys \<circ> cells cols) [] ?sorted))"
    using run by (auto simp: mem_row_number_def d split: if_splits)
  have "sorted_wrt (\<lambda>r r'. - the (map_of r ord) \<le> - the (map_of r' ord)) ?sorted"
    using sorted_sort_key [of "\<lambda>r. - the (map_of r ord)" rows] unfolding sorted_map .
  then have "sorted_wrt (\<lambda>r r'. ?ge (cells cols r) (cells cols r')) ?sorted"
    by (rule sorted_wrt_mono_rel [rotated]) (use cols in \<open>auto simp: mem_view_def cells_def\<close>)
  then have "numbering (key_of keys) ?ge ?ps"
    by (intro number_rows_numbering) (auto simp: sorted_wrt_map mem_view_def)
  moreover have "mset (map fst ?ps) = fv_rows mem_view d"
    by (simp add: number_rows_fst mem_view_def d)
  moreover have "fv_rows mem_view d' = mset (map (\<lambda>(r, k). r(new \<mapsto> fv_num mem_view (int k))) ?ps)"
    using number_rows_map [of "key_of keys" "cells cols" "[]" ?sorted]
    by (simp add: d' mem_view_def o_def case_prod_beta cells_update flip: mset_map)
  ultimately show "set keys \<subseteq> set (sp_columns mem_spark d) \<and> ord \<in> set (sp_columns mem_spark d) \<and>
    (\<exists>ps. mset (map fst ps) = fv_rows mem_view d \<and> numbering (key_of keys) ?ge ps \<and>
      fv_rows mem_view d' = mset (map (\<lambda>(r, k). r(new \<mapsto> fv_num mem_view (int k))) ps))"
    using cols by (auto simp: mem_spark_def d)
qed

lemma mem_spark_laws: "spark_laws mem_spark mem_view"
proof -
  have filtered: "fv_rows mem_view (fst d, filter (\<lambda>r. cells (fst d) r n = Some k) (snd d)) =
      filter_mset (\<lambda>r. r n = Some k) (fv_rows mem_view d)" for n k d
    by (simp add: mem_view_def filter_map o_def flip: mset_map mset_filter)
  have dropped: "fv_rows mem_view (filter (\<lambda>c. c \<noteq> n) (fst d), snd d) =
      image_mset (\<lambda>r. r(n := None)) (fv_rows mem_view d)" for n d
  proof -
    have "cells (filter (\<lambda>c. c \<noteq> n) (fst d)) = (\<lambda>r. (cells (fst d) r)(n := None))"
      by (rule ext) (rule cells_drop)
    then show ?thesis by (simp add: mem_view_def o_def flip: mset_map)
  qed
  have bounded: "x \<in> set cols" if "r \<in># fv_rows mem_view (cols, rows)" "r x = Some y" for r cols rows x y
    using that by (auto simp: mem_view_def cells_def split: if_splits)
  have num: "fv_num mem_view = (\<lambda>k. k)" by (simp add: mem_view_def)
  show ?thesis
    unfolding spark_laws_def num
    by (intro conjI mem_row_number_law)
       (auto simp: mem_spark_def filtered dropped split: if_splits dest: bounded)
qed

text \<open>Two versions of a product: the later one is kept.\<close>

definition two_versions :: frame where
  "two_versions = ([''ProductId'', ''_cdc_ts_ms'', ''price''],
     [[(''ProductId'', 1), (''_cdc_ts_ms'', 10), (''price'', 5)],
      [(''ProductId'', 1), (''_cdc_ts_ms'', 20), (''price'', 7)],
      [(''ProductId'', 2), (''_cdc_ts_ms'', 15), (''price'', 3)]])"

lemma silver_latest_row_per_key_witness:
  "\<exists>d' clean latest. apply_standard_transformations mem_spark (Some [''product_id'']) default_order_column two_versions = Inr d' \<and>
    length (snd d') = 2 \<and>
    latest_per_key (key_of [''product_id'']) (\<lambda>r r'. fv_ge mem_view (r default_order_column) (r' default_order_column))
      (fv_rows mem_view clean) (fv_rows mem_view latest) \<and>
    add_metadata mem_spark latest = Inr d'"
proof -
  have "map_sum (\<lambda>_. ()) (\<lambda>d. length (snd d))
      (apply_standard_transformations mem_spark (Some [''product_id'']) default_order_column two_versions) = Inr 2"
    by code_simp
  then obtain d' where d': "apply_standard_transformations mem_spark (Some [''product_id''])
      default_order_column two_versions = Inr d'" and "length (snd d') = 2"
    by (cases "apply_standard_transformations mem_spark (Some [''product_id'']) default_order_column two_versions") auto
  with silver_latest_row_per_key [OF mem_spark_laws _ d'] show ?thesis by auto
qed

end
