(* ===== verification/Notebook_Properties.thy ===== *)
theory Notebook_Properties
  imports Notebooks Silver_Rows Batch_Dag
begin

text \<open>What the notebooks make of the raw layer, entity by entity and through the whole job.\<close>

section \<open>The tables\<close>

text \<open>What is readable at a path, as files and as a Delta table.\<close>

record ('d, 'w) table_view =
  tv_files :: "'w \<Rightarrow> string \<Rightarrow> 'd option"
  tv_tables :: "'w \<Rightarrow> string \<Rightarrow> 'd option"

definition same_tables :: "('d, 'w) table_view \<Rightarrow> 'w \<Rightarrow> 'w \<Rightarrow> bool" where
  "same_tables V w w' \<longleftrightarrow> tv_files V w' = tv_files V w \<and> tv_tables V w' = tv_tables V w"

definition untouched :: "('d, 'w) table_view \<Rightarrow> ('w, 'a) act \<Rightarrow> bool" where
  "untouched V m \<longleftrightarrow> (\<forall>w. wlp m (\<lambda>_ w'. same_tables V w w') (\<lambda>_ w'. same_tables V w w') w)"

text \<open>
  Spark and Delta Lake as documented: a read gives what is there; an overwrite that returns leaves
  the DataFrame at the path, one that raises either that or what was there; nothing else writes;
  coalescing changes the partitions only; the widget has the value the job was given.
\<close>

definition spark_store :: "('d, 'w) spark_session \<Rightarrow> ('d, 'w) table_view \<Rightarrow> string \<Rightarrow> bool" where
  "spark_store sk V param \<longleftrightarrow>
     (\<forall>p w. wlp (call (sk_load sk ''parquet'' p)) (\<lambda>d w'. tv_files V w p = Some d \<and> same_tables V w w')
        (\<lambda>_ w'. same_tables V w w') w) \<and>
     (\<forall>p w. wlp (call (sk_load sk ''delta'' p)) (\<lambda>d w'. tv_tables V w p = Some d \<and> same_tables V w w')
        (\<lambda>_ w'. same_tables V w w') w) \<and>
     (\<forall>d p w. wlp (call (sk_save sk ''delta'' ''overwrite'' d p))
        (\<lambda>_ w'. (\<forall>q. q \<noteq> p \<longrightarrow> tv_files V w' q = tv_files V w q) \<and> tv_tables V w' = (tv_tables V w)(p \<mapsto> d))
        (\<lambda>_ w'. (\<forall>q. q \<noteq> p \<longrightarrow> tv_files V w' q = tv_files V w q) \<and>
           tv_tables V w' \<in> {tv_tables V w, (tv_tables V w)(p \<mapsto> d)}) w) \<and>
     (\<forall>n x. untouched V (call (sk_widget_text sk n x))) \<and>
     (\<forall>n w. wlp (call (sk_widget_get sk n)) (\<lambda>x w'. x = param \<and> same_tables V w w') (\<lambda>_ w'. same_tables V w w') w) \<and>
     (\<forall>n. untouched V (call (sk_start sk n))) \<and> (\<forall>d. untouched V (call (sk_show sk d))) \<and>
     (\<forall>d. untouched V (call (sk_count sk d))) \<and> (\<forall>p. untouched V (call (sk_files sk p))) \<and>
     (\<forall>n d d'. sk_coalesce sk n d = Inr d' \<longrightarrow> d' = d)"

section \<open>A loop over entities\<close>

text \<open>
  \<open>I\<close> holds all along; an entity whose turn returns is \<open>done\<close>, and a turn that returns undoes nobody.
  When no turn raised, everybody is done.
\<close>

lemma over_entities_done:
  assumes "\<And>e w. I w \<Longrightarrow> wlp (f e) (\<lambda>_ w'. I w' \<and> D e w' \<and> (\<forall>e'. D e' w \<longrightarrow> D e' w')) (\<lambda>_ w'. I w') w"
  shows "I w \<Longrightarrow> wlp (over_entities f es rs errs)
    (\<lambda>(_, errors) w'. I w' \<and> (errors = [] \<longrightarrow> errs = [] \<and> (\<forall>e \<in> set es. D e w') \<and> (\<forall>e. D e w \<longrightarrow> D e w')))
    (\<lambda>_ w'. I w') w"
proof (induction es arbitrary: w rs errs)
  case (Cons e es)
  have update: "AList.update e m errs \<noteq> []" for m by (cases errs) auto
  show ?case
    unfolding over_entities.simps wlp_bindA caught_wlp
  proof (rule wlp_mono [OF assms [OF Cons.prems]], goal_cases)
    case (1 a w1)
    have "wlp (over_entities f es (AList.update e a rs) errs)
        (\<lambda>(_, errors) w'. I w' \<and> (errors = [] \<longrightarrow> errs = [] \<and> (\<forall>e \<in> set es. D e w') \<and> (\<forall>e. D e w1 \<longrightarrow> D e w')))
        (\<lambda>_ w'. I w') w1"
      by (rule Cons.IH) (use 1 in simp)
    then show ?case
      by (simp, elim wlp_mono) (use 1 in auto)
  next
    case (2 exc w1)
    have "wlp (over_entities f es rs (AList.update e m errs))
        (\<lambda>(_, errors) w'. I w' \<and> (errors = [] \<longrightarrow> AList.update e m errs = [] \<and> (\<forall>e \<in> set es. D e w') \<and> (\<forall>e. D e w1 \<longrightarrow> D e w')))
        (\<lambda>_ w'. I w') w1" for m
      by (rule Cons.IH [OF 2])
    note rest = this
    show ?case
    proof (cases exc)
      case (Exn c m)
      then show ?thesis by simp (rule wlp_mono [OF rest [of m]], auto simp: update)
    qed (simp add: 2)
  qed
qed simp

lemma run_notebook_done:
  fixes sk :: "('d, 'w) spark_session"
  assumes store: "spark_store sk V param"
    and I: "\<And>w w'. I w \<Longrightarrow> same_tables V w w' \<Longrightarrow> I w'"
    and turn: "\<And>e w. I w \<Longrightarrow> wlp (f e) (\<lambda>_ w'. I w' \<and> D e w' \<and> (\<forall>e'. D e' w \<longrightarrow> D e' w')) (\<lambda>_ w'. I w') w"
    and "I w"
  shows "wlp (run_notebook sk app f) (\<lambda>_ w'. I w' \<and> (\<forall>e \<in> set (listed_entities param). D e w')) (\<lambda>_ w'. I w') w"
proof -
  have keep: "wlp m (\<lambda>_ w'. I w') (\<lambda>_ w'. I w') w" if "untouched V m" "I w" for m :: "('w, unit) act" and w
    by (rule wlp_mono [OF that(1) [unfolded untouched_def, rule_format]]) (use I that(2) in auto)
  have seeded: "untouched V (call (sk_widget_text sk n x))" for n x
    using store by (simp add: spark_store_def)
  have widget: "wlp (call (sk_widget_get sk n)) (\<lambda>x w'. x = param \<and> I w') (\<lambda>_ w'. I w') w" if "I w" for n w
  proof -
    have "wlp (call (sk_widget_get sk n)) (\<lambda>x w'. x = param \<and> same_tables V w w') (\<lambda>_ w'. same_tables V w w') w"
      using store by (simp add: spark_store_def)
    then show ?thesis by (rule wlp_mono) (use I that in auto)
  qed
  have entities: "wlp (notebook_entities sk) (\<lambda>es w'. es = listed_entities param \<and> I w') (\<lambda>_ w'. I w') w"
    if "I w" for w
    unfolding notebook_entities_def get_parameter_def wlp_bindA
  proof (rule wlp_mono [OF keep [OF seeded that]])
    fix a w1
    assume "I w1"
    show "wlp (call (sk_widget_get sk ''entities''))
        (\<lambda>a. wlp (ret (if a = [] \<and> Some ''customers'' = None then None else Some a))
          (\<lambda>a. wlp (case a of None \<Rightarrow> raise (attribute_error ''split'') | Some t \<Rightarrow> ret (listed_entities t))
            (\<lambda>es w'. es = listed_entities param \<and> I w') (\<lambda>_. I)) (\<lambda>_. I)) (\<lambda>_. I) w1"
      by (rule wlp_mono [OF widget [OF \<open>I w1\<close>]]) auto
  qed
  have start: "untouched V (call (sk_start sk app))"
    using store by (simp add: spark_store_def)
  show ?thesis
    unfolding run_notebook_def wlp_bindA
    by (rule wlp_mono [OF entities [OF \<open>I w\<close>]], clarsimp, rule wlp_mono [OF keep [OF start]], assumption,
        rule wlp_mono [OF over_entities_done [where I = I and D = D, OF turn]])
       auto
qed

section \<open>The notebooks\<close>

text \<open>Rules that step over one call.\<close>

lemma quiet_then:
  assumes "untouched V m" and "\<And>a w'. same_tables V w w' \<Longrightarrow> wlp (f a) Q E w'" and "\<And>e w'. same_tables V w w' \<Longrightarrow> E e w'"
  shows "wlp (bindA m f) Q E w"
  unfolding wlp_bindA by (rule wlp_mono [OF assms(1) [unfolded untouched_def, rule_format]]) (use assms(2,3) in auto)

lemma files_then:
  assumes "spark_store sk V param"
    and "\<And>d w'. tv_files V w p = Some d \<Longrightarrow> same_tables V w w' \<Longrightarrow> wlp (f d) Q E w'" and "\<And>e w'. same_tables V w w' \<Longrightarrow> E e w'"
  shows "wlp (bindA (read_raw sk p) f) Q E w"
proof -
  have "wlp (read_raw sk p) (\<lambda>d w'. tv_files V w p = Some d \<and> same_tables V w w') (\<lambda>_ w'. same_tables V w w') w"
    using assms(1) by (simp add: spark_store_def read_raw_def)
  then show ?thesis unfolding wlp_bindA by (rule wlp_mono) (use assms(2,3) in auto)
qed

lemma table_then:
  assumes "spark_store sk V param"
    and "\<And>d w'. tv_tables V w p = Some d \<Longrightarrow> same_tables V w w' \<Longrightarrow> wlp (f d) Q E w'" and "\<And>e w'. same_tables V w w' \<Longrightarrow> E e w'"
  shows "wlp (bindA (read_delta sk p) f) Q E w"
proof -
  have "wlp (read_delta sk p) (\<lambda>d w'. tv_tables V w p = Some d \<and> same_tables V w w') (\<lambda>_ w'. same_tables V w w') w"
    using assms(1) by (simp add: spark_store_def read_delta_def)
  then show ?thesis unfolding wlp_bindA by (rule wlp_mono) (use assms(2,3) in auto)
qed

definition overwritten :: "('d, 'w) table_view \<Rightarrow> string \<Rightarrow> 'd \<Rightarrow> 'w \<Rightarrow> 'w \<Rightarrow> bool" where
  "overwritten V p d w w' \<longleftrightarrow> (\<forall>q. q \<noteq> p \<longrightarrow> tv_files V w' q = tv_files V w q) \<and> tv_tables V w' = (tv_tables V w)(p \<mapsto> d)"

definition maybe_overwritten :: "('d, 'w) table_view \<Rightarrow> string \<Rightarrow> 'd \<Rightarrow> 'w \<Rightarrow> 'w \<Rightarrow> bool" where
  "maybe_overwritten V p d w w' \<longleftrightarrow> (\<forall>q. q \<noteq> p \<longrightarrow> tv_files V w' q = tv_files V w q) \<and>
     (tv_tables V w' = tv_tables V w \<or> tv_tables V w' = (tv_tables V w)(p \<mapsto> d))"

lemma save_then:
  assumes "spark_store sk V param"
    and "\<And>a w'. overwritten V p d w w' \<Longrightarrow> wlp (f a) Q E w'" and "\<And>e w'. maybe_overwritten V p d w w' \<Longrightarrow> E e w'"
  shows "wlp (bindA (write_delta sk d p ''overwrite'') f) Q E w"
proof -
  have "wlp (write_delta sk d p ''overwrite'') (\<lambda>_. overwritten V p d w) (\<lambda>_. maybe_overwritten V p d w) w"
    using assms(1) by (simp add: spark_store_def write_delta_def overwritten_def [abs_def] maybe_overwritten_def [abs_def])
  then show ?thesis unfolding wlp_bindA by (rule wlp_mono) (use assms(2,3) in auto)
qed

lemma store_quiet:
  assumes "spark_store sk V param"
  shows show_quiet: "untouched V (call (sk_show sk d))" and count_quiet: "untouched V (call (sk_count sk d))"
    and describe_quiet: "untouched V (call (sk_files sk p))"
  using assms by (simp_all add: spark_store_def)

lemma lift_quiet: "untouched V (lift r)"
  by (auto simp: untouched_def same_tables_def split: sum.split)

lemma same_tables_refl [simp]: "same_tables V w w"
  by (simp add: same_tables_def)

text \<open>The frames: the raw files, and every table but those of a layer.\<close>

definition kept_but :: "(string \<Rightarrow> string) \<Rightarrow> ('d, 'w) table_view \<Rightarrow> 'w \<Rightarrow> 'w \<Rightarrow> bool" where
  "kept_but layer V w w' \<longleftrightarrow> (\<forall>e. tv_files V w' (config_raw e) = tv_files V w (config_raw e)) \<and>
     (\<forall>p. (\<forall>e. p \<noteq> layer e) \<longrightarrow> tv_tables V w' p = tv_tables V w p)"

abbreviation raw_kept :: "('d, 'w) table_view \<Rightarrow> 'w \<Rightarrow> 'w \<Rightarrow> bool" where
  "raw_kept \<equiv> kept_but config_bronze_batch"

abbreviation bronze_kept :: "('d, 'w) table_view \<Rightarrow> 'w \<Rightarrow> 'w \<Rightarrow> bool" where
  "bronze_kept \<equiv> kept_but config_silver"

definition ingested :: "('d, 'w) table_view \<Rightarrow> 'w \<Rightarrow> string \<Rightarrow> 'w \<Rightarrow> bool" where
  "ingested V w0 e w \<longleftrightarrow> (\<exists>d. tv_files V w0 (config_raw e) = Some d \<and> tv_tables V w (config_bronze_batch e) = Some d)"

lemma paths_apart [simp]:
  "config_raw e \<noteq> config_bronze_batch e'" "config_raw e \<noteq> config_silver e'" "config_bronze_batch e \<noteq> config_silver e'"
  "config_silver e \<noteq> config_bronze_batch e'"
  "config_bronze_batch e = config_bronze_batch e' \<longleftrightarrow> e = e'" "config_silver e = config_silver e' \<longleftrightarrow> e = e'"
  by (simp_all add: config_bronze_batch_def config_raw_def config_silver_def layer_uri_def)

lemma ingest_turn:
  assumes store: "spark_store sk V param" and kept: "raw_kept V w0 w"
  shows "wlp (ingest_entity sk e)
    (\<lambda>_ w'. raw_kept V w0 w' \<and> ingested V w0 e w' \<and> (\<forall>e'. ingested V w0 e' w \<longrightarrow> ingested V w0 e' w'))
    (\<lambda>_ w'. raw_kept V w0 w') w"
  using kept unfolding ingest_entity_def
  by (auto simp: same_tables_def kept_but_def ingested_def overwritten_def maybe_overwritten_def simp del: wlp_bindA
      intro!: files_then [OF store] table_then [OF store] save_then [OF store]
        quiet_then [OF show_quiet [OF store]] quiet_then [OF count_quiet [OF store]])

lemma validate_turn:
  assumes store: "spark_store sk V param"
  shows "untouched V (validate_entity sk e)"
proof -
  have "wlp (validate_entity sk e) (\<lambda>_ w'. same_tables V w w') (\<lambda>_ w'. same_tables V w w') w" for w
    unfolding validate_entity_def
    by (auto simp: same_tables_def simp del: wlp_bindA
      intro!: table_then [OF store] quiet_then [OF show_quiet [OF store]] quiet_then [OF count_quiet [OF store]]
        quiet_then [OF lift_quiet [of V]])
  then show ?thesis by (simp add: untouched_def)
qed

text \<open>Compaction writes back what it read, so no content changes, whether it returns or raises.\<close>

definition same_content :: "('d, 'w) table_view \<Rightarrow> 'w \<Rightarrow> 'w \<Rightarrow> bool" where
  "same_content V w w' \<longleftrightarrow> tv_tables V w' = tv_tables V w \<and> raw_kept V w w'"

lemma optimize_turn:
  assumes store: "spark_store sk V param"
  shows "wlp (optimize_batch_entity sk e) (\<lambda>_ w'. same_content V w w') (\<lambda>_ w'. same_content V w w') w"
proof -
  have coalesce: "sk_coalesce sk n d = Inr d' \<Longrightarrow> d' = d" for n d d'
    using store by (simp add: spark_store_def)
  have triv: "m p = Some d \<Longrightarrow> m(p \<mapsto> d) = m" for m :: "string \<Rightarrow> 'a option" and p d
    by (simp add: map_upd_triv)
  show ?thesis
    unfolding optimize_batch_entity_def
    by (rule table_then [OF store], rule quiet_then [OF show_quiet [OF store]], rule quiet_then [OF describe_quiet [OF store]])
       (auto simp: same_content_def same_tables_def kept_but_def overwritten_def maybe_overwritten_def wlp_bindA [of "lift r" for r]
        triv dest!: coalesce simp del: wlp_bindA split: sum.split
      intro!: table_then [OF store] save_then [OF store]
        quiet_then [OF describe_quiet [OF store]] quiet_then [OF count_quiet [OF store]])
qed

text \<open>The Silver table of an entity, made of the Bronze table \<open>w0\<close> has.\<close>

definition transformed :: "'d spark_api \<Rightarrow> ('d, 'w) table_view \<Rightarrow> 'w \<Rightarrow> string \<Rightarrow> 'w \<Rightarrow> bool" where
  "transformed api V w0 e w \<longleftrightarrow> (\<exists>d d'. tv_tables V w0 (config_bronze_batch e) = Some d \<and>
     apply_standard_transformations api None default_order_column d = Inr d' \<and> tv_tables V w (config_silver e) = Some d')"

lemma transform_turn:
  assumes store: "spark_store sk V param" and kept: "bronze_kept V w0 w"
  shows "wlp (transform_entity sk api e)
    (\<lambda>_ w'. bronze_kept V w0 w' \<and> transformed api V w0 e w' \<and> (\<forall>e'. transformed api V w0 e' w \<longrightarrow> transformed api V w0 e' w'))
    (\<lambda>_ w'. bronze_kept V w0 w') w"
  using kept unfolding transform_entity_def
  by (auto simp: same_tables_def kept_but_def transformed_def overwritten_def maybe_overwritten_def
      wlp_bindA [of "lift r" for r] simp del: wlp_bindA split: sum.split
      intro!: table_then [OF store] save_then [OF store] quiet_then [OF count_quiet [OF store]])

section \<open>The job\<close>

lemma kept_but_same: "kept_but l V w0 w \<Longrightarrow> same_tables V w w' \<Longrightarrow> kept_but l V w0 w'"
  by (simp add: kept_but_def same_tables_def)

lemma ingest_wlp:
  assumes "spark_store sk V param"
  shows "wlp (ingest_sources sk)
    (\<lambda>_ w'. raw_kept V w w' \<and> (\<forall>e \<in> set (listed_entities param). ingested V w e w')) (\<lambda>_. raw_kept V w) w"
  unfolding ingest_sources_def
  by (rule run_notebook_done [OF assms kept_but_same ingest_turn [OF assms]]) (simp_all add: kept_but_def)

lemma same_content_same: "same_content V w0 w \<Longrightarrow> same_tables V w w' \<Longrightarrow> same_content V w0 w'"
  by (simp add: same_content_def same_tables_def kept_but_def)

lemma same_content_trans: "same_content V w0 w \<Longrightarrow> same_content V w w' \<Longrightarrow> same_content V w0 w'"
  by (simp add: same_content_def kept_but_def)

lemma same_content_refl [simp]: "same_content V w w"
  by (simp add: same_content_def kept_but_def)

lemma validate_wlp:
  assumes "spark_store sk V param"
  shows "wlp (validate_bronze sk) (\<lambda>_. same_content V w) (\<lambda>_. same_content V w) w"
proof -
  have turn: "wlp (validate_entity sk e) (\<lambda>_ w'. same_content V w w' \<and> True \<and> ((\<forall>e'. True \<longrightarrow> True))) (\<lambda>_. same_content V w) w1"
    if "same_content V w w1" for e w1
    by (rule wlp_mono [OF validate_turn [OF assms, unfolded untouched_def, rule_format]])
       (use that in \<open>auto intro: same_content_same\<close>)
  show ?thesis
    unfolding validate_bronze_def
    by (rule wlp_mono [OF run_notebook_done [where I = "same_content V w" and D = "\<lambda>_ _. True", OF assms same_content_same turn]])
       simp_all
qed

lemma optimize_wlp:
  assumes "spark_store sk V param"
  shows "wlp (optimize_batch_bronze sk) (\<lambda>_. same_content V w) (\<lambda>_. same_content V w) w"
proof -
  have turn: "wlp (optimize_batch_entity sk e) (\<lambda>_ w'. same_content V w w' \<and> True \<and> ((\<forall>e'. True \<longrightarrow> True))) (\<lambda>_. same_content V w) w1"
    if "same_content V w w1" for e w1
    by (rule wlp_mono [OF optimize_turn [OF assms]]) (use that in \<open>auto intro: same_content_trans\<close>)
  show ?thesis
    unfolding optimize_batch_bronze_def
    by (rule wlp_mono [OF run_notebook_done [where I = "same_content V w" and D = "\<lambda>_ _. True", OF assms same_content_same turn]])
       simp_all
qed

lemma transform_wlp:
  assumes "spark_store sk V param"
  shows "wlp (transform_silver sk api)
    (\<lambda>_ w'. bronze_kept V w w' \<and> (\<forall>e \<in> set (listed_entities param). transformed api V w e w')) (\<lambda>_. bronze_kept V w) w"
  unfolding transform_silver_def
  by (rule run_notebook_done [OF assms kept_but_same transform_turn [OF assms]]) (simp_all add: kept_but_def)

text \<open>What the job may change, and what it makes of an entity.\<close>

definition job_frame :: "('d, 'w) table_view \<Rightarrow> 'w \<Rightarrow> 'w \<Rightarrow> bool" where
  "job_frame V w w' \<longleftrightarrow> (\<forall>e. tv_files V w' (config_raw e) = tv_files V w (config_raw e)) \<and>
     (\<forall>p. (\<forall>e. p \<noteq> config_bronze_batch e \<and> p \<noteq> config_silver e) \<longrightarrow> tv_tables V w' p = tv_tables V w p)"

lemma full_pipeline_wlp:
  assumes "spark_store sk V param"
  shows "wlp (full_pipeline sk api)
    (\<lambda>_ w'. job_frame V w w' \<and> (\<forall>e \<in> set (listed_entities param). \<exists>d d'. tv_files V w (config_raw e) = Some d \<and>
       tv_tables V w' (config_bronze_batch e) = Some d \<and>
       apply_standard_transformations api None default_order_column d = Inr d' \<and> tv_tables V w' (config_silver e) = Some d'))
    (\<lambda>_. job_frame V w) w"
  unfolding full_pipeline_def wlp_bindA
proof (rule wlp_mono [OF ingest_wlp [OF assms]], rule wlp_mono [OF validate_wlp [OF assms]],
    rule wlp_mono [OF optimize_wlp [OF assms]], rule wlp_mono [OF transform_wlp [OF assms]], goal_cases)
  case (1 a w1 b w2 c w3 d w4)
  then have frame: "job_frame V w w4"
    by (auto simp: job_frame_def same_content_def kept_but_def)
  have same: "tv_tables V w3 = tv_tables V w1" using 1 by (simp add: same_content_def)
  have kept: "tv_tables V w4 (config_bronze_batch e) = tv_tables V w1 (config_bronze_batch e)" for e
    using 1(4) same by (simp add: kept_but_def)
  show ?case
    using 1(1,4) frame same kept by (fastforce simp: ingested_def transformed_def)
qed (auto simp: job_frame_def same_content_def kept_but_def)

text \<open>
  C28. The job carries the raw layer to Silver. However it ends, the raw files are those before it, and
  of the tables only those of the batch Bronze and Silver layers may have changed: the streaming
  Bronze tables are not touched. When it returns, every entity of its parameter has a batch Bronze
  table with the content of its raw files and a Silver table with what the standard transformations
  make of that content, the validation and the compaction in between having changed nothing, and one
  entity never the other's.
\<close>

theorem full_pipeline_carries_raw_to_silver:
  assumes "spark_store sk V param" and "full_pipeline sk api w = Some (r, w')"
  shows "(\<forall>e. tv_files V w' (config_raw e) = tv_files V w (config_raw e)) \<and>
    (\<forall>p. (\<forall>e. p \<noteq> config_bronze_batch e \<and> p \<noteq> config_silver e) \<longrightarrow> tv_tables V w' p = tv_tables V w p) \<and>
    (\<forall>e. tv_tables V w' (config_bronze e) = tv_tables V w (config_bronze e)) \<and>
    (r = Inr () \<longrightarrow> (\<forall>e \<in> set (listed_entities param). \<exists>d d'. tv_files V w (config_raw e) = Some d \<and>
       tv_tables V w' (config_bronze_batch e) = Some d \<and>
       apply_standard_transformations api None default_order_column d = Inr d' \<and> tv_tables V w' (config_silver e) = Some d'))"
proof -
  have streaming: "config_bronze e \<noteq> config_bronze_batch e' \<and> config_bronze e \<noteq> config_silver e'" for e e'
    using layer_uris_apart by blast
  have "job_frame V w w'" "r = Inr () \<longrightarrow> (\<forall>e \<in> set (listed_entities param). \<exists>d d'. tv_files V w (config_raw e) = Some d \<and>
       tv_tables V w' (config_bronze_batch e) = Some d \<and>
       apply_standard_transformations api None default_order_column d = Inr d' \<and> tv_tables V w' (config_silver e) = Some d')"
    using full_pipeline_wlp [OF assms(1), of api w] assms(2) by (cases r; simp add: wlp_def)+
  then show ?thesis
    unfolding job_frame_def using streaming by blast
qed

text \<open>The parameter the batch DAG hands to the job is read back as the entities it extracted.\<close>

lemma batch_entities_listed:
  "listed_entities (entities_parameter (map (\<lambda>e. (fst e, 0)) batch_entities)) = map fst batch_entities"
  by code_simp

section \<open>A store in memory for the witness\<close>

record mem_store =
  ms_files :: "(string \<times> frame) list"
  ms_tables :: "(string \<times> frame) list"

definition absent_path :: "string \<Rightarrow> exn" where
  "absent_path p = Exn ''AnalysisException'' (''PATH_NOT_FOUND '' @ p)"

definition mem_session :: "(frame, mem_store) spark_session" where
  "mem_session =
     \<lparr> sk_widget_text = (\<lambda>_ _ w. (Inr (), w)), sk_widget_get = (\<lambda>_ w. (Inr ''products, orders'', w)),
       sk_start = (\<lambda>_ w. (Inr (), w)),
       sk_load = (\<lambda>fmt p w. (case map_of (if fmt = ''delta'' then ms_tables w else ms_files w) p of
          None \<Rightarrow> Inl (absent_path p) | Some d \<Rightarrow> Inr d, w)),
       sk_save = (\<lambda>fmt mode d p w. (Inr (), w \<lparr> ms_tables := AList.update p d (ms_tables w) \<rparr>)),
       sk_show = (\<lambda>_ w. (Inr (), w)), sk_count = (\<lambda>d w. (Inr (int (length (snd d))), w)),
       sk_files = (\<lambda>_ w. (Inr 1, w)), sk_coalesce = (\<lambda>_ d. Inr d), sk_nulls = (\<lambda>d. Inr d), sk_repeated = (\<lambda>d. Inr d) \<rparr>"

definition mem_tables :: "(frame, mem_store) table_view" where
  "mem_tables = \<lparr> tv_files = map_of \<circ> ms_files, tv_tables = map_of \<circ> ms_tables \<rparr>"

lemma mem_spark_store: "spark_store mem_session mem_tables ''products, orders''"
  by (auto simp: spark_store_def untouched_def same_tables_def mem_session_def mem_tables_def wlp_call update_conv'
      split: option.split)

definition mem_landed :: mem_store where
  "mem_landed = \<lparr> ms_files = [(config_raw ''products'', two_versions), (config_raw ''orders'', two_versions)], ms_tables = [] \<rparr>"

lemma full_pipeline_carries_raw_to_silver_witness:
  "\<exists>w' d'. full_pipeline mem_session mem_spark mem_landed = Some (Inr (), w') \<and>
     apply_standard_transformations mem_spark None default_order_column two_versions = Inr d' \<and>
     map_of (ms_tables w') (config_silver ''orders'') = Some d'"
proof -
  have "map_option fst (full_pipeline mem_session mem_spark mem_landed) = Some (Inr ())"
    by code_simp
  then obtain w' where run: "full_pipeline mem_session mem_spark mem_landed = Some (Inr (), w')" by auto
  have "''orders'' \<in> set (listed_entities ''products, orders'')" by code_simp
  moreover have "map_of (ms_files mem_landed) (config_raw ''orders'') = Some two_versions" by code_simp
  moreover have "\<forall>e \<in> set (listed_entities ''products, orders''). \<exists>d d'. map_of (ms_files mem_landed) (config_raw e) = Some d \<and>
      apply_standard_transformations mem_spark None default_order_column d = Inr d' \<and>
      map_of (ms_tables w') (config_silver e) = Some d'"
    using full_pipeline_carries_raw_to_silver [OF mem_spark_store run]
    unfolding mem_tables_def table_view.simps o_apply by blast
  ultimately show ?thesis using run by fastforce
qed

end
