(* ===== verification/Airflow_Setup.thy ===== *)
theory Airflow_Setup
  imports Dags Postgres_Extraction
begin

text \<open>
  The set-up of Airflow (\<open>airflow/config/airflow_bootstrap.py\<close> and \<open>airflow/config/bootstrap\<close>): the
  configuration and the outputs of Terraform are read, and the connections, variables and pools of
  Airflow's metadata database are made to agree with them. Airflow's models and sessions are
  parameters; what is logged is left out.
\<close>

section \<open>What it relies on\<close>

text \<open>
  The environment (which \<open>load_dotenv\<close> changes), the files, the rendering of a Jinja template with
  the environment, and the YAML reader.
\<close>

record 'w setup_env =
  se_getenv :: "string \<Rightarrow> 'w \<Rightarrow> string option"
  se_exists :: "string \<Rightarrow> 'w \<Rightarrow> bool"
  se_read_text :: "string \<Rightarrow> 'w \<Rightarrow> string outcome \<times> 'w"
  se_read_json :: "string \<Rightarrow> 'w \<Rightarrow> json outcome \<times> 'w"
  se_load_dotenv :: "'w \<Rightarrow> unit outcome \<times> 'w"
  se_render :: "string \<Rightarrow> 'w \<Rightarrow> string outcome"
  se_safe_load :: "string \<Rightarrow> json outcome"
  se_directory :: string

text \<open>
  Airflow's metadata database, by a session: \<open>md_find\<close> is the query by identifier, \<open>md_add\<close> builds a
  model from its attributes and adds it, \<open>md_set\<close> sets one attribute of a model that was found.
\<close>

datatype meta_table = Connections | Pools

record 'w metadata_db =
  md_open :: "'w \<Rightarrow> unit outcome \<times> 'w"
  md_find :: "meta_table \<Rightarrow> json \<Rightarrow> 'w \<Rightarrow> bool outcome \<times> 'w"
  md_add :: "meta_table \<Rightarrow> json \<Rightarrow> (string, json) dict \<Rightarrow> 'w \<Rightarrow> unit outcome \<times> 'w"
  md_set :: "meta_table \<Rightarrow> json \<Rightarrow> string \<Rightarrow> json \<Rightarrow> 'w \<Rightarrow> unit outcome \<times> 'w"
  md_commit :: "'w \<Rightarrow> unit outcome \<times> 'w"
  md_close :: "'w \<Rightarrow> unit outcome \<times> 'w"
  md_variable_set :: "string \<Rightarrow> json \<Rightarrow> bool \<Rightarrow> 'w \<Rightarrow> unit outcome \<times> 'w"

section \<open>Python values\<close>

text \<open>\<open>int(s)\<close>: blanks around, a sign, digits with single underscores between them.\<close>

definition is_digit :: "char \<Rightarrow> bool" where
  "is_digit c \<longleftrightarrow> 48 \<le> (of_char c :: nat) \<and> (of_char c :: nat) \<le> 57"

fun digits_value :: "nat \<Rightarrow> string \<Rightarrow> nat option" where
  "digits_value n [] = Some n"
| "digits_value n (c # s) =
     (if is_digit c then digits_value (10 * n + (of_char c - 48)) s
      else case s of
          d # s' \<Rightarrow> if c = CHR ''_'' \<and> is_digit d then digits_value (10 * n + (of_char d - 48)) s' else None
        | [] \<Rightarrow> None)"

definition number_value :: "string \<Rightarrow> nat option" where
  "number_value s = (case s of c # s' \<Rightarrow> if is_digit c then digits_value 0 s else None | [] \<Rightarrow> None)"

definition py_int :: "string \<Rightarrow> int outcome" where
  "py_int text =
     (let s = strip text;
          v = (case s of
                 c # s' \<Rightarrow> if c = CHR ''-'' then map_option (\<lambda>n. - int n) (number_value s')
                   else if c = CHR ''+'' then map_option int (number_value s')
                   else map_option int (number_value s)
               | [] \<Rightarrow> None)
      in case v of
           None \<Rightarrow> Inl (value_error (''invalid literal for int() with base 10: '' @ quoted text))
         | Some n \<Rightarrow> Inr n)"

text \<open>\<open>json.dumps\<close> with its defaults, a float as its literal.\<close>

definition hex_digit :: "nat \<Rightarrow> char" where
  "hex_digit n = (''0123456789abcdef'' ! n)"

definition dumps_char :: "char \<Rightarrow> string" where
  "dumps_char c =
     (let n = of_char c :: nat in
      if n = 34 then [CHR 0x5C, c] else if n = 92 then [CHR 0x5C, c]
      else if n = 10 then [CHR 0x5C, CHR ''n''] else if n = 13 then [CHR 0x5C, CHR ''r'']
      else if n = 9 then [CHR 0x5C, CHR ''t''] else if n = 8 then [CHR 0x5C, CHR ''b'']
      else if n = 12 then [CHR 0x5C, CHR ''f'']
      else if 32 \<le> n \<and> n \<le> 126 then [c]
      else [CHR 0x5C, CHR ''u'', CHR ''0'', CHR ''0'', hex_digit (n div 16), hex_digit (n mod 16)])"

definition dumps_string :: "string \<Rightarrow> string" where
  "dumps_string s = [CHR 0x22] @ concat (map dumps_char s) @ [CHR 0x22]"

fun dumps :: "json \<Rightarrow> string" where
  "dumps JNull = ''null''"
| "dumps (JBool b) = (if b then ''true'' else ''false'')"
| "dumps (JInt n) = show_int n"
| "dumps (JFloat l) = l"
| "dumps (JStr s) = dumps_string s"
| "dumps (JList xs) = ''['' @ join '', '' (map dumps xs) @ '']''"
| "dumps (JObj kvs) = [CHR 0x7B] @ join '', '' (map (\<lambda>(k, v). dumps_string k @ '': '' @ dumps v) kvs) @ [CHR 0x7D]"

section \<open>Reading the configuration\<close>

definition file_missing :: "string \<Rightarrow> string \<Rightarrow> exn" where
  "file_missing what path = Exn ''FileNotFoundError'' (what @ '' file not found: '' @ path)"

definition load_config :: "'w setup_env \<Rightarrow> string \<Rightarrow> ('w, (string, json) dict) act" where
  "load_config env file_name =
     (let path = se_directory env @ ''/'' @ file_name in
      bindA (get (se_exists env path)) (\<lambda>there.
        if \<not> there then raise (file_missing ''Configuration'' path)
        else
          thenA (call (se_load_dotenv env))
         (bindA (call (se_read_text env path)) (\<lambda>raw.
          bindA (\<lambda>w. lift (se_render env raw w) w) (\<lambda>rendered.
          bindA (lift (se_safe_load env rendered)) (\<lambda>config.
            case config of
              JNull \<Rightarrow> ret []
            | JObj kvs \<Rightarrow> ret kvs
            | _ \<Rightarrow> raise (value_error ''config.yaml must contain a dictionary at the root level.'')))))))"

fun normalize_outputs :: "(string, json) dict \<Rightarrow> (string, json) dict \<Rightarrow> (string, json) dict" where
  "normalize_outputs normalized [] = normalized"
| "normalize_outputs normalized ((key, value) # kvs) =
     normalize_outputs
       (case value of
          JObj d \<Rightarrow> (case map_of d ''value'' of
                       Some v \<Rightarrow> AList.update key v normalized
                     | None \<Rightarrow> AList.update key value normalized)
        | _ \<Rightarrow> AList.update key value normalized) kvs"

definition load_outputs :: "'w setup_env \<Rightarrow> string \<Rightarrow> ('w, (string, json) dict) act" where
  "load_outputs env file_name =
     (let path = se_directory env @ ''/'' @ file_name in
      bindA (get (se_exists env path)) (\<lambda>there.
        if \<not> there then raise (file_missing ''Terraform outputs'' path)
        else
          bindA (call (se_read_json env path)) (\<lambda>raw_outputs.
          bindA (lift (json_items raw_outputs)) (\<lambda>kvs. ret (normalize_outputs [] kvs)))))"

section \<open>Connections\<close>

definition env_value :: "'w setup_env \<Rightarrow> string \<Rightarrow> ('w, string) act" where
  "env_value env name =
     bindA (get (se_getenv env name)) (\<lambda>value. case value of
       None \<Rightarrow> raise (runtime_error (''Environment variable '' @ quoted name @ '' is not defined.''))
     | Some v \<Rightarrow> ret v)"

definition env_int :: "'w setup_env \<Rightarrow> string \<Rightarrow> ('w, int) act" where
  "env_int env name = bindA (env_value env name) (\<lambda>v. lift (py_int v))"

definition postgres_connection ::
  "'w setup_env \<Rightarrow> string \<Rightarrow> string \<Rightarrow> string \<times> string \<times> string \<times> string \<times> string \<Rightarrow> ('w, (string, json) dict) act" where
  "postgres_connection env conn_id description names =
     (case names of (host_name, db_name, user_name, password_name, port_name) \<Rightarrow>
        bindA (env_value env host_name) (\<lambda>host.
        bindA (env_value env db_name) (\<lambda>db.
        bindA (env_value env user_name) (\<lambda>login.
        bindA (env_value env password_name) (\<lambda>password.
        bindA (env_int env port_name) (\<lambda>port.
          ret [(''conn_id'', JStr conn_id), (''conn_type'', JStr ''postgres''), (''description'', JStr description),
               (''host'', JStr host), (''schema'', JStr db), (''login'', JStr login), (''password'', JStr password),
               (''port'', JInt port)]))))))"

definition prometheus_description :: string where
  "prometheus_description =
     ''Prometheus HTTP API (PromQL queries) -- same '' @
     ''instance the Grafana alert rules already query '' @
     ''(datasourceUid PBFA97CFB590B2093), reached here '' @
     ''directly over HTTP instead of through Grafana. '' @
     ''No auth in this dev environment, same as every '' @
     ''other internal service on mdp-network.''"

definition build_connections :: "'w setup_env \<Rightarrow> (string, json) dict \<Rightarrow> ('w, (string, json) dict list) act" where
  "build_connections env outputs =
     bindA (env_value env ''AWS_ACCESS_KEY_ID'') (\<lambda>aws_login.
     bindA (env_value env ''AWS_SECRET_ACCESS_KEY'') (\<lambda>aws_password.
     bindA (lift (required ''aws_region'' (map_of outputs ''aws_region''))) (\<lambda>region.
     bindA (env_value env ''DATABRICKS_HOST'') (\<lambda>databricks_host.
     bindA (env_value env ''DATABRICKS_TOKEN'') (\<lambda>databricks_token.
     bindA (postgres_connection env ''postgres_marketplace'' ''Marketplace PostgreSQL''
        (''POSTGRES_HOST'', ''POSTGRES_DB'', ''POSTGRES_USER'', ''POSTGRES_PASSWORD'', ''POSTGRES_PORT'')) (\<lambda>marketplace.
     bindA (postgres_connection env ''postgres_airflow'' ''Airflow Metadata Database''
        (''AIRFLOW_DB_HOST'', ''AIRFLOW_DB_NAME'', ''AIRFLOW_DB_USER'', ''AIRFLOW_DB_PASSWORD'', ''AIRFLOW_DB_PORT'')) (\<lambda>airflow.
     bindA (env_value env ''KAFKA_BOOTSTRAP_SERVER'') (\<lambda>kafka.
       ret
         [[(''conn_id'', JStr ''aws_default''), (''conn_type'', JStr ''aws''),
           (''description'', JStr ''Default AWS connection''), (''login'', JStr aws_login),
           (''password'', JStr aws_password), (''extra'', JStr (dumps (JObj [(''region_name'', region)])))],
          [(''conn_id'', JStr ''databricks_default''), (''conn_type'', JStr ''databricks''),
           (''description'', JStr ''Default Databricks connection''), (''host'', JStr databricks_host),
           (''password'', JStr databricks_token)],
          marketplace, airflow,
          [(''conn_id'', JStr ''kafka_default''), (''conn_type'', JStr ''kafka''),
           (''description'', JStr ''Kafka Bootstrap Server''), (''host'', JStr kafka)],
          [(''conn_id'', JStr ''prometheus_default''), (''conn_type'', JStr ''http''),
           (''description'', JStr prometheus_description), (''host'', JStr ''prometheus''),
           (''port'', JInt 9090), (''schema'', JStr ''http'')]]))))))))"

fun set_attributes :: "'w metadata_db \<Rightarrow> meta_table \<Rightarrow> json \<Rightarrow> (string, json) dict \<Rightarrow> ('w, unit) act" where
  "set_attributes db t i [] = ret ()"
| "set_attributes db t i ((key, value) # kvs) =
     thenA (call (md_set db t i key value)) (set_attributes db t i kvs)"

definition update_connection :: "'w metadata_db \<Rightarrow> json \<Rightarrow> (string, json) dict \<Rightarrow> ('w, unit) act" where
  "update_connection db conn_id values = set_attributes db Connections conn_id values"

definition sync_connection :: "'w metadata_db \<Rightarrow> (string, json) dict \<Rightarrow> ('w, unit) act" where
  "sync_connection db values =
     bindA (lift (required ''conn_id'' (map_of values ''conn_id''))) (\<lambda>conn_id.
     bindA (call (md_find db Connections conn_id)) (\<lambda>found.
       if \<not> found then call (md_add db Connections conn_id values)
       else update_connection db conn_id values))"

fun each_in_order :: "('x \<Rightarrow> ('w, unit) act) \<Rightarrow> 'x list \<Rightarrow> ('w, unit) act" where
  "each_in_order f [] = ret ()"
| "each_in_order f (x # xs) = thenA (f x) (each_in_order f xs)"

text \<open>\<open>session = Session(); try: ...; session.commit() finally: session.close()\<close>.\<close>

definition in_session :: "'w metadata_db \<Rightarrow> ('w, unit) act \<Rightarrow> ('w, unit) act" where
  "in_session db body =
     thenA (call (md_open db)) (leaving (\<lambda>_. md_close db) (thenA body (call (md_commit db))))"

definition sync_connections :: "'w setup_env \<Rightarrow> 'w metadata_db \<Rightarrow> (string, json) dict \<Rightarrow> ('w, unit) act" where
  "sync_connections env db outputs =
     bindA (build_connections env outputs) (\<lambda>connections.
       in_session db (each_in_order (sync_connection db) connections))"

section \<open>Variables\<close>

definition set_variable :: "'w metadata_db \<Rightarrow> string \<times> json \<Rightarrow> ('w, unit) act" where
  "set_variable db kv =
     (case kv of (key, value) \<Rightarrow>
        call (md_variable_set db key value (case value of JList _ \<Rightarrow> True | JObj _ \<Rightarrow> True | _ \<Rightarrow> False)))"

definition output_names :: "string list" where
  "output_names = [''environment'', ''aws_region'', ''datalake_bucket'', ''bronze_database'', ''silver_database'',
     ''gold_database'', ''athena_workgroup'']"

definition output_variables :: "(string, json) dict \<Rightarrow> (string, json) dict outcome" where
  "output_variables outputs =
     mapE (\<lambda>k. bindE (required k (map_of outputs k)) (\<lambda>v. Inr (k, v))) output_names"

definition sync_variables :: "'w metadata_db \<Rightarrow> (string, json) dict \<Rightarrow> (string, json) dict \<Rightarrow> ('w, unit) act" where
  "sync_variables db outputs config =
     bindA (lift (output_variables outputs)) (\<lambda>variables.
     thenA (each_in_order (set_variable db) variables)
           (each_in_order (set_variable db) config))"

section \<open>Pools\<close>

definition pool_attributes :: "json \<Rightarrow> (string, json) dict outcome" where
  "pool_attributes values =
     bindE (json_sub values ''slots'') (\<lambda>slots.
     bindE (json_get_or values ''description'' (JStr [])) (\<lambda>description.
     bindE (json_get_or values ''include_deferred'' (JBool False)) (\<lambda>include_deferred.
       Inr [(''slots'', slots), (''description'', description), (''include_deferred'', include_deferred)])))"

definition update_pool :: "'w metadata_db \<Rightarrow> json \<Rightarrow> json \<Rightarrow> ('w, unit) act" where
  "update_pool db name values =
     bindA (lift (json_sub values ''slots'')) (\<lambda>slots.
     thenA (call (md_set db Pools name ''slots'' slots))
    (bindA (lift (json_get_or values ''description'' (JStr []))) (\<lambda>description.
     thenA (call (md_set db Pools name ''description'' description))
    (bindA (lift (json_get_or values ''include_deferred'' (JBool False))) (\<lambda>include_deferred.
       call (md_set db Pools name ''include_deferred'' include_deferred))))))"

definition sync_pool :: "'w metadata_db \<Rightarrow> json \<Rightarrow> ('w, unit) act" where
  "sync_pool db values =
     bindA (lift (json_sub values ''name'')) (\<lambda>name.
     bindA (call (md_find db Pools name)) (\<lambda>found.
       if \<not> found then
         bindA (lift (pool_attributes values)) (\<lambda>attributes. call (md_add db Pools name ((''pool'', name) # attributes)))
       else update_pool db name values))"

text \<open>\<open>_load_pools\<close> runs before the session is opened; the loop's value is asked to iterate within it.\<close>

definition sync_pools :: "'w setup_env \<Rightarrow> 'w metadata_db \<Rightarrow> ('w, unit) act" where
  "sync_pools env db =
     bindA (call (se_read_json env (se_directory env @ ''/pools.json''))) (\<lambda>pools.
       in_session db (bindA (lift (json_iter pools)) (each_in_order (sync_pool db))))"

section \<open>The whole\<close>

definition bootstrap_airflow :: "'w setup_env \<Rightarrow> 'w metadata_db \<Rightarrow> ('w, unit) act" where
  "bootstrap_airflow env db =
     bindA (load_config env ''config.yaml'') (\<lambda>config.
     bindA (load_outputs env ''terraform_outputs.json'') (\<lambda>outputs.
     thenA (sync_connections env db outputs)
    (thenA (sync_variables db outputs config)
           (sync_pools env db))))"

end
