(* ===== verification/Airflow_Setup_Properties.thy ===== *)
theory Airflow_Setup_Properties
  imports Airflow_Setup
begin

text \<open>
  The set-up of Airflow is all or nothing, table by table: the connections, and the pools, are
  brought to what is configured in one transaction.
\<close>

section \<open>Lemmas on actions\<close>

lemma wlp_leaving:
  "wlp (leaving l body) Q E w =
     wlp body (\<lambda>a w1. case l True w1 of (Inl e, w2) \<Rightarrow> E e w2 | (Inr _, w2) \<Rightarrow> Q a w2)
       (\<lambda>e w1. case l False w1 of (Inl e', w2) \<Rightarrow> E e' w2 | (Inr _, w2) \<Rightarrow> E e w2) w"
  by (auto simp: leaving_def wlp_def split: option.split prod.split sum.split)

section \<open>The metadata database\<close>

type_synonym meta_rows = "meta_table \<Rightarrow> json \<Rightarrow> (string \<Rightarrow> json option) option"

text \<open>What is committed, and what the session sees.\<close>

record 'w meta_view =
  mv_stored :: "'w \<Rightarrow> meta_rows"
  mv_session :: "'w \<Rightarrow> meta_rows"

definition put_row :: "meta_table \<Rightarrow> json \<Rightarrow> (string \<Rightarrow> json option) \<Rightarrow> meta_rows \<Rightarrow> meta_rows" where
  "put_row t i row s = s(t := (s t)(i \<mapsto> row))"

fun id_attribute :: "meta_table \<Rightarrow> string" where
  "id_attribute Connections = ''conn_id''"
| "id_attribute Pools = ''pool''"

text \<open>
  The row has the attributes it was given, and whatever else it had. \<open>upserted\<close> is what a sync does
  to one row, \<open>synced\<close> what it does to the table.
\<close>

definition has_attributes :: "(string, json) dict \<Rightarrow> (string \<Rightarrow> json option) option \<Rightarrow> (string \<Rightarrow> json option) \<Rightarrow> bool" where
  "has_attributes vs old row \<longleftrightarrow> (\<forall>(k, v) \<in> set vs. row k = Some v) \<and>
     (\<forall>r k. old = Some r \<and> k \<notin> fst ` set vs \<longrightarrow> row k = r k)"

definition upserted :: "meta_table \<Rightarrow> json \<Rightarrow> (string, json) dict \<Rightarrow> meta_rows \<Rightarrow> meta_rows \<Rightarrow> bool" where
  "upserted t i vs s s' \<longleftrightarrow> (\<exists>row. has_attributes vs (s t i) row \<and> s' = put_row t i row s)"

definition synced :: "meta_table \<Rightarrow> (json \<times> (string, json) dict) list \<Rightarrow> meta_rows \<Rightarrow> meta_rows \<Rightarrow> bool" where
  "synced t items s s' \<longleftrightarrow>
     (\<forall>t' i. t' \<noteq> t \<or> i \<notin> fst ` set items \<longrightarrow> s' t' i = s t' i) \<and>
     (\<forall>(i, vs) \<in> set items. \<exists>row. s' t i = Some row \<and> has_attributes vs (s t i) row)"

text \<open>What a session of the database does, as its documentation has it.\<close>

definition metadata_laws :: "'w metadata_db \<Rightarrow> 'w meta_view \<Rightarrow> bool" where
  "metadata_laws db V \<longleftrightarrow>
     (\<forall>w. wlp (call (md_open db)) (\<lambda>_ w'. mv_session V w' = mv_stored V w \<and> mv_stored V w' = mv_stored V w)
        (\<lambda>_ w'. mv_stored V w' = mv_stored V w) w) \<and>
     (\<forall>t i w. wlp (call (md_find db t i))
        (\<lambda>found w'. (found \<longleftrightarrow> mv_session V w t i \<noteq> None) \<and> mv_session V w' = mv_session V w \<and> mv_stored V w' = mv_stored V w)
        (\<lambda>_ w'. mv_stored V w' = mv_stored V w) w) \<and>
     (\<forall>t i vs w. mv_session V w t i = None \<longrightarrow> distinct (map fst vs) \<longrightarrow> (id_attribute t, i) \<in> set vs \<longrightarrow>
        wlp (call (md_add db t i vs))
          (\<lambda>_ w'. upserted t i vs (mv_session V w) (mv_session V w') \<and> mv_stored V w' = mv_stored V w)
          (\<lambda>_ w'. mv_stored V w' = mv_stored V w) w) \<and>
     (\<forall>t i k v w row. mv_session V w t i = Some row \<longrightarrow> (k = id_attribute t \<longrightarrow> v = i) \<longrightarrow>
        wlp (call (md_set db t i k v))
          (\<lambda>_ w'. mv_session V w' = put_row t i (row(k \<mapsto> v)) (mv_session V w) \<and> mv_stored V w' = mv_stored V w)
          (\<lambda>_ w'. mv_stored V w' = mv_stored V w) w) \<and>
     (\<forall>w. wlp (call (md_commit db)) (\<lambda>_ w'. mv_stored V w' = mv_session V w) (\<lambda>_ w'. mv_stored V w' = mv_stored V w) w) \<and>
     (\<forall>w. mv_stored V (snd (md_close db w)) = mv_stored V w)"

lemma laws:
  assumes "metadata_laws db V"
  shows open_law: "wlp (call (md_open db)) (\<lambda>_ w'. mv_session V w' = mv_stored V w \<and> mv_stored V w' = mv_stored V w)
      (\<lambda>_ w'. mv_stored V w' = mv_stored V w) w"
    and find_law: "wlp (call (md_find db t i))
      (\<lambda>found w'. (found \<longleftrightarrow> mv_session V w t i \<noteq> None) \<and> mv_session V w' = mv_session V w \<and> mv_stored V w' = mv_stored V w)
      (\<lambda>_ w'. mv_stored V w' = mv_stored V w) w"
    and add_law: "mv_session V w t i = None \<Longrightarrow> distinct (map fst vs) \<Longrightarrow> (id_attribute t, i) \<in> set vs \<Longrightarrow>
      wlp (call (md_add db t i vs))
        (\<lambda>_ w'. upserted t i vs (mv_session V w) (mv_session V w') \<and> mv_stored V w' = mv_stored V w)
        (\<lambda>_ w'. mv_stored V w' = mv_stored V w) w"
    and set_law: "mv_session V w t i = Some row \<Longrightarrow> (k = id_attribute t \<longrightarrow> v = i) \<Longrightarrow>
      wlp (call (md_set db t i k v))
        (\<lambda>_ w'. mv_session V w' = put_row t i (row(k \<mapsto> v)) (mv_session V w) \<and> mv_stored V w' = mv_stored V w)
        (\<lambda>_ w'. mv_stored V w' = mv_stored V w) w"
    and commit_law: "wlp (call (md_commit db)) (\<lambda>_ w'. mv_stored V w' = mv_session V w)
      (\<lambda>_ w'. mv_stored V w' = mv_stored V w) w"
    and close_law: "mv_stored V (snd (md_close db w)) = mv_stored V w"
  using assms by (simp_all add: metadata_laws_def)

section \<open>One row\<close>

lemma put_row_twice [simp]: "put_row t i r (put_row t i r' s) = put_row t i r s"
  by (simp add: put_row_def)

lemma put_row_at [simp]: "put_row t i r s t i = Some r"
  by (simp add: put_row_def)

lemma set_attributes_wlp:
  assumes "metadata_laws db V" and "mv_session V w t i = Some row" and "distinct (map fst kvs)"
    and "\<And>v. (id_attribute t, v) \<in> set kvs \<Longrightarrow> v = i"
  shows "wlp (set_attributes db t i kvs)
    (\<lambda>_ w'. upserted t i kvs (mv_session V w) (mv_session V w') \<and> mv_stored V w' = mv_stored V w)
    (\<lambda>_ w'. mv_stored V w' = mv_stored V w) w"
  using assms(2-4)
proof (induction kvs arbitrary: w row)
  case Nil
  have "mv_session V w = put_row t i row (mv_session V w)"
    using Nil(1) by (simp add: put_row_def map_upd_triv)
  with Nil show ?case by (auto simp: upserted_def has_attributes_def)
next
  case (Cons kv kvs)
  obtain k v where kv: "kv = (k, v)" by fastforce
  show ?case
    unfolding kv set_attributes.simps wlp_bindA
  proof (rule wlp_mono [OF set_law [OF assms(1) Cons.prems(1)]])
    show "k = id_attribute t \<longrightarrow> v = i" using Cons.prems(3) kv by auto
    fix a w1
    assume w1: "mv_session V w1 = put_row t i (row(k \<mapsto> v)) (mv_session V w) \<and> mv_stored V w1 = mv_stored V w"
    have step: "upserted t i ((k, v) # kvs) (mv_session V w) s" if s: "upserted t i kvs (mv_session V w1) s" for s
    proof -
      obtain r where r: "has_attributes kvs (Some (row(k \<mapsto> v))) r" "s = put_row t i r (mv_session V w)"
        using s w1 by (auto simp: upserted_def)
      have "k \<notin> fst ` set kvs" using Cons.prems(2) kv by simp
      with r(1) Cons.prems(1) have "has_attributes ((k, v) # kvs) (mv_session V w t i) r"
        by (auto simp: has_attributes_def)
      with r(2) show ?thesis by (auto simp: upserted_def)
    qed
    show "wlp (set_attributes db t i kvs)
        (\<lambda>_ w'. upserted t i ((k, v) # kvs) (mv_session V w) (mv_session V w') \<and> mv_stored V w' = mv_stored V w)
        (\<lambda>_ w'. mv_stored V w' = mv_stored V w) w1"
      by (rule wlp_mono [OF Cons.IH [of w1 "row(k \<mapsto> v)"]]) (use Cons.prems w1 step kv in auto)
  qed simp
qed

section \<open>A table\<close>

lemma synced_step:
  assumes "upserted t i vs s s1" and "synced t items s1 s'" and "i \<notin> fst ` set items"
  shows "synced t ((i, vs) # items) s s'"
proof -
  obtain row where row: "has_attributes vs (s t i) row" "s1 = put_row t i row s"
    using assms(1) by (auto simp: upserted_def)
  have same: "s1 t' i' = s t' i'" if "t' \<noteq> t \<or> i' \<noteq> i" for t' i'
    using that by (auto simp: row(2) put_row_def)
  have "s' t i = Some row"
    using assms(2,3) by (simp add: synced_def row(2))
  moreover have "\<exists>r. s' t j = Some r \<and> has_attributes us (s t j) r" if "(j, us) \<in> set items" for j us
  proof -
    have "j \<noteq> i" using that assms(3) by force
    with assms(2) that same [of t j] show ?thesis by (fastforce simp: synced_def)
  qed
  ultimately show ?thesis
    using assms(2) row(1) same unfolding synced_def by auto
qed

lemma each_in_order_synced:
  assumes "\<And>x w. x \<in> set xs \<Longrightarrow> wlp (f x)
      (\<lambda>_ w'. upserted t (i x) (vs x) (mv_session V w) (mv_session V w') \<and> mv_stored V w' = mv_stored V w)
      (\<lambda>_ w'. mv_stored V w' = mv_stored V w) w"
    and "distinct (map i xs)"
  shows "wlp (each_in_order f xs)
    (\<lambda>_ w'. synced t (map (\<lambda>x. (i x, vs x)) xs) (mv_session V w) (mv_session V w') \<and> mv_stored V w' = mv_stored V w)
    (\<lambda>_ w'. mv_stored V w' = mv_stored V w) w"
  using assms
proof (induction xs arbitrary: w)
  case (Cons x xs)
  show ?case
    unfolding each_in_order.simps wlp_bindA
    by (rule wlp_mono [OF Cons.prems(1)], simp, rule wlp_mono [OF Cons.IH])
       (use Cons.prems in \<open>auto intro!: synced_step simp: image_image\<close>)
qed (simp add: synced_def)

text \<open>A session ends with the table as it was, or as the body made it.\<close>

lemma in_session_wlp:
  assumes "metadata_laws db V"
    and "\<And>w. wlp body (\<lambda>_ w'. P (mv_session V w) (mv_session V w') \<and> mv_stored V w' = mv_stored V w)
      (\<lambda>_ w'. mv_stored V w' = mv_stored V w) w"
  shows "wlp (in_session db body) (\<lambda>_ w'. P (mv_stored V w) (mv_stored V w'))
    (\<lambda>_ w'. mv_stored V w' = mv_stored V w \<or> P (mv_stored V w) (mv_stored V w')) w"
proof -
  have close: "md_close db w1 = (r, w2) \<Longrightarrow> mv_stored V w2 = mv_stored V w1" for w1 w2 r
    using close_law [OF assms(1), of w1] by simp
  have committed: "wlp (thenA body (call (md_commit db)))
      (\<lambda>_ w'. P (mv_session V w1) (mv_stored V w')) (\<lambda>_ w'. mv_stored V w' = mv_stored V w1) w1" for w1
    unfolding wlp_bindA
    by (rule wlp_mono [OF assms(2)], rule wlp_mono [OF commit_law [OF assms(1)]]) auto
  show ?thesis
    unfolding in_session_def wlp_bindA [of "call (md_open db)"] wlp_leaving
    by (rule wlp_mono [OF open_law [OF assms(1)]], rule wlp_mono [OF committed])
       (auto split: prod.split sum.split dest: close)
qed

section \<open>The connections\<close>

lemma sync_connection_wlp:
  assumes "metadata_laws db V" and "map_of c ''conn_id'' = Some i" and "distinct (map fst c)"
  shows "wlp (sync_connection db c)
    (\<lambda>_ w'. upserted Connections i c (mv_session V w) (mv_session V w') \<and> mv_stored V w' = mv_stored V w)
    (\<lambda>_ w'. mv_stored V w' = mv_stored V w) w"
proof -
  have i: "(''conn_id'', i) \<in> set c" "\<And>v. (''conn_id'', v) \<in> set c \<Longrightarrow> v = i"
    using assms(2,3) by (auto dest: map_of_SomeD)
  show ?thesis
    unfolding sync_connection_def wlp_bindA wlp_lift assms(2) required_def option.case sum.case
  proof (rule wlp_mono [OF find_law [OF assms(1)]])
    fix found w1
    assume w1: "(found \<longleftrightarrow> mv_session V w Connections i \<noteq> None) \<and> mv_session V w1 = mv_session V w \<and>
      mv_stored V w1 = mv_stored V w"
    show "wlp (if \<not> found then call (md_add db Connections i c) else update_connection db i c)
        (\<lambda>_ w'. upserted Connections i c (mv_session V w) (mv_session V w') \<and> mv_stored V w' = mv_stored V w)
        (\<lambda>_ w'. mv_stored V w' = mv_stored V w) w1"
    proof (cases "mv_session V w1 Connections i")
      case None
      have "wlp (call (md_add db Connections i c))
          (\<lambda>_ w'. upserted Connections i c (mv_session V w1) (mv_session V w') \<and> mv_stored V w' = mv_stored V w1)
          (\<lambda>_ w'. mv_stored V w' = mv_stored V w1) w1"
        by (rule add_law [OF assms(1) None assms(3)]) (simp add: i)
      with None w1 show ?thesis by simp
    next
      case (Some row)
      have "wlp (set_attributes db Connections i c)
          (\<lambda>_ w'. upserted Connections i c (mv_session V w1) (mv_session V w') \<and> mv_stored V w' = mv_stored V w1)
          (\<lambda>_ w'. mv_stored V w' = mv_stored V w1) w1"
        by (rule set_attributes_wlp [OF assms(1) Some assms(3)]) (simp add: i)
      with Some w1 show ?thesis by (simp add: update_connection_def)
    qed
  qed simp
qed

definition connection_id :: "(string, json) dict \<Rightarrow> json" where
  "connection_id c = (case map_of c ''conn_id'' of None \<Rightarrow> JNull | Some i \<Rightarrow> i)"

lemma built_connections:
  "wlp (build_connections env outputs)
    (\<lambda>cs w'. w' = w \<and> map connection_id cs = map JStr [''aws_default'', ''databricks_default'', ''postgres_marketplace'',
        ''postgres_airflow'', ''kafka_default'', ''prometheus_default''] \<and>
       (\<forall>c \<in> set cs. map_of c ''conn_id'' = Some (connection_id c) \<and> distinct (map fst c)))
    (\<lambda>_ w'. w' = w) w"
  by (auto simp: build_connections_def postgres_connection_def env_value_def env_int_def connection_id_def
      split: option.split sum.split)

definition connection_ids :: "json list" where
  "connection_ids = map JStr [''aws_default'', ''databricks_default'', ''postgres_marketplace'', ''postgres_airflow'',
     ''kafka_default'', ''prometheus_default'']"

lemma sync_connections_wlp:
  assumes "metadata_laws db V"
  shows "wlp (sync_connections env db outputs)
    (\<lambda>_ w'. \<exists>cs. build_connections env outputs w = Some (Inr cs, w) \<and> map connection_id cs = connection_ids \<and>
       synced Connections (map (\<lambda>c. (connection_id c, c)) cs) (mv_stored V w) (mv_stored V w'))
    (\<lambda>_ w'. mv_stored V w' = mv_stored V w \<or>
       (\<exists>cs. build_connections env outputs w = Some (Inr cs, w) \<and> map connection_id cs = connection_ids \<and>
          synced Connections (map (\<lambda>c. (connection_id c, c)) cs) (mv_stored V w) (mv_stored V w'))) w"
proof (cases "build_connections env outputs w")
  case None
  then show ?thesis by (simp add: sync_connections_def wlp_def bindA_def)
next
  case (Some built)
  obtain r w1 where built: "built = (r, w1)" by fastforce
  show ?thesis
  proof (cases r)
    case (Inl e)
    with Some built built_connections [of env outputs w] show ?thesis
      by (simp add: sync_connections_def wlp_def bindA_def)
  next
    case (Inr cs)
    with Some built built_connections [of env outputs w]
    have cs: "w1 = w" "map connection_id cs = connection_ids"
        "\<And>c. c \<in> set cs \<Longrightarrow> map_of c ''conn_id'' = Some (connection_id c) \<and> distinct (map fst c)"
      by (auto simp: wlp_def connection_ids_def)
    have "distinct (map connection_id cs)" by (simp add: cs(2) connection_ids_def)
    then have each: "wlp (each_in_order (sync_connection db) cs)
        (\<lambda>_ w'. synced Connections (map (\<lambda>c. (connection_id c, c)) cs) (mv_session V w) (mv_session V w') \<and>
           mv_stored V w' = mv_stored V w) (\<lambda>_ w'. mv_stored V w' = mv_stored V w) w" for w
      by (intro each_in_order_synced sync_connection_wlp [OF assms]) (simp_all add: cs(3))
    have "wlp (sync_connections env db outputs) Q E w = wlp (in_session db (each_in_order (sync_connection db) cs)) Q E w" for Q E
      by (simp add: sync_connections_def wlp_def bindA_def Some built Inr cs(1))
    then show ?thesis
      using Some built Inr cs(1,2)
      by (auto intro!: wlp_mono [OF in_session_wlp [OF assms each]])
  qed
qed

text \<open>
  C29. The connections are synchronised all or nothing. However \<open>sync_connections\<close> ends, the
  committed metadata are those before it, or those with all six connections in them: each with
  every attribute built from the environment and the outputs of Terraform, each that was there
  keeping its other attributes, and no other connection and no pool changed. When it returns, it is
  the second. An undefined variable of the environment, a port that is not a number or a missing
  output changes nothing.
\<close>

theorem airflow_connections_all_or_nothing:
  assumes "metadata_laws db V" and "sync_connections env db outputs w = Some (r, w')"
  shows "(r \<noteq> Inr () \<and> mv_stored V w' = mv_stored V w) \<or>
    (\<exists>cs. build_connections env outputs w = Some (Inr cs, w) \<and> map connection_id cs = connection_ids \<and>
       (\<forall>t i. t \<noteq> Connections \<or> i \<notin> set connection_ids \<longrightarrow> mv_stored V w' t i = mv_stored V w t i) \<and>
       (\<forall>c \<in> set cs. \<exists>row. mv_stored V w' Connections (connection_id c) = Some row \<and>
          (\<forall>(k, v) \<in> set c. row k = Some v) \<and>
          (\<forall>old k. mv_stored V w Connections (connection_id c) = Some old \<and> k \<notin> fst ` set c \<longrightarrow> row k = old k)))"
proof -
  let ?all = "\<exists>cs. build_connections env outputs w = Some (Inr cs, w) \<and> map connection_id cs = connection_ids \<and>
    synced Connections (map (\<lambda>c. (connection_id c, c)) cs) (mv_stored V w) (mv_stored V w')"
  have "(r \<noteq> Inr () \<and> mv_stored V w' = mv_stored V w) \<or> ?all"
    using sync_connections_wlp [OF assms(1), of env outputs w] assms(2) by (cases r) (auto simp: wlp_def)
  then show ?thesis
  proof
    assume ?all
    then obtain cs where cs: "build_connections env outputs w = Some (Inr cs, w)" "map connection_id cs = connection_ids"
        "synced Connections (map (\<lambda>c. (connection_id c, c)) cs) (mv_stored V w) (mv_stored V w')"
      by blast
    from cs(2) have ids: "set connection_ids = connection_id ` set cs" by (metis list.set_map)
    have "(\<forall>t i. t \<noteq> Connections \<or> i \<notin> set connection_ids \<longrightarrow> mv_stored V w' t i = mv_stored V w t i) \<and>
       (\<forall>c \<in> set cs. \<exists>row. mv_stored V w' Connections (connection_id c) = Some row \<and>
          has_attributes c (mv_stored V w Connections (connection_id c)) row)"
      using cs(3) unfolding synced_def ids by (simp add: image_image)
    with cs(1,2) show ?thesis unfolding has_attributes_def by blast
  qed blast
qed

section \<open>A database in memory for the witness\<close>

record mem_meta =
  mm_stored :: meta_rows
  mm_session :: meta_rows

definition mem_rows :: "mem_meta meta_view" where
  "mem_rows = \<lparr> mv_stored = mm_stored, mv_session = mm_session \<rparr>"

definition mem_db :: "mem_meta metadata_db" where
  "mem_db =
     \<lparr> md_open = (\<lambda>w. (Inr (), w \<lparr> mm_session := mm_stored w \<rparr>)),
       md_find = (\<lambda>t i w. (Inr (mm_session w t i \<noteq> None), w)),
       md_add = (\<lambda>t i vs w. (Inr (), w \<lparr> mm_session := put_row t i (map_of vs) (mm_session w) \<rparr>)),
       md_set = (\<lambda>t i k v w. case mm_session w t i of
          None \<Rightarrow> (Inl (attribute_error k), w)
        | Some row \<Rightarrow> (Inr (), w \<lparr> mm_session := put_row t i (row(k \<mapsto> v)) (mm_session w) \<rparr>)),
       md_commit = (\<lambda>w. (Inr (), w \<lparr> mm_stored := mm_session w \<rparr>)), md_close = (\<lambda>w. (Inr (), w)),
       md_variable_set = (\<lambda>_ _ _ w. (Inr (), w)) \<rparr>"

lemma upserted_new: "s t i = None \<Longrightarrow> distinct (map fst vs) \<Longrightarrow> upserted t i vs s (put_row t i (map_of vs) s)"
  unfolding upserted_def has_attributes_def by (rule exI [of _ "map_of vs"]) auto

lemma mem_metadata_laws: "metadata_laws mem_db mem_rows"
  by (auto simp: metadata_laws_def mem_db_def mem_rows_def wlp_call upserted_new split: option.split)

definition mem_env :: "mem_meta setup_env" where
  "mem_env =
     \<lparr> se_getenv = (\<lambda>n _. Some ''5432''), se_exists = (\<lambda>_ _. True), se_read_text = (\<lambda>_ w. (Inr [], w)),
       se_read_json = (\<lambda>_ w. (Inr (JList []), w)), se_load_dotenv = (\<lambda>w. (Inr (), w)), se_render = (\<lambda>s _. Inr s),
       se_safe_load = (\<lambda>_. Inr JNull), se_directory = ''config'' \<rparr>"

definition empty_meta :: mem_meta where
  "empty_meta = \<lparr> mm_stored = (\<lambda>_ _. None), mm_session = (\<lambda>_ _. None) \<rparr>"

lemma airflow_connections_all_or_nothing_witness:
  "\<exists>w'. sync_connections mem_env mem_db [(''aws_region'', JStr ''sa-east-1'')] empty_meta = Some (Inr (), w') \<and>
     (\<exists>row. mm_stored w' Connections (JStr ''kafka_default'') = Some row)"
proof -
  have "map_option fst (sync_connections mem_env mem_db [(''aws_region'', JStr ''sa-east-1'')] empty_meta) =
      Some (Inr ())"
    by code_simp
  then obtain w' where run: "sync_connections mem_env mem_db [(''aws_region'', JStr ''sa-east-1'')] empty_meta =
      Some (Inr (), w')"
    by auto
  from airflow_connections_all_or_nothing [OF mem_metadata_laws run] obtain cs where
      "map connection_id cs = connection_ids"
      "\<forall>c \<in> set cs. \<exists>row. mm_stored w' Connections (connection_id c) = Some row"
    by (simp add: mem_rows_def) blast
  moreover have "JStr ''kafka_default'' \<in> set connection_ids" by (simp add: connection_ids_def)
  ultimately have "\<exists>row. mm_stored w' Connections (JStr ''kafka_default'') = Some row"
    by (metis (no_types, lifting) imageE list.set_map)
  with run show ?thesis by blast
qed

end
