(* ===== verification/Dag_Properties.thy ===== *)
theory Dag_Properties
  imports Dags
begin

text \<open>
  The properties of the watcher, over what Airflow documents of its variables, and of the
  maintenance of the streaming tables.
\<close>

section \<open>The watcher\<close>

text \<open>A variable read is the one last set; a write that raises may have been made.\<close>

definition variable_laws :: "'w variable_store \<Rightarrow> ('w \<Rightarrow> string \<Rightarrow> string option) \<Rightarrow> bool" where
  "variable_laws vs V \<longleftrightarrow>
     (\<forall>k w. V (snd (vs_get vs k w)) = V w \<and> (\<forall>v. fst (vs_get vs k w) = Inr v \<longrightarrow> v = V w k)) \<and>
     (\<forall>k v w. V (snd (vs_set vs k v w)) = (V w)(k \<mapsto> v) \<or>
        \<not> fst (vs_set vs k v w) = Inr () \<and> V (snd (vs_set vs k v w)) = V w)"

text \<open>\<open>float(str(x))\<close> is \<open>x\<close>; a counter is never \<open>nan\<close>, so \<open>==\<close> is equality.\<close>

definition float_laws :: "'f floats \<Rightarrow> bool" where
  "float_laws fl \<longleftrightarrow>
     (\<forall>x. fl_of_text fl (fl_str fl x) = Inr x) \<and> (\<forall>x y. fl_eq fl x y \<longleftrightarrow> x = y)"

text \<open>The value a poke saw, and when a sequence of values changes.\<close>

definition seen :: "'f floats \<Rightarrow> json outcome \<Rightarrow> 'f option" where
  "seen fl response =
     (case bindE response query_results of
        Inl e \<Rightarrow> None
      | Inr results \<Rightarrow>
          if json_truth results then (case counter_value fl results of Inl e \<Rightarrow> None | Inr x \<Rightarrow> Some x) else None)"

fun changes :: "'f \<Rightarrow> 'f option list \<Rightarrow> bool list" where
  "changes x [] = []"
| "changes x (None # ys) = False # changes x ys"
| "changes x (Some y # ys) = (y \<noteq> x) # changes y ys"

fun last_seen :: "'f \<Rightarrow> 'f option list \<Rightarrow> 'f" where
  "last_seen x [] = x"
| "last_seen x (None # ys) = last_seen x ys"
| "last_seen x (Some y # ys) = last_seen y ys"

definition watermark :: "'f floats \<Rightarrow> (string \<Rightarrow> string option) \<Rightarrow> 'f outcome" where
  "watermark fl vars =
     fl_of_text fl (case vars last_consumed_variable of None \<Rightarrow> ''0'' | Some t \<Rightarrow> t)"

definition others_kept :: "(string \<Rightarrow> string option) \<Rightarrow> (string \<Rightarrow> string option) \<Rightarrow> bool" where
  "others_kept vars vars' \<longleftrightarrow> (\<forall>k. k \<noteq> last_consumed_variable \<longrightarrow> vars' k = vars k)"

lemma others_kept_trans: "others_kept a b \<Longrightarrow> others_kept b c \<Longrightarrow> others_kept a c"
  by (simp add: others_kept_def)

lemma poke_wlp:
  assumes laws: "variable_laws vs V" and floats: "float_laws fl" and mark: "watermark fl (V w) = Inr x"
  shows "wlp (new_records_detected vs fl r)
    (\<lambda>fired w'. [fired] = changes x [seen fl r] \<and> watermark fl (V w') = Inr (last_seen x [seen fl r]) \<and>
       others_kept (V w) (V w')) (\<lambda>_ _. True) w"
proof -
  have read: "V (snd (vs_get vs k w)) = V w" "fst (vs_get vs k w) = Inr v \<Longrightarrow> v = V w k" for k v w
    using laws by (simp_all add: variable_laws_def)
  have store: "V w2 = (V w1)(k \<mapsto> t)" if "vs_set vs k t w1 = (Inr (), w2)" for k t w1 w2
    using laws that unfolding variable_laws_def by (metis fst_conv snd_conv)
  have reread: "fl_of_text fl (fl_str fl y) = Inr y" "fl_eq fl y z \<longleftrightarrow> y = z" for y z
    using floats by (simp_all add: float_laws_def)
  show ?thesis
  proof (cases "bindE r query_results")
    case (Inl e)
    then show ?thesis by (simp add: new_records_detected_def)
  next
    case (Inr results)
    show ?thesis
    proof (cases "json_truth results \<and> (\<exists>y. counter_value fl results = Inr y)")
      case False
      with Inr mark show ?thesis
        by (cases "counter_value fl results")
          (simp_all add: new_records_detected_def seen_def others_kept_def)
    next
      case True
      then obtain y where y: "json_truth results" "counter_value fl results = Inr y" by blast
      have "wlp (variable_get vs last_consumed_variable ''0'') (\<lambda>t w1. V w1 = V w \<and> fl_of_text fl t = Inr x)
          (\<lambda>_ _. True) w"
        using mark read [of last_consumed_variable w]
        by (cases "vs_get vs last_consumed_variable w")
          (auto simp: variable_get_def wlp_call watermark_def split: sum.split)
      then show ?thesis
        unfolding new_records_detected_def wlp_bindA wlp_lift Inr sum.case
      proof (simp add: y reread Inr, elim wlp_mono, goal_cases)
        case (1 t w1)
        show ?case
          using 1 mark y Inr store
          by (auto simp: wlp_call seen_def watermark_def others_kept_def reread split: prod.split sum.split)
      qed simp
    qed
  qed
qed

lemma changes_Cons: "changes x (y # ys) = changes x [y] @ changes (last_seen x [y]) ys"
  "last_seen x (y # ys) = last_seen (last_seen x [y]) ys"
  by (cases y; simp)+

lemma watch_wlp:
  assumes laws: "variable_laws vs V" and floats: "float_laws fl" and mark: "watermark fl (V w) = Inr x"
  shows "wlp (watch vs fl rs)
    (\<lambda>fired w'. fired = changes x (map (seen fl) rs) \<and>
       watermark fl (V w') = Inr (last_seen x (map (seen fl) rs)) \<and> others_kept (V w) (V w')) (\<lambda>_ _. True) w"
  using mark
proof (induction rs arbitrary: w x)
  case Nil
  then show ?case by (simp add: others_kept_def)
next
  case (Cons r rs)
  show ?case
    unfolding watch.simps wlp_bindA
  proof (rule wlp_mono [OF poke_wlp [OF laws floats Cons.prems]])
    fix fired w'
    assume poke: "[fired] = changes x [seen fl r] \<and> watermark fl (V w') = Inr (last_seen x [seen fl r]) \<and>
      others_kept (V w) (V w')"
    show "wlp (watch vs fl rs) (\<lambda>a. wlp (ret (fired # a))
        (\<lambda>fired w'. fired = changes x (map (seen fl) (r # rs)) \<and>
           watermark fl (V w') = Inr (last_seen x (map (seen fl) (r # rs))) \<and> others_kept (V w) (V w'))
        (\<lambda>_ _. True)) (\<lambda>_ _. True) w'"
      by (rule wlp_mono [OF Cons.IH, of w' "last_seen x [seen fl r]"])
         (use poke changes_Cons [of x "seen fl r" "map (seen fl) rs"] in
            \<open>auto intro: others_kept_trans simp del: changes.simps last_seen.simps\<close>)
  qed simp
qed

text \<open>
  C30. The watcher fires once per new value. Over any pokes that did not raise, it answers \<open>True\<close>
  exactly where the counter differs from the value seen before (the watermark at the start), up or
  down, and never for a response without the metric; so a value already consumed does not fire
  again, however often a new cycle pokes. The watermark it leaves is the last value seen, and no
  other variable changes.
\<close>

theorem watcher_fires_on_change:
  assumes "variable_laws vs V" and "float_laws fl" and "watermark fl (V w) = Inr x"
    and "watch vs fl rs w = Some (Inr fired, w')"
  shows "fired = changes x (map (seen fl) rs) \<and>
    watermark fl (V w') = Inr (last_seen x (map (seen fl) rs)) \<and>
    (\<forall>k. k \<noteq> last_consumed_variable \<longrightarrow> V w' k = V w k)"
  using wlp_Inr [OF watch_wlp [OF assms(1-3)] assms(4)] by (simp add: others_kept_def)

text \<open>Variables in a map and floats as texts, for the witness.\<close>

definition map_variables :: "(string \<Rightarrow> string option) variable_store" where
  "map_variables =
     \<lparr> vs_get = (\<lambda>k w. (Inr (w k), w)), vs_set = (\<lambda>k v w. (Inr (), w(k \<mapsto> v))) \<rparr>"

definition text_floats :: "string floats" where
  "text_floats =
     \<lparr> fl_of_text = Inr,
       fl_of_json = (\<lambda>v. case v of JStr t \<Rightarrow> Inr t | _ \<Rightarrow> Inl (type_error ''float'')),
       fl_str = id, fl_eq = (=) \<rparr>"

definition counter_at :: "string \<Rightarrow> json outcome" where
  "counter_at t = Inr (JObj [(''data'', JObj [(''result'',
     JList [JObj [(''value'', JList [JInt 1, JStr t])]])])])"

lemma watcher_fires_on_change_witness:
  "\<exists>w'. watch map_variables text_floats
      [Inr (JObj []), counter_at ''27'', counter_at ''27'', counter_at ''30'', counter_at ''2'', counter_at ''2'']
      (\<lambda>_. None) = Some (Inr [False, True, False, True, True, False], w') \<and>
    w' last_consumed_variable = Some ''2''"
proof -
  let ?rs = "[Inr (JObj []), counter_at ''27'', counter_at ''27'', counter_at ''30'', counter_at ''2'',
    counter_at ''2'']"
  have laws: "variable_laws map_variables (\<lambda>w. w)" "float_laws text_floats"
    by (simp_all add: variable_laws_def map_variables_def float_laws_def text_floats_def)
  have mark: "watermark text_floats (\<lambda>_. None) = Inr ''0''"
    by (simp add: watermark_def text_floats_def)
  have "map_option fst (watch map_variables text_floats ?rs (\<lambda>_. None)) =
      Some (Inr [False, True, False, True, True, False])"
    by code_simp
  then obtain w' where run: "watch map_variables text_floats ?rs (\<lambda>_. None) =
      Some (Inr [False, True, False, True, True, False], w')"
    by auto
  have "last_seen ''0'' (map (seen text_floats) ?rs) = ''2''" by code_simp
  with watcher_fires_on_change [OF laws mark run] run show ?thesis
    by (auto simp: watermark_def text_floats_def split: option.splits)
qed

section \<open>Maintenance\<close>

text \<open>Every entity is attempted, in order, and what it gave or raised is kept.\<close>

fun attempt_all :: "(string \<Rightarrow> ('w, 'a) act) \<Rightarrow> string list \<Rightarrow> ('w, (string \<times> 'a outcome) list) act" where
  "attempt_all f [] = ret []"
| "attempt_all f (e # es) =
     bindA (caught (f e)) (\<lambda>r. bindA (attempt_all f es) (\<lambda>rs. ret ((e, r) # rs)))"

definition gave :: "(string \<times> 'a outcome) list \<Rightarrow> (string, 'a) dict" where
  "gave outs = concat (map (\<lambda>(e, r). case r of Inl exc \<Rightarrow> [] | Inr a \<Rightarrow> [(e, a)]) outs)"

definition raised :: "(string \<times> 'a outcome) list \<Rightarrow> (string, string) dict" where
  "raised outs = concat (map (\<lambda>(e, r). case r of Inl exc \<Rightarrow> [(e, exn_text exc)] | Inr a \<Rightarrow> []) outs)"

lemma outcomes_Cons [simp]:
  "gave [] = []" "raised [] = []"
  "gave ((e, r) # outs) = (case r of Inl exc \<Rightarrow> gave outs | Inr a \<Rightarrow> (e, a) # gave outs)"
  "raised ((e, r) # outs) = (case r of Inl exc \<Rightarrow> (e, exn_text exc) # raised outs | Inr a \<Rightarrow> raised outs)"
  by (simp_all add: gave_def raised_def split: sum.split)

lemma bind_cong: "(\<And>a. f a = g a) \<Longrightarrow> bindA m f = bindA m g"
  by presburger

lemma update_new: "k \<notin> fst ` set d \<Longrightarrow> AList.update k v d = d @ [(k, v)]"
  by (induction d) auto

lemma over_entities_attempts:
  assumes "distinct es" and "fst ` set results \<inter> set es = {}" and "fst ` set errors \<inter> set es = {}"
  shows "over_entities f es results errors =
    bindA (attempt_all f es) (\<lambda>outs. ret (results @ gave outs, errors @ raised outs))"
  using assms
proof (induction es arbitrary: results errors)
  case Nil
  then show ?case by simp
next
  case (Cons e es)
  have new: "AList.update e a results = results @ [(e, a)]" "AList.update e t errors = errors @ [(e, t)]" for a t
    using Cons.prems by (auto intro!: update_new)
  have "over_entities f es (results @ [(e, a)]) errors =
      bindA (attempt_all f es) (\<lambda>outs. ret (results @ (e, a) # gave outs, errors @ raised outs))" for a
    using Cons.IH [of "results @ [(e, a)]" errors] Cons.prems by auto
  moreover have "over_entities f es results (errors @ [(e, t)]) =
      bindA (attempt_all f es) (\<lambda>outs. ret (results @ gave outs, errors @ (e, t) # raised outs))" for t
    using Cons.IH [of results "errors @ [(e, t)]"] Cons.prems by auto
  ultimately show ?case
    unfolding over_entities.simps attempt_all.simps bind_assoc
    by (intro bind_cong) (simp add: new split: sum.split)
qed

lemma distinct_streaming: "distinct streaming_entities"
  by code_simp

text \<open>
  C31. A table that fails does not keep the others from their maintenance. Each task attempts every
  streaming table, in order, whatever the ones before it did; it returns exactly when all
  succeeded, with what each gave, and otherwise raises an error that names exactly the tables that
  failed. \<open>VACUUM\<close> runs only after every \<open>OPTIMIZE\<close> succeeded.
\<close>

theorem maintenance_attempts_every_table:
  "optimize_bronze dt =
     bindA (attempt_all (optimize_entity dt) streaming_entities) (\<lambda>outs.
       if raised outs = [] then ret (gave outs) else raise (entities_failed ''OPTIMIZE'' (raised outs))) \<and>
   vacuum_bronze dt =
     bindA (attempt_all (vacuum_entity dt) streaming_entities) (\<lambda>outs.
       if raised outs = [] then ret (sum_list (map (length \<circ> snd) (gave outs)))
       else raise (entities_failed ''VACUUM'' (raised outs))) \<and>
   bronze_streaming_maintenance dt w =
     (case attempt_all (optimize_entity dt) streaming_entities w of
        Some (Inr outs, w') \<Rightarrow>
          if raised outs = [] then vacuum_bronze dt w'
          else Some (Inl (entities_failed ''OPTIMIZE'' (raised outs)), w')
      | Some (Inl e, w') \<Rightarrow> Some (Inl e, w')
      | None \<Rightarrow> None)"
proof -
  have opt: "optimize_bronze dt =
     bindA (attempt_all (optimize_entity dt) streaming_entities) (\<lambda>outs.
       if raised outs = [] then ret (gave outs) else raise (entities_failed ''OPTIMIZE'' (raised outs)))"
    by (simp add: optimize_bronze_def over_entities_attempts [OF distinct_streaming] bind_assoc)
       (intro bind_cong, simp)
  have vac: "vacuum_bronze dt =
     bindA (attempt_all (vacuum_entity dt) streaming_entities) (\<lambda>outs.
       if raised outs = [] then ret (sum_list (map (length \<circ> snd) (gave outs)))
       else raise (entities_failed ''VACUUM'' (raised outs)))"
    by (simp add: vacuum_bronze_def over_entities_attempts [OF distinct_streaming] bind_assoc)
       (intro bind_cong, simp)
  from opt vac show ?thesis
    by (auto simp: bronze_streaming_maintenance_def bindA_def ret_def raise_def
        split: option.split prod.split sum.split)
qed

end
