(* ===== verification/Bronze_Safety.thy ===== *)
theory Bronze_Safety
  imports Bronze_Consumer
begin

text \<open>
  At-least-once delivery of the Bronze consumer, proved from what it relies on: a messaging
  provider that commits what it has delivered, and a table that keeps what was appended. Both are
  locales; the Kafka provider interprets the first in \<open>Kafka_Contract\<close>.
\<close>

section \<open>The contracts\<close>

text \<open>
  Two observers describe a provider to its client: \<open>pending p t g\<close>, the messages delivered for a
  topic and group since the last committed offset, and \<open>committed p t g\<close>, those below it.
\<close>

definition elsewhere_same ::
  "(string \<Rightarrow> string \<Rightarrow> kbytes list) \<Rightarrow> (string \<Rightarrow> string \<Rightarrow> kbytes list) \<Rightarrow> string \<Rightarrow> string \<Rightarrow> bool" where
  "elsewhere_same f f' t g \<longleftrightarrow> (\<forall>t' g'. (t', g') \<noteq> (t, g) \<longrightarrow> f' t' g' = f t' g')"

locale messaging_contract =
  fixes consume_batch :: "string \<Rightarrow> string \<Rightarrow> int \<Rightarrow> int \<Rightarrow> bool \<Rightarrow> ('p, message list) act"
    and commit :: "string \<Rightarrow> string \<Rightarrow> ('p, unit) act"
    and recover :: "string \<Rightarrow> string \<Rightarrow> exn \<Rightarrow> ('p, bool) act"
    and lag :: "string \<Rightarrow> string \<Rightarrow> ('p, int option) act"
    and valid :: "'p \<Rightarrow> bool"
    and pending :: "'p \<Rightarrow> string \<Rightarrow> string \<Rightarrow> kbytes list"
    and committed :: "'p \<Rightarrow> string \<Rightarrow> string \<Rightarrow> kbytes list"
  assumes consume_law: "valid p \<Longrightarrow> wlp (consume_batch t g n timeout False)
      (\<lambda>ms q. valid q \<and> committed q = committed p \<and> elsewhere_same (pending p) (pending q) t g \<and>
         pending q t g = pending p t g @ map ms_value ms)
      (\<lambda>e q. valid q \<and> committed q = committed p \<and> elsewhere_same (pending p) (pending q) t g) p"
    and consume_bound: "valid p \<Longrightarrow> wlp (consume_batch t g n timeout False)
      (\<lambda>ms q. int (length ms) \<le> max n 0) (\<lambda>e q. True) p"
    and commit_law: "valid p \<Longrightarrow> wlp (commit t g)
      (\<lambda>u q. valid q \<and> elsewhere_same (pending p) (pending q) t g \<and>
         elsewhere_same (committed p) (committed q) t g \<and>
         committed q t g = committed p t g @ pending p t g \<and> pending q t g = [])
      (\<lambda>e q. valid q \<and> elsewhere_same (pending p) (pending q) t g \<and>
         elsewhere_same (committed p) (committed q) t g \<and>
         (committed q t g = committed p t g \<and> pending q t g = pending p t g \<or>
          committed q t g = committed p t g @ pending p t g \<and> pending q t g = [])) p"
    and recover_law: "valid p \<Longrightarrow> wlp (recover t g exc)
      (\<lambda>b q. valid q \<and> committed q = committed p \<and> elsewhere_same (pending p) (pending q) t g \<and>
         pending q t g = (if b then [] else pending p t g))
      (\<lambda>e q. valid q \<and> committed q = committed p \<and> elsewhere_same (pending p) (pending q) t g \<and>
         pending q t g = []) p"
    and lag_law: "valid p \<Longrightarrow> wlp (lag t g)
      (\<lambda>n q. valid q \<and> committed q = committed p \<and> pending q = pending p)
      (\<lambda>e q. valid q \<and> committed q = committed p \<and> pending q = pending p) p"

text \<open>A table writer: a write that returns has its rows in the table; no write loses a row.\<close>

locale table_sink =
  fixes append_rows :: "string \<Rightarrow> arrow_schema \<Rightarrow> bz_record list \<Rightarrow> ('d, unit) act"
    and rows :: "'d \<Rightarrow> string \<Rightarrow> bz_record set"
  assumes write_law: "wlp (append_rows uri schema rs)
      (\<lambda>u d'. set rs \<subseteq> rows d' uri \<and> (\<forall>uri'. rows d uri' \<subseteq> rows d' uri'))
      (\<lambda>e d'. \<forall>uri'. rows d uri' \<subseteq> rows d' uri') d"

section \<open>What a message becomes\<close>

definition record_of :: "('p, 'd) bronze_env \<Rightarrow> kbytes \<Rightarrow> bz_record option" where
  "record_of env v =
     (case decode_debezium_message (be_codec env) v of
        Inl e \<Rightarrow> None
      | Inr change \<Rightarrow> map_option (\<lambda>r. cdc_record r (dc_source_ts_ms change)) (dc_record change))"

fun records_of :: "('p, 'd) bronze_env \<Rightarrow> kbytes list \<Rightarrow> bz_record list" where
  "records_of env [] = []"
| "records_of env (v # vs) =
     (case record_of env v of None \<Rightarrow> records_of env vs | Some r \<Rightarrow> r # records_of env vs)"

lemma records_of_append [simp]: "records_of env (vs @ ws) = records_of env vs @ records_of env ws"
  by (induction vs) (auto split: option.split)

section \<open>Rules for the parts\<close>

lemma wlp_on_provider:
  "wlp m (\<lambda>a p. Q a (s \<lparr> bs_provider := p \<rparr>)) (\<lambda>e p. E e (s \<lparr> bs_provider := p \<rparr>)) (bs_provider s) \<Longrightarrow>
    wlp (on_provider m) Q E s"
  by (auto simp: wlp_def on_provider_def split: option.splits prod.splits sum.splits)

lemma wlp_on_sink:
  "wlp m (\<lambda>a d. Q a (s \<lparr> bs_sink := d \<rparr>)) (\<lambda>e d. E e (s \<lparr> bs_sink := d \<rparr>)) (bs_sink s) \<Longrightarrow>
    wlp (on_sink m) Q E s"
  by (auto simp: wlp_def on_sink_def split: option.splits prod.splits sum.splits)

lemma wlp_monotonic [simp]:
  "wlp (monotonic env) Q E s = Q (be_clock env (bs_ticks s)) (s \<lparr> bs_ticks := Suc (bs_ticks s) \<rparr>)"
  by (simp add: wlp_def monotonic_def)

lemma wlp_metric [simp]: "wlp (metric m) Q E s = Q () (s \<lparr> bs_metrics := bs_metrics s @ [m] \<rparr>)"
  by (simp add: metric_def)

lemma wlp_on_buffer [simp]:
  "wlp (on_buffer entity f) Q E s = Q () (s \<lparr> bs_buffers := (bs_buffers s)(entity := f (bs_buffers s entity)) \<rparr>)"
  by (simp add: on_buffer_def)

lemma wlp_set_flight [simp]:
  "wlp (set_flight entity f) Q E s = Q () (s \<lparr> bs_in_flight := (bs_in_flight s)(entity := f) \<rparr>)"
  by (simp add: set_flight_def)

lemma buffer_add_records [simp]: "eb_records (buffer_add now r b) = eb_records b @ [r]"
  by (simp add: buffer_add_def Let_def)

text \<open>What the decoding part of a turn leaves alone.\<close>

definition only_buffer :: "string \<Rightarrow> ('p, 'd) bronze_state \<Rightarrow> ('p, 'd) bronze_state \<Rightarrow> bool" where
  "only_buffer e s t \<longleftrightarrow>
     bs_provider t = bs_provider s \<and> bs_sink t = bs_sink s \<and> bs_in_flight t = bs_in_flight s \<and>
     (\<forall>e'. e' \<noteq> e \<longrightarrow> bs_buffers t e' = bs_buffers s e')"

lemma wlp_buffer_message:
  "wlp (buffer_message env e v)
    (\<lambda>_ t. only_buffer e s t \<and> eb_max_batch_size (bs_buffers t e) = eb_max_batch_size (bs_buffers s e) \<and>
       eb_records (bs_buffers t e) = eb_records (bs_buffers s e) @ records_of env [v])
    (\<lambda>_ t. only_buffer e s t) s"
  by (auto simp: buffer_message_def record_of_def only_buffer_def buffer_add_def Let_def
      split: sum.split exn.split option.split)

lemma wlp_buffer_messages:
  "wlp (buffer_messages env e ms)
    (\<lambda>_ t. only_buffer e s t \<and> eb_max_batch_size (bs_buffers t e) = eb_max_batch_size (bs_buffers s e) \<and>
       eb_records (bs_buffers t e) = eb_records (bs_buffers s e) @ records_of env (map ms_value ms))
    (\<lambda>_ t. only_buffer e s t) s"
proof (induction ms arbitrary: s)
  case Nil
  then show ?case by (simp add: only_buffer_def)
next
  case (Cons m ms)
  show ?case
    unfolding buffer_messages.simps wlp_bindA
  proof (rule wlp_mono [OF wlp_buffer_message])
    fix u and t :: "('a, 'b) bronze_state"
    assume t: "only_buffer e s t \<and> eb_max_batch_size (bs_buffers t e) = eb_max_batch_size (bs_buffers s e) \<and>
       eb_records (bs_buffers t e) = eb_records (bs_buffers s e) @ records_of env [ms_value m]"
    show "wlp (buffer_messages env e ms)
      (\<lambda>_ t. only_buffer e s t \<and> eb_max_batch_size (bs_buffers t e) = eb_max_batch_size (bs_buffers s e) \<and>
         eb_records (bs_buffers t e) = eb_records (bs_buffers s e) @ records_of env (map ms_value (m # ms)))
      (\<lambda>_ t. only_buffer e s t) t"
      by (rule wlp_mono [OF Cons.IH]) (use t in \<open>auto simp: only_buffer_def split: option.split\<close>)
  qed
qed

section \<open>The invariant\<close>

type_synonym 'p log_observer = "'p \<Rightarrow> string \<Rightarrow> string \<Rightarrow> kbytes list"

text \<open>Every committed message that carries a row has its row in the table of the entity.\<close>

definition durable ::
  "('p, 'd) bronze_env \<Rightarrow> (string \<Rightarrow> arrow_schema) \<Rightarrow> 'p log_observer \<Rightarrow> ('d \<Rightarrow> string \<Rightarrow> bz_record set) \<Rightarrow>
     ('p, 'd) bronze_state \<Rightarrow> string \<Rightarrow> bool" where
  "durable env schemas committed rows s e \<longleftrightarrow>
     (\<forall>r \<in> set (records_of env (committed (bs_provider s) (topic_for e) consumer_group_id)).
        coerce_record (be_round env) r (schemas e) \<in> rows (bs_sink s) (be_uri env e))"

text \<open>The buffer of the entity ends with the rows of the messages that are not committed.\<close>

definition covered ::
  "('p, 'd) bronze_env \<Rightarrow> 'p log_observer \<Rightarrow> ('p, 'd) bronze_state \<Rightarrow> string \<Rightarrow> bool" where
  "covered env pending s e \<longleftrightarrow>
     suffix (records_of env (pending (bs_provider s) (topic_for e) consumer_group_id)) (eb_records (bs_buffers s e))"

lemma topic_for_inj [simp]: "topic_for e = topic_for e' \<longleftrightarrow> e = e'"
  by (simp add: topic_for_def)

lemma flush_rows_suffix:
  "suffix (records_of env vs) (eb_records b) \<Longrightarrow> r \<in> set (records_of env vs) \<Longrightarrow>
    coerce_record (be_round env) r schema \<in> set (flush_rows env schema b)"
  by (auto simp: flush_rows_def suffix_def)

locale bronze_contract =
  messaging_contract "be_consume_batch env" "be_commit env" "be_recover env" "be_lag env" valid pending committed +
  table_sink "be_write env" rows
  for env :: "('p, 'd) bronze_env" and valid and pending and committed and rows
begin

text \<open>\<open>loop_inv\<close> holds while the loop runs, \<open>stop_inv\<close> also after an exception ended it.\<close>

definition loop_inv :: "(string \<Rightarrow> arrow_schema) \<Rightarrow> ('p, 'd) bronze_state \<Rightarrow> bool" where
  "loop_inv schemas s \<longleftrightarrow>
     valid (bs_provider s) \<and> (\<forall>e. durable env schemas committed rows s e \<and> covered env pending s e)"

definition stop_inv :: "(string \<Rightarrow> arrow_schema) \<Rightarrow> ('p, 'd) bronze_state \<Rightarrow> bool" where
  "stop_inv schemas s \<longleftrightarrow>
     valid (bs_provider s) \<and>
     (\<forall>e. durable env schemas committed rows s e \<and>
        (bs_in_flight s e = Some Submitted \<longrightarrow> covered env pending s e))"

text \<open>After the write and an attempt to commit: nothing is committed that is not in the table.\<close>

definition flushed :: "(string \<Rightarrow> arrow_schema) \<Rightarrow> string \<Rightarrow> ('p, 'd) bronze_state \<Rightarrow> ('p, 'd) bronze_state \<Rightarrow> bool" where
  "flushed schemas e s t \<longleftrightarrow>
     valid (bs_provider t) \<and> bs_in_flight t = bs_in_flight s \<and>
     (\<forall>e'. durable env schemas committed rows t e') \<and> covered env pending t e \<and>
     (\<forall>e'. e' \<noteq> e \<longrightarrow> bs_buffers t e' = bs_buffers s e' \<and>
        pending (bs_provider t) (topic_for e') consumer_group_id =
        pending (bs_provider s) (topic_for e') consumer_group_id)"

lemma wlp_write_commit:
  assumes ok: "valid (bs_provider s)" "\<And>e'. durable env schemas committed rows s e'" "covered env pending s e"
  shows "wlp (write_and_commit env e (schemas e) (flush_rows env (schemas e) (bs_buffers s e)))
    (\<lambda>_ t. flushed schemas e s t \<and> bs_buffers t = bs_buffers s \<and>
       pending (bs_provider t) (topic_for e) consumer_group_id = [])
    (\<lambda>_ t. flushed schemas e s t \<and> bs_buffers t = bs_buffers s) s"
proof -
  let ?rs = "flush_rows env (schemas e) (bs_buffers s e)"
  have mono: "durable env schemas committed rows (s \<lparr> bs_sink := d \<rparr>) e'"
    if "\<forall>uri. rows (bs_sink s) uri \<subseteq> rows d uri" for d e'
    using ok(2) [of e'] that by (auto simp: durable_def)
  have new: "durable env schemas committed rows (s \<lparr> bs_sink := d, bs_provider := q \<rparr>) e'"
    if rows: "set ?rs \<subseteq> rows d (be_uri env e)" "\<forall>uri. rows (bs_sink s) uri \<subseteq> rows d uri"
      and comm: "elsewhere_same (committed (bs_provider s)) (committed q) (topic_for e) consumer_group_id"
        "committed q (topic_for e) consumer_group_id = committed (bs_provider s) (topic_for e) consumer_group_id \<or>
         committed q (topic_for e) consumer_group_id = committed (bs_provider s) (topic_for e) consumer_group_id @
           pending (bs_provider s) (topic_for e) consumer_group_id"
    for d q e'
  proof (cases "e' = e")
    case True
    have "coerce_record (be_round env) r (schemas e) \<in> rows d (be_uri env e)"
      if "r \<in> set (records_of env (pending (bs_provider s) (topic_for e) consumer_group_id))" for r
      using flush_rows_suffix [OF ok(3) [unfolded covered_def] that] rows(1) by auto
    then show ?thesis
      using comm(2) mono [OF rows(2), of e] True by (auto simp: durable_def)
  next
    case False
    then have "committed q (topic_for e') consumer_group_id =
        committed (bs_provider s) (topic_for e') consumer_group_id"
      using comm(1) by (simp add: elsewhere_same_def)
    then show ?thesis
      using mono [OF rows(2), of e'] by (simp add: durable_def)
  qed
  have commit: "wlp (on_provider (be_commit env (topic_for e) consumer_group_id))
      (\<lambda>_ t. flushed schemas e s t \<and> bs_buffers t = bs_buffers s \<and>
         pending (bs_provider t) (topic_for e) consumer_group_id = [])
      (\<lambda>_ t. flushed schemas e s t \<and> bs_buffers t = bs_buffers s) (s \<lparr> bs_sink := d \<rparr>)"
    if rows: "set ?rs \<subseteq> rows d (be_uri env e)" "\<forall>uri. rows (bs_sink s) uri \<subseteq> rows d uri" for d
  proof (rule wlp_on_provider, simp, rule wlp_mono [OF commit_law [OF ok(1)]])
    fix u and q :: 'p
    assume q: "valid q \<and> elsewhere_same (pending (bs_provider s)) (pending q) (topic_for e) consumer_group_id \<and>
         elsewhere_same (committed (bs_provider s)) (committed q) (topic_for e) consumer_group_id \<and>
         committed q (topic_for e) consumer_group_id = committed (bs_provider s) (topic_for e) consumer_group_id @
           pending (bs_provider s) (topic_for e) consumer_group_id \<and>
         pending q (topic_for e) consumer_group_id = []"
    then show "flushed schemas e s (s \<lparr> bs_sink := d, bs_provider := q \<rparr>) \<and>
        pending q (topic_for e) consumer_group_id = []"
      using new [OF rows] by (auto simp: flushed_def covered_def elsewhere_same_def)
  next
    fix x and q :: 'p
    assume q: "valid q \<and> elsewhere_same (pending (bs_provider s)) (pending q) (topic_for e) consumer_group_id \<and>
         elsewhere_same (committed (bs_provider s)) (committed q) (topic_for e) consumer_group_id \<and>
         (committed q (topic_for e) consumer_group_id = committed (bs_provider s) (topic_for e) consumer_group_id \<and>
          pending q (topic_for e) consumer_group_id = pending (bs_provider s) (topic_for e) consumer_group_id \<or>
          committed q (topic_for e) consumer_group_id = committed (bs_provider s) (topic_for e) consumer_group_id @
           pending (bs_provider s) (topic_for e) consumer_group_id \<and>
          pending q (topic_for e) consumer_group_id = [])"
    then show "flushed schemas e s (s \<lparr> bs_sink := d, bs_provider := q \<rparr>)"
      using new [OF rows] ok(3) by (auto simp: flushed_def covered_def elsewhere_same_def)
  qed
  show ?thesis
    unfolding write_and_commit_def wlp_bindA
  proof (rule wlp_on_sink, rule wlp_mono [OF write_law])
    fix u and d :: 'd
    assume "set ?rs \<subseteq> rows d (be_uri env e) \<and> (\<forall>uri. rows (bs_sink s) uri \<subseteq> rows d uri)"
    then show "wlp (on_provider (be_commit env (topic_for e) consumer_group_id))
      (\<lambda>_ t. flushed schemas e s t \<and> bs_buffers t = bs_buffers s \<and>
         pending (bs_provider t) (topic_for e) consumer_group_id = [])
      (\<lambda>_ t. flushed schemas e s t \<and> bs_buffers t = bs_buffers s) (s \<lparr> bs_sink := d \<rparr>)"
      by (intro commit) auto
  next
    fix x and d :: 'd
    assume "\<forall>uri. rows (bs_sink s) uri \<subseteq> rows d uri"
    then show "flushed schemas e s (s \<lparr> bs_sink := d \<rparr>) \<and> bs_buffers (s \<lparr> bs_sink := d \<rparr>) = bs_buffers s"
      using ok mono by (auto simp: flushed_def covered_def)
  qed
qed

lemma flushed_frame [simp]:
  "flushed schemas e s (t \<lparr> bs_metrics := m \<rparr>) = flushed schemas e s t"
  by (simp add: flushed_def durable_def covered_def)

lemma wlp_flush:
  assumes ok: "valid (bs_provider s)" "\<And>e'. durable env schemas committed rows s e'" "covered env pending s e"
  shows "wlp (flush env e (schemas e)) (\<lambda>_. flushed schemas e s) (\<lambda>_. flushed schemas e s) s"
proof -
  have recover: "wlp (on_provider (be_recover env (topic_for e) consumer_group_id exc))
      (\<lambda>b t. flushed schemas e s t \<and> (b \<longrightarrow> pending (bs_provider t) (topic_for e) consumer_group_id = []))
      (\<lambda>_. flushed schemas e s) t" if t: "flushed schemas e s t" for exc t
  proof (rule wlp_on_provider, rule wlp_mono [OF recover_law])
    show "valid (bs_provider t)" using t by (simp add: flushed_def)
  next
    fix b q
    assume "valid q \<and> committed q = committed (bs_provider t) \<and>
        elsewhere_same (pending (bs_provider t)) (pending q) (topic_for e) consumer_group_id \<and>
        pending q (topic_for e) consumer_group_id =
          (if b then [] else pending (bs_provider t) (topic_for e) consumer_group_id)"
    then show "flushed schemas e s (t \<lparr> bs_provider := q \<rparr>) \<and>
        (b \<longrightarrow> pending (bs_provider (t \<lparr> bs_provider := q \<rparr>)) (topic_for e) consumer_group_id = [])"
      using t by (auto simp: flushed_def durable_def covered_def elsewhere_same_def split: if_splits)
  next
    fix x q
    assume "valid q \<and> committed q = committed (bs_provider t) \<and>
        elsewhere_same (pending (bs_provider t)) (pending q) (topic_for e) consumer_group_id \<and>
        pending q (topic_for e) consumer_group_id = []"
    then show "flushed schemas e s (t \<lparr> bs_provider := q \<rparr>)"
      using t by (auto simp: flushed_def durable_def covered_def elsewhere_same_def)
  qed
  have lag: "wlp (on_provider (be_lag env (topic_for e) consumer_group_id))
      (\<lambda>n t. flushed schemas e s t \<and> pending (bs_provider t) (topic_for e) consumer_group_id = [])
      (\<lambda>_. flushed schemas e s) t"
    if t: "flushed schemas e s t" "pending (bs_provider t) (topic_for e) consumer_group_id = []" for t
    by (rule wlp_on_provider, rule wlp_mono [OF lag_law])
       (use t in \<open>auto simp: flushed_def durable_def covered_def\<close>)
  have clear: "flushed schemas e s (t \<lparr> bs_buffers := (bs_buffers t)(e := b) \<rparr>)"
      "flushed schemas e s (t \<lparr> bs_metrics := m, bs_buffers := (bs_buffers t)(e := b) \<rparr>)"
    if "flushed schemas e s t" "pending (bs_provider t) (topic_for e) consumer_group_id = []" for t b m
    using that by (auto simp: flushed_def durable_def covered_def)
  show ?thesis
    unfolding flush_def
    by (auto split: option.split sum.split exn.split
        intro!: wlp_mono [OF wlp_write_commit [OF ok]] wlp_mono [OF recover] wlp_mono [OF lag] clear)
qed

text \<open>The two invariants, over the provider and the buffer of one entity.\<close>

lemma loop_stop: "loop_inv schemas s \<Longrightarrow> stop_inv schemas s"
  by (simp add: loop_inv_def stop_inv_def)

lemma flushed_loop_inv: "loop_inv schemas s \<Longrightarrow> flushed schemas e s t \<Longrightarrow> loop_inv schemas t"
  by (auto simp: loop_inv_def flushed_def covered_def)

lemma flight_frame [simp]:
  "loop_inv schemas (s \<lparr> bs_in_flight := f \<rparr>) = loop_inv schemas s"
  by (simp add: loop_inv_def durable_def covered_def)

lemma wlp_work_loop:
  assumes inv: "loop_inv schemas s"
  shows "wlp (work env schemas e) (\<lambda>_. loop_inv schemas) (\<lambda>_ _. False) s"
proof (cases "bs_in_flight s e = Some Submitted")
  case True
  have "wlp (flush env e (schemas e)) (\<lambda>_. flushed schemas e s) (\<lambda>_. flushed schemas e s) s"
    using inv by (intro wlp_flush) (auto simp: loop_inv_def)
  then show ?thesis
    using True flushed_loop_inv [OF inv]
    by (auto simp: wlp_def work_def set_flight_def modify_def split: option.splits sum.splits)
next
  case False
  then show ?thesis using inv by (simp add: wlp_def work_def ret_def)
qed

lemma wlp_work_stop:
  assumes inv: "stop_inv schemas s"
  shows "wlp (work env schemas e) (\<lambda>_. stop_inv schemas) (\<lambda>_ _. False) s"
proof (cases "bs_in_flight s e = Some Submitted")
  case True
  have flush: "wlp (flush env e (schemas e)) (\<lambda>_. flushed schemas e s) (\<lambda>_. flushed schemas e s) s"
    using inv True by (intro wlp_flush) (auto simp: stop_inv_def)
  have "stop_inv schemas (t \<lparr> bs_in_flight := (bs_in_flight t)(e := Some (Done r)) \<rparr>)"
    if "flushed schemas e s t" for t r
    using inv that by (auto simp: stop_inv_def flushed_def durable_def covered_def)
  with flush show ?thesis
    using True by (auto simp: wlp_def work_def set_flight_def modify_def split: option.splits sum.splits)
next
  case False
  then show ?thesis using inv by (simp add: wlp_def work_def ret_def)
qed

lemma wlp_work_all_stop:
  "stop_inv schemas s \<Longrightarrow> wlp (work_all env schemas es) (\<lambda>_. stop_inv schemas) (\<lambda>_ _. False) s"
proof (induction es arbitrary: s)
  case Nil
  then show ?case by simp
next
  case (Cons e es)
  show ?case
    unfolding work_all.simps wlp_bindA
    by (rule wlp_mono [OF wlp_work_stop [OF Cons.prems]]) (auto intro: Cons.IH)
qed

text \<open>What is left of the invariant when polling an entity raised: its own coverage is lost.\<close>

definition broken :: "(string \<Rightarrow> arrow_schema) \<Rightarrow> string \<Rightarrow> ('p, 'd) bronze_state \<Rightarrow> ('p, 'd) bronze_state \<Rightarrow> bool" where
  "broken schemas e s t \<longleftrightarrow>
     valid (bs_provider t) \<and> bs_in_flight t = bs_in_flight s \<and>
     (\<forall>e'. durable env schemas committed rows t e') \<and>
     (\<forall>e'. e' \<noteq> e \<longrightarrow> covered env pending t e')"

lemma broken_stop: "bs_in_flight s e \<noteq> Some Submitted \<Longrightarrow> broken schemas e s t \<Longrightarrow> stop_inv schemas t"
  by (auto simp: broken_def stop_inv_def)

lemma buffer_counters_frame:
  "eb_records b = eb_records (bs_buffers s e) \<Longrightarrow>
    loop_inv schemas (s \<lparr> bs_buffers := (bs_buffers s)(e := b) \<rparr>) = loop_inv schemas s"
  by (rule iffI) (simp_all add: loop_inv_def durable_def covered_def, metis)

lemma loop_inv_frame [simp]:
  "loop_inv schemas (s \<lparr> bs_ticks := n \<rparr>) = loop_inv schemas s"
  "loop_inv schemas (s \<lparr> bs_metrics := m \<rparr>) = loop_inv schemas s"
  by (simp_all add: loop_inv_def durable_def covered_def)

lemma wlp_poll_entity:
  assumes inv: "loop_inv schemas s"
  shows "wlp (poll_entity env e n) (\<lambda>_ t. loop_inv schemas t) (\<lambda>_. broken schemas e s) s"
proof -
  have ok: "valid (bs_provider s)" using inv by (simp add: loop_inv_def)
  have kept: "loop_inv schemas t"
    if q: "valid q" "committed q = committed (bs_provider s)"
        "elsewhere_same (pending (bs_provider s)) (pending q) (topic_for e) consumer_group_id"
        "pending q (topic_for e) consumer_group_id = pending (bs_provider s) (topic_for e) consumer_group_id @ map ms_value ms"
      and t: "bs_provider t = q" "bs_sink t = bs_sink s" "\<forall>e'. e' \<noteq> e \<longrightarrow> bs_buffers t e' = bs_buffers s e'"
        "eb_records (bs_buffers t e) = eb_records (bs_buffers s e) @ records_of env (map ms_value ms)"
    for q and ms :: "message list" and t
    unfolding loop_inv_def
  proof (intro conjI allI)
    show "valid (bs_provider t)" using q t by simp
    fix e'
    show "durable env schemas committed rows t e'"
      using inv q(2) t(1,2) by (simp add: loop_inv_def durable_def)
    show "covered env pending t e'"
    proof (cases "e' = e")
      case True
      have "covered env pending s e" using inv by (simp add: loop_inv_def)
      then show ?thesis
        using True q(4) t(1,4) by (auto simp: covered_def suffix_def)
    next
      case False
      have "covered env pending s e'" using inv by (simp add: loop_inv_def)
      then show ?thesis
        using False q(3) t(1,3) by (simp add: covered_def elsewhere_same_def)
    qed
  qed
  have lost: "broken schemas e s t"
    if q: "valid q" "committed q = committed (bs_provider s)"
        "elsewhere_same (pending (bs_provider s)) (pending q) (topic_for e) consumer_group_id"
      and t: "bs_provider t = q" "bs_sink t = bs_sink s" "\<forall>e'. e' \<noteq> e \<longrightarrow> bs_buffers t e' = bs_buffers s e'"
        "bs_in_flight t = bs_in_flight s" for q t
    using inv q t by (simp add: broken_def loop_inv_def durable_def covered_def elsewhere_same_def)
  show ?thesis
    unfolding poll_entity_def wlp_bindA
  proof (rule wlp_on_provider, rule wlp_mono [OF consume_law [OF ok]])
    fix ms :: "message list" and q
    assume q: "valid q \<and> committed q = committed (bs_provider s) \<and>
        elsewhere_same (pending (bs_provider s)) (pending q) (topic_for e) consumer_group_id \<and>
        pending q (topic_for e) consumer_group_id =
          pending (bs_provider s) (topic_for e) consumer_group_id @ map ms_value ms"
    let ?s = "s \<lparr> bs_provider := q \<rparr>"
    show "wlp (if ms \<noteq> [] then thenA (on_buffer e (\<lambda>b. b \<lparr> eb_consecutive_empty_polls := 0 \<rparr>))
            (buffer_messages env e ms)
          else on_buffer e (\<lambda>b. b \<lparr> eb_consecutive_empty_polls := Suc (eb_consecutive_empty_polls b) \<rparr>))
        (\<lambda>_. loop_inv schemas) (\<lambda>_. broken schemas e s) ?s"
    proof (cases "ms = []")
      case True
      then show ?thesis
        using q by (auto intro!: kept [of q "[]"])
    next
      case False
      let ?b = "(bs_buffers s e) \<lparr> eb_consecutive_empty_polls := 0 \<rparr>"
      have "wlp (buffer_messages env e ms) (\<lambda>_. loop_inv schemas) (\<lambda>_. broken schemas e s)
          (?s \<lparr> bs_buffers := (bs_buffers s)(e := ?b) \<rparr>)"
        by (rule wlp_mono [OF wlp_buffer_messages])
           (use q in \<open>auto simp: only_buffer_def intro!: kept [of q ms] lost [of q]\<close>)
      with False show ?thesis by simp
    qed
  next
    fix x q
    assume "valid q \<and> committed q = committed (bs_provider s) \<and>
        elsewhere_same (pending (bs_provider s)) (pending q) (topic_for e) consumer_group_id"
    then show "broken schemas e s (s \<lparr> bs_provider := q \<rparr>)"
      by (auto intro!: lost [of q])
  qed
qed

lemma wlp_maybe_poll:
  assumes inv: "loop_inv schemas s"
  shows "wlp (maybe_poll env e) (\<lambda>_. loop_inv schemas) (\<lambda>_. broken schemas e s) s"
proof -
  have poll: "wlp (poll_entity env e n) (\<lambda>_. loop_inv schemas) (\<lambda>_. broken schemas e s)
      (s \<lparr> bs_buffers := (bs_buffers s)(e := b) \<rparr>)"
    if "eb_records b = eb_records (bs_buffers s e)" for n b
  proof (rule wlp_mono [OF wlp_poll_entity])
    show "loop_inv schemas (s \<lparr> bs_buffers := (bs_buffers s)(e := b) \<rparr>)"
      using inv that by (simp add: buffer_counters_frame)
  qed (auto simp: broken_def)
  show ?thesis
    using inv by (simp add: maybe_poll_def buffer_counters_frame poll)
qed

lemma wlp_turn:
  assumes inv: "loop_inv schemas s"
  shows "wlp (turn env e) (\<lambda>_. loop_inv schemas) (\<lambda>_. stop_inv schemas) s"
proof -
  have poll: "wlp (thenA (maybe_poll env e) (submit_if_due env e)) (\<lambda>_. loop_inv schemas)
      (\<lambda>_. stop_inv schemas) t"
    if "loop_inv schemas t" "bs_in_flight t e \<noteq> Some Submitted" for t
    unfolding wlp_bindA
    by (rule wlp_mono [OF wlp_maybe_poll [OF that(1)]])
       (use that(2) in \<open>auto simp: submit_if_due_def intro: broken_stop\<close>)
  show ?thesis
    unfolding turn_def wlp_bindA wlp_get
    using inv poll [of s] poll [of "s \<lparr> bs_in_flight := (bs_in_flight s)(e := None) \<rparr>"]
    by (auto simp: loop_stop split: option.split flight.split sum.split)
qed

lemma wlp_do_steps:
  "loop_inv schemas s \<Longrightarrow> wlp (do_steps env schemas xs) (\<lambda>_. loop_inv schemas) (\<lambda>_. stop_inv schemas) s"
proof (induction xs arbitrary: s)
  case Nil
  then show ?case by simp
next
  case (Cons x xs)
  have step: "wlp (do_step env schemas x) (\<lambda>_. loop_inv schemas) (\<lambda>_. stop_inv schemas) s"
    by (cases x) (auto intro: wlp_turn [OF Cons.prems] wlp_mono [OF wlp_work_loop [OF Cons.prems]])
  show ?case
    unfolding do_steps.simps wlp_bindA
    by (rule wlp_mono [OF step]) (auto intro: Cons.IH)
qed

lemma run_durable:
  assumes start: "loop_inv (schema_of d) s"
    and run: "run_bronze_consumer env entities sched n s = Some (r, t)"
    and schemas: "resolve_schemas env entities = Inr d"
  shows "durable env (schema_of d) committed rows t e"
proof -
  obtain r1 t1 where steps: "do_steps env (schema_of d) (loop_steps entities sched n) s = Some (r1, t1)"
    and work: "wlp (work_all env (schema_of d) entities) (\<lambda>_. stop_inv (schema_of d)) (\<lambda>_ _. False) t1 \<Longrightarrow>
      stop_inv (schema_of d) t"
    using run schemas by (auto simp: run_bronze_consumer_def wlp_def split: option.splits prod.splits sum.splits)
  have "stop_inv (schema_of d) t1"
    using wlp_do_steps [OF start, of "loop_steps entities sched n"] steps
    by (auto simp: wlp_def loop_stop split: sum.splits)
  from work [OF wlp_work_all_stop [OF this]] show ?thesis by (simp add: stop_inv_def)
qed

end

end
