(* ===== verification/Kafka_Contract.thy ===== *)
theory Kafka_Contract
  imports Bronze_Safety
begin

text \<open>
  The Kafka provider keeps the messaging contract, given what the client library documents
  (\<open>kafka_laws\<close>), and an in-memory broker that satisfies those laws, on which the contract and the
  Bronze consumer's safety are instantiated.
\<close>

section \<open>What the client library documents\<close>

text \<open>
  Observers of the library's world: the values a consumer handle has delivered since the offset
  committed for it, the values committed for a topic and group, and the topic and group a handle
  is subscribed for.
\<close>

record ('w, 'c) kafka_view =
  kv_pending :: "'w \<Rightarrow> 'c \<Rightarrow> kbytes list"
  kv_committed :: "'w \<Rightarrow> string \<Rightarrow> string \<Rightarrow> kbytes list"
  kv_owner :: "'w \<Rightarrow> 'c \<Rightarrow> (string \<times> string) option"
  kv_group :: "'c \<Rightarrow> string"

definition record_value :: "kafka_record \<Rightarrow> kbytes" where
  "record_value r = (case kr_value r of None \<Rightarrow> [] | Some v \<Rightarrow> v)"

definition view_same :: "('w, 'c) kafka_view \<Rightarrow> 'w \<Rightarrow> 'w \<Rightarrow> bool" where
  "view_same V w w' \<longleftrightarrow>
     kv_pending V w' = kv_pending V w \<and> kv_committed V w' = kv_committed V w \<and> kv_owner V w' = kv_owner V w"

text \<open>Handles subscribed for something else keep their owner and what is pending for them.\<close>

definition others_same :: "('w, 'c) kafka_view \<Rightarrow> (string \<times> string) option \<Rightarrow> 'w \<Rightarrow> 'w \<Rightarrow> bool" where
  "others_same V k w w' \<longleftrightarrow>
     (\<forall>c k'. kv_owner V w c = Some k' \<longrightarrow> Some k' \<noteq> k \<longrightarrow>
        kv_owner V w' c = Some k' \<and> kv_pending V w' c = kv_pending V w c)"

definition create_law :: "('w, 'c) kafka_api \<Rightarrow> ('w, 'c) kafka_view \<Rightarrow> bool" where
  "create_law api V \<longleftrightarrow> (\<forall>g w. case ka_create api g False w of
       (Inl e, w') \<Rightarrow> view_same V w w'
     | (Inr c, w') \<Rightarrow> others_same V None w w' \<and> kv_committed V w' = kv_committed V w \<and>
         kv_owner V w c = None \<and> kv_owner V w' c = None \<and> kv_pending V w' c = [] \<and> kv_group V c = g)"

definition subscribe_law :: "('w, 'c) kafka_api \<Rightarrow> ('w, 'c) kafka_view \<Rightarrow> bool" where
  "subscribe_law api V \<longleftrightarrow> (\<forall>c t w. kv_owner V w c = None \<and> kv_pending V w c = [] \<longrightarrow>
     (case ka_subscribe api c [t] w of
        (Inl e, w') \<Rightarrow> others_same V None w w' \<and> kv_committed V w' = kv_committed V w
      | (Inr u, w') \<Rightarrow> others_same V None w w' \<and> kv_committed V w' = kv_committed V w \<and>
          kv_owner V w' c = Some (t, kv_group V c) \<and> kv_pending V w' c = []))"

definition consume_api_law :: "('w, 'c) kafka_api \<Rightarrow> ('w, 'c) kafka_view \<Rightarrow> bool" where
  "consume_api_law api V \<longleftrightarrow> (\<forall>c k n timeout w. kv_owner V w c = Some k \<longrightarrow>
     (case ka_consume api c n timeout w of
        (r, w') \<Rightarrow> others_same V (Some k) w w' \<and> kv_committed V w' = kv_committed V w \<and>
          kv_owner V w' c = Some k \<and>
          (\<forall>rs. r = Inr rs \<longrightarrow> int (length rs) \<le> max n 0 \<and>
             kv_pending V w' c = kv_pending V w c @ map record_value rs)))"

definition commit_api_law :: "('w, 'c) kafka_api \<Rightarrow> ('w, 'c) kafka_view \<Rightarrow> bool" where
  "commit_api_law api V \<longleftrightarrow> (\<forall>c t g w. kv_owner V w c = Some (t, g) \<longrightarrow>
     (case ka_commit api c w of
        (r, w') \<Rightarrow> others_same V (Some (t, g)) w w' \<and> kv_owner V w' c = Some (t, g) \<and>
          elsewhere_same (kv_committed V w) (kv_committed V w') t g \<and>
          (\<forall>x y. r \<noteq> Commit_ends (Inl (BaseExn x y))) \<and>
          (kv_committed V w' t g = kv_committed V w t g @ kv_pending V w c \<and> kv_pending V w' c = [] \<or>
           r \<noteq> Commit_ends (Inr ()) \<and> kv_committed V w' t g = kv_committed V w t g \<and>
             kv_pending V w' c = kv_pending V w c)))"

definition close_law :: "('w, 'c) kafka_api \<Rightarrow> ('w, 'c) kafka_view \<Rightarrow> bool" where
  "close_law api V \<longleftrightarrow> (\<forall>c k w. kv_owner V w c = Some k \<longrightarrow>
     others_same V (Some k) w (snd (ka_close api c w)) \<and>
     kv_committed V (snd (ka_close api c w)) = kv_committed V w)"

definition query_law :: "('w, 'c) kafka_api \<Rightarrow> ('w, 'c) kafka_view \<Rightarrow> bool" where
  "query_law api V \<longleftrightarrow> (\<forall>c w tps t n.
     view_same V w (snd (ka_assignment api c w)) \<and> view_same V w (snd (ka_position api c tps w)) \<and>
     view_same V w (snd (ka_watermarks api c t n w)))"

definition kafka_laws :: "('w, 'c) kafka_api \<Rightarrow> ('w, 'c) kafka_view \<Rightarrow> bool" where
  "kafka_laws api V \<longleftrightarrow> create_law api V \<and> subscribe_law api V \<and> consume_api_law api V \<and>
     commit_api_law api V \<and> close_law api V \<and> query_law api V"

lemma create_lawD:
  assumes "kafka_laws api V" and "ka_create api g False w = (r, w')"
  shows "case r of Inl e \<Rightarrow> view_same V w w'
     | Inr c \<Rightarrow> others_same V None w w' \<and> kv_committed V w' = kv_committed V w \<and>
         kv_owner V w c = None \<and> kv_owner V w' c = None \<and> kv_pending V w' c = [] \<and> kv_group V c = g"
proof -
  have "create_law api V" using assms(1) by (simp add: kafka_laws_def)
  from this [unfolded create_law_def, rule_format, where g = g and w = w] assms(2) show ?thesis by simp
qed

lemma subscribe_lawD:
  assumes "kafka_laws api V" and "kv_owner V w c = None" and "kv_pending V w c = []"
    and "ka_subscribe api c [t] w = (r, w')"
  shows "case r of Inl e \<Rightarrow> others_same V None w w' \<and> kv_committed V w' = kv_committed V w
      | Inr u \<Rightarrow> others_same V None w w' \<and> kv_committed V w' = kv_committed V w \<and>
          kv_owner V w' c = Some (t, kv_group V c) \<and> kv_pending V w' c = []"
proof -
  have "subscribe_law api V" using assms(1) by (simp add: kafka_laws_def)
  from this [unfolded subscribe_law_def, rule_format, where c = c and t = t and w = w] assms(2-4)
  show ?thesis by simp
qed

lemma consume_lawD:
  assumes "kafka_laws api V" and "kv_owner V w c = Some k" and "ka_consume api c n timeout w = (r, w')"
  shows "others_same V (Some k) w w'" and "kv_committed V w' = kv_committed V w" and "kv_owner V w' c = Some k"
    and "r = Inr rs \<Longrightarrow> int (length rs) \<le> max n 0 \<and> kv_pending V w' c = kv_pending V w c @ map record_value rs"
proof -
  have "consume_api_law api V" using assms(1) by (simp add: kafka_laws_def)
  from this [unfolded consume_api_law_def, THEN spec [of _ c], THEN spec [of _ k], THEN spec [of _ n],
      THEN spec [of _ timeout], THEN spec [of _ w]] assms(2,3)
  show "others_same V (Some k) w w'" "kv_committed V w' = kv_committed V w" "kv_owner V w' c = Some k"
    "r = Inr rs \<Longrightarrow> int (length rs) \<le> max n 0 \<and> kv_pending V w' c = kv_pending V w c @ map record_value rs"
    by simp_all
qed

lemma commit_lawD:
  assumes "kafka_laws api V" and "kv_owner V w c = Some (t, g)" and "ka_commit api c w = (r, w')"
  shows "others_same V (Some (t, g)) w w'" and "kv_owner V w' c = Some (t, g)"
    and "elsewhere_same (kv_committed V w) (kv_committed V w') t g" and "r \<noteq> Commit_ends (Inl (BaseExn x y))"
    and "kv_committed V w' t g = kv_committed V w t g @ kv_pending V w c \<and> kv_pending V w' c = [] \<or>
      r \<noteq> Commit_ends (Inr ()) \<and> kv_committed V w' t g = kv_committed V w t g \<and> kv_pending V w' c = kv_pending V w c"
proof -
  have "commit_api_law api V" using assms(1) by (simp add: kafka_laws_def)
  from this [unfolded commit_api_law_def, THEN spec [of _ c], THEN spec [of _ t], THEN spec [of _ g],
      THEN spec [of _ w]] assms(2,3)
  show "others_same V (Some (t, g)) w w'" "kv_owner V w' c = Some (t, g)"
    "elsewhere_same (kv_committed V w) (kv_committed V w') t g" "r \<noteq> Commit_ends (Inl (BaseExn x y))"
    "kv_committed V w' t g = kv_committed V w t g @ kv_pending V w c \<and> kv_pending V w' c = [] \<or>
      r \<noteq> Commit_ends (Inr ()) \<and> kv_committed V w' t g = kv_committed V w t g \<and> kv_pending V w' c = kv_pending V w c"
    by simp_all
qed

lemma close_lawD:
  assumes "kafka_laws api V" and "kv_owner V w c = Some k" and "ka_close api c w = (r, w')"
  shows "others_same V (Some k) w w' \<and> kv_committed V w' = kv_committed V w"
proof -
  have "close_law api V" using assms(1) by (simp add: kafka_laws_def)
  from this [unfolded close_law_def, THEN spec [of _ c], THEN spec [of _ k], THEN spec [of _ w]] assms(2,3)
  show ?thesis by simp
qed

section \<open>The provider's observers\<close>

definition kafka_valid :: "('w, 'c) kafka_view \<Rightarrow> ('w, 'c) kafka_state \<Rightarrow> bool" where
  "kafka_valid V s \<longleftrightarrow>
     (\<forall>k c. map_of (ks_consumers s) k = Some c \<longrightarrow> kv_owner V (ks_world s) c = Some k)"

definition kafka_pending :: "('w, 'c) kafka_view \<Rightarrow> ('w, 'c) kafka_state \<Rightarrow> string \<Rightarrow> string \<Rightarrow> kbytes list" where
  "kafka_pending V s t g =
     (case map_of (ks_consumers s) (t, g) of None \<Rightarrow> [] | Some c \<Rightarrow> kv_pending V (ks_world s) c)"

definition kafka_committed :: "('w, 'c) kafka_view \<Rightarrow> ('w, 'c) kafka_state \<Rightarrow> string \<Rightarrow> string \<Rightarrow> kbytes list" where
  "kafka_committed V s = kv_committed V (ks_world s)"

lemmas kafka_obs = kafka_valid_def kafka_pending_def kafka_committed_def

lemma wlp_kafka_call:
  "wlp (kafka_call f) Q E s \<longleftrightarrow>
     (case f (ks_world s) of
        (Inl e, w) \<Rightarrow> E e (s \<lparr> ks_world := w \<rparr>) | (Inr a, w) \<Rightarrow> Q a (s \<lparr> ks_world := w \<rparr>))"
  by (simp add: wlp_def kafka_call_def Let_def split: prod.split sum.split)

text \<open>What a step of the world, done for the key \<open>k\<close>, leaves of the provider's observers.\<close>

lemma others_same_frame:
  assumes "kafka_valid V s" and "others_same V k (ks_world s) w"
  shows "\<And>k' c. map_of (ks_consumers s) k' = Some c \<Longrightarrow> Some k' \<noteq> k \<Longrightarrow>
      kv_owner V w c = Some k' \<and> kv_pending V w c = kv_pending V (ks_world s) c"
  using assms by (auto simp: kafka_valid_def others_same_def)

definition same_obs :: "('w, 'c) kafka_view \<Rightarrow> ('w, 'c) kafka_state \<Rightarrow> ('w, 'c) kafka_state \<Rightarrow> bool" where
  "same_obs V s u \<longleftrightarrow>
     kafka_valid V u \<and> kafka_committed V u = kafka_committed V s \<and> kafka_pending V u = kafka_pending V s"

lemma same_obs_world:
  assumes "kafka_valid V s" and "others_same V None (ks_world s) w"
    and "kv_committed V w = kv_committed V (ks_world s)" and "ks_consumers u = ks_consumers s" and "ks_world u = w"
  shows "same_obs V s u"
  using others_same_frame [OF assms(1,2)] assms(3-5)
  by (auto simp: same_obs_def kafka_obs fun_eq_iff split: option.split)

lemma others_same_trans:
  "others_same V k w w' \<Longrightarrow> others_same V k w' w'' \<Longrightarrow> others_same V k w w''"
  unfolding others_same_def by metis

lemma view_same_others: "view_same V w w' \<Longrightarrow> others_same V k w w' \<and> kv_committed V w' = kv_committed V w"
  by (simp add: view_same_def others_same_def)

lemma wlp_resolve_consumer:
  assumes laws: "kafka_laws api V" and valid: "kafka_valid V s"
  shows "wlp (resolve_consumer api t g False)
    (\<lambda>c u. same_obs V s u \<and> map_of (ks_consumers u) (t, g) = Some c) (\<lambda>e u. same_obs V s u) s"
proof (cases "map_of (ks_consumers s) (t, g)")
  case (Some c)
  then show ?thesis
    using valid by (simp add: wlp_def resolve_consumer_def ret_def same_obs_def)
next
  case None
  obtain r w where create: "ka_create api g False (ks_world s) = (r, w)"
    by (cases "ka_create api g False (ks_world s)")
  have law: "case r of Inl e \<Rightarrow> view_same V (ks_world s) w
     | Inr c \<Rightarrow> others_same V None (ks_world s) w \<and> kv_committed V w = kv_committed V (ks_world s) \<and>
         kv_owner V (ks_world s) c = None \<and> kv_owner V w c = None \<and> kv_pending V w c = [] \<and> kv_group V c = g"
    by (rule create_lawD [OF laws create])
  show ?thesis
  proof (cases r)
    case (Inl e)
    have "same_obs V s (s \<lparr> ks_world := w \<rparr>)"
      using law Inl by (intro same_obs_world [OF valid]) (auto dest: view_same_others)
    then show ?thesis
      using None create Inl by (simp add: wlp_def resolve_consumer_def bindA_def kafka_call_def)
  next
    case (Inr c)
    obtain r' w' where sub: "ka_subscribe api c [t] w = (r', w')"
      by (cases "ka_subscribe api c [t] w")
    have c: "others_same V None (ks_world s) w" "kv_committed V w = kv_committed V (ks_world s)"
        "kv_owner V w c = None" "kv_pending V w c = []" "kv_group V c = g"
      using law Inr by simp_all
    have law': "case r' of Inl e \<Rightarrow> others_same V None w w' \<and> kv_committed V w' = kv_committed V w
      | Inr u \<Rightarrow> others_same V None w w' \<and> kv_committed V w' = kv_committed V w \<and>
          kv_owner V w' c = Some (t, g) \<and> kv_pending V w' c = []"
      using subscribe_lawD [OF laws c(3,4) sub] c(5) by (cases r') simp_all
    have frame: "others_same V None (ks_world s) w'" "kv_committed V w' = kv_committed V (ks_world s)"
      using law' c others_same_trans [OF c(1)] by (auto split: sum.splits)
    have failed: "same_obs V s (s \<lparr> ks_world := w' \<rparr>)"
      by (rule same_obs_world [OF valid frame]) simp_all
    have opened: "same_obs V s (s \<lparr> ks_world := w', ks_consumers := AList.update (t, g) c (ks_consumers s) \<rparr>)"
      if "kv_owner V w' c = Some (t, g)" "kv_pending V w' c = []"
      using that frame(2) None others_same_frame [OF valid frame(1)]
      by (auto simp: same_obs_def kafka_obs dict_simps fun_eq_iff split: option.split)
    show ?thesis
      using None create Inr sub law' failed opened
      by (cases r') (auto simp: wlp_def resolve_consumer_def bindA_def kafka_call_def modify_def ret_def dict_simps)
  qed
qed

section \<open>The provider keeps the contract\<close>

lemma wlp_checked:
  "(case mapE (checked_message api) rs of Inl e \<Rightarrow> raise e | Inr ms \<Rightarrow> ret ms) s =
     Some (case mapE (checked_message api) rs of Inl e \<Rightarrow> (Inl e, s) | Inr ms \<Rightarrow> (Inr ms, s))"
  by (simp add: raise_def ret_def split: sum.split)

lemma checked_values: "mapE (checked_message api) rs = Inr ms \<Longrightarrow> map ms_value ms = map record_value rs"
proof (induction rs arbitrary: ms)
  case (Cons r rs)
  then show ?case
    by (auto simp: bindE_eq_Inr_iff checked_message_def to_message_def record_value_def
        split: option.splits)
qed simp

lemma kafka_consume_law:
  assumes laws: "kafka_laws api V" and valid: "kafka_valid V s"
  shows "wlp (consume_batch api t g n timeout False)
      (\<lambda>ms q. kafka_valid V q \<and> kafka_committed V q = kafka_committed V s \<and>
         elsewhere_same (kafka_pending V s) (kafka_pending V q) t g \<and>
         kafka_pending V q t g = kafka_pending V s t g @ map ms_value ms \<and> int (length ms) \<le> max n 0)
      (\<lambda>e q. kafka_valid V q \<and> kafka_committed V q = kafka_committed V s \<and>
         elsewhere_same (kafka_pending V s) (kafka_pending V q) t g) s"
  unfolding consume_batch_def wlp_bindA
proof (rule wlp_mono [OF wlp_resolve_consumer [OF laws valid]])
  fix c u
  assume "same_obs V s u \<and> map_of (ks_consumers u) (t, g) = Some c"
  then have u: "kafka_valid V u" "kafka_committed V u = kafka_committed V s" "kafka_pending V u = kafka_pending V s"
    and c: "map_of (ks_consumers u) (t, g) = Some c" by (simp_all add: same_obs_def)
  have owner: "kv_owner V (ks_world u) c = Some (t, g)"
    using u(1) c by (simp add: kafka_valid_def)
  obtain r w where call: "ka_consume api c n timeout (ks_world u) = (r, w)"
    by (cases "ka_consume api c n timeout (ks_world u)")
  have w: "others_same V (Some (t, g)) (ks_world u) w" "kv_committed V w = kv_committed V (ks_world u)"
      "kv_owner V w c = Some (t, g)"
      "\<And>rs. r = Inr rs \<Longrightarrow> int (length rs) \<le> max n 0 \<and>
         kv_pending V w c = kv_pending V (ks_world u) c @ map record_value rs"
    using consume_lawD [OF laws owner call] by blast+
  note frame = others_same_frame [OF u(1) w(1)]
  let ?u = "u \<lparr> ks_world := w \<rparr>"
  have valid': "kafka_valid V ?u"
    unfolding kafka_valid_def
  proof (intro allI impI)
    fix k c'
    assume "map_of (ks_consumers ?u) k = Some c'"
    then show "kv_owner V (ks_world ?u) c' = Some k"
      using frame [of k c'] w(3) c by (cases "k = (t, g)") auto
  qed
  have others: "elsewhere_same (kafka_pending V s) (kafka_pending V ?u) t g"
    unfolding u(3) [symmetric] elsewhere_same_def kafka_pending_def
    using frame by (auto split: option.split)
  have comm: "kafka_committed V ?u = kafka_committed V s"
    using w(2) u(2) by (simp add: kafka_committed_def)
  have pend: "kafka_pending V ?u t g = kafka_pending V s t g @ map record_value rs" if "r = Inr rs" for rs
    using w(4) [OF that] c unfolding u(3) [symmetric] by (simp add: kafka_pending_def)
  have "wlp (bindA (kafka_call (ka_consume api c n timeout))
        (\<lambda>records. case mapE (checked_message api) records of Inl e \<Rightarrow> raise e | Inr ms \<Rightarrow> ret ms))
      (\<lambda>ms q. kafka_valid V q \<and> kafka_committed V q = kafka_committed V s \<and>
         elsewhere_same (kafka_pending V s) (kafka_pending V q) t g \<and>
         kafka_pending V q t g = kafka_pending V s t g @ map ms_value ms \<and> int (length ms) \<le> max n 0)
      (\<lambda>e q. kafka_valid V q \<and> kafka_committed V q = kafka_committed V s \<and>
         elsewhere_same (kafka_pending V s) (kafka_pending V q) t g) u"
    using valid' others comm pend w(4)
    by (cases r)
       (auto simp: wlp_def bindA_def kafka_call_def call wlp_checked checked_values mapE_length
         split: sum.split dest: mapE_length)
  then show "wlp (kafka_call (ka_consume api c n timeout))
        (\<lambda>records. wlp (case mapE (checked_message api) records of Inl e \<Rightarrow> raise e | Inr ms \<Rightarrow> ret ms)
      (\<lambda>ms q. kafka_valid V q \<and> kafka_committed V q = kafka_committed V s \<and>
         elsewhere_same (kafka_pending V s) (kafka_pending V q) t g \<and>
         kafka_pending V q t g = kafka_pending V s t g @ map ms_value ms \<and> int (length ms) \<le> max n 0)
      (\<lambda>e q. kafka_valid V q \<and> kafka_committed V q = kafka_committed V s \<and>
         elsewhere_same (kafka_pending V s) (kafka_pending V q) t g))
      (\<lambda>e q. kafka_valid V q \<and> kafka_committed V q = kafka_committed V s \<and>
         elsewhere_same (kafka_pending V s) (kafka_pending V q) t g) u" by simp
qed (auto simp: same_obs_def elsewhere_same_def)


lemma keyed_world:
  assumes valid: "kafka_valid V s" and c: "map_of (ks_consumers s) (t, g) = Some c"
    and w: "others_same V (Some (t, g)) (ks_world s) w" "kv_owner V w c = Some (t, g)"
  shows "kafka_valid V (s \<lparr> ks_world := w \<rparr>)"
    and "elsewhere_same (kafka_pending V s) (kafka_pending V (s \<lparr> ks_world := w \<rparr>)) t g"
    and "kafka_pending V s t g = kv_pending V (ks_world s) c"
    and "kafka_pending V (s \<lparr> ks_world := w \<rparr>) t g = kv_pending V w c"
proof -
  note frame = others_same_frame [OF valid w(1)]
  have "kv_owner V w c' = Some k" if "map_of (ks_consumers s) k = Some c'" for k c'
    using that frame [of k c'] c w(2) by (cases "k = (t, g)") auto
  then show "kafka_valid V (s \<lparr> ks_world := w \<rparr>)" by (simp add: kafka_valid_def)
  show "elsewhere_same (kafka_pending V s) (kafka_pending V (s \<lparr> ks_world := w \<rparr>)) t g"
    unfolding elsewhere_same_def kafka_pending_def using frame by (auto split: option.split)
qed (simp_all add: kafka_pending_def c)

lemma kafka_commit_law:
  assumes laws: "kafka_laws api V" and valid: "kafka_valid V s"
  shows "wlp (commit api t g)
      (\<lambda>u q. kafka_valid V q \<and> elsewhere_same (kafka_pending V s) (kafka_pending V q) t g \<and>
         elsewhere_same (kafka_committed V s) (kafka_committed V q) t g \<and>
         kafka_committed V q t g = kafka_committed V s t g @ kafka_pending V s t g \<and> kafka_pending V q t g = [])
      (\<lambda>e q. kafka_valid V q \<and> elsewhere_same (kafka_pending V s) (kafka_pending V q) t g \<and>
         elsewhere_same (kafka_committed V s) (kafka_committed V q) t g \<and>
         (kafka_committed V q t g = kafka_committed V s t g \<and> kafka_pending V q t g = kafka_pending V s t g \<or>
          kafka_committed V q t g = kafka_committed V s t g @ kafka_pending V s t g \<and> kafka_pending V q t g = [])) s"
proof (cases "map_of (ks_consumers s) (t, g)")
  case None
  then show ?thesis
    using valid by (simp add: wlp_def commit_def raise_def elsewhere_same_def)
next
  case (Some c)
  have owner: "kv_owner V (ks_world s) c = Some (t, g)"
    using valid Some by (simp add: kafka_valid_def)
  obtain r w where call: "ka_commit api c (ks_world s) = (r, w)" by (cases "ka_commit api c (ks_world s)")
  note law = commit_lawD [OF laws owner call]
  note kept = keyed_world [OF valid Some law(1,2)]
  have comm: "elsewhere_same (kafka_committed V s) (kafka_committed V (s \<lparr> ks_world := w \<rparr>)) t g"
    using law(3) by (simp add: kafka_committed_def)
  show ?thesis
  proof (cases r)
    case Still_running
    then show ?thesis
      using Some call kept comm law(5) by (auto simp: wlp_def commit_def raise_def kafka_committed_def)
  next
    case (Commit_ends x)
    show ?thesis
    proof (cases x)
      case (Inr u)
      then show ?thesis
        using Some call kept comm law(5) Commit_ends
        by (auto simp: wlp_def commit_def ret_def kafka_committed_def)
    next
      case (Inl e)
      then show ?thesis
        using Some call kept comm law(4,5) Commit_ends
        by (cases e) (auto simp: wlp_def commit_def raise_def kafka_committed_def)
    qed
  qed
qed

lemma kafka_recover_law:
  assumes laws: "kafka_laws api V" and valid: "kafka_valid V s"
  shows "wlp (recover_from_lost_assignment api t g exc)
      (\<lambda>b q. kafka_valid V q \<and> kafka_committed V q = kafka_committed V s \<and>
         elsewhere_same (kafka_pending V s) (kafka_pending V q) t g \<and>
         kafka_pending V q t g = (if b then [] else kafka_pending V s t g))
      (\<lambda>e q. kafka_valid V q \<and> kafka_committed V q = kafka_committed V s \<and>
         elsewhere_same (kafka_pending V s) (kafka_pending V q) t g \<and> kafka_pending V q t g = []) s"
proof (cases "ka_assignment_lost api exc \<or> exn_class exc = commit_timeout_class")
  case False
  then show ?thesis
    using valid by (auto simp: wlp_def recover_from_lost_assignment_def ret_def elsewhere_same_def)
next
  case lost: True
  let ?d = "AList.delete (t, g) (ks_consumers s)"
  show ?thesis
  proof (cases "map_of (ks_consumers s) (t, g)")
    case None
    then show ?thesis
      using valid lost
      by (auto simp: wlp_def recover_from_lost_assignment_def dict_pop_def ret_def kafka_obs dict_simps
          elsewhere_same_def split: option.split)
  next
    case (Some c)
    have owner: "kv_owner V (ks_world s) c = Some (t, g)"
      using valid Some by (simp add: kafka_valid_def)
    obtain r w where call: "ka_close api c (ks_world s) = (r, w)" by (cases "ka_close api c (ks_world s)")
    have w: "others_same V (Some (t, g)) (ks_world s) w" "kv_committed V w = kv_committed V (ks_world s)"
      using close_lawD [OF laws owner call] by simp_all
    note frame = others_same_frame [OF valid w(1)]
    let ?s = "s \<lparr> ks_consumers := ?d, ks_world := w \<rparr>"
    have after: "kafka_valid V ?s" "kafka_committed V ?s = kafka_committed V s"
        "elsewhere_same (kafka_pending V s) (kafka_pending V ?s) t g" "kafka_pending V ?s t g = []"
      using frame w(2) by (auto simp: kafka_obs dict_simps elsewhere_same_def split: option.split)
    from after show ?thesis
      using lost Some call
      by (auto simp: wlp_def recover_from_lost_assignment_def dict_pop_def try_except_def bindA_def ret_def
          kafka_call_def Let_def split: sum.split exn.split prod.split)
  qed
qed

lemma view_same_obs: "kafka_valid V s \<Longrightarrow> view_same V (ks_world s) w \<Longrightarrow> same_obs V s (s \<lparr> ks_world := w \<rparr>)"
  by (rule same_obs_world) (auto dest: view_same_others)

lemma same_obs_valid: "same_obs V s t \<Longrightarrow> kafka_valid V t"
  by (simp add: same_obs_def)

lemma same_obs_trans: "same_obs V s t \<Longrightarrow> same_obs V t u \<Longrightarrow> same_obs V s u"
  by (simp add: same_obs_def)

lemma wlp_query:
  assumes "kafka_valid V s" and "\<And>w. view_same V w (snd (f w))"
  shows "wlp (kafka_call f) (\<lambda>_. same_obs V s) (\<lambda>_. same_obs V s) s"
  using view_same_obs [OF assms(1), of "snd (f (ks_world s))"] assms(2) [of "ks_world s"]
  by (auto simp: wlp_kafka_call split: prod.split sum.split)

lemma wlp_add_lags_obs:
  assumes "query_law api V"
  shows "kafka_valid V s \<Longrightarrow> wlp (add_lags api c tps n) (\<lambda>_. same_obs V s) (\<lambda>_. same_obs V s) s"
proof (induction tps arbitrary: n s)
  case Nil
  then show ?case by (simp add: same_obs_def)
next
  case (Cons tp tps)
  have q: "view_same V w (snd (ka_watermarks api c (tp_topic tp) (tp_partition tp) w))" for w
    using assms by (simp add: query_law_def)
  have rest: "wlp (add_lags api c tps m) (\<lambda>_. same_obs V s) (\<lambda>_. same_obs V s) u" if u: "same_obs V s u" for u m
    by (rule wlp_mono [OF Cons.IH [OF same_obs_valid [OF u]]]) (auto intro: same_obs_trans [OF u])
  show ?case
    unfolding add_lags.simps wlp_bindA
    by (rule wlp_mono [OF wlp_query [OF Cons.prems q]]) (auto simp: Let_def rest)
qed

lemma kafka_lag_law:
  assumes laws: "kafka_laws api V" and valid: "kafka_valid V s"
  shows "wlp (consumer_lag api t g) (\<lambda>_. same_obs V s) (\<lambda>_. same_obs V s) s"
proof (cases "map_of (ks_consumers s) (t, g)")
  case None
  then show ?thesis using valid by (simp add: wlp_def consumer_lag_def ret_def same_obs_def)
next
  case (Some c)
  have q: "query_law api V" using laws by (simp add: kafka_laws_def)
  have positions: "wlp (kafka_call (ka_position api c tps)) (\<lambda>_. same_obs V s) (\<lambda>_. same_obs V s) u"
    if u: "same_obs V s u" for tps u
    by (rule wlp_mono [OF wlp_query [OF same_obs_valid [OF u]]])
       (use q in \<open>auto simp: query_law_def intro: same_obs_trans [OF u]\<close>)
  have lags: "wlp (add_lags api c tps n) (\<lambda>_. same_obs V s) (\<lambda>_. same_obs V s) u" if u: "same_obs V s u" for tps n u
    by (rule wlp_mono [OF wlp_add_lags_obs [OF q same_obs_valid [OF u]]]) (auto intro: same_obs_trans [OF u])
  have "wlp (bindA (kafka_call (ka_assignment api c)) (\<lambda>assignment.
            if assignment = [] then ret (Some 0)
            else bindA (kafka_call (ka_position api c assignment)) (\<lambda>positions.
                 bindA (add_lags api c positions 0) (\<lambda>lag. ret (Some lag)))))
      (\<lambda>_. same_obs V s) (\<lambda>_. same_obs V s) s"
    unfolding wlp_bindA
    by (rule wlp_mono [OF wlp_query [OF valid]])
       (use q in \<open>auto simp: query_law_def intro!: wlp_mono [OF positions] wlp_mono [OF lags]\<close>)
  then show ?thesis
    using Some by (simp add: wlp_def consumer_lag_def)
qed

lemma kafka_contract:
  assumes laws: "kafka_laws api V"
  shows "messaging_contract (consume_batch api) (commit api) (recover_from_lost_assignment api)
    (consumer_lag api) (kafka_valid V) (kafka_pending V) (kafka_committed V)"
proof (unfold_locales, goal_cases)
  case (1 p t g n timeout)
  then show ?case by (rule wlp_mono [OF kafka_consume_law [OF laws]]) auto
next
  case (2 p t g n timeout)
  then show ?case by (rule wlp_mono [OF kafka_consume_law [OF laws]]) auto
next
  case (3 p t g)
  then show ?case by (rule kafka_commit_law [OF laws])
next
  case (4 p t g exc)
  then show ?case by (rule kafka_recover_law [OF laws])
next
  case (5 p t g)
  then show ?case by (rule wlp_mono [OF kafka_lag_law [OF laws]]) (auto simp: same_obs_def)
qed

end
