(* ===== verification/Memory_Broker.thy ===== *)
theory Memory_Broker
  imports Kafka_Contract
begin

text \<open>
  A broker in memory and a table in memory. The client library's laws hold of the first, so that
  the Kafka provider of the repository, run on it, keeps the messaging contract, and the Bronze
  consumer run on both is executable.
\<close>

section \<open>The broker\<close>

record mem_handle =
  mh_group :: string
  mh_topic :: "string option"
  mh_pending :: "kbytes list"

text \<open>
  \<open>mb_slow\<close> commits, the next ones, do not return before the deadline. A handle reads its topic
  after what is committed for its group and what it has already delivered.
\<close>

record mem_broker =
  mb_logs :: "(string, kbytes list) dict"
  mb_committed :: "((string \<times> string), kbytes list) dict"
  mb_handles :: "mem_handle list"
  mb_slow :: nat

type_synonym mem_consumer = "nat \<times> string"

definition log_of :: "mem_broker \<Rightarrow> string \<Rightarrow> kbytes list" where
  "log_of w t = (case map_of (mb_logs w) t of None \<Rightarrow> [] | Some l \<Rightarrow> l)"

definition committed_of :: "mem_broker \<Rightarrow> string \<Rightarrow> string \<Rightarrow> kbytes list" where
  "committed_of w t g = (case map_of (mb_committed w) (t, g) of None \<Rightarrow> [] | Some l \<Rightarrow> l)"

definition open_handle :: "mem_broker \<Rightarrow> mem_consumer \<Rightarrow> mem_handle option" where
  "open_handle w c =
     (if fst c < length (mb_handles w) \<and> mh_group (mb_handles w ! fst c) = snd c
      then Some (mb_handles w ! fst c) else None)"

definition set_handle :: "mem_consumer \<Rightarrow> mem_handle \<Rightarrow> mem_broker \<Rightarrow> mem_broker" where
  "set_handle c h w = w \<lparr> mb_handles := (mb_handles w)[fst c := h] \<rparr>"

definition bad_handle :: exn where
  "bad_handle = runtime_error ''Consumer closed''"

definition mem_create :: "string \<Rightarrow> bool \<Rightarrow> mem_broker \<Rightarrow> mem_consumer outcome \<times> mem_broker" where
  "mem_create g auto w =
     (Inr (length (mb_handles w), g),
      w \<lparr> mb_handles := mb_handles w @ [\<lparr> mh_group = g, mh_topic = None, mh_pending = [] \<rparr>] \<rparr>)"

definition mem_subscribe :: "mem_consumer \<Rightarrow> string list \<Rightarrow> mem_broker \<Rightarrow> unit outcome \<times> mem_broker" where
  "mem_subscribe c ts w =
     (case (open_handle w c, ts) of
        (Some h, [t]) \<Rightarrow> (Inr (), set_handle c (h \<lparr> mh_topic := Some t \<rparr>) w)
      | _ \<Rightarrow> (Inl bad_handle, w))"

definition mem_record :: "string \<Rightarrow> kbytes \<Rightarrow> kafka_record" where
  "mem_record t v =
     \<lparr> kr_error = None, kr_topic = Some t, kr_key = None, kr_value = Some v, kr_partition = Some 0,
       kr_offset = None, kr_headers = [] \<rparr>"

definition mem_position :: "mem_broker \<Rightarrow> mem_consumer \<Rightarrow> nat" where
  "mem_position w c =
     (case open_handle w c of
        None \<Rightarrow> 0
      | Some h \<Rightarrow>
          (case mh_topic h of
             None \<Rightarrow> 0
           | Some t \<Rightarrow> length (committed_of w t (mh_group h)) + length (mh_pending h)))"

definition mem_consume ::
  "mem_consumer \<Rightarrow> int \<Rightarrow> int \<Rightarrow> mem_broker \<Rightarrow> kafka_record list outcome \<times> mem_broker" where
  "mem_consume c n timeout w =
     (case open_handle w c of
        None \<Rightarrow> (Inl bad_handle, w)
      | Some h \<Rightarrow>
          (case mh_topic h of
             None \<Rightarrow> (Inr [], w)
           | Some t \<Rightarrow>
               let vs = take (nat n) (drop (mem_position w c) (log_of w t))
               in (Inr (map (mem_record t) vs), set_handle c (h \<lparr> mh_pending := mh_pending h @ vs \<rparr>) w)))"

definition mem_poll ::
  "mem_consumer \<Rightarrow> int \<Rightarrow> mem_broker \<Rightarrow> kafka_record option outcome \<times> mem_broker" where
  "mem_poll c timeout w =
     (case mem_consume c 1 timeout w of
        (Inl e, w') \<Rightarrow> (Inl e, w')
      | (Inr rs, w') \<Rightarrow> (Inr (if rs = [] then None else Some (hd rs)), w'))"

definition mem_commit :: "mem_consumer \<Rightarrow> mem_broker \<Rightarrow> commit_end \<times> mem_broker" where
  "mem_commit c w =
     (if 0 < mb_slow w then (Still_running, w \<lparr> mb_slow := mb_slow w - 1 \<rparr>)
      else
        (case open_handle w c of
           None \<Rightarrow> (Commit_ends (Inl bad_handle), w)
         | Some h \<Rightarrow>
             (case mh_topic h of
                None \<Rightarrow> (Commit_ends (Inr ()), w)
              | Some t \<Rightarrow>
                  (Commit_ends (Inr ()),
                   set_handle c (h \<lparr> mh_pending := [] \<rparr>)
                     (w \<lparr> mb_committed := AList.update (t, mh_group h)
                            (committed_of w t (mh_group h) @ mh_pending h) (mb_committed w) \<rparr>)))))"

definition mem_close :: "mem_consumer \<Rightarrow> mem_broker \<Rightarrow> unit outcome \<times> mem_broker" where
  "mem_close c w =
     (case open_handle w c of
        None \<Rightarrow> (Inl bad_handle, w)
      | Some h \<Rightarrow> (Inr (), set_handle c (h \<lparr> mh_topic := None, mh_pending := [] \<rparr>) w))"

definition mem_assignment :: "mem_consumer \<Rightarrow> mem_broker \<Rightarrow> topic_partition list outcome \<times> mem_broker" where
  "mem_assignment c w =
     (Inr (case Option.bind (open_handle w c) mh_topic of
             None \<Rightarrow> []
           | Some t \<Rightarrow> [\<lparr> tp_topic = t, tp_partition = 0, tp_offset = - 1001 \<rparr>]), w)"

definition mem_api :: "(mem_broker, mem_consumer) kafka_api" where
  "mem_api =
     \<lparr> ka_create = mem_create, ka_subscribe = mem_subscribe, ka_poll = mem_poll, ka_consume = mem_consume,
       ka_commit = mem_commit, ka_close = mem_close, ka_assignment = mem_assignment,
       ka_position = (\<lambda>c tps w. (Inr (map (\<lambda>tp. tp \<lparr> tp_offset := int (mem_position w c) \<rparr>) tps), w)),
       ka_watermarks = (\<lambda>c t n w. (Inr (0, int (length (log_of w t))), w)),
       ka_produce = (\<lambda>t v k h w. (Inr (), w \<lparr> mb_logs := AList.update t (log_of w t @ [v]) (mb_logs w) \<rparr>)),
       ka_flush = (\<lambda>w. (Inr (), w)),
       ka_assignment_lost = (\<lambda>e. exn_class e = ''KafkaException''),
       ka_decode_utf8 = Inr \<rparr>"

definition mem_view :: "(mem_broker, mem_consumer) kafka_view" where
  "mem_view =
     \<lparr> kv_pending = (\<lambda>w c. case open_handle w c of None \<Rightarrow> [] | Some h \<Rightarrow> mh_pending h),
       kv_committed = committed_of,
       kv_owner = (\<lambda>w c. case open_handle w c of None \<Rightarrow> None
          | Some h \<Rightarrow> map_option (\<lambda>t. (t, snd c)) (mh_topic h)),
       kv_group = snd \<rparr>"

section \<open>The laws\<close>

lemma open_handle_set:
  "open_handle (set_handle c h w) c' =
     (if fst c' = fst c \<and> fst c < length (mb_handles w) then (if mh_group h = snd c' then Some h else None)
      else open_handle w c')"
  by (cases "fst c' = fst c") (auto simp: open_handle_def set_handle_def)

lemma open_handle_add:
  "open_handle (w \<lparr> mb_handles := mb_handles w @ [h] \<rparr>) c =
     (if fst c = length (mb_handles w) then (if mh_group h = snd c then Some h else None) else open_handle w c)"
  by (auto simp: open_handle_def nth_append)

lemma open_handle_new [simp]: "open_handle w (length (mb_handles w), g) = None"
  by (simp add: open_handle_def)

lemma open_handle_group: "open_handle w c = Some h \<Longrightarrow> mh_group h = snd c \<and> fst c < length (mb_handles w)"
  by (auto simp: open_handle_def split: if_splits)

lemma committed_of_set [simp]: "committed_of (set_handle c h w) = committed_of w"
  by (simp add: committed_of_def set_handle_def fun_eq_iff)

lemma mem_others:
  assumes h: "open_handle w c = Some h" and "mh_group h' = mh_group h"
    and k: "k = map_option (\<lambda>t. (t, snd c)) (mh_topic h)"
  shows "others_same mem_view k w (set_handle c h' w)"
  unfolding others_same_def
proof (intro allI impI)
  fix c' k'
  assume o: "kv_owner mem_view w c' = Some k'" "Some k' \<noteq> k"
  have "fst c' \<noteq> fst c"
  proof
    assume "fst c' = fst c"
    moreover from this have "snd c' = snd c"
      using o(1) h by (auto simp: mem_view_def open_handle_def split: if_splits)
    ultimately have "c' = c" by (simp add: prod_eq_iff)
    then show False using o h k by (auto simp: mem_view_def)
  qed
  then show "kv_owner mem_view (set_handle c h' w) c' = Some k' \<and>
      kv_pending mem_view (set_handle c h' w) c' = kv_pending mem_view w c'"
    using o(1) by (simp add: mem_view_def open_handle_set)
qed

lemma mem_create_law: "create_law mem_api mem_view"
proof -
  have "kv_owner mem_view w c = Some k \<Longrightarrow> fst c \<noteq> length (mb_handles w)" for w c k
    by (auto simp: mem_view_def open_handle_def split: option.splits if_splits)
  moreover have "committed_of (w \<lparr> mb_handles := hs \<rparr>) = committed_of w" for w hs
    by (simp add: committed_of_def fun_eq_iff)
  ultimately show ?thesis
    unfolding create_law_def others_same_def
    by (simp add: mem_api_def mem_create_def) (simp add: mem_view_def open_handle_add)
qed

lemma mem_subscribe_law: "subscribe_law mem_api mem_view"
  unfolding subscribe_law_def
proof (intro allI impI)
  fix c t w
  assume c: "kv_owner mem_view w c = None \<and> kv_pending mem_view w c = []"
  show "case ka_subscribe mem_api c [t] w of
        (Inl e, w') \<Rightarrow> others_same mem_view None w w' \<and> kv_committed mem_view w' = kv_committed mem_view w
      | (Inr u, w') \<Rightarrow> others_same mem_view None w w' \<and> kv_committed mem_view w' = kv_committed mem_view w \<and>
          kv_owner mem_view w' c = Some (t, kv_group mem_view c) \<and> kv_pending mem_view w' c = []"
  proof (cases "open_handle w c")
    case None
    then show ?thesis by (simp add: mem_api_def mem_subscribe_def others_same_def)
  next
    case (Some h)
    have "mh_topic h = None" using c Some by (simp add: mem_view_def)
    then have "others_same mem_view None w (set_handle c (h \<lparr> mh_topic := Some t \<rparr>) w)"
      by (intro mem_others [OF Some]) simp_all
    then show ?thesis
      using Some c open_handle_group [OF Some]
      by (simp add: mem_api_def mem_subscribe_def) (simp add: mem_view_def open_handle_set)
  qed
qed

lemma mem_owned:
  "kv_owner mem_view w c = Some k \<Longrightarrow>
    \<exists>h t. open_handle w c = Some h \<and> mh_topic h = Some t \<and> k = (t, snd c) \<and> mh_group h = snd c \<and>
      fst c < length (mb_handles w) \<and> kv_pending mem_view w c = mh_pending h"
  by (auto simp: mem_view_def split: option.splits dest: open_handle_group)

lemma mem_consume_law: "consume_api_law mem_api mem_view"
  unfolding consume_api_law_def
proof (intro allI impI)
  fix c k n timeout w
  assume "kv_owner mem_view w c = Some k"
  then obtain h t where h: "open_handle w c = Some h" "mh_topic h = Some t" "k = (t, snd c)"
      "mh_group h = snd c" "fst c < length (mb_handles w)" "kv_pending mem_view w c = mh_pending h"
    using mem_owned by blast
  let ?vs = "take (nat n) (drop (mem_position w c) (log_of w t))"
  let ?h = "h \<lparr> mh_pending := mh_pending h @ ?vs \<rparr>"
  have "others_same mem_view (Some k) w (set_handle c ?h w)"
    by (rule mem_others [OF h(1)]) (simp_all add: h)
  moreover have "kv_owner mem_view (set_handle c ?h w) c = Some k" "kv_committed mem_view (set_handle c ?h w) = kv_committed mem_view w"
      "kv_pending mem_view (set_handle c ?h w) c = mh_pending h @ ?vs"
    using h by (simp_all add: mem_view_def open_handle_set)
  moreover have "map (record_value \<circ> mem_record t) ?vs = ?vs"
    by (simp add: record_value_def mem_record_def comp_def)
  moreover have "int (length ?vs) \<le> max n 0" by simp
  moreover have "ka_consume mem_api c n timeout w = (Inr (map (mem_record t) ?vs), set_handle c ?h w)"
    using h by (simp add: mem_api_def mem_consume_def Let_def)
  ultimately show "case ka_consume mem_api c n timeout w of
      (r, w') \<Rightarrow> others_same mem_view (Some k) w w' \<and> kv_committed mem_view w' = kv_committed mem_view w \<and>
        kv_owner mem_view w' c = Some k \<and>
        (\<forall>rs. r = Inr rs \<longrightarrow> int (length rs) \<le> max n 0 \<and>
           kv_pending mem_view w' c = kv_pending mem_view w c @ map record_value rs)"
    using h(6) by (auto simp only: map_map prod.case length_map sum.inject)
qed

lemma mem_commit_law: "commit_api_law mem_api mem_view"
  unfolding commit_api_law_def
proof (intro allI impI)
  fix c t g w
  assume "kv_owner mem_view w c = Some (t, g)"
  then obtain h where h: "open_handle w c = Some h" "mh_topic h = Some t" "g = snd c"
      "mh_group h = snd c" "fst c < length (mb_handles w)" "kv_pending mem_view w c = mh_pending h"
    using mem_owned by blast
  show "case ka_commit mem_api c w of
        (r, w') \<Rightarrow> others_same mem_view (Some (t, g)) w w' \<and> kv_owner mem_view w' c = Some (t, g) \<and>
          elsewhere_same (kv_committed mem_view w) (kv_committed mem_view w') t g \<and>
          (\<forall>x y. r \<noteq> Commit_ends (Inl (BaseExn x y))) \<and>
          (kv_committed mem_view w' t g = kv_committed mem_view w t g @ kv_pending mem_view w c \<and>
             kv_pending mem_view w' c = [] \<or>
           r \<noteq> Commit_ends (Inr ()) \<and> kv_committed mem_view w' t g = kv_committed mem_view w t g \<and>
             kv_pending mem_view w' c = kv_pending mem_view w c)"
  proof (cases "0 < mb_slow w")
    case True
    have "open_handle (w \<lparr> mb_slow := n \<rparr>) = open_handle w" "committed_of (w \<lparr> mb_slow := n \<rparr>) = committed_of w" for n
      by (simp_all add: open_handle_def committed_of_def fun_eq_iff)
    then show ?thesis
      using True h by (simp add: mem_api_def mem_commit_def mem_view_def others_same_def elsewhere_same_def)
  next
    case False
    let ?h = "h \<lparr> mh_pending := [] \<rparr>"
    let ?w = "w \<lparr> mb_committed := AList.update (t, mh_group h) (committed_of w t (mh_group h) @ mh_pending h) (mb_committed w) \<rparr>"
    have same: "open_handle (set_handle c ?h ?w) = open_handle (set_handle c ?h w)"
      by (simp add: open_handle_def set_handle_def fun_eq_iff)
    have "others_same mem_view (Some (t, g)) w (set_handle c ?h w)"
      by (rule mem_others [OF h(1)]) (simp_all add: h)
    then have "others_same mem_view (Some (t, g)) w (set_handle c ?h ?w)"
      by (simp add: others_same_def mem_view_def same)
    moreover have "kv_owner mem_view (set_handle c ?h ?w) c = Some (t, g)" "kv_pending mem_view (set_handle c ?h ?w) c = []"
      using h by (simp_all add: mem_view_def same open_handle_set)
    moreover have "committed_of (set_handle c ?h ?w) t' g' =
        (if (t', g') = (t, g) then committed_of w t g @ mh_pending h else committed_of w t' g')" for t' g'
      using h(3,4) by (simp add: committed_of_def dict_simps)
    moreover have "ka_commit mem_api c w = (Commit_ends (Inr ()), set_handle c ?h ?w)"
      using False h by (simp add: mem_api_def mem_commit_def)
    ultimately show ?thesis
      using h by (simp add: elsewhere_same_def) (simp add: mem_view_def)
  qed
qed

lemma mem_close_law: "close_law mem_api mem_view"
  unfolding close_law_def
proof (intro allI impI)
  fix c k w
  assume "kv_owner mem_view w c = Some k"
  then obtain h t where h: "open_handle w c = Some h" "mh_topic h = Some t" "k = (t, snd c)" "mh_group h = snd c"
    using mem_owned by blast
  have "others_same mem_view (Some k) w (set_handle c (h \<lparr> mh_topic := None, mh_pending := [] \<rparr>) w)"
    by (rule mem_others [OF h(1)]) (simp_all add: h)
  then show "others_same mem_view (Some k) w (snd (ka_close mem_api c w)) \<and>
     kv_committed mem_view (snd (ka_close mem_api c w)) = kv_committed mem_view w"
    using h(1) by (simp add: mem_api_def mem_close_def) (simp add: mem_view_def)
qed

lemma mem_query_law: "query_law mem_api mem_view"
  by (auto simp: query_law_def mem_api_def mem_assignment_def view_same_def split: option.split)

lemma mem_kafka_laws: "kafka_laws mem_api mem_view"
  by (simp add: kafka_laws_def mem_create_law mem_subscribe_law mem_consume_law mem_commit_law mem_close_law
      mem_query_law)

interpretation mem_kafka: messaging_contract "consume_batch mem_api" "commit mem_api"
  "recover_from_lost_assignment mem_api" "consumer_lag mem_api" "kafka_valid mem_view" "kafka_pending mem_view"
  "kafka_committed mem_view"
  by (rule kafka_contract [OF mem_kafka_laws])

section \<open>The table\<close>

type_synonym mem_table = "(string \<times> bz_record) list"

definition mem_append :: "string \<Rightarrow> arrow_schema \<Rightarrow> bz_record list \<Rightarrow> (mem_table, unit) act" where
  "mem_append uri schema rs d = Some (Inr (), d @ map (Pair uri) rs)"

definition mem_rows :: "mem_table \<Rightarrow> string \<Rightarrow> bz_record set" where
  "mem_rows d uri = {r. (uri, r) \<in> set d}"

interpretation mem_sink: table_sink mem_append mem_rows
  by unfold_locales (auto simp: wlp_def mem_append_def mem_rows_def)

end
