(* ===== verification/Bronze_Bounds.thy ===== *)
theory Bronze_Bounds
  imports Bronze_Safety
begin

text \<open>
  The bounds of the Bronze consumer: no buffer outgrows its entity's batch size, an idle entity is
  polled again within \<open>idle_poll_every_n_rounds\<close> turns, and no flush is left behind when the consumer
  ends.
\<close>

section \<open>Buffers stay within their size\<close>

definition bounded :: "('p, 'd) bronze_state \<Rightarrow> bool" where
  "bounded s \<longleftrightarrow> (\<forall>e. int (length (eb_records (bs_buffers s e))) \<le> eb_max_batch_size (new_buffer e) \<and>
     eb_max_batch_size (bs_buffers s e) = eb_max_batch_size (new_buffer e))"

text \<open>At most \<open>n\<close> records more in the buffer of the entity, nothing else in any buffer or provider.\<close>

definition grown :: "string \<Rightarrow> nat \<Rightarrow> ('p, 'd) bronze_state \<Rightarrow> ('p, 'd) bronze_state \<Rightarrow> bool" where
  "grown e n s t \<longleftrightarrow>
     bs_provider t = bs_provider s \<and> (\<forall>e'. e' \<noteq> e \<longrightarrow> bs_buffers t e' = bs_buffers s e') \<and>
     length (eb_records (bs_buffers t e)) \<le> length (eb_records (bs_buffers s e)) + n \<and>
     eb_max_batch_size (bs_buffers t e) = eb_max_batch_size (bs_buffers s e)"

lemma grown_trans: "grown e m s t \<Longrightarrow> grown e n t u \<Longrightarrow> grown e (m + n) s u"
  by (auto simp: grown_def)

lemma grown_le: "grown e m s t \<Longrightarrow> m \<le> n \<Longrightarrow> grown e n s t"
  by (auto simp: grown_def)

lemma grown_buffer_message: "wlp (buffer_message env e v) (\<lambda>_. grown e 1 s) (\<lambda>_. grown e 1 s) s"
  by (auto simp: buffer_message_def grown_def buffer_add_def Let_def split: sum.split exn.split option.split)

lemma grown_buffer_messages:
  "wlp (buffer_messages env e ms) (\<lambda>_. grown e (length ms) s) (\<lambda>_. grown e (length ms) s) s"
proof (induction ms arbitrary: s)
  case Nil
  then show ?case by (simp add: grown_def)
next
  case (Cons m ms)
  have rest: "wlp (buffer_messages env e ms) (\<lambda>_. grown e (Suc (length ms)) s) (\<lambda>_. grown e (Suc (length ms)) s) t"
    if "grown e 1 s t" for t
    by (rule wlp_mono [OF Cons.IH]) (use grown_trans [OF that] in auto)
  show ?case
    unfolding buffer_messages.simps wlp_bindA
    by (rule wlp_mono [OF grown_buffer_message]) (auto intro: rest grown_le)
qed

lemma grown_bounded:
  assumes "bounded s" "grown e n s t" "int (length (eb_records (bs_buffers s e)) + n) \<le> eb_max_batch_size (bs_buffers s e)"
  shows "bounded t"
  unfolding bounded_def
proof
  fix e'
  show "int (length (eb_records (bs_buffers t e'))) \<le> eb_max_batch_size (new_buffer e') \<and>
      eb_max_batch_size (bs_buffers t e') = eb_max_batch_size (new_buffer e')"
    using assms by (cases "e' = e") (auto simp: bounded_def grown_def)
qed

lemma bounded_buffer:
  "bounded s \<Longrightarrow> eb_records b = eb_records (bs_buffers s e) \<or> eb_records b = [] \<Longrightarrow>
    eb_max_batch_size b = eb_max_batch_size (bs_buffers s e) \<Longrightarrow>
    bounded (s \<lparr> bs_buffers := (bs_buffers s)(e := b) \<rparr>)"
proof -
  assume a: "bounded s" "eb_records b = eb_records (bs_buffers s e) \<or> eb_records b = []"
    "eb_max_batch_size b = eb_max_batch_size (bs_buffers s e)"
  have "0 \<le> eb_max_batch_size (new_buffer e)"
    using a(1) unfolding bounded_def by (metis of_nat_0_le_iff order_trans)
  then show ?thesis using a by (auto simp: bounded_def)
qed

lemma bounded_frame [simp]:
  "bounded (s \<lparr> bs_provider := p \<rparr>) = bounded s" "bounded (s \<lparr> bs_sink := d \<rparr>) = bounded s"
  "bounded (s \<lparr> bs_metrics := m \<rparr>) = bounded s" "bounded (s \<lparr> bs_ticks := n \<rparr>) = bounded s"
  "bounded (s \<lparr> bs_in_flight := f \<rparr>) = bounded s"
  by (simp_all add: bounded_def)

lemma bounded_initial: "bounded (initial_state p d)"
  by (simp add: bounded_def initial_state_def new_buffer_def max_batch_size_default_def
      max_batch_size_overrides_def)

lemma poll_room_le: "poll_room e b \<le> eb_max_batch_size b - int (length (eb_records b))"
  by (simp add: poll_room_def)

context bronze_contract
begin

definition sized :: "('p, 'd) bronze_state \<Rightarrow> bool" where
  "sized s \<longleftrightarrow> valid (bs_provider s) \<and> bounded s"

lemma sized_provider:
  assumes "sized s" and "\<And>p. valid p \<Longrightarrow> wlp m (\<lambda>_. valid) (\<lambda>_. valid) p"
  shows "wlp (on_provider m) (\<lambda>_ t. sized t \<and> bs_buffers t = bs_buffers s)
    (\<lambda>_ t. sized t \<and> bs_buffers t = bs_buffers s) s"
  by (rule wlp_on_provider, rule wlp_mono [OF assms(2)]) (use assms(1) in \<open>auto simp: sized_def\<close>)

lemma sized_sink:
  assumes "sized s" shows "wlp (on_sink m) (\<lambda>_ t. sized t \<and> bs_buffers t = bs_buffers s)
    (\<lambda>_ t. sized t \<and> bs_buffers t = bs_buffers s) s"
  by (rule wlp_on_sink) (use assms in \<open>auto simp: sized_def wlp_def split: option.split sum.split\<close>)

lemma valid_calls:
  "valid p \<Longrightarrow> wlp (be_commit env t g) (\<lambda>_. valid) (\<lambda>_. valid) p"
  "valid p \<Longrightarrow> wlp (be_recover env t g exc) (\<lambda>_. valid) (\<lambda>_. valid) p"
  "valid p \<Longrightarrow> wlp (be_lag env t g) (\<lambda>_. valid) (\<lambda>_. valid) p"
  using commit_law [of p t g] recover_law [of p t g exc] lag_law [of p t g]
  by (auto elim!: wlp_mono)

lemma sized_write_commit:
  assumes "sized s"
  shows "wlp (write_and_commit env e sc rs) (\<lambda>_. sized) (\<lambda>_. sized) s"
  unfolding write_and_commit_def wlp_bindA
  by (rule wlp_mono [OF sized_sink [OF assms]])
     (auto intro!: wlp_mono [OF sized_provider] valid_calls)

lemma sized_clear: "sized s \<Longrightarrow> sized (s \<lparr> bs_buffers := (bs_buffers s)(e := buffer_clear (bs_buffers s e)) \<rparr>)"
  unfolding sized_def by (auto intro!: bounded_buffer simp: buffer_clear_def)

lemma sized_metric: "sized s \<Longrightarrow> sized (s \<lparr> bs_metrics := m \<rparr>)"
  by (simp add: sized_def)

lemma sized_flush:
  assumes "sized s"
  shows "wlp (flush env e sc) (\<lambda>_. sized) (\<lambda>_. sized) s"
proof -
  have recover: "wlp (on_provider (be_recover env t g exc))
      (\<lambda>b u. if b then sized (u \<lparr> bs_buffers := (bs_buffers u)(e := buffer_clear (bs_buffers u e)) \<rparr>) else sized u)
      (\<lambda>_. sized) u" if "sized u" for t g exc u
    by (rule wlp_mono [OF sized_provider [OF that valid_calls(2)]]) (use sized_clear in metis)+
  have lag: "wlp (on_provider (be_lag env t g))
      (\<lambda>n u. sized u) (\<lambda>_. sized) u" if "sized u" for t g u
    by (rule wlp_mono [OF sized_provider [OF that valid_calls(3)]]) auto
  have fail: "wlp (thenA (metric (WriteFailure e))
            (bindA (on_provider (be_recover env (topic_for e) consumer_group_id exc)) (\<lambda>recovered.
              if recovered then on_buffer e buffer_clear else ret ()))) (\<lambda>_. sized) (\<lambda>_. sized) u"
    if "sized u" for exc u
    unfolding wlp_bindA wlp_metric
    by (rule wlp_mono [OF recover [OF sized_metric [OF that]]]) auto
  have clear_metric: "sized (u \<lparr> bs_metrics := m, bs_buffers := (bs_buffers u)(e := buffer_clear (bs_buffers u e)) \<rparr>)"
    if "sized u" for u m
    using sized_clear [OF sized_metric [OF that]] by simp
  have good: "wlp (thenA (metric (RecordsWritten e n))
            (bindA (on_provider (be_lag env (topic_for e) consumer_group_id)) (\<lambda>lag.
              thenA (case lag of None \<Rightarrow> ret () | Some n \<Rightarrow> metric (ConsumerLag e n))
                    (on_buffer e buffer_clear)))) (\<lambda>_. sized) (\<lambda>_. sized) u"
    if "sized u" for n u
    unfolding wlp_bindA wlp_metric
    by (rule wlp_mono [OF lag [OF sized_metric [OF that]]])
       (use sized_clear clear_metric in \<open>simp split: option.split\<close>)+
  show ?thesis
    unfolding flush_def wlp_bindA wlp_get caught_wlp
    by (rule wlp_mono [OF sized_write_commit [OF assms]])
       (use fail good in \<open>auto split: exn.split simp del: wlp_bindA\<close>)
qed

lemma sized_work:
  assumes "sized s"
  shows "wlp (work env schemas e) (\<lambda>_. sized) (\<lambda>_ _. False) s"
proof (cases "bs_in_flight s e = Some Submitted")
  case True
  then show ?thesis
    using sized_flush [OF assms, of e "schemas e"]
    by (auto simp: wlp_def work_def set_flight_def modify_def sized_def split: option.splits sum.splits)
next
  case False
  then show ?thesis using assms by (simp add: wlp_def work_def ret_def)
qed

lemma sized_poll_entity:
  assumes s: "sized s" and n: "0 < n" "n \<le> eb_max_batch_size (bs_buffers s e) - int (length (eb_records (bs_buffers s e)))"
  shows "wlp (poll_entity env e n) (\<lambda>_. sized) (\<lambda>_. sized) s"
proof -
  have valid: "valid (bs_provider s)" and bnd: "bounded s" using s by (simp_all add: sized_def)
  have consume: "wlp (be_consume_batch env (topic_for e) consumer_group_id n poll_timeout False)
      (\<lambda>ms q. valid q \<and> int (length ms) \<le> max n 0) (\<lambda>_. valid) (bs_provider s)"
    by (rule wlp_mono [OF wlp_conj [OF consume_law [OF valid] consume_bound [OF valid]]]) auto
  show ?thesis
    unfolding poll_entity_def wlp_bindA
  proof (rule wlp_on_provider, rule wlp_mono [OF consume])
    fix ms :: "message list" and q
    assume q: "valid q \<and> int (length ms) \<le> max n 0"
    let ?t = "s \<lparr> bs_provider := q, bs_buffers := (bs_buffers s)(e := (bs_buffers s e) \<lparr> eb_consecutive_empty_polls := 0 \<rparr>) \<rparr>"
    have t: "bounded ?t" using bounded_buffer [OF bnd, of "(bs_buffers s e) \<lparr> eb_consecutive_empty_polls := 0 \<rparr>" e]
      by (simp add: bounded_def)
    have "wlp (buffer_messages env e ms) (\<lambda>_. sized) (\<lambda>_. sized) ?t"
      by (rule wlp_mono [OF grown_buffer_messages])
         (use q n in \<open>auto simp: sized_def grown_def intro!: grown_bounded [OF t, of e "length ms"]\<close>)
    moreover have "sized (s \<lparr> bs_provider := q, bs_buffers := (bs_buffers s)(e := (bs_buffers s e)
        \<lparr> eb_consecutive_empty_polls := Suc (eb_consecutive_empty_polls (bs_buffers s e)) \<rparr>) \<rparr>)"
      using q bounded_buffer [OF bnd, of "(bs_buffers s e) \<lparr> eb_consecutive_empty_polls :=
        Suc (eb_consecutive_empty_polls (bs_buffers s e)) \<rparr>" e]
      by (simp add: sized_def bounded_def)
    ultimately show "wlp (if ms \<noteq> [] then thenA (on_buffer e (\<lambda>b. b \<lparr> eb_consecutive_empty_polls := 0 \<rparr>))
            (buffer_messages env e ms)
          else on_buffer e (\<lambda>b. b \<lparr> eb_consecutive_empty_polls := Suc (eb_consecutive_empty_polls b) \<rparr>))
        (\<lambda>_. sized) (\<lambda>_. sized) (s \<lparr> bs_provider := q \<rparr>)"
      by simp
  qed (use bnd in \<open>auto simp: sized_def\<close>)
qed

lemma sized_turn:
  assumes s: "sized s"
  shows "wlp (turn env e) (\<lambda>_. sized) (\<lambda>_. sized) s"
proof -
  have poll: "wlp (maybe_poll env e) (\<lambda>_. sized) (\<lambda>_. sized) t" if t: "sized t" for t
  proof -
    have upd: "sized (t \<lparr> bs_buffers := (bs_buffers t)(e := (bs_buffers t e) \<lparr> eb_rounds_since_last_poll := n \<rparr>) \<rparr>)" for n
      using t by (auto simp: sized_def intro!: bounded_buffer)
    show ?thesis
      using upd poll_room_le [of e "bs_buffers t e"]
      by (auto simp: maybe_poll_def intro!: sized_poll_entity)
  qed
  have submit: "wlp (submit_if_due env e) (\<lambda>_. sized) (\<lambda>_. sized) t" if "sized t" for t
    using that by (simp add: submit_if_due_def sized_def)
  have both: "wlp (thenA (maybe_poll env e) (submit_if_due env e)) (\<lambda>_. sized) (\<lambda>_. sized) t" if "sized t" for t
    unfolding wlp_bindA by (rule wlp_mono [OF poll [OF that]]) (auto intro: submit)
  have unflight: "sized (s \<lparr> bs_in_flight := f \<rparr>)" for f using s by (simp add: sized_def)
  show ?thesis
    unfolding turn_def wlp_bindA [of "get _"] wlp_get
    using s both [OF s] both [OF unflight]
    by (auto split: option.split flight.split sum.split simp: unflight)
qed

lemma sized_do_steps: "sized s \<Longrightarrow> wlp (do_steps env schemas xs) (\<lambda>_. sized) (\<lambda>_. sized) s"
proof (induction xs arbitrary: s)
  case (Cons x xs)
  have step: "wlp (do_step env schemas x) (\<lambda>_. sized) (\<lambda>_. sized) s"
    by (cases x) (auto intro: sized_turn [OF Cons.prems] wlp_mono [OF sized_work [OF Cons.prems]])
  show ?case
    unfolding do_steps.simps wlp_bindA by (rule wlp_mono [OF step]) (auto intro: Cons.IH)
qed simp

lemma sized_steps:
  assumes "sized s" and "do_steps env schemas xs s = Some (r, t)"
  shows "bounded t"
  using sized_do_steps [OF assms(1), of schemas xs] assms(2)
  by (auto simp: wlp_def sized_def split: sum.splits)

end

section \<open>Idle entities\<close>

text \<open>A skipped turn counts, any other one polls or finds the buffer full, and resets the count.\<close>

lemma maybe_poll_skip:
  "skip_poll (bs_buffers s e) \<Longrightarrow>
    maybe_poll env e s = Some (Inr (), s \<lparr> bs_buffers := (bs_buffers s)(e := (bs_buffers s e)
      \<lparr> eb_rounds_since_last_poll := Suc (eb_rounds_since_last_poll (bs_buffers s e)) \<rparr>) \<rparr>)"
  by (simp add: maybe_poll_def bindA_def get_def on_buffer_def modify_def)

fun skipped_turns :: "nat \<Rightarrow> entity_buffer \<Rightarrow> entity_buffer" where
  "skipped_turns 0 b = b"
| "skipped_turns (Suc n) b = skipped_turns n (b \<lparr> eb_rounds_since_last_poll := Suc (eb_rounds_since_last_poll b) \<rparr>)"

lemma skipped_turns_eq:
  "skipped_turns n b = b \<lparr> eb_rounds_since_last_poll := eb_rounds_since_last_poll b + n \<rparr>"
  by (induction n arbitrary: b) simp_all

section \<open>Draining\<close>

lemma wlp_top [simp]: "wlp m (\<lambda>_ _. True) (\<lambda>_ _. True) s"
  by (simp add: wlp_def split: option.split sum.split)

lemma flight_provider: "wlp (on_provider m) (\<lambda>_ t. bs_in_flight t = bs_in_flight s) (\<lambda>_ t. bs_in_flight t = bs_in_flight s) s"
  by (rule wlp_on_provider) simp

lemma flight_sink: "wlp (on_sink m) (\<lambda>_ t. bs_in_flight t = bs_in_flight s) (\<lambda>_ t. bs_in_flight t = bs_in_flight s) s"
  by (rule wlp_on_sink) simp

definition same_flights :: "('p, 'd) bronze_state \<Rightarrow> ('p, 'd) bronze_state \<Rightarrow> bool" where
  "same_flights s t \<longleftrightarrow> bs_in_flight t = bs_in_flight s"

lemma same_flights_rules:
  "same_flights s u \<Longrightarrow> wlp (on_provider m) (\<lambda>_. same_flights s) (\<lambda>_. same_flights s) u"
  "same_flights s u \<Longrightarrow> wlp (on_sink k) (\<lambda>_. same_flights s) (\<lambda>_. same_flights s) u"
  "same_flights s u \<Longrightarrow> wlp (metric x) (\<lambda>_. same_flights s) (\<lambda>_. same_flights s) u"
  "same_flights s u \<Longrightarrow> wlp (on_buffer e f) (\<lambda>_. same_flights s) (\<lambda>_. same_flights s) u"
  "same_flights s u \<Longrightarrow> wlp (monotonic env) (\<lambda>_. same_flights s) (\<lambda>_. same_flights s) u"
  by (auto simp: same_flights_def intro!: wlp_on_provider wlp_on_sink)

lemma same_flights_bind:
  "wlp m (\<lambda>_. same_flights s) (\<lambda>_. same_flights s) u \<Longrightarrow>
    (\<And>a v. same_flights s v \<Longrightarrow> wlp (f a) (\<lambda>_. same_flights s) (\<lambda>_. same_flights s) v) \<Longrightarrow>
    wlp (bindA m f) (\<lambda>_. same_flights s) (\<lambda>_. same_flights s) u"
  unfolding wlp_bindA by (erule wlp_mono) auto

lemma same_flights_buffer_messages:
  "same_flights s u \<Longrightarrow> wlp (buffer_messages env e ms) (\<lambda>_. same_flights s) (\<lambda>_. same_flights s) u"
proof (induction ms arbitrary: u)
  case (Cons m ms)
  have "wlp (buffer_message env e (ms_value m)) (\<lambda>_. same_flights s) (\<lambda>_. same_flights s) u"
    by (rule wlp_mono [OF wlp_buffer_message]) (use Cons.prems in \<open>auto simp: same_flights_def only_buffer_def\<close>)
  then show ?case
    unfolding buffer_messages.simps by (rule same_flights_bind) (rule Cons.IH)
qed simp

lemma same_flights_maybe_poll:
  "same_flights s u \<Longrightarrow> wlp (maybe_poll env e) (\<lambda>_. same_flights s) (\<lambda>_. same_flights s) u"
  unfolding maybe_poll_def poll_entity_def
  by (intro same_flights_bind; (simp add: same_flights_rules; fail)?)
     (auto intro!: same_flights_bind same_flights_rules same_flights_buffer_messages simp del: wlp_bindA wlp_on_buffer)

lemma same_flights_flush:
  "same_flights s u \<Longrightarrow> wlp (flush env e sc) (\<lambda>_. same_flights s) (\<lambda>_. same_flights s) u"
  unfolding flush_def write_and_commit_def wlp_bindA wlp_get caught_wlp wlp_metric
  by (rule wlp_mono [OF same_flights_rules(2)])
     (auto split: exn.split option.split simp: same_flights_def
       intro!: wlp_mono [OF flight_provider])

text \<open>Only the entities of a list have a flush submitted.\<close>

definition flights_in :: "string list \<Rightarrow> ('p, 'd) bronze_state \<Rightarrow> bool" where
  "flights_in es s \<longleftrightarrow> (\<forall>e. bs_in_flight s e = Some Submitted \<longrightarrow> e \<in> set es)"

lemma flights_work:
  assumes "flights_in es s"
  shows "wlp (work env schemas e) (\<lambda>_ t. flights_in es t \<and> (\<forall>e'. bs_in_flight t e' = Some Submitted \<longrightarrow>
      e' \<noteq> e \<and> bs_in_flight s e' = Some Submitted)) (\<lambda>_ _. False) s"
proof (cases "bs_in_flight s e = Some Submitted")
  case True
  have "wlp (flush env e (schemas e)) (\<lambda>_. same_flights s) (\<lambda>_. same_flights s) s"
    by (rule same_flights_flush) (simp add: same_flights_def)
  then show ?thesis
    using True assms
    by (auto simp: wlp_def work_def set_flight_def modify_def same_flights_def flights_in_def
        split: option.splits sum.splits if_splits)
next
  case False
  then show ?thesis using assms by (auto simp: wlp_def work_def ret_def)
qed

lemma flights_turn:
  assumes "flights_in es s" and "e \<in> set es"
  shows "wlp (turn env e) (\<lambda>_. flights_in es) (\<lambda>_. flights_in es) s"
proof -
  have rest: "wlp (thenA (maybe_poll env e) (submit_if_due env e)) (\<lambda>_. flights_in es) (\<lambda>_. flights_in es) t"
    if "flights_in es t" for t
    unfolding wlp_bindA
    by (rule wlp_mono [OF same_flights_maybe_poll [of t]])
       (use that assms(2) in \<open>auto simp: same_flights_def flights_in_def submit_if_due_def\<close>)
  have "flights_in es (s \<lparr> bs_in_flight := (bs_in_flight s)(e := None) \<rparr>)"
    using assms by (auto simp: flights_in_def)
  then show ?thesis
    unfolding turn_def wlp_bindA [of "get _"] wlp_get
    using assms(1) rest by (auto split: option.split flight.split sum.split simp del: wlp_bindA simp: wlp_bindA [of "set_flight _ _"])
qed

lemma flights_steps:
  "flights_in es s \<Longrightarrow> \<forall>e. Turn e \<in> set xs \<longrightarrow> e \<in> set es \<Longrightarrow>
    wlp (do_steps env schemas xs) (\<lambda>_. flights_in es) (\<lambda>_. flights_in es) s"
proof (induction xs arbitrary: s)
  case (Cons x xs)
  have step: "wlp (do_step env schemas x) (\<lambda>_. flights_in es) (\<lambda>_. flights_in es) s"
    using Cons.prems
    by (cases x) (auto intro!: flights_turn wlp_mono [OF flights_work [OF Cons.prems(1)]])
  show ?case
    unfolding do_steps.simps wlp_bindA
    by (rule wlp_mono [OF step]) (use Cons in auto)
qed simp

lemma flights_work_all:
  "flights_in es s \<Longrightarrow> wlp (work_all env schemas es') (\<lambda>_ t. \<forall>e. bs_in_flight t e = Some Submitted \<longrightarrow>
     bs_in_flight s e = Some Submitted \<and> e \<notin> set es') (\<lambda>_ _. False) s"
proof (induction es' arbitrary: s)
  case (Cons e es')
  show ?case
    unfolding work_all.simps wlp_bindA
  proof (rule wlp_mono [OF flights_work [OF Cons.prems]])
    fix u :: unit and t :: "('a, 'b) bronze_state"
    assume t: "flights_in es t \<and> (\<forall>e'. bs_in_flight t e' = Some Submitted \<longrightarrow> e' \<noteq> e \<and> bs_in_flight s e' = Some Submitted)"
    show "wlp (work_all env schemas es') (\<lambda>_ t. \<forall>ea. bs_in_flight t ea = Some Submitted \<longrightarrow>
        bs_in_flight s ea = Some Submitted \<and> ea \<notin> set (e # es')) (\<lambda>_ _. False) t"
      by (rule wlp_mono [OF Cons.IH [of t]]) (use t in auto)
  qed simp
qed simp

lemma loop_turns: "Turn e \<in> set (loop_steps es sched n) \<Longrightarrow> e \<in> set es"
  by (auto simp: loop_steps_def round_steps_def enumerate_eq_zip dest: set_zip_rightD)

end
