(* ===== verification/Bronze_Properties.thy ===== *)
theory Bronze_Properties
  imports Memory_Broker Bronze_Bounds Storage
begin

text \<open>
  The properties of the Bronze consumer as the program composes it: on the Kafka provider, with the
  tables at the URIs of \<open>StorageConfig.bronze\<close>. What the client library documents is the hypothesis
  \<open>kafka_laws\<close>, what the table writer documents is \<open>table_sink\<close>.
\<close>

section \<open>The consumer on the Kafka provider\<close>

definition kafka_bronze_env ::
  "('w, 'c) kafka_api \<Rightarrow> (string \<Rightarrow> arrow_schema \<Rightarrow> bz_record list \<Rightarrow> ('d, unit) act) \<Rightarrow> codec \<Rightarrow>
     (string \<Rightarrow> int \<Rightarrow> string) \<Rightarrow> (string \<Rightarrow> arrow_schema outcome) \<Rightarrow> (nat \<Rightarrow> int) \<Rightarrow>
     (('w, 'c) kafka_state, 'd) bronze_env" where
  "kafka_bronze_env api append_rows cd round_dec schema clock =
     \<lparr> be_consume_batch = consume_batch api, be_commit = commit api, be_recover = recover_from_lost_assignment api,
       be_lag = consumer_lag api, be_write = append_rows, be_codec = cd, be_round = round_dec, be_schema = schema,
       be_uri = config_bronze, be_clock = clock \<rparr>"

definition fresh_kafka :: "'w \<Rightarrow> ('w, 'c) kafka_state" where
  "fresh_kafka w = \<lparr> ks_world = w, ks_consumers = [] \<rparr>"

lemma kafka_bronze_contract:
  assumes "kafka_laws api V" and "table_sink append_rows rows"
  shows "bronze_contract (kafka_bronze_env api append_rows cd round_dec schema clock)
    (kafka_valid V) (kafka_pending V) (kafka_committed V) rows"
  using kafka_contract [OF assms(1)] assms(2)
  by (simp add: bronze_contract_def kafka_bronze_env_def)

lemma any_sink: "table_sink append_rows (\<lambda>_ _. UNIV)"
  by unfold_locales simp

lemma fresh_valid [simp]: "kafka_valid V (fresh_kafka w)"
  and fresh_pending [simp]: "kafka_pending V (fresh_kafka w) t g = []"
  by (simp_all add: kafka_obs fresh_kafka_def)

interpretation mem_bronze: bronze_contract "kafka_bronze_env mem_api mem_append cd round_dec schema clock"
  "kafka_valid mem_view" "kafka_pending mem_view" "kafka_committed mem_view" mem_rows
  by (rule kafka_bronze_contract [OF mem_kafka_laws mem_sink.table_sink_axioms])

section \<open>At least once\<close>

text \<open>
  C1. No committed event is missing from its table. For any schedule of the workers, any number of
  rounds, and however the run ends (by itself or by an exception): if the tables held the rows of the
  committed messages before, they do after it. So an offset is committed only when the row of every
  message below it has been written.
\<close>

theorem bronze_at_least_once:
  assumes laws: "kafka_laws api V" and sink: "table_sink append_rows rows"
    and env: "env = kafka_bronze_env api append_rows cd round_dec schema clock"
    and schemas: "resolve_schemas env entities = Inr sc"
    and before: "\<And>e. durable env (schema_of sc) (kafka_committed V) rows (initial_state (fresh_kafka w) d) e"
    and run: "run_bronze_consumer env entities sched n (initial_state (fresh_kafka w) d) = Some (r, t)"
    and v: "v \<in> set (kv_committed V (ks_world (bs_provider t)) (topic_for e) consumer_group_id)"
    and row: "record_of env v = Some row"
  shows "coerce_record round_dec row (schema_of sc e) \<in> rows (bs_sink t) (config_bronze e)"
proof -
  note contract = kafka_bronze_contract [OF laws sink, of cd round_dec schema clock, folded env]
  have "bronze_contract.loop_inv env (kafka_valid V) (kafka_pending V) (kafka_committed V) rows (schema_of sc)
      (initial_state (fresh_kafka w) d)"
    unfolding bronze_contract.loop_inv_def [OF contract]
    using before by (simp add: covered_def initial_state_def)
  from bronze_contract.run_durable [OF contract this run schemas]
  have "durable env (schema_of sc) (kafka_committed V) rows t e" .
  moreover have "row \<in> set (records_of env vs)" if "v \<in> set vs" for vs
    using that row by (induction vs) (auto split: option.split)
  ultimately show ?thesis
    using v by (auto simp: durable_def kafka_committed_def env kafka_bronze_env_def)
qed

text \<open>A topic with an unreadable message and a change event, both waiting to be consumed.\<close>

definition sample_broker :: mem_broker where
  "sample_broker =
     \<lparr> mb_logs = [(topic_for ''orders'', [''junk'', ''deleted''])], mb_committed = [], mb_handles = [], mb_slow = 0 \<rparr>"

definition sample_schema :: arrow_schema where
  "sample_schema = [(''id'', ArrowString), (''price'', ArrowDecimal128 10 2)]"

definition sample_env :: "((mem_broker, mem_consumer) kafka_state, mem_table) bronze_env" where
  "sample_env = kafka_bronze_env mem_api mem_append sample_codec (\<lambda>s n. s @ ''0'') (\<lambda>e. Inr sample_schema)
     (\<lambda>n. 400000 * int n)"

lemma decode_sample: "decode_debezium_message sample_codec ''deleted'' =
  Inr \<lparr> dc_entity = JStr ''orders'', dc_op = JStr ''d'', dc_record = Some sample_row,
        dc_source_ts_ms = Some (JInt 1700) \<rparr>"
  by code_simp

lemma bronze_at_least_once_witness:
  "\<exists>r t. run_bronze_consumer sample_env [''orders''] (\<lambda>_ _. []) 1
        (initial_state (fresh_kafka sample_broker) []) = Some (r, t) \<and>
     [''junk'', ''deleted''] = kv_committed mem_view (ks_world (bs_provider t)) (topic_for ''orders'') consumer_group_id \<and>
     coerce_record (\<lambda>s n. s @ ''0'') (cdc_record sample_row (Some (JInt 1700))) sample_schema
       \<in> mem_rows (bs_sink t) (config_bronze ''orders'')"
proof -
  let ?run = "run_bronze_consumer sample_env [''orders''] (\<lambda>_ _. []) 1 (initial_state (fresh_kafka sample_broker) [])"
  have "case ?run of None \<Rightarrow> False
      | Some (r, t) \<Rightarrow> [''junk'', ''deleted''] = committed_of (ks_world (bs_provider t)) (topic_for ''orders'') consumer_group_id"
    by code_simp
  then obtain r t where run: "?run = Some (r, t)"
    and c: "[''junk'', ''deleted''] = kv_committed mem_view (ks_world (bs_provider t)) (topic_for ''orders'') consumer_group_id"
    by (auto simp: mem_view_def split: option.splits)
  have v: "''deleted'' \<in> set (kv_committed mem_view (ks_world (bs_provider t)) (topic_for ''orders'') consumer_group_id)"
    by (simp only: c [symmetric]) simp
  have row: "record_of sample_env ''deleted'' = Some (cdc_record sample_row (Some (JInt 1700)))"
    by (simp add: record_of_def sample_env_def kafka_bronze_env_def decode_sample)
  have "coerce_record (\<lambda>s n. s @ ''0'') (cdc_record sample_row (Some (JInt 1700))) (schema_of [(''orders'', sample_schema)] ''orders'')
      \<in> mem_rows (bs_sink t) (config_bronze ''orders'')"
    by (rule bronze_at_least_once [OF mem_kafka_laws mem_sink.table_sink_axioms sample_env_def _ _ run v row])
       (auto simp: sample_env_def kafka_bronze_env_def durable_def initial_state_def fresh_kafka_def
          kafka_committed_def mem_view_def sample_broker_def committed_of_def)
  with run c show ?thesis by (auto simp: schema_of_def)
qed

section \<open>Bounds\<close>

text \<open>
  C4. No buffer outgrows its batch size: after any interleaving of turns of the loop and flushes of the
  workers, also one that ended in an exception, the buffer of an entity holds at most as many records
  as its batch size (the override of the entity, or the default).
\<close>

theorem bronze_buffers_bounded:
  assumes laws: "kafka_laws api V"
    and steps: "do_steps (kafka_bronze_env api append_rows cd round_dec schema clock) schemas xs
      (initial_state (fresh_kafka w) d) = Some (r, t)"
  shows "int (length (eb_records (bs_buffers t e))) \<le>
    (case map_of max_batch_size_overrides e of None \<Rightarrow> max_batch_size_default | Some n \<Rightarrow> n)"
proof -
  note contract = kafka_bronze_contract [OF laws any_sink, of append_rows cd round_dec schema clock]
  have "bronze_contract.sized (kafka_valid V) (initial_state (fresh_kafka w) d)"
    unfolding bronze_contract.sized_def [OF contract]
    using bounded_initial by (simp add: initial_state_def)
  from bronze_contract.sized_steps [OF contract this steps] show ?thesis
    by (simp add: bounded_def new_buffer_def)
qed

lemma bronze_buffers_bounded_witness:
  "\<exists>r t. do_steps sample_env (\<lambda>_. sample_schema) [Turn ''orders''] (initial_state (fresh_kafka sample_broker) []) = Some (r, t) \<and>
     length (eb_records (bs_buffers t ''orders'')) \<le> 100"
proof -
  let ?run = "do_steps sample_env (\<lambda>_. sample_schema) [Turn ''orders''] (initial_state (fresh_kafka sample_broker) [])"
  have "?run \<noteq> None" by code_simp
  then obtain r t where run: "?run = Some (r, t)" by auto
  then show ?thesis
    using bronze_buffers_bounded [OF mem_kafka_laws run [unfolded sample_env_def], of "''orders''"]
    by (simp add: max_batch_size_overrides_def max_batch_size_default_def)
qed

definition idle_step :: "string \<Rightarrow> ('p, 'd) bronze_state \<Rightarrow> ('p, 'd) bronze_state" where
  "idle_step e s = s \<lparr> bs_buffers := (bs_buffers s)(e := (bs_buffers s e)
      \<lparr> eb_rounds_since_last_poll := Suc (eb_rounds_since_last_poll (bs_buffers s e)) \<rparr>), bs_ticks := Suc (bs_ticks s) \<rparr>"

lemma idle_steps:
  "bs_provider ((idle_step e ^^ k) s) = bs_provider s \<and> bs_in_flight ((idle_step e ^^ k) s) = bs_in_flight s \<and>
   bs_buffers ((idle_step e ^^ k) s) e =
     (bs_buffers s e) \<lparr> eb_rounds_since_last_poll := eb_rounds_since_last_poll (bs_buffers s e) + k \<rparr>"
  by (induction k) (simp_all add: idle_step_def)

lemma idle_turn:
  assumes "bs_in_flight s e = None" "eb_records (bs_buffers s e) = []" "skip_poll (bs_buffers s e)"
  shows "turn env e s = Some (Inr (), idle_step e s)"
  using assms maybe_poll_skip [OF assms(3), of env]
  by (simp add: turn_def submit_if_due_def bindA_def get_def monotonic_def is_due_def ret_def idle_step_def)

lemma idle_turns:
  assumes "bs_in_flight s e = None" "eb_records (bs_buffers s e) = []"
    "idle_after_empty_polls \<le> eb_consecutive_empty_polls (bs_buffers s e)"
    "eb_rounds_since_last_poll (bs_buffers s e) + k \<le> 4"
  shows "do_steps env schemas (replicate k (Turn e)) s = Some (Inr (), (idle_step e ^^ k) s)"
  using assms
proof (induction k arbitrary: s)
  case 0
  then show ?case by (simp add: ret_def)
next
  case (Suc k)
  have skip: "skip_poll (bs_buffers s e)"
    using Suc.prems by (simp add: skip_poll_def idle_poll_every_n_rounds_def)
  have "do_steps env schemas (replicate k (Turn e)) (idle_step e s) = Some (Inr (), (idle_step e ^^ k) (idle_step e s))"
    by (rule Suc.IH) (use Suc.prems in \<open>simp_all add: idle_step_def\<close>)
  then show ?case
    using idle_turn [OF Suc.prems(1,2) skip, of env] by (simp add: bindA_def funpow_swap1)
qed

lemma polling_turn:
  assumes "bs_in_flight u e = None" "\<not> skip_poll (bs_buffers u e)" "0 < poll_room e (bs_buffers u e)"
  shows "turn env e u =
      thenA (thenA (on_buffer e (\<lambda>b. b \<lparr> eb_rounds_since_last_poll := 0 \<rparr>)) (poll_entity env e (poll_room e (bs_buffers u e))))
        (submit_if_due env e) u"
  using assms by (simp add: turn_def maybe_poll_def bindA_def get_def)

lemma empty_room: "eb_records b = [] \<Longrightarrow> 0 < eb_max_batch_size b \<Longrightarrow> 0 < poll_room e b"
  by (auto simp: poll_room_def max_poll_batch_size_def max_poll_batch_size_overrides_def)

text \<open>
  C11. An idle entity is polled again within five turns. From any state in which the entity has an empty
  buffer and no flush in flight, at most four turns skip the poll, without touching the provider, and the
  turn after them polls.
\<close>

theorem idle_entity_polled_again:
  assumes idle: "bs_in_flight s e = None" "eb_records (bs_buffers s e) = []" "0 < eb_max_batch_size (bs_buffers s e)"
  shows "\<exists>k \<le> 4. \<exists>u. do_steps env schemas (replicate k (Turn e)) s = Some (Inr (), u) \<and> bs_provider u = bs_provider s \<and>
    turn env e u =
      thenA (thenA (on_buffer e (\<lambda>b. b \<lparr> eb_rounds_since_last_poll := 0 \<rparr>)) (poll_entity env e (poll_room e (bs_buffers u e))))
        (submit_if_due env e) u"
proof (cases "skip_poll (bs_buffers s e)")
  case False
  have "do_steps env schemas (replicate 0 (Turn e)) s = Some (Inr (), s)" by (simp add: ret_def)
  then show ?thesis
    using polling_turn [OF idle(1) False empty_room [OF idle(2,3)], of env] by blast
next
  case True
  let ?k = "4 - eb_rounds_since_last_poll (bs_buffers s e)"
  let ?u = "(idle_step e ^^ ?k) s"
  have skip: "idle_after_empty_polls \<le> eb_consecutive_empty_polls (bs_buffers s e)"
      "eb_rounds_since_last_poll (bs_buffers s e) < 4"
    using True by (simp_all add: skip_poll_def idle_poll_every_n_rounds_def)
  have "do_steps env schemas (replicate ?k (Turn e)) s = Some (Inr (), ?u)"
    by (rule idle_turns) (use idle skip in simp_all)
  moreover have "turn env e ?u =
      thenA (thenA (on_buffer e (\<lambda>b. b \<lparr> eb_rounds_since_last_poll := 0 \<rparr>)) (poll_entity env e (poll_room e (bs_buffers ?u e))))
        (submit_if_due env e) ?u"
    by (rule polling_turn)
       (use idle skip in \<open>simp_all add: idle_steps skip_poll_def idle_poll_every_n_rounds_def empty_room\<close>)
  moreover have "bs_provider ?u = bs_provider s" "?k \<le> 4" by (simp_all add: idle_steps)
  ultimately show ?thesis by blast
qed

definition idle_state :: "((mem_broker, mem_consumer) kafka_state, mem_table) bronze_state" where
  "idle_state = (initial_state (fresh_kafka sample_broker) [])
     \<lparr> bs_buffers := (\<lambda>e. (new_buffer e) \<lparr> eb_consecutive_empty_polls := idle_after_empty_polls \<rparr>) \<rparr>"

lemma idle_entity_polled_again_witness:
  "skip_poll (bs_buffers idle_state ''orders'') \<and>
   (\<exists>k \<le> 4. \<exists>u. do_steps sample_env (\<lambda>_. sample_schema) (replicate k (Turn ''orders'')) idle_state = Some (Inr (), u) \<and>
      turn sample_env ''orders'' u = thenA (thenA (on_buffer ''orders'' (\<lambda>b. b \<lparr> eb_rounds_since_last_poll := 0 \<rparr>))
        (poll_entity sample_env ''orders'' (poll_room ''orders'' (bs_buffers u ''orders'')))) (submit_if_due sample_env ''orders'') u)"
proof -
  have "bs_in_flight idle_state ''orders'' = None" "eb_records (bs_buffers idle_state ''orders'') = []"
    "0 < eb_max_batch_size (bs_buffers idle_state ''orders'')"
    by (simp_all add: idle_state_def initial_state_def new_buffer_def max_batch_size_overrides_def max_batch_size_default_def)
  from idle_entity_polled_again [OF this, of sample_env "\<lambda>_. sample_schema"]
  have "\<exists>k \<le> 4. \<exists>u. do_steps sample_env (\<lambda>_. sample_schema) (replicate k (Turn ''orders'')) idle_state = Some (Inr (), u) \<and>
      turn sample_env ''orders'' u = thenA (thenA (on_buffer ''orders'' (\<lambda>b. b \<lparr> eb_rounds_since_last_poll := 0 \<rparr>))
        (poll_entity sample_env ''orders'' (poll_room ''orders'' (bs_buffers u ''orders'')))) (submit_if_due sample_env ''orders'') u"
    by blast
  moreover have "skip_poll (bs_buffers idle_state ''orders'')"
    by (simp add: idle_state_def skip_poll_def initial_state_def new_buffer_def idle_poll_every_n_rounds_def)
  ultimately show ?thesis by blast
qed

text \<open>
  C10. Nothing is left behind: when the consumer returns, by itself or by an exception, no submitted flush
  is outstanding, for any environment and any schedule.
\<close>

theorem bronze_drained:
  assumes start: "\<And>e. bs_in_flight s e = None"
    and run: "run_bronze_consumer env entities sched n s = Some (r, t)"
  shows "bs_in_flight t e \<noteq> Some Submitted"
proof (cases "resolve_schemas env entities")
  case (Inl x)
  then show ?thesis using start run by (auto simp: run_bronze_consumer_def raise_def)
next
  case (Inr sc)
  obtain r1 t1 where steps: "do_steps env (schema_of sc) (loop_steps entities sched n) s = Some (r1, t1)"
    and work: "\<exists>r2. work_all env (schema_of sc) entities t1 = Some (r2, t)"
    using run Inr by (auto simp: run_bronze_consumer_def split: option.splits)
  have "flights_in entities s" using start by (simp add: flights_in_def)
  then have t1: "flights_in entities t1"
    using flights_steps [of entities s "loop_steps entities sched n" env "schema_of sc"] steps loop_turns
    by (fastforce simp: wlp_def split: sum.splits)
  obtain r2 where r2: "work_all env (schema_of sc) entities t1 = Some (r2, t)" using work by blast
  have "bs_in_flight t e = Some Submitted \<longrightarrow> bs_in_flight t1 e = Some Submitted \<and> e \<notin> set entities"
    using flights_work_all [OF t1, of env "schema_of sc" entities] r2
    by (auto simp: wlp_def split: sum.splits)
  then show ?thesis using t1 by (auto simp: flights_in_def)
qed

lemma bronze_drained_witness:
  "\<exists>r t. run_bronze_consumer sample_env [''orders''] (\<lambda>_ _. []) 1 (initial_state (fresh_kafka sample_broker) []) = Some (r, t) \<and>
     bs_in_flight t ''orders'' \<noteq> Some Submitted"
proof -
  let ?s = "initial_state (fresh_kafka sample_broker) [] :: (_, mem_table) bronze_state"
  have "run_bronze_consumer sample_env [''orders''] (\<lambda>_ _. []) 1 ?s \<noteq> None" by code_simp
  then obtain r t where run: "run_bronze_consumer sample_env [''orders''] (\<lambda>_ _. []) 1 ?s = Some (r, t)" by auto
  have "bs_in_flight ?s e = None" for e by (simp add: initial_state_def)
  from bronze_drained [OF this run] run show ?thesis by blast
qed

section \<open>What a flush does\<close>

text \<open>
  The effects of a flush whose write and commit ended in \<open>rc\<close>, leaving the provider in \<open>p\<close>: what is raised,
  where the provider ends, what is counted, and whether the buffer is emptied.
\<close>

definition flush_effects ::
  "('p, 'd) bronze_env \<Rightarrow> string \<Rightarrow> nat \<Rightarrow> unit outcome \<Rightarrow> 'p \<Rightarrow> unit outcome \<Rightarrow> 'p \<Rightarrow> metric list \<Rightarrow> bool \<Rightarrow> bool" where
  "flush_effects env e written rc p r p' counted emptied \<longleftrightarrow>
     (case rc of
        Inr _ \<Rightarrow> (\<exists>lag. be_lag env (topic_for e) consumer_group_id p = Some (lag, p') \<and>
          (case lag of
             Inl x \<Rightarrow> r = Inl x \<and> counted = [RecordsWritten e written] \<and> \<not> emptied
           | Inr None \<Rightarrow> r = Inr () \<and> counted = [RecordsWritten e written] \<and> emptied
           | Inr (Some n) \<Rightarrow> r = Inr () \<and> counted = [RecordsWritten e written, ConsumerLag e n] \<and> emptied))
      | Inl (Exn c x) \<Rightarrow> counted = [WriteFailure e] \<and>
          (\<exists>recovery. be_recover env (topic_for e) consumer_group_id (Exn c x) p = Some (recovery, p') \<and>
            (case recovery of
               Inl y \<Rightarrow> r = Inl y \<and> \<not> emptied
             | Inr recovered \<Rightarrow> r = Inr () \<and> emptied = recovered))
      | Inl (BaseExn c x) \<Rightarrow> r = Inl (BaseExn c x) \<and> p' = p \<and> counted = [] \<and> \<not> emptied)"

lemma write_and_commit_run:
  "write_and_commit env e schema rows s = Some (rc, u) \<Longrightarrow>
     \<exists>rw d p. be_write env (be_uri env e) schema rows (bs_sink s) = Some (rw, d) \<and>
       (case rw of
          Inl x \<Rightarrow> rc = Inl x \<and> p = bs_provider s
        | Inr _ \<Rightarrow> be_commit env (topic_for e) consumer_group_id (bs_provider s) = Some (rc, p)) \<and>
       u = s \<lparr> bs_sink := d, bs_provider := p \<rparr>"
  by (auto simp: write_and_commit_def on_sink_def on_provider_def bindA_def split: option.splits prod.splits sum.splits)

text \<open>
  C5. A flush, however it ends: the rows of the buffer are written, coerced to the schema; the offsets are
  committed only after a write that did not raise; a query of the lag or a recovery that raises is raised by the
  flush, with the records still in the buffer, and so is what is no \<open>Exception\<close>; the buffer is emptied exactly when
  the write, the commit and the query of the lag all succeed, or when the provider recovered from a lost assignment.
  Nothing else of the consumer's state changes.
\<close>

theorem flush_branches:
  fixes s :: "('p, 'd) bronze_state"
  assumes "flush env e schema s = Some (r, t)"
  shows "\<exists>rw d rc p counted emptied.
    be_write env (be_uri env e) schema (map (\<lambda>x. coerce_record (be_round env) x schema) (eb_records (bs_buffers s e)))
      (bs_sink s) = Some (rw, d) \<and>
    (case rw of
       Inl x \<Rightarrow> rc = Inl x \<and> p = bs_provider s
     | Inr _ \<Rightarrow> be_commit env (topic_for e) consumer_group_id (bs_provider s) = Some (rc, p)) \<and>
    flush_effects env e (length (eb_records (bs_buffers s e))) rc p r (bs_provider t) counted emptied \<and>
    t = s \<lparr> bs_sink := d, bs_provider := bs_provider t, bs_metrics := bs_metrics s @ counted,
           bs_buffers := (if emptied then (bs_buffers s)(e := buffer_clear (bs_buffers s e)) else bs_buffers s) \<rparr>"
proof -
  let ?rows = "flush_rows env schema (bs_buffers s e)"
  obtain rc u where attempt: "write_and_commit env e schema ?rows s = Some (rc, u)"
    using assms by (auto simp: flush_def caught_def try_except_def bindA_def get_def split: option.splits)
  obtain rw d p where run: "be_write env (be_uri env e) schema ?rows (bs_sink s) = Some (rw, d)"
      "case rw of Inl x \<Rightarrow> rc = Inl x \<and> p = bs_provider s
       | Inr _ \<Rightarrow> be_commit env (topic_for e) consumer_group_id (bs_provider s) = Some (rc, p)"
    and u: "u = s \<lparr> bs_sink := d, bs_provider := p \<rparr>"
    using write_and_commit_run [OF attempt] by blast
  let ?n = "length (eb_records (bs_buffers s e))"
  note eval = flush_def caught_def try_except_def bindA_def get_def ret_def metric_def modify_def on_provider_def
    on_buffer_def flush_rows_def
  have "\<exists>counted emptied. flush_effects env e ?n rc p r (bs_provider t) counted emptied \<and>
      t = s \<lparr> bs_sink := d, bs_provider := bs_provider t, bs_metrics := bs_metrics s @ counted,
           bs_buffers := (if emptied then (bs_buffers s)(e := buffer_clear (bs_buffers s e)) else bs_buffers s) \<rparr>"
    (is "\<exists>counted emptied. ?end counted emptied")
  proof (cases rc)
    case Inr
    obtain lag p' where lag: "be_lag env (topic_for e) consumer_group_id p = Some (lag, p')"
      using assms attempt Inr u by (auto simp: eval split: option.splits)
    show ?thesis
    proof (cases lag)
      case (Inl x)
      then have "?end [RecordsWritten e ?n] False"
        using assms attempt lag Inr u by (auto simp: eval flush_effects_def)
      then show ?thesis by blast
    next
      case (Inr m)
      then have "?end (RecordsWritten e ?n # (case m of None \<Rightarrow> [] | Some k \<Rightarrow> [ConsumerLag e k])) True"
        using assms attempt lag \<open>rc = Inr _\<close> u by (cases m) (auto simp: eval flush_effects_def)
      then show ?thesis by blast
    qed
  next
    case (Inl exc)
    show ?thesis
    proof (cases exc)
      case (Exn c x)
      obtain rr p' where rr: "be_recover env (topic_for e) consumer_group_id (Exn c x) p = Some (rr, p')"
        using assms attempt Inl Exn u by (auto simp: eval split: option.splits)
      have "?end [WriteFailure e] (rr = Inr True)"
        using assms attempt rr Inl Exn u by (cases rr) (auto simp: eval flush_effects_def)
      then show ?thesis by blast
    next
      case (BaseExn c x)
      then have "?end [] False" using assms attempt Inl u by (auto simp: eval flush_effects_def)
      then show ?thesis by blast
    qed
  qed
  with run show ?thesis unfolding flush_rows_def by blast
qed

text \<open>
  Polling the broker in memory leaves one record in the buffer. The flush writes it and empties the buffer; with a
  write that raises, the record stays.
\<close>

definition full_disk :: exn where
  "full_disk = Exn ''OSError'' ''No space left on device''"

definition full_env :: "((mem_broker, mem_consumer) kafka_state, mem_table) bronze_env" where
  "full_env = sample_env \<lparr> be_write := (\<lambda>uri schema rows. raise full_disk) \<rparr>"

definition polled_state :: "((mem_broker, mem_consumer) kafka_state, mem_table) bronze_state" where
  "polled_state =
     (case poll_entity sample_env ''orders'' 10 (initial_state (fresh_kafka sample_broker) []) of
        Some (_, s) \<Rightarrow> s | None \<Rightarrow> initial_state (fresh_kafka sample_broker) [])"

lemma flush_branches_witness:
  "(\<exists>t p. flush sample_env ''orders'' sample_schema polled_state = Some (Inr (), t) \<and>
      be_commit sample_env (topic_for ''orders'') consumer_group_id (bs_provider polled_state) = Some (Inr (), p) \<and>
      length (eb_records (bs_buffers polled_state ''orders'')) = 1 \<and> eb_records (bs_buffers t ''orders'') = [] \<and>
      bs_sink t = bs_sink polled_state @
        map (\<lambda>x. (config_bronze ''orders'', coerce_record (\<lambda>s n. s @ ''0'') x sample_schema))
          (eb_records (bs_buffers polled_state ''orders''))) \<and>
   (\<exists>t. flush full_env ''orders'' sample_schema polled_state = Some (Inr (), t) \<and>
      length (eb_records (bs_buffers t ''orders'')) = 1 \<and> bs_metrics t = bs_metrics polled_state @ [WriteFailure ''orders''])"
proof
  let ?s = "polled_state"
  have one: "length (eb_records (bs_buffers ?s ''orders'')) = 1" by code_simp
  have "map_option (\<lambda>(r, t). (r, length (eb_records (bs_buffers t ''orders''))))
      (flush sample_env ''orders'' sample_schema ?s) = Some (Inr (), 0)" by code_simp
  then obtain t where t: "flush sample_env ''orders'' sample_schema ?s = Some (Inr (), t)"
    "eb_records (bs_buffers t ''orders'') = []" by auto
  have env: "be_write sample_env = mem_append" "be_uri sample_env = config_bronze" "be_round sample_env = (\<lambda>s n. s @ ''0'')"
    by (simp_all add: sample_env_def kafka_bronze_env_def)
  have commits: "be_commit sample_env (topic_for ''orders'') consumer_group_id (bs_provider ?s) = Some (rc, p) \<Longrightarrow> rc = Inr ()"
    for rc p
  proof -
    have "map_option fst (be_commit sample_env (topic_for ''orders'') consumer_group_id (bs_provider ?s)) = Some (Inr ())"
      by code_simp
    then show "be_commit sample_env (topic_for ''orders'') consumer_group_id (bs_provider ?s) = Some (rc, p) \<Longrightarrow> rc = Inr ()"
      by simp
  qed
  obtain rw d rc p counted emptied where
    wrote: "be_write sample_env (be_uri sample_env ''orders'') sample_schema
        (map (\<lambda>x. coerce_record (be_round sample_env) x sample_schema) (eb_records (bs_buffers ?s ''orders''))) (bs_sink ?s) =
      Some (rw, d)"
    and then_commit: "case rw of Inl x \<Rightarrow> rc = Inl x \<and> p = bs_provider ?s
       | Inr _ \<Rightarrow> be_commit sample_env (topic_for ''orders'') consumer_group_id (bs_provider ?s) = Some (rc, p)"
    and t_is: "t = ?s \<lparr> bs_sink := d, bs_provider := bs_provider t, bs_metrics := bs_metrics ?s @ counted,
       bs_buffers := (if emptied then (bs_buffers ?s)(''orders'' := buffer_clear (bs_buffers ?s ''orders'')) else bs_buffers ?s) \<rparr>"
    using flush_branches [OF t(1)] by blast
  have d: "rw = Inr ()" "d = bs_sink ?s @ map (\<lambda>x. (config_bronze ''orders'', coerce_record (\<lambda>s n. s @ ''0'') x sample_schema))
       (eb_records (bs_buffers ?s ''orders''))"
    using wrote by (simp_all add: env mem_append_def comp_def)
  have "be_commit sample_env (topic_for ''orders'') consumer_group_id (bs_provider ?s) = Some (Inr (), p)"
    using then_commit commits unfolding d(1) sum.case by blast
  moreover have "bs_sink t = d" by (subst t_is) simp
  ultimately show "\<exists>t p. flush sample_env ''orders'' sample_schema ?s = Some (Inr (), t) \<and>
      be_commit sample_env (topic_for ''orders'') consumer_group_id (bs_provider ?s) = Some (Inr (), p) \<and>
      length (eb_records (bs_buffers ?s ''orders'')) = 1 \<and> eb_records (bs_buffers t ''orders'') = [] \<and>
      bs_sink t = bs_sink ?s @ map (\<lambda>x. (config_bronze ''orders'', coerce_record (\<lambda>s n. s @ ''0'') x sample_schema))
          (eb_records (bs_buffers ?s ''orders''))"
    using t one d(2) by blast
next
  let ?s = "polled_state"
  have "map_option (\<lambda>(r, t). (r, length (eb_records (bs_buffers t ''orders''))))
      (flush full_env ''orders'' sample_schema ?s) = Some (Inr (), 1)" by code_simp
  then obtain t where t: "flush full_env ''orders'' sample_schema ?s = Some (Inr (), t)"
    "length (eb_records (bs_buffers t ''orders'')) = 1" by auto
  have failing: "be_write full_env uri sc rows d = Some (Inl full_disk, d)" for uri sc rows d
    by (simp add: full_env_def raise_def)
  obtain rw d rc p counted emptied where
    wrote: "be_write full_env (be_uri full_env ''orders'') sample_schema
        (map (\<lambda>x. coerce_record (be_round full_env) x sample_schema) (eb_records (bs_buffers ?s ''orders''))) (bs_sink ?s) =
      Some (rw, d)"
    and then_commit: "case rw of Inl x \<Rightarrow> rc = Inl x \<and> p = bs_provider ?s
       | Inr _ \<Rightarrow> be_commit full_env (topic_for ''orders'') consumer_group_id (bs_provider ?s) = Some (rc, p)"
    and effects: "flush_effects full_env ''orders'' (length (eb_records (bs_buffers ?s ''orders''))) rc p (Inr ())
      (bs_provider t) counted emptied"
    and t_is: "t = ?s \<lparr> bs_sink := d, bs_provider := bs_provider t, bs_metrics := bs_metrics ?s @ counted,
       bs_buffers := (if emptied then (bs_buffers ?s)(''orders'' := buffer_clear (bs_buffers ?s ''orders'')) else bs_buffers ?s) \<rparr>"
    using flush_branches [OF t(1)] by blast
  have "rw = Inl full_disk" using wrote by (simp add: failing)
  then have "rc = Inl full_disk" using then_commit by simp
  then have "counted = [WriteFailure ''orders'']" using effects by (simp add: flush_effects_def full_disk_def)
  moreover have "bs_metrics t = bs_metrics ?s @ counted" by (subst t_is) simp
  ultimately show "\<exists>t. flush full_env ''orders'' sample_schema ?s = Some (Inr (), t) \<and>
      length (eb_records (bs_buffers t ''orders'')) = 1 \<and> bs_metrics t = bs_metrics ?s @ [WriteFailure ''orders'']"
    using t by blast
qed

text \<open>
  C12. A failing lag query escapes: when the write and the commit succeed and the query of the lag
  raises, the flush itself raises, keeps the records it has written and committed in the buffer, and the
  next turn of the entity raises the exception out of the loop.
\<close>

theorem flush_lag_error_escapes:
  fixes s :: "('p, 'd) bronze_state"
  assumes wrote: "be_write env (be_uri env e) (schemas e) (flush_rows env (schemas e) (bs_buffers s e)) (bs_sink s) = Some (Inr (), d)"
    and commit: "be_commit env (topic_for e) consumer_group_id (bs_provider s) = Some (Inr (), p)"
    and lag: "be_lag env (topic_for e) consumer_group_id p = Some (Inl x, p')"
    and submitted: "bs_in_flight s e = Some Submitted"
  shows "\<exists>t. work env schemas e s = Some (Inr (), t) \<and> bs_buffers t = bs_buffers s \<and> bs_provider t = p' \<and>
    bs_sink t = d \<and> turn env e t = Some (Inl x, t)"
proof -
  let ?t = "s \<lparr> bs_sink := d, bs_provider := p',
      bs_metrics := bs_metrics s @ [RecordsWritten e (length (eb_records (bs_buffers s e)))],
      bs_in_flight := (bs_in_flight s)(e := Some (Done (Inl x))) \<rparr>"
  have "work env schemas e s = Some (Inr (), ?t)"
    using assms
    by (simp add: work_def flush_def write_and_commit_def caught_def try_except_def bindA_def get_def ret_def
        metric_def modify_def on_provider_def on_sink_def set_flight_def flush_rows_def)
  moreover have "turn env e ?t = Some (Inl x, ?t)"
    by (simp add: turn_def bindA_def get_def raise_def)
  ultimately show ?thesis by (intro exI [of _ ?t]) simp
qed

lemma flush_lag_error_escapes_witness:
  "\<exists>t. work (sample_env \<lparr> be_commit := (\<lambda>t g. ret ()), be_lag := (\<lambda>t g. raise bad_handle) \<rparr>) (\<lambda>_. sample_schema) ''orders''
      ((initial_state (fresh_kafka sample_broker) []) \<lparr> bs_in_flight := (\<lambda>_. Some Submitted) \<rparr>) = Some (Inr (), t) \<and>
    turn (sample_env \<lparr> be_commit := (\<lambda>t g. ret ()), be_lag := (\<lambda>t g. raise bad_handle) \<rparr>) ''orders'' t = Some (Inl bad_handle, t)"
  using flush_lag_error_escapes [of "sample_env \<lparr> be_commit := (\<lambda>t g. ret ()), be_lag := (\<lambda>t g. raise bad_handle) \<rparr>" "''orders''"
      "\<lambda>_. sample_schema" "(initial_state (fresh_kafka sample_broker) []) \<lparr> bs_in_flight := (\<lambda>_. Some Submitted) \<rparr>" "[]"
      "fresh_kafka sample_broker" bad_handle "fresh_kafka sample_broker"]
  by (auto simp: sample_env_def kafka_bronze_env_def mem_append_def flush_rows_def initial_state_def new_buffer_def ret_def raise_def)

end
