(* ===== verification/Market_DB.thy ===== *)
theory Market_DB
  imports Py_Strings
begin

text \<open>
  The marketplace database the simulator writes to: the schema of
  \<open>alembic/versions/4d9f5a49f176_baseline_marketplace_schema.py\<close> (columns, \<open>NOT NULL\<close>, \<open>CHECK\<close>, keys and
  references) and the statements the simulator executes on it, as PostgreSQL documents them: an
  \<open>INSERT\<close> with its conflict clause, a conditional \<open>UPDATE\<close>, commit and rollback. Lengths of character
  columns and precisions of numeric ones are not modelled.
\<close>

section \<open>Values and rows\<close>

text \<open>A UUID is a number, a decimal is a number of ten-thousandths, a time is in microseconds.\<close>

datatype sql_value = SNull | SId nat | SText string | SInt int | SNum int | SBool bool | STime int

type_synonym row = "(string, sql_value) dict"

type_synonym db = "string \<Rightarrow> row list"

definition col :: "row \<Rightarrow> string \<Rightarrow> sql_value" where
  "col r c = (case map_of r c of None \<Rightarrow> SNull | Some v \<Rightarrow> v)"

section \<open>The schema\<close>

text \<open>The columns of a table that are \<open>NOT NULL\<close>, and its \<open>CHECK\<close> constraints; \<open>NULL\<close> passes a check.\<close>

definition nonneg :: "sql_value \<Rightarrow> bool" where
  "nonneg v = (case v of SInt i \<Rightarrow> 0 \<le> i | SNum i \<Rightarrow> 0 \<le> i | SNull \<Rightarrow> True | _ \<Rightarrow> False)"

definition positive :: "sql_value \<Rightarrow> bool" where
  "positive v = (case v of SInt i \<Rightarrow> 0 < i | SNum i \<Rightarrow> 0 < i | SNull \<Rightarrow> True | _ \<Rightarrow> False)"

definition one_of :: "string list \<Rightarrow> sql_value \<Rightarrow> bool" where
  "one_of xs v = (case v of SText s \<Rightarrow> s \<in> set xs | SNull \<Rightarrow> True | _ \<Rightarrow> False)"

text \<open>\<open>POSITION('@' IN email) > 1\<close>: the first at sign is not the first character.\<close>

definition email_text :: "string \<Rightarrow> bool" where
  "email_text s \<longleftrightarrow> CHR ''@'' \<in> set s \<and> hd s \<noteq> CHR ''@''"

definition email_like :: "sql_value \<Rightarrow> bool" where
  "email_like v = (case v of SText s \<Rightarrow> email_text s | SNull \<Rightarrow> True | _ \<Rightarrow> False)"

record table =
  tb_not_null :: "string list"
  tb_check :: "row \<Rightarrow> bool"

definition carriers_table :: table where
  "carriers_table = \<lparr> tb_not_null = [''carrier_id'', ''code'', ''name'', ''is_active'', ''created_at'', ''updated_at''],
     tb_check = (\<lambda>r. email_like (col r ''email'')) \<rparr>"

definition categories_table :: table where
  "categories_table = \<lparr> tb_not_null = [''category_id'', ''name'', ''is_active'', ''created_at'', ''updated_at''],
     tb_check = (\<lambda>r. True) \<rparr>"

definition customer_addresses_table :: table where
  "customer_addresses_table = \<lparr> tb_not_null = [''address_id'', ''customer_id'', ''address_type'', ''street'',
       ''street_number'', ''city'', ''state'', ''country'', ''postal_code'', ''is_default'', ''created_at'', ''updated_at''],
     tb_check = (\<lambda>r. one_of [''HOME'', ''WORK'', ''DELIVERY'', ''BILLING''] (col r ''address_type'')) \<rparr>"

definition customers_table :: table where
  "customers_table = \<lparr> tb_not_null = [''customer_id'', ''first_name'', ''last_name'', ''email'', ''document_number'',
       ''is_active'', ''created_at'', ''updated_at''],
     tb_check = (\<lambda>r. email_like (col r ''email'')) \<rparr>"

definition inventories_table :: table where
  "inventories_table = \<lparr> tb_not_null = [''inventory_id'', ''warehouse_id'', ''product_id'', ''available_quantity'',
       ''reserved_quantity'', ''minimum_quantity'', ''updated_at''],
     tb_check = (\<lambda>r. nonneg (col r ''available_quantity'') \<and> nonneg (col r ''minimum_quantity'') \<and>
       nonneg (col r ''reserved_quantity'')) \<rparr>"

definition inventory_movements_table :: table where
  "inventory_movements_table = \<lparr> tb_not_null = [''movement_id'', ''inventory_id'', ''movement_type'', ''quantity'', ''created_at''],
     tb_check = (\<lambda>r. one_of [''INBOUND'', ''OUTBOUND'', ''RESERVATION'', ''RELEASE'', ''ADJUSTMENT''] (col r ''movement_type'') \<and>
       positive (col r ''quantity'')) \<rparr>"

definition order_items_table :: table where
  "order_items_table = \<lparr> tb_not_null = [''order_item_id'', ''order_id'', ''product_id'', ''quantity'', ''unit_price'',
       ''total_price'', ''created_at''],
     tb_check = (\<lambda>r. positive (col r ''quantity'') \<and> nonneg (col r ''total_price'') \<and> nonneg (col r ''unit_price'')) \<rparr>"

definition order_status_history_table :: table where
  "order_status_history_table = \<lparr> tb_not_null = [''history_id'', ''order_id'', ''current_status'', ''changed_at''],
     tb_check = (\<lambda>r. True) \<rparr>"

definition order_statuses :: "string list" where
  "order_statuses = [''PENDING'', ''PAID'', ''PROCESSING'', ''SHIPPED'', ''DELIVERED'', ''CANCELLED'']"

definition orders_table :: table where
  "orders_table = \<lparr> tb_not_null = [''order_id'', ''order_number'', ''customer_id'', ''status'', ''total_amount'',
       ''shipping_amount'', ''created_at'', ''updated_at''],
     tb_check = (\<lambda>r. nonneg (col r ''shipping_amount'') \<and> one_of order_statuses (col r ''status'') \<and>
       nonneg (col r ''total_amount'')) \<rparr>"

definition payment_methods_table :: table where
  "payment_methods_table = \<lparr> tb_not_null = [''payment_method_id'', ''code'', ''name'', ''is_active'', ''created_at'', ''updated_at''],
     tb_check = (\<lambda>r. True) \<rparr>"

definition payments_table :: table where
  "payments_table = \<lparr> tb_not_null = [''payment_id'', ''order_id'', ''payment_method_id'', ''transaction_code'', ''amount'',
       ''status'', ''created_at'', ''updated_at''],
     tb_check = (\<lambda>r. nonneg (col r ''amount'') \<and>
       one_of [''PENDING'', ''AUTHORIZED'', ''PAID'', ''FAILED'', ''CANCELLED'', ''REFUNDED''] (col r ''status'')) \<rparr>"

definition products_table :: table where
  "products_table = \<lparr> tb_not_null = [''product_id'', ''seller_id'', ''category_id'', ''sku'', ''name'', ''price'',
       ''status'', ''is_active'', ''created_at'', ''updated_at''],
     tb_check = (\<lambda>r. nonneg (col r ''price'') \<and> one_of [''ACTIVE'', ''INACTIVE'', ''OUT_OF_STOCK''] (col r ''status'')) \<rparr>"

definition refunds_table :: table where
  "refunds_table = \<lparr> tb_not_null = [''refund_id'', ''payment_id'', ''amount'', ''created_at''],
     tb_check = (\<lambda>r. nonneg (col r ''amount'')) \<rparr>"

definition rating_ok :: "sql_value \<Rightarrow> bool" where
  "rating_ok v = (case v of SInt i \<Rightarrow> 1 \<le> i \<and> i \<le> 5 | SNull \<Rightarrow> True | _ \<Rightarrow> False)"

definition reviews_table :: table where
  "reviews_table = \<lparr> tb_not_null = [''review_id'', ''order_id'', ''customer_id'', ''product_id'', ''rating'', ''created_at'', ''updated_at''],
     tb_check = (\<lambda>r. rating_ok (col r ''rating'')) \<rparr>"

definition sellers_table :: table where
  "sellers_table = \<lparr> tb_not_null = [''seller_id'', ''company_name'', ''document_number'', ''email'', ''is_active'',
       ''created_at'', ''updated_at''],
     tb_check = (\<lambda>r. email_like (col r ''email'')) \<rparr>"

definition shipments_table :: table where
  "shipments_table = \<lparr> tb_not_null = [''shipment_id'', ''order_id'', ''carrier_id'', ''tracking_code'', ''status'',
       ''created_at'', ''updated_at''],
     tb_check = (\<lambda>r. one_of [''CREATED'', ''SHIPPED'', ''IN_TRANSIT'', ''DELIVERED'', ''RETURNED''] (col r ''status'')) \<rparr>"

definition warehouses_table :: table where
  "warehouses_table = \<lparr> tb_not_null = [''warehouse_id'', ''code'', ''name'', ''city'', ''state'', ''country'', ''is_active'',
       ''created_at'', ''updated_at''],
     tb_check = (\<lambda>r. True) \<rparr>"

definition market_tables :: "(string, table) dict" where
  "market_tables =
     [(''carriers'', carriers_table), (''categories'', categories_table), (''customer_addresses'', customer_addresses_table),
      (''customers'', customers_table), (''inventories'', inventories_table),
      (''inventory_movements'', inventory_movements_table), (''order_items'', order_items_table),
      (''order_status_history'', order_status_history_table), (''orders'', orders_table),
      (''payment_methods'', payment_methods_table), (''payments'', payments_table), (''products'', products_table),
      (''refunds'', refunds_table), (''reviews'', reviews_table), (''sellers'', sellers_table),
      (''shipments'', shipments_table), (''warehouses'', warehouses_table)]"

definition primary_keys :: "(string, string) dict" where
  "primary_keys =
     [(''carriers'', ''carrier_id''), (''categories'', ''category_id''), (''customer_addresses'', ''address_id''),
      (''customers'', ''customer_id''), (''inventories'', ''inventory_id''), (''inventory_movements'', ''movement_id''),
      (''order_items'', ''order_item_id''), (''order_status_history'', ''history_id''), (''orders'', ''order_id''),
      (''payment_methods'', ''payment_method_id''), (''payments'', ''payment_id''), (''products'', ''product_id''),
      (''refunds'', ''refund_id''), (''reviews'', ''review_id''), (''sellers'', ''seller_id''),
      (''shipments'', ''shipment_id''), (''warehouses'', ''warehouse_id'')]"

definition unique_keys :: "(string \<times> string list) list" where
  "unique_keys =
     [(''carriers'', [''code'']), (''customers'', [''document_number'']), (''customers'', [''email'']),
      (''inventories'', [''warehouse_id'', ''product_id'']), (''orders'', [''order_number'']),
      (''payment_methods'', [''code'']), (''payments'', [''order_id'']), (''payments'', [''transaction_code'']),
      (''products'', [''sku'']), (''reviews'', [''order_id'', ''product_id'']), (''sellers'', [''document_number'']),
      (''sellers'', [''email'']), (''shipments'', [''tracking_code'']), (''warehouses'', [''code'']),
      (''categories'', [''name''])]"

text \<open>Each reference is to the primary key of the table it names.\<close>

definition foreign_keys :: "(string \<times> string \<times> string) list" where
  "foreign_keys =
     [(''categories'', ''parent_category_id'', ''categories''), (''customer_addresses'', ''customer_id'', ''customers''),
      (''inventories'', ''product_id'', ''products''), (''inventories'', ''warehouse_id'', ''warehouses''),
      (''inventory_movements'', ''inventory_id'', ''inventories''), (''inventory_movements'', ''order_id'', ''orders''),
      (''order_items'', ''order_id'', ''orders''), (''order_items'', ''product_id'', ''products''),
      (''order_status_history'', ''order_id'', ''orders''), (''orders'', ''customer_id'', ''customers''),
      (''payments'', ''order_id'', ''orders''), (''payments'', ''payment_method_id'', ''payment_methods''),
      (''products'', ''category_id'', ''categories''), (''products'', ''seller_id'', ''sellers''),
      (''refunds'', ''payment_id'', ''payments''), (''reviews'', ''customer_id'', ''customers''),
      (''reviews'', ''order_id'', ''orders''), (''reviews'', ''product_id'', ''products''),
      (''shipments'', ''carrier_id'', ''carriers''), (''shipments'', ''order_id'', ''orders'')]"

definition primary_key :: "string \<Rightarrow> string" where
  "primary_key t = (case map_of primary_keys t of None \<Rightarrow> [] | Some c \<Rightarrow> c)"

definition keys_of :: "string \<Rightarrow> string list list" where
  "keys_of t = [primary_key t] # map snd (filter (\<lambda>(t', cs). t' = t) unique_keys)"

section \<open>Constraints on a row\<close>

definition row_valid :: "string \<Rightarrow> row \<Rightarrow> bool" where
  "row_valid t r \<longleftrightarrow>
     (case map_of market_tables t of
        None \<Rightarrow> False
      | Some tb \<Rightarrow> list_all (\<lambda>c. col r c \<noteq> SNull) (tb_not_null tb) \<and> tb_check tb r)"

definition has_id :: "db \<Rightarrow> string \<Rightarrow> sql_value \<Rightarrow> bool" where
  "has_id d t v \<longleftrightarrow> list_ex (\<lambda>r. col r (primary_key t) = v) (d t)"

definition refs_ok :: "db \<Rightarrow> string \<Rightarrow> row \<Rightarrow> bool" where
  "refs_ok d t r \<longleftrightarrow>
     list_all (\<lambda>(t', c, target). t' = t \<longrightarrow> col r c = SNull \<or> has_id d target (col r c)) foreign_keys"

definition same_key :: "string list \<Rightarrow> row \<Rightarrow> row \<Rightarrow> bool" where
  "same_key cs r r' \<longleftrightarrow> list_all (\<lambda>c. col r c = col r' c \<and> col r c \<noteq> SNull) cs"

definition clashes :: "db \<Rightarrow> string \<Rightarrow> row \<Rightarrow> string list \<Rightarrow> bool" where
  "clashes d t r cs \<longleftrightarrow> list_ex (same_key cs r) (d t)"

section \<open>Statements\<close>

text \<open>\<open>ON CONFLICT DO NOTHING\<close>, with or without a target, and a plain \<open>INSERT\<close>.\<close>

datatype on_conflict = Any_conflict | Conflict_on "string list" | No_clause

definition integrity_error :: "string \<Rightarrow> string \<Rightarrow> exn" where
  "integrity_error kind t = Exn kind (''marketplace.'' @ t)"

definition insert_row :: "db \<Rightarrow> string \<Rightarrow> on_conflict \<Rightarrow> row \<Rightarrow> (db \<times> bool) outcome" where
  "insert_row d t oc r =
     (if \<not> row_valid t r then Inl (integrity_error ''CheckViolation'' t)
      else if (case oc of Any_conflict \<Rightarrow> list_ex (clashes d t r) (keys_of t)
               | Conflict_on cs \<Rightarrow> clashes d t r cs | No_clause \<Rightarrow> False) then Inr (d, False)
      else if list_ex (clashes d t r) (keys_of t) then Inl (integrity_error ''UniqueViolation'' t)
      else Inr (d(t := d t @ [r]), True))"

fun insert_rows :: "db \<Rightarrow> string \<Rightarrow> on_conflict \<Rightarrow> row list \<Rightarrow> (db \<times> row list) outcome" where
  "insert_rows d t oc [] = Inr (d, [])"
| "insert_rows d t oc (r # rs) =
     bindE (insert_row d t oc r) (\<lambda>(d', ins).
     bindE (insert_rows d' t oc rs) (\<lambda>(d'', done_rows). Inr (d'', if ins then r # done_rows else done_rows)))"

text \<open>The references are checked when the statement ends, for the rows it inserted.\<close>

definition insert_statement :: "db \<Rightarrow> string \<Rightarrow> on_conflict \<Rightarrow> row list \<Rightarrow> (db \<times> row list) outcome" where
  "insert_statement d t oc rs =
     bindE (insert_rows d t oc rs) (\<lambda>(d', ins).
       if list_all (refs_ok d' t) ins then Inr (d', ins)
       else Inl (integrity_error ''ForeignKeyViolation'' t))"

definition update_statement :: "db \<Rightarrow> string \<Rightarrow> (row \<Rightarrow> bool) \<Rightarrow> (row \<Rightarrow> row) \<Rightarrow> (db \<times> nat) outcome" where
  "update_statement d t p f =
     (if list_all (\<lambda>r. p r \<longrightarrow> row_valid t (f r)) (d t)
      then Inr (d(t := map (\<lambda>r. if p r then f r else r) (d t)), length (filter p (d t)))
      else Inl (integrity_error ''CheckViolation'' t))"

section \<open>Facts\<close>

text \<open>The constraints hold of every row, and nothing references a missing row.\<close>

definition db_ok :: "db \<Rightarrow> bool" where
  "db_ok d \<longleftrightarrow> (\<forall>t. \<forall>r \<in> set (d t). row_valid t r \<and> refs_ok d t r)"

definition row_safe :: "db \<Rightarrow> string \<Rightarrow> row \<Rightarrow> bool" where
  "row_safe d t r \<longleftrightarrow> row_valid t r \<and> refs_ok d t r"

definition grows :: "db \<Rightarrow> db \<Rightarrow> bool" where
  "grows d d' \<longleftrightarrow> (\<forall>t v. has_id d t v \<longrightarrow> has_id d' t v)"

lemma has_id_iff: "has_id d t v \<longleftrightarrow> v \<in> (\<lambda>r. col r (primary_key t)) ` set (d t)"
  by (auto simp: has_id_def list_ex_iff)

lemma grows_refl [simp]: "grows d d" by (simp add: grows_def)

lemma grows_trans: "grows d d' \<Longrightarrow> grows d' d'' \<Longrightarrow> grows d d''" by (simp add: grows_def)

lemma grows_append: "grows d (d(t := d t @ rs))"
  by (auto simp: grows_def has_id_def)

lemma refs_ok_grows: "refs_ok d t r \<Longrightarrow> grows d d' \<Longrightarrow> refs_ok d' t r"
  by (auto simp: refs_ok_def grows_def list_all_iff)

lemma row_safe_grows: "row_safe d t r \<Longrightarrow> grows d d' \<Longrightarrow> row_safe d' t r"
  by (auto simp: row_safe_def intro: refs_ok_grows)

lemma db_ok_append: "db_ok d \<Longrightarrow> list_all (row_safe d t) rs \<Longrightarrow> db_ok (d(t := d t @ rs))"
  using refs_ok_grows [OF _ grows_append [of d t rs]]
  by (fastforce simp: db_ok_def row_safe_def list_all_iff)

text \<open>The errors of the constraints the simulator is responsible for.\<close>

definition constraint_error :: "exn \<Rightarrow> bool" where
  "constraint_error e \<longleftrightarrow> exn_class e \<in> {''CheckViolation'', ''ForeignKeyViolation''}"

lemma insert_rows_safe:
  assumes "list_all (row_safe d t) rs" and "db_ok d"
  shows "case insert_rows d t oc rs of
      Inl e \<Rightarrow> \<not> constraint_error e
    | Inr (d', ins) \<Rightarrow> d' = d(t := d t @ ins) \<and> set ins \<subseteq> set rs \<and> (length rs = 1 \<longrightarrow> ins = rs \<or> ins = [])"
  using assms
proof (induction rs arbitrary: d)
  case Nil
  then show ?case by simp
next
  case (Cons r rs)
  show ?case
  proof (cases "insert_row d t oc r")
    case (Inl e)
    then show ?thesis
      using Cons.prems(1)
      by (auto simp: insert_row_def row_safe_def constraint_error_def integrity_error_def split: if_splits)
  next
    case (Inr p)
    then obtain d1 ins where p: "p = (d1, ins)" by (cases p)
    have d1: "d1 = (if ins then d(t := d t @ [r]) else d)"
      using Inr p by (auto simp: insert_row_def split: if_splits)
    have grow: "grows d d1" by (simp add: d1 grows_append)
    have safe: "list_all (row_safe d1 t) rs"
      using Cons.prems(1) row_safe_grows [OF _ grow] by (auto simp: list_all_iff)
    have ok: "db_ok d1" using Cons.prems db_ok_append [of d t "[r]"] by (simp add: d1)
    note IH = Cons.IH [OF safe ok]
    show ?thesis
    proof (cases "insert_rows d1 t oc rs")
      case (Inl e)
      then show ?thesis using Inr p IH by simp
    next
      case rest: (Inr q)
      obtain d2 ins' where q: "q = (d2, ins')" by (cases q)
      have "d2 = d1(t := d1 t @ ins')" "set ins' \<subseteq> set rs" "length rs = 1 \<longrightarrow> ins' = rs \<or> ins' = []"
        using IH rest q by simp_all
      moreover have "ins' = []" if "rs = []" using rest q that by simp
      ultimately show ?thesis
        using Inr p d1 rest q by (cases ins) auto
    qed
  qed
qed

lemma insert_statement_safe:
  assumes safe: "list_all (row_safe d t) rs" and ok: "db_ok d"
  shows "case insert_statement d t oc rs of
      Inl e \<Rightarrow> \<not> constraint_error e
    | Inr (d', ins) \<Rightarrow> d' = d(t := d t @ ins) \<and> db_ok d' \<and> grows d d' \<and> set ins \<subseteq> set rs \<and>
        (length rs = 1 \<longrightarrow> ins = rs \<or> ins = [])"
proof -
  note rows = insert_rows_safe [OF safe ok, of oc]
  show ?thesis
  proof (cases "insert_rows d t oc rs")
    case (Inl e)
    then show ?thesis using rows by (simp add: insert_statement_def)
  next
    case (Inr p)
    obtain d' ins where p: "p = (d', ins)" by (cases p)
    have d': "d' = d(t := d t @ ins)" "set ins \<subseteq> set rs" "length rs = 1 \<longrightarrow> ins = rs \<or> ins = []"
      using rows Inr p by simp_all
    have ins: "list_all (row_safe d t) ins" using d'(2) safe by (auto simp: list_all_iff)
    have grow: "grows d d'" by (simp add: d'(1) grows_append)
    have "list_all (refs_ok d' t) ins"
      using ins row_safe_grows [OF _ grow] by (auto simp: list_all_iff row_safe_def)
    then show ?thesis
      using Inr p d' db_ok_append [OF ok ins] grow by (simp add: insert_statement_def)
  qed
qed

text \<open>An update that keeps the keys and the references of the rows it changes.\<close>

definition keeps_keys :: "string \<Rightarrow> (row \<Rightarrow> row) \<Rightarrow> bool" where
  "keeps_keys t f \<longleftrightarrow> (\<forall>r. col (f r) (primary_key t) = col r (primary_key t) \<and>
     (\<forall>(t', c, target) \<in> set foreign_keys. t' = t \<longrightarrow> col (f r) c = col r c))"

lemma update_statement_safe:
  assumes ok: "db_ok d" and keys: "keeps_keys t f"
    and valid: "\<And>r. r \<in> set (d t) \<Longrightarrow> p r \<Longrightarrow> row_valid t (f r)"
  shows "\<exists>d'. update_statement d t p f = Inr (d', length (filter p (d t))) \<and>
    d' = d(t := map (\<lambda>r. if p r then f r else r) (d t)) \<and> db_ok d' \<and> grows d d' \<and> grows d' d"
proof -
  let ?d = "d(t := map (\<lambda>r. if p r then f r else r) (d t))"
  have key: "col (f r) (primary_key t) = col r (primary_key t)" for r using keys by (simp add: keeps_keys_def)
  have "(\<lambda>r. col r (primary_key t)) ` (\<lambda>r. if p r then f r else r) ` X = (\<lambda>r. col r (primary_key t)) ` X" for X
    unfolding image_image by (rule image_cong) (simp_all add: key)
  then have ids: "has_id ?d t' v = has_id d t' v" for t' v
    by (simp only: has_id_iff fun_upd_apply list.set_map split: if_split) simp
  have refs: "refs_ok ?d t' r = refs_ok d t' r" for t' r
    by (simp add: refs_ok_def ids)
  have kept: "col (f r) c = col r c" if "(t, c, target) \<in> set foreign_keys" for r c target
    using keys that unfolding keeps_keys_def by fast
  have fk: "refs_ok d t (f r) = refs_ok d t r" for r
    unfolding refs_ok_def list_all_iff by (rule ball_cong) (auto simp: kept)
  have "db_ok ?d"
    using ok valid by (auto simp: db_ok_def refs fk)
  moreover have "list_all (\<lambda>r. p r \<longrightarrow> row_valid t (f r)) (d t)" using valid by (auto simp: list_all_iff)
  ultimately show ?thesis by (simp add: update_statement_def grows_def ids)
qed

lemma has_id_append [simp]: "has_id (d(t := d t @ [r])) t (col r (primary_key t))"
  by (simp add: has_id_def)

end
