(* ===== verification/Market_Core.thy ===== *)
theory Market_Core
  imports Market_DB
begin

text \<open>
  What the parts of the simulator share: its state (the transaction's view of the database and the
  committed one, the reference pool, the batch writer, the number of random draws), the statements as
  actions, \<open>core/unique_insert.py\<close>, \<open>core/faker_fallback.py\<close>, \<open>core/batch_writer.py\<close>,
  \<open>core/reference_pool.py\<close> and \<open>core/database.py\<close>.
\<close>

section \<open>State and chance\<close>

record order_ref =
  or_order_id :: nat
  or_customer_id :: nat
  or_product_id :: sql_value
  or_total_amount :: int

record pool =
  rp_seller_ids :: "nat list"
  rp_category_ids :: "nat list"
  rp_customer_ids :: "nat list"
  rp_product_ids :: "nat list"
  rp_orders :: "order_ref list"
  rp_payment_method_ids :: "nat list"
  rp_carrier_ids :: "nat list"

record writer =
  bw_threshold :: int
  bw_rows :: "(string, sql_value list list) dict"
  bw_columns :: "(string, string list) dict"
  bw_pending :: int

record sim =
  sm_db :: db
  sm_committed :: db
  sm_now :: int
  sm_draws :: nat
  sm_pool :: pool
  sm_writer :: writer

type_synonym 'a sim_act = "(sim, 'a) act"

text \<open>
  The random module, uuid4, the clock and Faker are parameters, functions of the number of draws so
  far. Probabilities and rolls are in millionths, decimals in ten-thousandths. \<open>ch_unique\<close> is a call
  through \<open>Faker.unique\<close>, \<open>None\<close> a \<open>UniquenessException\<close>.
\<close>

record chance =
  ch_uuid :: "nat \<Rightarrow> nat"
  ch_hex :: "nat \<Rightarrow> nat \<Rightarrow> string"
  ch_randint :: "int \<Rightarrow> int \<Rightarrow> nat \<Rightarrow> int"
  ch_index :: "nat \<Rightarrow> nat \<Rightarrow> nat"
  ch_weighted :: "nat list \<Rightarrow> nat \<Rightarrow> nat"
  ch_random :: "nat \<Rightarrow> int"
  ch_text :: "string \<Rightarrow> nat \<Rightarrow> string"
  ch_unique :: "string \<Rightarrow> nat \<Rightarrow> string option"
  ch_boolean :: "int \<Rightarrow> nat \<Rightarrow> bool"
  ch_float :: "int \<Rightarrow> int \<Rightarrow> nat \<Rightarrow> int"
  ch_now :: "nat \<Rightarrow> int"
  ch_date :: "nat \<Rightarrow> int"

definition draw :: "(nat \<Rightarrow> 'a) \<Rightarrow> 'a sim_act" where
  "draw f s = Some (Inr (f (sm_draws s)), s \<lparr> sm_draws := Suc (sm_draws s) \<rparr>)"

section \<open>Statements\<close>

definition exec_insert :: "string \<Rightarrow> on_conflict \<Rightarrow> row list \<Rightarrow> row list sim_act" where
  "exec_insert t oc rs s =
     (case insert_statement (sm_db s) t oc rs of
        Inl e \<Rightarrow> Some (Inl e, s)
      | Inr (d, ins) \<Rightarrow> Some (Inr ins, s \<lparr> sm_db := d \<rparr>))"

definition exec_update :: "string \<Rightarrow> (row \<Rightarrow> bool) \<Rightarrow> (row \<Rightarrow> row) \<Rightarrow> nat sim_act" where
  "exec_update t p f s =
     (case update_statement (sm_db s) t p f of
        Inl e \<Rightarrow> Some (Inl e, s)
      | Inr (d, n) \<Rightarrow> Some (Inr n, s \<lparr> sm_db := d \<rparr>))"

definition exec_select :: "string \<Rightarrow> row list sim_act" where
  "exec_select t = get (\<lambda>s. sm_db s t)"

definition commit_tx :: "chance \<Rightarrow> unit sim_act" where
  "commit_tx ch =
     bindA (draw (ch_now ch)) (\<lambda>now. modify (\<lambda>s. s \<lparr> sm_committed := sm_db s, sm_now := now \<rparr>))"

text \<open>
  \<open>Database.connection\<close>: commit when the body ends, roll back when it raises (a \<open>BaseException\<close>
  closes the connection, which discards the transaction too).
\<close>

definition with_connection :: "chance \<Rightarrow> 'a sim_act \<Rightarrow> 'a sim_act" where
  "with_connection ch body s =
     (case bindA body (\<lambda>a. thenA (commit_tx ch) (ret a)) s of
        None \<Rightarrow> None
      | Some (Inl e, t) \<Rightarrow> Some (Inl e, t \<lparr> sm_db := sm_committed t \<rparr>)
      | Some (Inr a, t) \<Rightarrow> Some (Inr a, t))"

section \<open>Unique values\<close>

definition unique_or_fallback :: "(string option) sim_act \<Rightarrow> string sim_act \<Rightarrow> string sim_act" where
  "unique_or_fallback generate fallback =
     bindA generate (\<lambda>r. case r of None \<Rightarrow> fallback | Some v \<Rightarrow> ret v)"

definition default_insert_attempts :: nat where
  "default_insert_attempts = 10"

definition exhausted_error :: "string \<Rightarrow> nat \<Rightarrow> exn" where
  "exhausted_error label n = Exn ''UniqueInsertExhausted'' (''Could not insert '' @ label @ '' after '' @ show_nat n @
     '' attempts: unique constraint kept colliding with pre-existing data.'')"

fun insert_attempts :: "exn \<Rightarrow> 'a sim_act \<Rightarrow> ('a \<Rightarrow> bool sim_act) \<Rightarrow> nat \<Rightarrow> 'a \<Rightarrow> 'a sim_act" where
  "insert_attempts err generate ins 0 entity = raise err"
| "insert_attempts err generate ins (Suc n) entity =
     bindA (ins entity) (\<lambda>ok.
       if ok then ret entity else bindA generate (insert_attempts err generate ins n))"

definition insert_with_unique_retry ::
  "string \<Rightarrow> 'a sim_act \<Rightarrow> ('a \<Rightarrow> bool sim_act) \<Rightarrow> nat \<Rightarrow> 'a sim_act" where
  "insert_with_unique_retry label generate ins max_attempts =
     bindA generate (insert_attempts (exhausted_error label max_attempts) generate ins max_attempts)"

section \<open>The batch writer\<close>

definition new_writer :: "int \<Rightarrow> writer" where
  "new_writer flush_threshold = \<lparr> bw_threshold = flush_threshold, bw_rows = [], bw_columns = [], bw_pending = 0 \<rparr>"

text \<open>The table names of the writer are qualified by the schema.\<close>

definition full_table :: "string \<Rightarrow> string" where
  "full_table t = ''marketplace.'' @ t"

definition bare :: "string \<Rightarrow> string" where
  "bare t = drop (length ''marketplace.'') t"

definition lookup_rows :: "writer \<Rightarrow> string \<Rightarrow> sql_value list list" where
  "lookup_rows w t = (case map_of (bw_rows w) t of None \<Rightarrow> [] | Some rs \<Rightarrow> rs)"

definition lookup_columns :: "writer \<Rightarrow> string \<Rightarrow> string list" where
  "lookup_columns w t = (case map_of (bw_columns w) t of None \<Rightarrow> [] | Some cs \<Rightarrow> cs)"

definition clear_rows :: "string \<Rightarrow> writer \<Rightarrow> writer" where
  "clear_rows t w = w \<lparr> bw_rows := AList.update t [] (bw_rows w) \<rparr>"

fun flush_tables :: "string list \<Rightarrow> unit sim_act" where
  "flush_tables [] = ret ()"
| "flush_tables (t # ts) =
     bindA (get sm_writer) (\<lambda>w.
       if lookup_rows w t = [] then flush_tables ts
       else
         thenA (exec_insert (bare t) Any_conflict (map (zip (lookup_columns w t)) (lookup_rows w t)))
        (thenA (modify (\<lambda>s. s \<lparr> sm_writer := clear_rows t (sm_writer s) \<rparr>))
               (flush_tables ts)))"

definition writer_flush :: "chance \<Rightarrow> unit sim_act" where
  "writer_flush ch =
     bindA (get sm_writer) (\<lambda>w.
       if bw_pending w = 0 then ret ()
       else
         thenA (flush_tables (map fst (bw_rows w)))
        (thenA (commit_tx ch)
               (modify (\<lambda>s. s \<lparr> sm_writer := (sm_writer s) \<lparr> bw_pending := 0 \<rparr> \<rparr>))))"

definition buffer_row :: "string \<Rightarrow> string list \<Rightarrow> sql_value list \<Rightarrow> writer \<Rightarrow> writer" where
  "buffer_row t columns values w =
     (let w' = (if map_of (bw_rows w) t = None
                then w \<lparr> bw_rows := AList.update t [] (bw_rows w), bw_columns := AList.update t columns (bw_columns w) \<rparr>
                else w)
      in w' \<lparr> bw_rows := AList.update t (lookup_rows w' t @ [values]) (bw_rows w'), bw_pending := bw_pending w' + 1 \<rparr>)"

definition writer_add :: "chance \<Rightarrow> string \<Rightarrow> string list \<Rightarrow> sql_value list \<Rightarrow> unit sim_act" where
  "writer_add ch t columns values =
     thenA (modify (\<lambda>s. s \<lparr> sm_writer := buffer_row t columns values (sm_writer s) \<rparr>))
     (bindA (get sm_writer) (\<lambda>w. if bw_pending w \<ge> bw_threshold w then writer_flush ch else ret ()))"

section \<open>The reference pool\<close>

definition empty_pool :: pool where
  "empty_pool = \<lparr> rp_seller_ids = [], rp_category_ids = [], rp_customer_ids = [], rp_product_ids = [], rp_orders = [],
     rp_payment_method_ids = [], rp_carrier_ids = [] \<rparr>"

definition choice_or_none :: "chance \<Rightarrow> (pool \<Rightarrow> 'a list) \<Rightarrow> ('a option) sim_act" where
  "choice_or_none ch sel =
     bindA (get (\<lambda>s. sel (sm_pool s))) (\<lambda>xs.
       if xs = [] then ret None else bindA (draw (ch_index ch (length xs))) (\<lambda>i. ret (Some (xs ! i))))"

definition random_seller_id :: "chance \<Rightarrow> (nat option) sim_act" where
  "random_seller_id ch = choice_or_none ch rp_seller_ids"

definition random_category_id :: "chance \<Rightarrow> (nat option) sim_act" where
  "random_category_id ch = choice_or_none ch rp_category_ids"

definition random_customer_id :: "chance \<Rightarrow> (nat option) sim_act" where
  "random_customer_id ch = choice_or_none ch rp_customer_ids"

definition random_product_id :: "chance \<Rightarrow> (nat option) sim_act" where
  "random_product_id ch = choice_or_none ch rp_product_ids"

definition random_order :: "chance \<Rightarrow> (order_ref option) sim_act" where
  "random_order ch = choice_or_none ch rp_orders"

definition random_payment_method_id :: "chance \<Rightarrow> (nat option) sim_act" where
  "random_payment_method_id ch = choice_or_none ch rp_payment_method_ids"

definition random_carrier_id :: "chance \<Rightarrow> (nat option) sim_act" where
  "random_carrier_id ch = choice_or_none ch rp_carrier_ids"

definition on_pool :: "(pool \<Rightarrow> pool) \<Rightarrow> unit sim_act" where
  "on_pool f = modify (\<lambda>s. s \<lparr> sm_pool := f (sm_pool s) \<rparr>)"

section \<open>What is documented of the random sources\<close>

definition chance_ok :: "chance \<Rightarrow> bool" where
  "chance_ok ch \<longleftrightarrow>
     (\<forall>a b k. a \<le> b \<longrightarrow> a \<le> ch_randint ch a b k \<and> ch_randint ch a b k \<le> b) \<and>
     (\<forall>n k. 0 < n \<longrightarrow> ch_index ch n k < n) \<and>
     (\<forall>ws k. ws \<noteq> [] \<longrightarrow> ch_weighted ch ws k < length ws) \<and>
     (\<forall>k. 0 \<le> ch_random ch k \<and> ch_random ch k < 1000000) \<and>
     (\<forall>a b k. a \<le> b \<longrightarrow> a \<le> ch_float ch a b k \<and> ch_float ch a b k \<le> b) \<and>
     (\<forall>n k. length (ch_hex ch n k) = n \<and> CHR ''@'' \<notin> set (ch_hex ch n k)) \<and>
     (\<forall>k. email_text (ch_text ch ''company_email'' k)) \<and>
     (\<forall>k e. ch_unique ch ''email'' k = Some e \<longrightarrow> CHR ''@'' \<in> set e)"

section \<open>Rules\<close>

lemma wlp_draw [simp]: "wlp (draw f) Q E s = Q (f (sm_draws s)) (s \<lparr> sm_draws := Suc (sm_draws s) \<rparr>)"
  by (simp add: wlp_def draw_def)

lemma wlp_exec_select [simp]: "wlp (exec_select t) Q E s = Q (sm_db s t) s"
  by (simp add: exec_select_def)

lemma wlp_on_pool [simp]: "wlp (on_pool f) Q E s = Q () (s \<lparr> sm_pool := f (sm_pool s) \<rparr>)"
  by (simp add: on_pool_def)

lemma wp_draw [simp]: "wp (draw f) Q E s = Q (f (sm_draws s)) (s \<lparr> sm_draws := Suc (sm_draws s) \<rparr>)"
  by (simp add: wp_def draw_def)

lemma wp_exec_select [simp]: "wp (exec_select t) Q E s = Q (sm_db s t) s"
  by (simp add: exec_select_def)

lemma wp_on_pool [simp]: "wp (on_pool f) Q E s = Q () (s \<lparr> sm_pool := f (sm_pool s) \<rparr>)"
  by (simp add: on_pool_def)

lemma wp_exec_insert:
  "wp (exec_insert t oc rs) Q E s =
     (case insert_statement (sm_db s) t oc rs of Inl e \<Rightarrow> E e s | Inr (d, ins) \<Rightarrow> Q ins (s \<lparr> sm_db := d \<rparr>))"
  by (simp add: wp_def exec_insert_def split: sum.split prod.split)

lemma wp_exec_update:
  "wp (exec_update t p f) Q E s =
     (case update_statement (sm_db s) t p f of Inl e \<Rightarrow> E e s | Inr (d, n) \<Rightarrow> Q n (s \<lparr> sm_db := d \<rparr>))"
  by (simp add: wp_def exec_update_def split: sum.split prod.split)

end
