(* ===== verification/Market_Catalog.thy ===== *)
theory Market_Catalog
  imports Market_Core
begin

text \<open>
  The simulator's customers, sellers, categories, products, warehouses and inventories
  (\<open>simulator/domain/customer\<close>, \<open>catalog\<close>, \<open>inventory\<close>): the data classes, what the generators make, and
  what the repositories insert. The texts Faker returns are draws named by the provider.
\<close>

definition opt_text :: "string option \<Rightarrow> sql_value" where
  "opt_text t = (case t of None \<Rightarrow> SNull | Some s \<Rightarrow> SText s)"

definition opt_time :: "int option \<Rightarrow> sql_value" where
  "opt_time t = (case t of None \<Rightarrow> SNull | Some i \<Rightarrow> STime i)"

definition opt_id :: "nat option \<Rightarrow> sql_value" where
  "opt_id t = (case t of None \<Rightarrow> SNull | Some i \<Rightarrow> SId i)"

text \<open>An \<open>INSERT ... ON CONFLICT ... DO NOTHING RETURNING id\<close> of one row: whether a row came back.\<close>

definition insert_returning :: "string \<Rightarrow> on_conflict \<Rightarrow> row \<Rightarrow> bool sim_act" where
  "insert_returning t oc r = bindA (exec_insert t oc [r]) (\<lambda>ins. ret (ins \<noteq> []))"

section \<open>Customers\<close>

record customer =
  cu_customer_id :: nat
  cu_first_name :: string
  cu_last_name :: string
  cu_email :: string
  cu_phone_number :: string
  cu_document_number :: string
  cu_birth_date :: int
  cu_is_active :: bool
  cu_created_at :: int
  cu_updated_at :: int

definition new_customer ::
  "chance \<Rightarrow> string \<Rightarrow> string \<Rightarrow> string \<Rightarrow> string \<Rightarrow> string \<Rightarrow> int \<Rightarrow> customer sim_act" where
  "new_customer ch first_name last_name email phone_number document_number birth_date =
     bindA (draw (ch_now ch)) (\<lambda>now. bindA (draw (ch_uuid ch)) (\<lambda>i.
       ret \<lparr> cu_customer_id = i, cu_first_name = first_name, cu_last_name = last_name, cu_email = email,
             cu_phone_number = phone_number, cu_document_number = document_number, cu_birth_date = birth_date,
             cu_is_active = True, cu_created_at = now, cu_updated_at = now \<rparr>))"

text \<open>\<open>local_part, domain = ....split("@", 1)\<close> raises when there is no at sign.\<close>

definition entropic_email :: "chance \<Rightarrow> (string option) sim_act" where
  "entropic_email ch =
     bindA (draw (ch_unique ch ''email'')) (\<lambda>r. case r of
       None \<Rightarrow> ret None
     | Some e \<Rightarrow>
         if CHR ''@'' \<notin> set e then raise (value_error ''not enough values to unpack (expected 2, got 1)'')
         else
           bindA (draw (ch_hex ch 8)) (\<lambda>h.
             ret (Some (takeWhile (\<lambda>c. c \<noteq> CHR ''@'') e @ ''.'' @ h @ ''@'' @ tl (dropWhile (\<lambda>c. c \<noteq> CHR ''@'') e)))))"

definition generate_customer :: "chance \<Rightarrow> customer sim_act" where
  "generate_customer ch =
     bindA (draw (ch_text ch ''first_name'')) (\<lambda>first_name.
     bindA (draw (ch_text ch ''last_name'')) (\<lambda>last_name.
     bindA (unique_or_fallback (entropic_email ch)
              (bindA (draw (ch_hex ch 12)) (\<lambda>h. ret (h @ ''@example.com'')))) (\<lambda>email.
     bindA (draw (ch_text ch ''cellphone_number'')) (\<lambda>phone_number.
     bindA (draw (ch_text ch ''cpf'')) (\<lambda>document_number.
     bindA (draw (ch_date ch)) (\<lambda>birth_date.
       new_customer ch first_name last_name email phone_number document_number birth_date))))))"

definition customer_row :: "customer \<Rightarrow> row" where
  "customer_row c =
     [(''customer_id'', SId (cu_customer_id c)), (''first_name'', SText (cu_first_name c)),
      (''last_name'', SText (cu_last_name c)), (''email'', SText (cu_email c)),
      (''phone_number'', SText (cu_phone_number c)), (''document_number'', SText (cu_document_number c)),
      (''birth_date'', STime (cu_birth_date c)), (''is_active'', SBool (cu_is_active c)),
      (''created_at'', STime (cu_created_at c)), (''updated_at'', STime (cu_updated_at c))]"

definition insert_customer :: "customer \<Rightarrow> bool sim_act" where
  "insert_customer c = insert_returning ''customers'' Any_conflict (customer_row c)"

record address =
  ad_address_id :: nat
  ad_customer_id :: nat
  ad_address_type :: string
  ad_street :: string
  ad_street_number :: string
  ad_complement :: "string option"
  ad_district :: "string option"
  ad_city :: string
  ad_state :: string
  ad_country :: string
  ad_postal_code :: string
  ad_is_default :: bool
  ad_created_at :: int
  ad_updated_at :: int

definition new_address ::
  "chance \<Rightarrow> nat \<Rightarrow> string \<Rightarrow> string \<Rightarrow> string option \<Rightarrow> string option \<Rightarrow> string \<Rightarrow> string \<Rightarrow> string \<Rightarrow> address sim_act" where
  "new_address ch customer_id street street_number complement district city state postal_code =
     bindA (draw (ch_now ch)) (\<lambda>now. bindA (draw (ch_uuid ch)) (\<lambda>i.
       ret \<lparr> ad_address_id = i, ad_customer_id = customer_id, ad_address_type = ''DELIVERY'', ad_street = street,
             ad_street_number = street_number, ad_complement = complement, ad_district = district, ad_city = city,
             ad_state = state, ad_country = ''Brazil'', ad_postal_code = postal_code, ad_is_default = True,
             ad_created_at = now, ad_updated_at = now \<rparr>))"

text \<open>The titled word of the district is one draw.\<close>

definition generate_address :: "chance \<Rightarrow> nat \<Rightarrow> address sim_act" where
  "generate_address ch customer_id =
     bindA (draw (ch_boolean ch 30)) (\<lambda>apt.
     bindA (if apt then bindA (draw (ch_randint ch 1 999)) (\<lambda>n. ret (Some (''Apto '' @ show_int n))) else ret None) (\<lambda>complement.
     bindA (draw (ch_boolean ch 90)) (\<lambda>dis.
     bindA (if dis then bindA (draw (ch_text ch ''word().title()'')) (\<lambda>t. ret (Some t)) else ret None) (\<lambda>district.
     bindA (draw (ch_text ch ''street_name'')) (\<lambda>street.
     bindA (draw (ch_text ch ''building_number'')) (\<lambda>street_number.
     bindA (draw (ch_text ch ''city'')) (\<lambda>city.
     bindA (draw (ch_text ch ''estado_sigla'')) (\<lambda>state.
     bindA (draw (ch_text ch ''postcode'')) (\<lambda>postal_code.
       new_address ch customer_id street street_number complement district city state postal_code)))))))))"

definition address_columns :: "string list" where
  "address_columns = [''address_id'', ''customer_id'', ''address_type'', ''street'', ''street_number'', ''complement'',
     ''district'', ''city'', ''state'', ''country'', ''postal_code'', ''is_default'', ''created_at'', ''updated_at'']"

definition insert_address :: "chance \<Rightarrow> address \<Rightarrow> unit sim_act" where
  "insert_address ch a =
     writer_add ch ''marketplace.customer_addresses'' address_columns
       [SId (ad_address_id a), SId (ad_customer_id a), SText (ad_address_type a), SText (ad_street a),
        SText (ad_street_number a), opt_text (ad_complement a), opt_text (ad_district a), SText (ad_city a),
        SText (ad_state a), SText (ad_country a), SText (ad_postal_code a), SBool (ad_is_default a),
        STime (ad_created_at a), STime (ad_updated_at a)]"

definition create_customer :: "chance \<Rightarrow> customer sim_act" where
  "create_customer ch =
     bindA (insert_with_unique_retry ''customer'' (generate_customer ch) insert_customer default_insert_attempts) (\<lambda>customer.
     thenA (on_pool (\<lambda>p. p \<lparr> rp_customer_ids := rp_customer_ids p @ [cu_customer_id customer] \<rparr>))
    (bindA (generate_address ch (cu_customer_id customer)) (\<lambda>address.
     thenA (insert_address ch address)
           (ret customer))))"

section \<open>Sellers and categories\<close>

record seller =
  se_seller_id :: nat
  se_company_name :: string
  se_trade_name :: "string option"
  se_document_number :: string
  se_email :: string
  se_phone_number :: "string option"
  se_is_active :: bool
  se_created_at :: int
  se_updated_at :: int

definition new_seller ::
  "chance \<Rightarrow> string \<Rightarrow> string option \<Rightarrow> string \<Rightarrow> string \<Rightarrow> string option \<Rightarrow> seller sim_act" where
  "new_seller ch company_name trade_name document_number email phone_number =
     bindA (draw (ch_now ch)) (\<lambda>now. bindA (draw (ch_uuid ch)) (\<lambda>i.
       ret \<lparr> se_seller_id = i, se_company_name = company_name, se_trade_name = trade_name,
             se_document_number = document_number, se_email = email, se_phone_number = phone_number,
             se_is_active = True, se_created_at = now, se_updated_at = now \<rparr>))"

definition generate_seller :: "chance \<Rightarrow> seller sim_act" where
  "generate_seller ch =
     bindA (draw (ch_text ch ''company'')) (\<lambda>company_name.
     bindA (draw (ch_text ch ''cnpj'')) (\<lambda>document_number.
     bindA (draw (ch_text ch ''company_email'')) (\<lambda>email.
     bindA (draw (ch_text ch ''phone_number'')) (\<lambda>phone_number.
       new_seller ch company_name (Some company_name) document_number email (Some phone_number)))))"

definition seller_row :: "seller \<Rightarrow> row" where
  "seller_row s =
     [(''seller_id'', SId (se_seller_id s)), (''company_name'', SText (se_company_name s)),
      (''trade_name'', opt_text (se_trade_name s)), (''document_number'', SText (se_document_number s)),
      (''email'', SText (se_email s)), (''phone_number'', opt_text (se_phone_number s)),
      (''is_active'', SBool (se_is_active s)), (''created_at'', STime (se_created_at s)),
      (''updated_at'', STime (se_updated_at s))]"

definition insert_seller :: "seller \<Rightarrow> bool sim_act" where
  "insert_seller s = insert_returning ''sellers'' Any_conflict (seller_row s)"

definition create_seller :: "chance \<Rightarrow> seller sim_act" where
  "create_seller ch =
     bindA (insert_with_unique_retry ''seller'' (generate_seller ch) insert_seller default_insert_attempts) (\<lambda>seller.
     thenA (on_pool (\<lambda>p. p \<lparr> rp_seller_ids := rp_seller_ids p @ [se_seller_id seller] \<rparr>))
           (ret seller))"

record category =
  ca_category_id :: nat
  ca_parent_category_id :: "nat option"
  ca_name :: string
  ca_description :: "string option"
  ca_is_active :: bool
  ca_created_at :: int
  ca_updated_at :: int

definition new_category :: "chance \<Rightarrow> string \<Rightarrow> string option \<Rightarrow> category sim_act" where
  "new_category ch name description =
     bindA (draw (ch_now ch)) (\<lambda>now. bindA (draw (ch_uuid ch)) (\<lambda>i.
       ret \<lparr> ca_category_id = i, ca_parent_category_id = None, ca_name = name, ca_description = description,
             ca_is_active = True, ca_created_at = now, ca_updated_at = now \<rparr>))"

section \<open>Products\<close>

record product =
  pr_product_id :: nat
  pr_seller_id :: nat
  pr_category_id :: nat
  pr_sku :: string
  pr_name :: string
  pr_description :: "string option"
  pr_brand :: "string option"
  pr_price :: int
  pr_weight :: int
  pr_height :: int
  pr_width :: int
  pr_length :: int
  pr_state :: string
  pr_is_active :: bool
  pr_created_at :: int
  pr_updated_at :: int
  pr_deleted_at :: "int option"

definition brands :: "string list" where
  "brands = [''Samsung'', ''Apple'', ''LG'', ''Dell'', ''Lenovo'', ''Philips'', ''Sony'', ''Motorola'', ''Xiaomi'', ''Asus'']"

definition product_names :: "string list" where
  "product_names = [''Smartphone'', ''Notebook'', ''Smart TV'', ''Monitor'', ''Mouse'', ''Keyboard'', ''Headset'',
     ''Printer'', ''Tablet'', ''Smartwatch'']"

definition random_element :: "chance \<Rightarrow> 'a list \<Rightarrow> 'a sim_act" where
  "random_element ch xs = bindA (draw (ch_index ch (length xs))) (\<lambda>i. ret (xs ! i))"

definition generate_product :: "chance \<Rightarrow> nat \<Rightarrow> nat \<Rightarrow> product sim_act" where
  "generate_product ch seller_id category_id =
     bindA (random_element ch brands) (\<lambda>brand.
     bindA (random_element ch product_names) (\<lambda>product_name.
     bindA (unique_or_fallback (draw (ch_unique ch ''SKU-########''))
              (bindA (draw (ch_hex ch 8)) (\<lambda>h. ret (''SKU-'' @ h)))) (\<lambda>sku.
     bindA (draw (ch_float ch 500000 150000000)) (\<lambda>price.
     bindA (draw (ch_float ch 1000 250000)) (\<lambda>weight.
     bindA (draw (ch_float ch 20000 1200000)) (\<lambda>height.
     bindA (draw (ch_float ch 20000 1200000)) (\<lambda>width.
     bindA (draw (ch_float ch 20000 1200000)) (\<lambda>len.
     bindA (draw (ch_now ch)) (\<lambda>now. bindA (draw (ch_uuid ch)) (\<lambda>i.
       ret \<lparr> pr_product_id = i, pr_seller_id = seller_id, pr_category_id = category_id, pr_sku = sku,
             pr_name = brand @ '' '' @ product_name,
             pr_description = Some (brand @ '' '' @ product_name @ '' generated by Marketplace Simulator''),
             pr_brand = Some brand, pr_price = price, pr_weight = weight, pr_height = height, pr_width = width,
             pr_length = len, pr_state = ''ACTIVE'', pr_is_active = True, pr_created_at = now, pr_updated_at = now,
             pr_deleted_at = None \<rparr>))))))))))"

definition product_row :: "product \<Rightarrow> row" where
  "product_row p =
     [(''product_id'', SId (pr_product_id p)), (''seller_id'', SId (pr_seller_id p)),
      (''category_id'', SId (pr_category_id p)), (''sku'', SText (pr_sku p)), (''name'', SText (pr_name p)),
      (''description'', opt_text (pr_description p)), (''brand'', opt_text (pr_brand p)),
      (''price'', SNum (pr_price p)), (''weight'', SNum (pr_weight p)), (''height'', SNum (pr_height p)),
      (''width'', SNum (pr_width p)), (''length'', SNum (pr_length p)), (''status'', SText (pr_state p)),
      (''is_active'', SBool (pr_is_active p)), (''created_at'', STime (pr_created_at p)),
      (''updated_at'', STime (pr_updated_at p)), (''deleted_at'', opt_time (pr_deleted_at p))]"

definition insert_product :: "product \<Rightarrow> bool sim_act" where
  "insert_product p = insert_returning ''products'' Any_conflict (product_row p)"

definition create_product :: "chance \<Rightarrow> product sim_act" where
  "create_product ch =
     bindA (random_seller_id ch) (\<lambda>seller_id.
     bindA (random_category_id ch) (\<lambda>category_id.
       case seller_id of
         None \<Rightarrow> raise (value_error ''No seller found.'')
       | Some sid \<Rightarrow>
           (case category_id of
              None \<Rightarrow> raise (value_error ''No category found.'')
            | Some cid \<Rightarrow>
                bindA (insert_with_unique_retry ''product'' (generate_product ch sid cid) insert_product default_insert_attempts) (\<lambda>product.
                thenA (on_pool (\<lambda>p. p \<lparr> rp_product_ids := rp_product_ids p @ [pr_product_id product] \<rparr>))
                      (ret product)))))"

section \<open>Warehouses and inventories\<close>

record warehouse =
  wa_warehouse_id :: nat
  wa_code :: string
  wa_name :: string
  wa_street :: "string option"
  wa_city :: string
  wa_state :: string
  wa_country :: string
  wa_is_active :: bool
  wa_created_at :: int
  wa_updated_at :: int
  wa_deleted_at :: "int option"

definition generate_warehouse :: "chance \<Rightarrow> warehouse sim_act" where
  "generate_warehouse ch =
     bindA (draw (ch_text ch ''city'')) (\<lambda>city.
     bindA (draw (ch_text ch ''estado_nome'')) (\<lambda>state.
     bindA (unique_or_fallback (draw (ch_unique ch ''WH-########''))
              (bindA (draw (ch_hex ch 8)) (\<lambda>h. ret (''WH-'' @ h)))) (\<lambda>code.
     bindA (draw (ch_text ch ''street_address'')) (\<lambda>street.
     bindA (draw (ch_now ch)) (\<lambda>now. bindA (draw (ch_uuid ch)) (\<lambda>i.
       ret \<lparr> wa_warehouse_id = i, wa_code = code, wa_name = ''Distribution Center '' @ city, wa_street = Some street,
             wa_city = city, wa_state = state, wa_country = ''Brazil'', wa_is_active = True, wa_created_at = now,
             wa_updated_at = now, wa_deleted_at = None \<rparr>))))))"

definition warehouse_row :: "warehouse \<Rightarrow> row" where
  "warehouse_row w =
     [(''warehouse_id'', SId (wa_warehouse_id w)), (''code'', SText (wa_code w)), (''name'', SText (wa_name w)),
      (''street'', opt_text (wa_street w)), (''city'', SText (wa_city w)), (''state'', SText (wa_state w)),
      (''country'', SText (wa_country w)), (''is_active'', SBool (wa_is_active w)),
      (''created_at'', STime (wa_created_at w)), (''updated_at'', STime (wa_updated_at w)),
      (''deleted_at'', opt_time (wa_deleted_at w))]"

definition insert_warehouse :: "warehouse \<Rightarrow> unit sim_act" where
  "insert_warehouse w = thenA (exec_insert ''warehouses'' (Conflict_on [''code'']) [warehouse_row w]) (ret ())"

definition create_warehouse :: "chance \<Rightarrow> warehouse sim_act" where
  "create_warehouse ch =
     bindA (generate_warehouse ch) (\<lambda>warehouse. thenA (insert_warehouse warehouse) (ret warehouse))"

text \<open>\<open>SELECT ... ORDER BY random() LIMIT 1\<close> over the rows a filter keeps.\<close>

definition random_row :: "chance \<Rightarrow> row list \<Rightarrow> (row option) sim_act" where
  "random_row ch rs =
     (if rs = [] then ret None else bindA (draw (ch_index ch (length rs))) (\<lambda>i. ret (Some (rs ! i))))"

definition random_warehouse_id :: "chance \<Rightarrow> (sql_value option) sim_act" where
  "random_warehouse_id ch =
     bindA (exec_select ''warehouses'') (\<lambda>rs.
     bindA (random_row ch rs) (\<lambda>r. ret (map_option (\<lambda>r. col r ''warehouse_id'') r)))"

record inventory =
  iv_inventory_id :: nat
  iv_warehouse_id :: sql_value
  iv_product_id :: nat
  iv_available_quantity :: int
  iv_reserved_quantity :: int
  iv_minimum_quantity :: int
  iv_updated_at :: int

definition generate_inventory :: "chance \<Rightarrow> sql_value \<Rightarrow> nat \<Rightarrow> inventory sim_act" where
  "generate_inventory ch warehouse_id product_id =
     bindA (draw (ch_randint ch 20 500)) (\<lambda>available.
     bindA (draw (ch_randint ch 0 (min available 20))) (\<lambda>reserved.
     bindA (draw (ch_randint ch 5 20)) (\<lambda>minimum.
     bindA (draw (ch_uuid ch)) (\<lambda>i. bindA (draw (ch_now ch)) (\<lambda>now.
       ret \<lparr> iv_inventory_id = i, iv_warehouse_id = warehouse_id, iv_product_id = product_id,
             iv_available_quantity = available, iv_reserved_quantity = reserved, iv_minimum_quantity = minimum,
             iv_updated_at = now \<rparr>)))))"

definition inventory_row :: "inventory \<Rightarrow> row" where
  "inventory_row v =
     [(''inventory_id'', SId (iv_inventory_id v)), (''warehouse_id'', iv_warehouse_id v),
      (''product_id'', SId (iv_product_id v)), (''available_quantity'', SInt (iv_available_quantity v)),
      (''reserved_quantity'', SInt (iv_reserved_quantity v)), (''minimum_quantity'', SInt (iv_minimum_quantity v)),
      (''updated_at'', STime (iv_updated_at v))]"

definition insert_inventory :: "inventory \<Rightarrow> unit sim_act" where
  "insert_inventory v =
     thenA (exec_insert ''inventories'' (Conflict_on [''warehouse_id'', ''product_id'']) [inventory_row v]) (ret ())"

definition create_inventory :: "chance \<Rightarrow> inventory sim_act" where
  "create_inventory ch =
     bindA (random_warehouse_id ch) (\<lambda>warehouse_id.
     bindA (random_product_id ch) (\<lambda>product_id.
       case warehouse_id of
         None \<Rightarrow> raise (value_error ''No warehouse found.'')
       | Some wid \<Rightarrow>
           (case product_id of
              None \<Rightarrow> raise (value_error ''No product found.'')
            | Some pid \<Rightarrow>
                bindA (generate_inventory ch wid pid) (\<lambda>inventory.
                thenA (insert_inventory inventory) (ret inventory)))))"

text \<open>An integer of a row, and the rows of an inventory.\<close>

definition int_of :: "sql_value \<Rightarrow> int" where
  "int_of v = (case v of SInt i \<Rightarrow> i | SNum i \<Rightarrow> i | STime i \<Rightarrow> i | _ \<Rightarrow> 0)"

definition set_col :: "string \<Rightarrow> sql_value \<Rightarrow> row \<Rightarrow> row" where
  "set_col c v r = AList.update c v r"

definition set_available :: "int \<Rightarrow> int \<Rightarrow> row \<Rightarrow> row" where
  "set_available now q r =
     set_col ''updated_at'' (STime now)
       (set_col ''available_quantity'' (SInt (int_of (col r ''available_quantity'') + q)) r)"

definition decrease_available_quantity :: "sql_value \<Rightarrow> int \<Rightarrow> bool sim_act" where
  "decrease_available_quantity inventory_id quantity =
     bindA (get sm_now) (\<lambda>now.
     bindA (exec_update ''inventories''
              (\<lambda>r. col r ''inventory_id'' = inventory_id \<and> inventory_id \<noteq> SNull \<and>
                 col r ''available_quantity'' \<noteq> SNull \<and> int_of (col r ''available_quantity'') \<ge> quantity)
              (set_available now (- quantity)))
       (\<lambda>n. ret (n \<noteq> 0)))"

definition increase_available_quantity :: "sql_value \<Rightarrow> int \<Rightarrow> unit sim_act" where
  "increase_available_quantity inventory_id quantity =
     bindA (get sm_now) (\<lambda>now.
     thenA (exec_update ''inventories'' (\<lambda>r. col r ''inventory_id'' = inventory_id \<and> inventory_id \<noteq> SNull)
              (set_available now quantity))
       (ret ()))"

definition random_inventory :: "chance \<Rightarrow> ((sql_value \<times> sql_value \<times> int) option) sim_act" where
  "random_inventory ch =
     bindA (exec_select ''inventories'') (\<lambda>rs.
     bindA (random_row ch (filter (\<lambda>r. int_of (col r ''available_quantity'') > 0) rs)) (\<lambda>r.
       ret (map_option (\<lambda>r. (col r ''inventory_id'', col r ''product_id'', int_of (col r ''available_quantity''))) r)))"

text \<open>\<open>ORDER BY (available_quantity < threshold) DESC, random() LIMIT 1\<close>: one of the low rows, if any.\<close>

definition restock_candidate_id :: "chance \<Rightarrow> int \<Rightarrow> (sql_value option) sim_act" where
  "restock_candidate_id ch threshold =
     bindA (exec_select ''inventories'') (\<lambda>rs.
       let low = filter (\<lambda>r. int_of (col r ''available_quantity'') < threshold) rs
       in bindA (random_row ch (if low = [] then rs else low)) (\<lambda>r.
            ret (map_option (\<lambda>r. col r ''inventory_id'') r)))"

definition product_price :: "sql_value \<Rightarrow> (int option) sim_act" where
  "product_price product_id =
     bindA (exec_select ''products'') (\<lambda>rs.
       ret (map_option (\<lambda>r. int_of (col r ''price'')) (find (\<lambda>r. col r ''product_id'' = product_id) rs)))"

definition low_stock_threshold :: int where "low_stock_threshold = 20"

definition maybe_restock :: "chance \<Rightarrow> int \<Rightarrow> unit sim_act" where
  "maybe_restock ch probability =
     bindA (draw (ch_random ch)) (\<lambda>roll.
       if roll \<ge> probability then ret ()
       else
         bindA (restock_candidate_id ch low_stock_threshold) (\<lambda>c. case c of
           None \<Rightarrow> ret ()
         | Some inventory_id \<Rightarrow>
             bindA (draw (ch_randint ch 50 200)) (\<lambda>quantity. increase_available_quantity inventory_id quantity)))"

end
