(* ===== verification/Market_Orders.thy ===== *)
theory Market_Orders
  imports Market_Catalog
begin

text \<open>
  The simulator's orders, stock movements, payments, shipments and reviews (\<open>simulator/domain/orders\<close>,
  \<open>payments\<close>, \<open>logistics\<close>, \<open>reviews\<close> and \<open>inventory/movement_*.py\<close>): models, generators, repositories and
  services. An order is inserted at once, what belongs to it goes through the batch writer.
\<close>

section \<open>Identifiers as text\<close>

definition hex_digit :: "nat \<Rightarrow> char" where
  "hex_digit n = ''0123456789abcdef'' ! (n mod 16)"

fun hex_fixed :: "nat \<Rightarrow> nat \<Rightarrow> string" where
  "hex_fixed 0 n = []"
| "hex_fixed (Suc k) n = hex_fixed k (n div 16) @ [hex_digit n]"

text \<open>\<open>str\<close> of a UUID.\<close>

definition show_uuid :: "nat \<Rightarrow> string" where
  "show_uuid n =
     (let h = hex_fixed 32 n
      in take 8 h @ ''-'' @ take 4 (drop 8 h) @ ''-'' @ take 4 (drop 12 h) @ ''-'' @ take 4 (drop 16 h) @ ''-'' @ drop 20 h)"

section \<open>Orders\<close>

record order =
  od_order_id :: nat
  od_order_number :: string
  od_customer_id :: nat
  od_status :: string
  od_total_amount :: int
  od_shipping_amount :: int
  od_created_at :: int
  od_updated_at :: int

record order_item =
  oi_order_item_id :: nat
  oi_order_id :: nat
  oi_product_id :: sql_value
  oi_quantity :: int
  oi_unit_price :: int
  oi_total_price :: int
  oi_created_at :: int

record status_history =
  sh_history_id :: nat
  sh_order_id :: nat
  sh_previous_status :: "string option"
  sh_current_status :: string
  sh_changed_at :: int

definition new_order :: "chance \<Rightarrow> nat \<Rightarrow> string \<Rightarrow> int \<Rightarrow> int \<Rightarrow> order sim_act" where
  "new_order ch customer_id order_number total_amount shipping_amount =
     bindA (draw (ch_now ch)) (\<lambda>now. bindA (draw (ch_uuid ch)) (\<lambda>i.
       ret \<lparr> od_order_id = i, od_order_number = order_number, od_customer_id = customer_id, od_status = ''PENDING'',
             od_total_amount = total_amount, od_shipping_amount = shipping_amount, od_created_at = now,
             od_updated_at = now \<rparr>))"

definition new_order_item :: "chance \<Rightarrow> nat \<Rightarrow> sql_value \<Rightarrow> int \<Rightarrow> int \<Rightarrow> order_item sim_act" where
  "new_order_item ch order_id product_id quantity unit_price =
     bindA (draw (ch_uuid ch)) (\<lambda>i. bindA (draw (ch_now ch)) (\<lambda>now.
       ret \<lparr> oi_order_item_id = i, oi_order_id = order_id, oi_product_id = product_id, oi_quantity = quantity,
             oi_unit_price = unit_price, oi_total_price = unit_price * quantity, oi_created_at = now \<rparr>))"

definition new_status_history :: "chance \<Rightarrow> nat \<Rightarrow> status_history sim_act" where
  "new_status_history ch order_id =
     bindA (draw (ch_uuid ch)) (\<lambda>i. bindA (draw (ch_now ch)) (\<lambda>now.
       ret \<lparr> sh_history_id = i, sh_order_id = order_id, sh_previous_status = None, sh_current_status = ''PENDING'',
             sh_changed_at = now \<rparr>))"

definition order_number :: "chance \<Rightarrow> string sim_act" where
  "order_number ch =
     unique_or_fallback (draw (ch_unique ch ''ORD########''))
       (bindA (draw (ch_hex ch 8)) (\<lambda>h. ret (''ORD'' @ upper_ascii h)))"

definition generate_order ::
  "chance \<Rightarrow> nat \<Rightarrow> sql_value \<Rightarrow> int \<Rightarrow> int \<Rightarrow> (order \<times> order_item \<times> status_history) sim_act" where
  "generate_order ch customer_id product_id unit_price quantity =
     bindA (draw (ch_float ch 100000 600000)) (\<lambda>shipping_amount.
     bindA (order_number ch) (\<lambda>number.
     bindA (new_order ch customer_id number (unit_price * quantity) shipping_amount) (\<lambda>order.
     bindA (new_order_item ch (od_order_id order) product_id quantity unit_price) (\<lambda>item.
     bindA (new_status_history ch (od_order_id order)) (\<lambda>history.
       ret (order, item, history))))))"

definition order_row :: "order \<Rightarrow> row" where
  "order_row d =
     [(''order_id'', SId (od_order_id d)), (''order_number'', SText (od_order_number d)),
      (''customer_id'', SId (od_customer_id d)), (''status'', SText (od_status d)),
      (''total_amount'', SNum (od_total_amount d)), (''shipping_amount'', SNum (od_shipping_amount d)),
      (''created_at'', STime (od_created_at d)), (''updated_at'', STime (od_updated_at d))]"

definition insert_order :: "order \<Rightarrow> bool sim_act" where
  "insert_order d = insert_returning ''orders'' Any_conflict (order_row d)"

definition insert_order_item :: "chance \<Rightarrow> order_item \<Rightarrow> unit sim_act" where
  "insert_order_item ch i =
     writer_add ch ''marketplace.order_items''
       [''order_item_id'', ''order_id'', ''product_id'', ''quantity'', ''unit_price'', ''total_price'', ''created_at'']
       [SId (oi_order_item_id i), SId (oi_order_id i), oi_product_id i, SInt (oi_quantity i), SNum (oi_unit_price i),
        SNum (oi_total_price i), STime (oi_created_at i)]"

definition insert_order_status_history :: "chance \<Rightarrow> status_history \<Rightarrow> unit sim_act" where
  "insert_order_status_history ch h =
     writer_add ch ''marketplace.order_status_history''
       [''history_id'', ''order_id'', ''previous_status'', ''current_status'', ''changed_at'']
       [SId (sh_history_id h), SId (sh_order_id h), opt_text (sh_previous_status h), SText (sh_current_status h),
        STime (sh_changed_at h)]"

definition insert_order_details :: "chance \<Rightarrow> order_item \<Rightarrow> status_history \<Rightarrow> unit sim_act" where
  "insert_order_details ch i h = thenA (insert_order_item ch i) (insert_order_status_history ch h)"

section \<open>Stock movements\<close>

record movement =
  mv_movement_id :: nat
  mv_inventory_id :: sql_value
  mv_movement_type :: string
  mv_quantity :: int
  mv_reason :: string
  mv_created_at :: int
  mv_order_id :: nat

definition outbound_movement :: "chance \<Rightarrow> sql_value \<Rightarrow> nat \<Rightarrow> int \<Rightarrow> movement sim_act" where
  "outbound_movement ch inventory_id order_id quantity =
     bindA (draw (ch_uuid ch)) (\<lambda>i. bindA (draw (ch_now ch)) (\<lambda>now.
       ret \<lparr> mv_movement_id = i, mv_inventory_id = inventory_id, mv_movement_type = ''OUTBOUND'',
             mv_quantity = quantity, mv_reason = ''Order '' @ show_uuid order_id, mv_created_at = now,
             mv_order_id = order_id \<rparr>))"

definition insert_movement :: "chance \<Rightarrow> movement \<Rightarrow> unit sim_act" where
  "insert_movement ch m =
     writer_add ch ''marketplace.inventory_movements''
       [''movement_id'', ''inventory_id'', ''movement_type'', ''quantity'', ''reason'', ''created_at'', ''order_id'']
       [SId (mv_movement_id m), mv_inventory_id m, SText (mv_movement_type m), SInt (mv_quantity m),
        SText (mv_reason m), STime (mv_created_at m), SId (mv_order_id m)]"

section \<open>The order service\<close>

definition max_inventory_reserve_attempts :: nat where
  "max_inventory_reserve_attempts = 5"

text \<open>\<open>_reserve_inventory\<close>, with the attempts that are left.\<close>

fun reserve_inventory :: "chance \<Rightarrow> nat \<Rightarrow> (sql_value \<times> sql_value \<times> int \<times> int) sim_act" where
  "reserve_inventory ch 0 =
     raise (value_error (''Could not reserve inventory after '' @ show_nat max_inventory_reserve_attempts @ '' attempts.''))"
| "reserve_inventory ch (Suc n) =
     bindA (random_inventory ch) (\<lambda>inventory. case inventory of
       None \<Rightarrow> raise (value_error ''No inventory found.'')
     | Some (inventory_id, product_id, available_quantity) \<Rightarrow>
         bindA (product_price product_id) (\<lambda>price. case price of
           None \<Rightarrow> raise (value_error ''No product price found.'')
         | Some unit_price \<Rightarrow>
             bindA (draw (ch_randint ch 1 5)) (\<lambda>roll.
               let quantity = min roll available_quantity
               in bindA (decrease_available_quantity inventory_id quantity) (\<lambda>updated.
                    if updated then ret (inventory_id, product_id, unit_price, quantity)
                    else reserve_inventory ch n))))"

text \<open>\<open>create_order\<close> in three parts: what follows the insertion of the order, the insertion, the whole.\<close>

definition record_order :: "chance \<Rightarrow> sql_value \<Rightarrow> sql_value \<Rightarrow> order \<times> order_item \<times> status_history \<Rightarrow> order sim_act" where
  "record_order ch inventory_id product_id = (\<lambda>(order, item, history).
     thenA (insert_order_details ch item history)
    (bindA (outbound_movement ch inventory_id (od_order_id order) (oi_quantity item)) (\<lambda>movement.
     thenA (insert_movement ch movement)
    (thenA (on_pool (\<lambda>p. p \<lparr> rp_orders := rp_orders p @ [\<lparr> or_order_id = od_order_id order,
               or_customer_id = od_customer_id order, or_product_id = product_id,
               or_total_amount = od_total_amount order \<rparr>] \<rparr>))
           (ret order)))))"

definition place_order :: "chance \<Rightarrow> nat \<Rightarrow> sql_value \<times> sql_value \<times> int \<times> int \<Rightarrow> order sim_act" where
  "place_order ch customer_id = (\<lambda>(inventory_id, product_id, unit_price, quantity).
     bindA (insert_with_unique_retry ''order'' (generate_order ch customer_id product_id unit_price quantity)
              (\<lambda>generated. insert_order (fst generated)) default_insert_attempts)
       (record_order ch inventory_id product_id))"

definition create_order :: "chance \<Rightarrow> order sim_act" where
  "create_order ch =
     bindA (random_customer_id ch) (\<lambda>customer. case customer of
       None \<Rightarrow> raise (value_error ''No customer found.'')
     | Some customer_id \<Rightarrow> bindA (reserve_inventory ch max_inventory_reserve_attempts) (place_order ch customer_id))"

end
