(* ===== verification/Market_Services.thy ===== *)
theory Market_Services
  imports Market_Orders
begin

text \<open>
  The simulator's payments, shipments and reviews (\<open>simulator/domain/payments\<close>, \<open>logistics\<close>,
  \<open>reviews\<close>), all written through the batch writer.
\<close>

text \<open>\<open>random.choices\<close> of one element with weights.\<close>

definition weighted_choice :: "chance \<Rightarrow> 'a list \<Rightarrow> nat list \<Rightarrow> 'a sim_act" where
  "weighted_choice ch xs ws = bindA (draw (ch_weighted ch ws)) (\<lambda>i. ret (xs ! i))"

section \<open>Payments\<close>

record payment_method =
  pm_payment_method_id :: nat
  pm_code :: string
  pm_name :: string
  pm_is_active :: bool
  pm_created_at :: int
  pm_updated_at :: int

definition new_payment_method :: "chance \<Rightarrow> string \<Rightarrow> string \<Rightarrow> payment_method sim_act" where
  "new_payment_method ch code name =
     bindA (draw (ch_now ch)) (\<lambda>now. bindA (draw (ch_uuid ch)) (\<lambda>i.
       ret \<lparr> pm_payment_method_id = i, pm_code = code, pm_name = name, pm_is_active = True, pm_created_at = now,
             pm_updated_at = now \<rparr>))"

record payment =
  py_payment_id :: nat
  py_order_id :: nat
  py_payment_method_id :: nat
  py_transaction_code :: string
  py_amount :: int
  py_status :: string
  py_authorized_at :: "int option"
  py_paid_at :: "int option"
  py_created_at :: int
  py_updated_at :: int

definition payment_statuses :: "string list" where
  "payment_statuses = [''PAID'', ''AUTHORIZED'', ''PENDING'', ''FAILED'', ''CANCELLED'', ''REFUNDED'']"

definition payment_status_weights :: "nat list" where
  "payment_status_weights = [75, 10, 7, 5, 2, 1]"

definition transaction_code :: "chance \<Rightarrow> string sim_act" where
  "transaction_code ch =
     unique_or_fallback (draw (ch_unique ch ''TXN################''))
       (bindA (draw (ch_hex ch 16)) (\<lambda>h. ret (''TXN'' @ upper_ascii h)))"

definition generate_payment :: "chance \<Rightarrow> nat \<Rightarrow> nat \<Rightarrow> int \<Rightarrow> payment sim_act" where
  "generate_payment ch order_id payment_method_id amount =
     bindA (weighted_choice ch payment_statuses payment_status_weights) (\<lambda>status.
     bindA (draw (ch_now ch)) (\<lambda>now.
     bindA (draw (ch_uuid ch)) (\<lambda>i.
     bindA (transaction_code ch) (\<lambda>code.
       ret \<lparr> py_payment_id = i, py_order_id = order_id, py_payment_method_id = payment_method_id,
             py_transaction_code = code, py_amount = amount, py_status = status,
             py_authorized_at = (if status \<in> {''AUTHORIZED'', ''PAID'', ''REFUNDED''} then Some now else None),
             py_paid_at = (if status \<in> {''PAID'', ''REFUNDED''} then Some now else None),
             py_created_at = now, py_updated_at = now \<rparr>))))"

definition insert_payment :: "chance \<Rightarrow> payment \<Rightarrow> unit sim_act" where
  "insert_payment ch p =
     writer_add ch ''marketplace.payments''
       [''payment_id'', ''order_id'', ''payment_method_id'', ''transaction_code'', ''amount'', ''status'',
        ''authorized_at'', ''paid_at'', ''created_at'', ''updated_at'']
       [SId (py_payment_id p), SId (py_order_id p), SId (py_payment_method_id p), SText (py_transaction_code p),
        SNum (py_amount p), SText (py_status p), opt_time (py_authorized_at p), opt_time (py_paid_at p),
        STime (py_created_at p), STime (py_updated_at p)]"

definition create_payment :: "chance \<Rightarrow> payment sim_act" where
  "create_payment ch =
     bindA (random_order ch) (\<lambda>order. case order of
       None \<Rightarrow> raise (value_error ''No order found.'')
     | Some order \<Rightarrow>
         bindA (random_payment_method_id ch) (\<lambda>method. case method of
           None \<Rightarrow> raise (value_error ''No payment method found.'')
         | Some payment_method_id \<Rightarrow>
             bindA (generate_payment ch (or_order_id order) payment_method_id (or_total_amount order)) (\<lambda>payment.
             thenA (insert_payment ch payment) (ret payment))))"

section \<open>Shipments\<close>

record carrier =
  cr_carrier_id :: nat
  cr_code :: string
  cr_name :: string
  cr_phone_number :: "string option"
  cr_email :: "string option"
  cr_is_active :: bool
  cr_created_at :: int
  cr_updated_at :: int
  cr_deleted_at :: "int option"

definition new_carrier :: "chance \<Rightarrow> string \<Rightarrow> string \<Rightarrow> string option \<Rightarrow> string option \<Rightarrow> carrier sim_act" where
  "new_carrier ch code name phone_number email =
     bindA (draw (ch_now ch)) (\<lambda>now. bindA (draw (ch_uuid ch)) (\<lambda>i.
       ret \<lparr> cr_carrier_id = i, cr_code = code, cr_name = name, cr_phone_number = phone_number, cr_email = email,
             cr_is_active = True, cr_created_at = now, cr_updated_at = now, cr_deleted_at = None \<rparr>))"

record shipment =
  sp_shipment_id :: nat
  sp_order_id :: nat
  sp_carrier_id :: nat
  sp_tracking_code :: string
  sp_status :: string
  sp_shipped_at :: "int option"
  sp_estimated_delivery_at :: "int option"
  sp_delivered_at :: "int option"
  sp_created_at :: int
  sp_updated_at :: int

definition new_shipment ::
  "chance \<Rightarrow> nat \<Rightarrow> nat \<Rightarrow> string \<Rightarrow> string \<Rightarrow> int option \<Rightarrow> int option \<Rightarrow> int option \<Rightarrow> shipment sim_act" where
  "new_shipment ch order_id carrier_id tracking_code status shipped_at estimated_delivery_at delivered_at =
     bindA (draw (ch_now ch)) (\<lambda>now. bindA (draw (ch_uuid ch)) (\<lambda>i.
       ret \<lparr> sp_shipment_id = i, sp_order_id = order_id, sp_carrier_id = carrier_id,
             sp_tracking_code = tracking_code, sp_status = status, sp_shipped_at = shipped_at,
             sp_estimated_delivery_at = estimated_delivery_at, sp_delivered_at = delivered_at,
             sp_created_at = now, sp_updated_at = now \<rparr>))"

definition shipment_statuses :: "string list" where
  "shipment_statuses = [''DELIVERED'', ''IN_TRANSIT'', ''SHIPPED'', ''CREATED'', ''RETURNED'']"

definition shipment_status_weights :: "nat list" where
  "shipment_status_weights = [70, 20, 7, 2, 1]"

definition tracking_code :: "chance \<Rightarrow> string sim_act" where
  "tracking_code ch =
     unique_or_fallback (draw (ch_unique ch ''BR##################''))
       (bindA (draw (ch_hex ch 18)) (\<lambda>h. ret (''BR'' @ upper_ascii h)))"

definition day :: int where "day = 86400000000"

definition generate_shipment :: "chance \<Rightarrow> nat \<Rightarrow> nat \<Rightarrow> shipment sim_act" where
  "generate_shipment ch order_id carrier_id =
     bindA (draw (ch_now ch)) (\<lambda>now.
     bindA (weighted_choice ch shipment_statuses shipment_status_weights) (\<lambda>status.
     let shipped_at = if status \<noteq> ''CREATED'' then Some now else None
     in bindA (if status \<in> {''SHIPPED'', ''IN_TRANSIT'', ''DELIVERED''}
               then bindA (draw (ch_randint ch 2 10)) (\<lambda>n. ret (Some (now + n * day)))
               else ret None) (\<lambda>estimated_delivery.
     let delivered_at = if status = ''DELIVERED'' then estimated_delivery else None
     in bindA (tracking_code ch) (\<lambda>code.
          new_shipment ch order_id carrier_id code status shipped_at estimated_delivery delivered_at))))"

definition insert_shipment :: "chance \<Rightarrow> shipment \<Rightarrow> unit sim_act" where
  "insert_shipment ch p =
     writer_add ch ''marketplace.shipments''
       [''shipment_id'', ''order_id'', ''carrier_id'', ''tracking_code'', ''status'', ''shipped_at'',
        ''estimated_delivery_at'', ''delivered_at'', ''created_at'', ''updated_at'']
       [SId (sp_shipment_id p), SId (sp_order_id p), SId (sp_carrier_id p), SText (sp_tracking_code p),
        SText (sp_status p), opt_time (sp_shipped_at p), opt_time (sp_estimated_delivery_at p),
        opt_time (sp_delivered_at p), STime (sp_created_at p), STime (sp_updated_at p)]"

definition create_shipment :: "chance \<Rightarrow> shipment sim_act" where
  "create_shipment ch =
     bindA (random_order ch) (\<lambda>order. case order of
       None \<Rightarrow> raise (value_error ''No order found.'')
     | Some order \<Rightarrow>
         bindA (random_carrier_id ch) (\<lambda>carrier. case carrier of
           None \<Rightarrow> raise (value_error ''No carrier found.'')
         | Some carrier_id \<Rightarrow>
             bindA (generate_shipment ch (or_order_id order) carrier_id) (\<lambda>shipment.
             thenA (insert_shipment ch shipment) (ret shipment))))"

section \<open>Reviews\<close>

record review =
  rw_review_id :: nat
  rw_order_id :: nat
  rw_customer_id :: nat
  rw_product_id :: sql_value
  rw_rating :: int
  rw_title :: "string option"
  rw_comment :: "string option"
  rw_created_at :: int
  rw_updated_at :: int

definition new_review ::
  "chance \<Rightarrow> nat \<Rightarrow> nat \<Rightarrow> sql_value \<Rightarrow> int \<Rightarrow> string option \<Rightarrow> string option \<Rightarrow> review sim_act" where
  "new_review ch order_id customer_id product_id rating title comment =
     bindA (draw (ch_now ch)) (\<lambda>now. bindA (draw (ch_uuid ch)) (\<lambda>i.
       ret \<lparr> rw_review_id = i, rw_order_id = order_id, rw_customer_id = customer_id, rw_product_id = product_id,
             rw_rating = rating, rw_title = title, rw_comment = comment, rw_created_at = now, rw_updated_at = now \<rparr>))"

definition review_ratings :: "int list" where
  "review_ratings = [5, 4, 3, 2, 1]"

definition review_weights :: "nat list" where
  "review_weights = [65, 20, 8, 4, 3]"

text \<open>A rating outside the table is a \<open>KeyError\<close>.\<close>

definition review_comments :: "(int, string \<times> string) dict" where
  "review_comments =
     [(5, ''Excelente produto'', ''Entrega r'' @ [CHR 0xE1] @ ''pida e produto excelente.''),
      (4, ''Muito bom'', ''Produto muito bom e chegou no prazo.''),
      (3, ''Bom'', ''Atendeu '' @ [CHR 0xE0] @ ''s expectativas.''),
      (2, ''Poderia ser melhor'', ''Produto diferente do esperado.''),
      (1, ''Muito ruim'', ''Produto apresentou problemas.'')]"

definition generate_review :: "chance \<Rightarrow> nat \<Rightarrow> nat \<Rightarrow> sql_value \<Rightarrow> review sim_act" where
  "generate_review ch order_id customer_id product_id =
     bindA (weighted_choice ch review_ratings review_weights) (\<lambda>rating.
       case map_of review_comments rating of
         None \<Rightarrow> raise (Exn ''KeyError'' (show_int rating))
       | Some (title, comment) \<Rightarrow>
           new_review ch order_id customer_id product_id rating (Some title) (Some comment))"

definition insert_review :: "chance \<Rightarrow> review \<Rightarrow> unit sim_act" where
  "insert_review ch r =
     writer_add ch ''marketplace.reviews''
       [''review_id'', ''order_id'', ''customer_id'', ''product_id'', ''rating'', ''title'', ''comment'',
        ''created_at'', ''updated_at'']
       [SId (rw_review_id r), SId (rw_order_id r), SId (rw_customer_id r), rw_product_id r, SInt (rw_rating r),
        opt_text (rw_title r), opt_text (rw_comment r), STime (rw_created_at r), STime (rw_updated_at r)]"

definition create_review :: "chance \<Rightarrow> review sim_act" where
  "create_review ch =
     bindA (random_order ch) (\<lambda>order. case order of
       None \<Rightarrow> raise (value_error ''No order found.'')
     | Some order \<Rightarrow>
         bindA (generate_review ch (or_order_id order) (or_customer_id order) (or_product_id order)) (\<lambda>review.
         thenA (insert_review ch review) (ret review)))"

end
