(* ===== verification/Market_Status.thy ===== *)
theory Market_Status
  imports Market_Services
begin

text \<open>
  The progression of existing orders, once per batch (\<open>simulator/domain/orders/order_status_service.py\<close>).
  Ages are in microseconds, probabilities in millionths.
\<close>

definition forward_rules :: "(string, string \<times> int \<times> int) dict" where
  "forward_rules =
     [(''PENDING'', ''PAID'', 60000000, 150000), (''PAID'', ''PROCESSING'', 120000000, 100000),
      (''PROCESSING'', ''SHIPPED'', 180000000, 80000), (''SHIPPED'', ''DELIVERED'', 300000000, 50000)]"

definition cancel_probabilities :: "(string, int) dict" where
  "cancel_probabilities = [(''PENDING'', 20000), (''PAID'', 10000), (''PROCESSING'', 5000)]"

definition cancel_probability :: "string \<Rightarrow> int" where
  "cancel_probability status = (case map_of cancel_probabilities status of None \<Rightarrow> 0 | Some p \<Rightarrow> p)"

definition candidates_per_status_per_tick :: nat where
  "candidates_per_status_per_tick = 15"

definition eligible :: "int \<Rightarrow> string \<Rightarrow> int \<Rightarrow> row \<Rightarrow> bool" where
  "eligible now status min_age r \<longleftrightarrow>
     col r ''status'' = SText status \<and> int_of (col r ''updated_at'') \<le> now - min_age"

definition find_eligible :: "string \<Rightarrow> int \<Rightarrow> nat \<Rightarrow> (sql_value list) sim_act" where
  "find_eligible status min_age limit =
     bindA (get sm_now) (\<lambda>now.
     bindA (exec_select ''orders'') (\<lambda>rs.
       ret (map (\<lambda>r. col r ''order_id'')
         (take limit (sort_key (\<lambda>r. int_of (col r ''updated_at'')) (filter (eligible now status min_age) rs))))))"

definition set_status :: "int \<Rightarrow> string \<Rightarrow> row \<Rightarrow> row" where
  "set_status now new_status r = set_col ''updated_at'' (STime now) (set_col ''status'' (SText new_status) r)"

definition in_status :: "sql_value \<Rightarrow> string \<Rightarrow> row \<Rightarrow> bool" where
  "in_status order_id status r \<longleftrightarrow>
     col r ''order_id'' = order_id \<and> order_id \<noteq> SNull \<and> col r ''status'' = SText status"

definition history_row :: "nat \<Rightarrow> sql_value \<Rightarrow> string \<Rightarrow> string \<Rightarrow> int \<Rightarrow> row" where
  "history_row i order_id previous_status new_status now =
     [(''history_id'', SId i), (''order_id'', order_id), (''previous_status'', SText previous_status),
      (''current_status'', SText new_status), (''changed_at'', STime now)]"

definition transition :: "chance \<Rightarrow> sql_value \<Rightarrow> string \<Rightarrow> string \<Rightarrow> bool sim_act" where
  "transition ch order_id previous_status new_status =
     bindA (get sm_now) (\<lambda>now.
     bindA (exec_update ''orders'' (in_status order_id previous_status) (set_status now new_status)) (\<lambda>n.
       if n = 0 then ret False
       else
         bindA (draw (ch_uuid ch)) (\<lambda>i.
         thenA (exec_insert ''order_status_history'' No_clause [history_row i order_id previous_status new_status now])
               (ret True))))"

record counts =
  ct_advanced :: nat
  ct_cancelled :: nat

definition progress_order :: "chance \<Rightarrow> string \<Rightarrow> string \<Rightarrow> int \<Rightarrow> counts \<Rightarrow> sql_value \<Rightarrow> counts sim_act" where
  "progress_order ch status next_status probability c order_id =
     bindA (draw (ch_random ch)) (\<lambda>roll.
       if roll < cancel_probability status then
         bindA (transition ch order_id status ''CANCELLED'') (\<lambda>ok.
           ret (if ok then c \<lparr> ct_cancelled := ct_cancelled c + 1 \<rparr> else c))
       else if roll < cancel_probability status + probability then
         bindA (transition ch order_id status next_status) (\<lambda>ok.
           ret (if ok then c \<lparr> ct_advanced := ct_advanced c + 1 \<rparr> else c))
       else ret c)"

fun foldA :: "('b \<Rightarrow> 'a \<Rightarrow> ('s, 'b) act) \<Rightarrow> 'b \<Rightarrow> 'a list \<Rightarrow> ('s, 'b) act" where
  "foldA f b [] = ret b"
| "foldA f b (x # xs) = bindA (f b x) (\<lambda>b'. foldA f b' xs)"

definition progress_status :: "chance \<Rightarrow> counts \<Rightarrow> string \<times> string \<times> int \<times> int \<Rightarrow> counts sim_act" where
  "progress_status ch c rule =
     (case rule of (status, next_status, min_age, probability) \<Rightarrow>
        bindA (find_eligible status min_age candidates_per_status_per_tick)
          (foldA (progress_order ch status next_status probability) c))"

definition progress_eligible_orders :: "chance \<Rightarrow> counts sim_act" where
  "progress_eligible_orders ch = foldA (progress_status ch) \<lparr> ct_advanced = 0, ct_cancelled = 0 \<rparr> forward_rules"

end
