(* ===== verification/Market_Scheduler.thy ===== *)
theory Market_Scheduler
  imports Market_Status
begin

text \<open>
  The seeding of the reference data (\<open>simulator/core/seed.py\<close>), the settings and the scheduler
  (\<open>simulator/scheduler.py\<close>): a cycle, a batch of cycles in one connection, and the loop of batches.
\<close>

section \<open>Reference data\<close>

definition payment_methods :: "(string \<times> string) list" where
  "payment_methods = [(''PIX'', ''Pix''), (''CREDIT_CARD'', ''Credit Card''), (''DEBIT_CARD'', ''Debit Card''),
     (''BOLETO'', ''Boleto''), (''WALLET'', ''Digital Wallet'')]"

definition carriers :: "(string \<times> string) list" where
  "carriers = [(''CORREIOS'', ''Correios''), (''LOGGI'', ''Loggi''), (''JADLOG'', ''Jadlog''), (''DHL'', ''DHL''),
     (''AZUL'', ''Azul Cargo'')]"

definition categories :: "string list" where
  "categories = [''Electronics'', ''Home & Kitchen'', ''Computers'', ''Fashion'', ''Sports'', ''Health'', ''Beauty'',
     ''Automotive'', ''Books'', ''Toys'']"

definition nat_ids :: "string \<Rightarrow> row list \<Rightarrow> nat list" where
  "nat_ids c rs = concat (map (\<lambda>r. case col r c of SId i \<Rightarrow> [i] | _ \<Rightarrow> []) rs)"

definition payment_method_row :: "payment_method \<Rightarrow> row" where
  "payment_method_row m =
     [(''payment_method_id'', SId (pm_payment_method_id m)), (''code'', SText (pm_code m)), (''name'', SText (pm_name m)),
      (''is_active'', SBool (pm_is_active m)), (''created_at'', STime (pm_created_at m)),
      (''updated_at'', STime (pm_updated_at m))]"

definition seed_payment_method :: "chance \<Rightarrow> unit \<Rightarrow> string \<times> string \<Rightarrow> unit sim_act" where
  "seed_payment_method ch u m =
     bindA (new_payment_method ch (fst m) (snd m)) (\<lambda>method.
     thenA (exec_insert ''payment_methods'' (Conflict_on [''code'']) [payment_method_row method]) (ret ()))"

definition seed_payment_methods :: "chance \<Rightarrow> (nat list) sim_act" where
  "seed_payment_methods ch =
     thenA (foldA (seed_payment_method ch) () payment_methods)
    (bindA (exec_select ''payment_methods'') (\<lambda>rs.
     thenA (commit_tx ch) (ret (nat_ids ''payment_method_id'' rs))))"

definition carrier_row :: "carrier \<Rightarrow> row" where
  "carrier_row c =
     [(''carrier_id'', SId (cr_carrier_id c)), (''code'', SText (cr_code c)), (''name'', SText (cr_name c)),
      (''phone_number'', opt_text (cr_phone_number c)), (''email'', opt_text (cr_email c)),
      (''is_active'', SBool (cr_is_active c)), (''created_at'', STime (cr_created_at c)),
      (''updated_at'', STime (cr_updated_at c)), (''deleted_at'', opt_time (cr_deleted_at c))]"

definition seed_carrier :: "chance \<Rightarrow> unit \<Rightarrow> string \<times> string \<Rightarrow> unit sim_act" where
  "seed_carrier ch u c =
     bindA (new_carrier ch (fst c) (snd c) None None) (\<lambda>carrier.
     thenA (exec_insert ''carriers'' (Conflict_on [''code'']) [carrier_row carrier]) (ret ()))"

definition seed_carriers :: "chance \<Rightarrow> (nat list) sim_act" where
  "seed_carriers ch =
     thenA (foldA (seed_carrier ch) () carriers)
    (bindA (exec_select ''carriers'') (\<lambda>rs.
     thenA (commit_tx ch)
           (ret (nat_ids ''carrier_id'' (filter (\<lambda>r. col r ''is_active'' = SBool True) rs)))))"

definition category_row :: "category \<Rightarrow> row" where
  "category_row c =
     [(''category_id'', SId (ca_category_id c)), (''parent_category_id'', opt_id (ca_parent_category_id c)),
      (''name'', SText (ca_name c)), (''description'', opt_text (ca_description c)),
      (''is_active'', SBool (ca_is_active c)), (''created_at'', STime (ca_created_at c)),
      (''updated_at'', STime (ca_updated_at c))]"

definition seed_category :: "chance \<Rightarrow> nat list \<Rightarrow> string \<Rightarrow> (nat list) sim_act" where
  "seed_category ch ids name =
     bindA (exec_select ''categories'') (\<lambda>rs. case find (\<lambda>r. col r ''name'' = SText name) rs of
       Some r \<Rightarrow> ret (ids @ nat_ids ''category_id'' [r])
     | None \<Rightarrow>
         bindA (new_category ch name (Some (name @ '' products''))) (\<lambda>category.
         thenA (exec_insert ''categories'' No_clause [category_row category])
               (ret (ids @ [ca_category_id category]))))"

definition seed_categories :: "chance \<Rightarrow> (nat list) sim_act" where
  "seed_categories ch =
     bindA (foldA (seed_category ch) [] categories) (\<lambda>ids. thenA (commit_tx ch) (ret ids))"

section \<open>The scheduler\<close>

record settings =
  st_simulator_batch_size :: int
  st_simulator_insert_batch_size :: int
  st_simulator_restock_probability :: int
  st_enable_payments :: bool
  st_enable_shipments :: bool
  st_enable_reviews :: bool

definition default_settings :: settings where
  "default_settings = \<lparr> st_simulator_batch_size = 1000, st_simulator_insert_batch_size = 500,
     st_simulator_restock_probability = 80000, st_enable_payments = True, st_enable_shipments = True,
     st_enable_reviews = True \<rparr>"

definition run_cycle :: "chance \<Rightarrow> settings \<Rightarrow> unit sim_act" where
  "run_cycle ch st =
     thenA (create_customer ch)
    (thenA (create_seller ch)
    (thenA (create_product ch)
    (thenA (create_warehouse ch)
    (thenA (create_inventory ch)
    (thenA (create_order ch)
    (thenA (if st_enable_payments st then thenA (create_payment ch) (ret ()) else ret ())
    (thenA (if st_enable_shipments st then thenA (create_shipment ch) (ret ()) else ret ())
    (thenA (if st_enable_reviews st then thenA (create_review ch) (ret ()) else ret ())
           (maybe_restock ch (st_simulator_restock_probability st))))))))))"

fun repeatA :: "nat \<Rightarrow> ('s, unit) act \<Rightarrow> ('s, unit) act" where
  "repeatA 0 m = ret ()"
| "repeatA (Suc n) m = thenA m (repeatA n m)"

text \<open>
  The pool and the writer of a batch are its local variables; both constructors only fill in their
  fields, so the model creates the two together when the batch starts.
\<close>

definition start_batch :: "settings \<Rightarrow> unit sim_act" where
  "start_batch st =
     modify (\<lambda>s. s \<lparr> sm_pool := empty_pool, sm_writer := new_writer (st_simulator_insert_batch_size st) \<rparr>)"

definition seed_pool :: "chance \<Rightarrow> unit sim_act" where
  "seed_pool ch =
     bindA (seed_payment_methods ch) (\<lambda>methods. thenA (on_pool (\<lambda>p. p \<lparr> rp_payment_method_ids := methods \<rparr>))
    (bindA (seed_carriers ch) (\<lambda>cs. thenA (on_pool (\<lambda>p. p \<lparr> rp_carrier_ids := cs \<rparr>))
    (bindA (seed_categories ch) (\<lambda>ids. on_pool (\<lambda>p. p \<lparr> rp_category_ids := ids \<rparr>))))))"

definition batch_body :: "chance \<Rightarrow> settings \<Rightarrow> counts sim_act" where
  "batch_body ch st =
     thenA (seed_pool ch)
    (thenA (repeatA (nat (st_simulator_batch_size st)) (run_cycle ch st))
    (thenA (writer_flush ch)
           (progress_eligible_orders ch)))"

definition run_batch :: "chance \<Rightarrow> settings \<Rightarrow> counts sim_act" where
  "run_batch ch st = with_connection ch (thenA (start_batch st) (batch_body ch st))"

text \<open>The first \<open>n\<close> batches of \<open>run_forever\<close>.\<close>

definition run_batches :: "chance \<Rightarrow> settings \<Rightarrow> nat \<Rightarrow> unit sim_act" where
  "run_batches ch st n = repeatA n (thenA (run_batch ch st) (ret ()))"

end
