(* ===== verification/Market_Safety.thy ===== *)
theory Market_Safety
  imports Market_Scheduler
begin

text \<open>
  The simulator never breaks the schema: a logic for its actions in which a reference to a row is
  carried from the statement that made it true to the statements that need it. \<open>safe X m Q Y\<close> says that
  where the rows \<open>X\<close> exist, \<open>m\<close> ends without a constraint error and keeps the invariant, and when it
  returns \<open>a\<close> then \<open>Q a\<close> holds and the rows \<open>Y a\<close> exist.
\<close>

section \<open>References and rows\<close>

type_synonym refs = "(string \<times> sql_value) set"

definition ids_in :: "refs \<Rightarrow> db \<Rightarrow> bool" where
  "ids_in X d \<longleftrightarrow> (\<forall>(t, v) \<in> X. has_id d t v)"

lemma ids_in_grows: "ids_in X d \<Longrightarrow> grows d d' \<Longrightarrow> ids_in X d'"
  by (auto simp: ids_in_def grows_def)

lemma ids_in_empty [simp]: "ids_in {} d"
  by (simp add: ids_in_def)

lemma ids_in_Un [simp]: "ids_in (X \<union> Y) d \<longleftrightarrow> ids_in X d \<and> ids_in Y d"
  by (auto simp: ids_in_def)

lemma ids_in_insert [simp]: "ids_in (insert (t, v) X) d \<longleftrightarrow> has_id d t v \<and> ids_in X d"
  by (auto simp: ids_in_def)

lemma ids_in_mono: "ids_in X d \<Longrightarrow> Y \<subseteq> X \<Longrightarrow> ids_in Y d"
  by (auto simp: ids_in_def)

text \<open>A row whose references are among those known to exist.\<close>

definition ready :: "refs \<Rightarrow> string \<Rightarrow> row \<Rightarrow> bool" where
  "ready X t r \<longleftrightarrow> row_valid t r \<and>
     list_all (\<lambda>(t', c, target). t' = t \<longrightarrow> col r c = SNull \<or> (target, col r c) \<in> X) foreign_keys"

lemma ready_safe: "ready X t r \<Longrightarrow> ids_in X d \<Longrightarrow> row_safe d t r"
  by (fastforce simp: ready_def row_safe_def refs_ok_def ids_in_def list_all_iff)

text \<open>The rows a row of the database makes exist: itself and those it references.\<close>

definition row_refs :: "string \<Rightarrow> row \<Rightarrow> refs" where
  "row_refs t r = insert (t, col r (primary_key t))
     {(target, col r c) | c target. (t, c, target) \<in> set foreign_keys \<and> col r c \<noteq> SNull}"

lemma row_refs_exist: "db_ok d \<Longrightarrow> r \<in> set (d t) \<Longrightarrow> ids_in (row_refs t r) d"
  by (fastforce simp: db_ok_def row_refs_def ids_in_def refs_ok_def has_id_def list_ex_iff list_all_iff)

section \<open>The invariant\<close>

definition pool_refs :: "pool \<Rightarrow> refs" where
  "pool_refs p =
     (\<lambda>i. (''sellers'', SId i)) ` set (rp_seller_ids p) \<union> (\<lambda>i. (''categories'', SId i)) ` set (rp_category_ids p) \<union>
     (\<lambda>i. (''customers'', SId i)) ` set (rp_customer_ids p) \<union> (\<lambda>i. (''products'', SId i)) ` set (rp_product_ids p) \<union>
     (\<lambda>i. (''payment_methods'', SId i)) ` set (rp_payment_method_ids p) \<union>
     (\<lambda>i. (''carriers'', SId i)) ` set (rp_carrier_ids p) \<union>
     (\<Union>r \<in> set (rp_orders p). {(''orders'', SId (or_order_id r)), (''customers'', SId (or_customer_id r)),
        (''products'', or_product_id r)})"

definition refs_sound :: "pool \<Rightarrow> bool" where
  "refs_sound p \<longleftrightarrow> (\<forall>r \<in> set (rp_orders p). 0 \<le> or_total_amount r \<and> or_product_id r \<noteq> SNull)"

text \<open>The columns each buffered table is written with.\<close>

definition writer_columns :: "(string, string list) dict" where
  "writer_columns =
     [(''marketplace.customer_addresses'', address_columns),
      (''marketplace.order_items'', [''order_item_id'', ''order_id'', ''product_id'', ''quantity'', ''unit_price'',
         ''total_price'', ''created_at'']),
      (''marketplace.order_status_history'', [''history_id'', ''order_id'', ''previous_status'', ''current_status'',
         ''changed_at'']),
      (''marketplace.inventory_movements'', [''movement_id'', ''inventory_id'', ''movement_type'', ''quantity'',
         ''reason'', ''created_at'', ''order_id'']),
      (''marketplace.payments'', [''payment_id'', ''order_id'', ''payment_method_id'', ''transaction_code'', ''amount'',
         ''status'', ''authorized_at'', ''paid_at'', ''created_at'', ''updated_at'']),
      (''marketplace.shipments'', [''shipment_id'', ''order_id'', ''carrier_id'', ''tracking_code'', ''status'',
         ''shipped_at'', ''estimated_delivery_at'', ''delivered_at'', ''created_at'', ''updated_at'']),
      (''marketplace.reviews'', [''review_id'', ''order_id'', ''customer_id'', ''product_id'', ''rating'', ''title'',
         ''comment'', ''created_at'', ''updated_at''])]"

definition writer_ok :: "db \<Rightarrow> writer \<Rightarrow> bool" where
  "writer_ok d w \<longleftrightarrow>
     (\<forall>t. map_of (bw_rows w) t \<noteq> None \<longrightarrow> map_of writer_columns t = Some (lookup_columns w t)) \<and>
     (\<forall>t. \<forall>vs \<in> set (lookup_rows w t). row_safe d (bare t) (zip (lookup_columns w t) vs))"

definition sim_inv :: "sim \<Rightarrow> bool" where
  "sim_inv s \<longleftrightarrow> db_ok (sm_db s) \<and> db_ok (sm_committed s) \<and> ids_in (pool_refs (sm_pool s)) (sm_db s) \<and>
     refs_sound (sm_pool s) \<and> writer_ok (sm_db s) (sm_writer s)"

lemma writer_ok_grows: "writer_ok d w \<Longrightarrow> grows d d' \<Longrightarrow> writer_ok d' w"
  unfolding writer_ok_def by (blast intro: row_safe_grows)

lemma new_writer_ok: "writer_ok d (new_writer n)"
  by (simp add: writer_ok_def new_writer_def lookup_rows_def)

lemma sim_inv_db:
  "sim_inv s \<Longrightarrow> db_ok d \<Longrightarrow> grows (sm_db s) d \<Longrightarrow> sim_inv (s \<lparr> sm_db := d \<rparr>)"
  using ids_in_grows [of "pool_refs (sm_pool s)" "sm_db s" d] writer_ok_grows [of "sm_db s" "sm_writer s" d]
  by (simp add: sim_inv_def)

section \<open>The logic\<close>

definition failed_safely :: "exn \<Rightarrow> sim \<Rightarrow> bool" where
  "failed_safely e t \<longleftrightarrow> \<not> constraint_error e \<and> db_ok (sm_committed t)"

definition safe :: "refs \<Rightarrow> 'a sim_act \<Rightarrow> ('a \<Rightarrow> bool) \<Rightarrow> ('a \<Rightarrow> refs) \<Rightarrow> bool" where
  "safe X m Q Y \<longleftrightarrow>
     (\<forall>s. sim_inv s \<and> ids_in X (sm_db s) \<longrightarrow>
        wp m (\<lambda>a t. sim_inv t \<and> grows (sm_db s) (sm_db t) \<and> Q a \<and> ids_in (Y a) (sm_db t)) failed_safely s)"

lemma safe_intro:
  "(\<And>s. sim_inv s \<Longrightarrow> ids_in X (sm_db s) \<Longrightarrow>
      wp m (\<lambda>a t. sim_inv t \<and> grows (sm_db s) (sm_db t) \<and> Q a \<and> ids_in (Y a) (sm_db t)) failed_safely s) \<Longrightarrow> safe X m Q Y"
  by (simp add: safe_def)

lemma safe_weaken:
  "safe X m Q Y \<Longrightarrow> X \<subseteq> X' \<Longrightarrow> (\<And>a. Q a \<Longrightarrow> Q' a) \<Longrightarrow> (\<And>a. Q a \<Longrightarrow> Y' a \<subseteq> Y a \<union> X') \<Longrightarrow> safe X' m Q' Y'"
  unfolding safe_def
proof (intro allI impI, elim conjE)
  fix s
  assume m: "\<forall>s. sim_inv s \<and> ids_in X (sm_db s) \<longrightarrow>
      wp m (\<lambda>a t. sim_inv t \<and> grows (sm_db s) (sm_db t) \<and> Q a \<and> ids_in (Y a) (sm_db t)) failed_safely s"
    and sub: "X \<subseteq> X'" and Q: "\<And>a. Q a \<Longrightarrow> Q' a" and Y: "\<And>a. Q a \<Longrightarrow> Y' a \<subseteq> Y a \<union> X'"
    and s: "sim_inv s" "ids_in X' (sm_db s)"
  show "wp m (\<lambda>a t. sim_inv t \<and> grows (sm_db s) (sm_db t) \<and> Q' a \<and> ids_in (Y' a) (sm_db t)) failed_safely s"
  proof (rule wp_mono [OF m [rule_format]])
    show "sim_inv s \<and> ids_in X (sm_db s)" using s sub by (auto intro: ids_in_mono)
    fix a t
    assume t: "sim_inv t \<and> grows (sm_db s) (sm_db t) \<and> Q a \<and> ids_in (Y a) (sm_db t)"
    then have "ids_in (Y a \<union> X') (sm_db t)" using s(2) by (simp add: ids_in_grows)
    then show "sim_inv t \<and> grows (sm_db s) (sm_db t) \<and> Q' a \<and> ids_in (Y' a) (sm_db t)"
      using t Q Y ids_in_mono by blast
  qed
qed

lemma safe_bind:
  assumes m: "safe X m Q Y" and f: "\<And>a. Q a \<Longrightarrow> safe (X \<union> Y a) (f a) Q' Y'"
  shows "safe X (bindA m f) Q' Y'"
proof (rule safe_intro)
  fix s
  assume inv: "sim_inv s" "ids_in X (sm_db s)"
  show "wp (bindA m f) (\<lambda>a t. sim_inv t \<and> grows (sm_db s) (sm_db t) \<and> Q' a \<and> ids_in (Y' a) (sm_db t)) failed_safely s"
    unfolding wp_bindA
  proof (rule wp_mono [OF m [unfolded safe_def, rule_format, OF conjI, OF inv]])
    fix a t
    assume t: "sim_inv t \<and> grows (sm_db s) (sm_db t) \<and> Q a \<and> ids_in (Y a) (sm_db t)"
    then have "ids_in (X \<union> Y a) (sm_db t)" using inv by (simp add: ids_in_grows)
    then have "wp (f a) (\<lambda>b u. sim_inv u \<and> grows (sm_db t) (sm_db u) \<and> Q' b \<and> ids_in (Y' b) (sm_db u)) failed_safely t"
      using f [of a] t by (simp add: safe_def)
    then show "wp (f a) (\<lambda>b u. sim_inv u \<and> grows (sm_db s) (sm_db u) \<and> Q' b \<and> ids_in (Y' b) (sm_db u)) failed_safely t"
      by (rule wp_mono) (use t in \<open>auto intro: grows_trans\<close>)
  qed
qed

lemma safe_ret: "Q a \<Longrightarrow> Y a \<subseteq> X \<Longrightarrow> safe X (ret a) Q Y"
  by (auto simp: safe_def intro: ids_in_mono)

lemma safe_raise: "\<not> constraint_error e \<Longrightarrow> safe X (raise e) Q Y"
  by (simp add: safe_def failed_safely_def sim_inv_def)

lemma safe_draw: "(\<And>k. Q (f k)) \<Longrightarrow> safe X (draw f) Q (\<lambda>_. {})"
  by (simp add: safe_def wp_def draw_def sim_inv_def)

lemma safe_draw_any: "safe X (draw f) (\<lambda>a. \<exists>k. a = f k) (\<lambda>_. {})"
  by (rule safe_draw) blast

lemma safe_get: "(\<And>s. sim_inv s \<Longrightarrow> Q (f s) \<and> ids_in (Y (f s)) (sm_db s)) \<Longrightarrow> safe X (get f) Q Y"
  by (simp add: safe_def)

lemma safe_select:
  "safe X (exec_select t) (\<lambda>rs. \<forall>r \<in> set rs. row_valid t r) (\<lambda>rs. \<Union>r \<in> set rs. row_refs t r)"
  unfolding exec_select_def
proof (rule safe_get)
  fix s
  assume "sim_inv s"
  then have ok: "db_ok (sm_db s)" by (simp add: sim_inv_def)
  have "ids_in (\<Union>r \<in> set (sm_db s t). row_refs t r) (sm_db s)"
    using row_refs_exist [OF ok] by (fastforce simp: ids_in_def)
  then show "(\<forall>r \<in> set (sm_db s t). row_valid t r) \<and> ids_in (\<Union>r \<in> set (sm_db s t). row_refs t r) (sm_db s)"
    using ok by (simp add: db_ok_def)
qed

lemma safe_commit: "safe X (commit_tx ch) (\<lambda>_. True) (\<lambda>_. {})"
  by (simp add: safe_def commit_tx_def wp_def bindA_def draw_def modify_def sim_inv_def)

lemma safe_if: "(b \<Longrightarrow> safe X m Q Y) \<Longrightarrow> (\<not> b \<Longrightarrow> safe X n Q Y) \<Longrightarrow> safe X (if b then m else n) Q Y"
  by simp

lemma safe_option:
  "(v = None \<Longrightarrow> safe X n Q Y) \<Longrightarrow> (\<And>x. v = Some x \<Longrightarrow> safe X (f x) Q Y) \<Longrightarrow>
   safe X (case v of None \<Rightarrow> n | Some x \<Rightarrow> f x) Q Y"
  by (cases v) simp_all

lemma safe_on_pool:
  "(\<And>p. pool_refs (f p) \<subseteq> pool_refs p \<union> X) \<Longrightarrow> (\<And>p. refs_sound p \<Longrightarrow> refs_sound (f p)) \<Longrightarrow>
   safe X (on_pool f) (\<lambda>_. True) (\<lambda>_. {})"
  by (simp add: safe_def on_pool_def sim_inv_def) (meson ids_in_Un ids_in_mono)

lemma insert_wp:
  assumes inv: "sim_inv s" and rs: "list_all (row_safe (sm_db s) t) rs"
  shows "wp (exec_insert t oc rs) (\<lambda>ins u. \<exists>d. u = s \<lparr> sm_db := d \<rparr> \<and> sim_inv u \<and> grows (sm_db s) d \<and>
      set ins \<subseteq> set rs \<and> (length rs = 1 \<longrightarrow> ins = rs \<or> ins = []) \<and>
      ids_in ((\<lambda>r. (t, col r (primary_key t))) ` set ins) d) failed_safely s"
proof -
  have ok: "db_ok (sm_db s)" using inv by (simp add: sim_inv_def)
  note stmt = insert_statement_safe [OF rs ok, of oc]
  show ?thesis
  proof (cases "insert_statement (sm_db s) t oc rs")
    case (Inl e)
    then show ?thesis using stmt inv by (simp add: wp_def exec_insert_def failed_safely_def sim_inv_def)
  next
    case (Inr p)
    obtain d ins where p: "p = (d, ins)" by (cases p)
    have d: "d = (sm_db s)(t := sm_db s t @ ins)" "db_ok d" "grows (sm_db s) d"
      "set ins \<subseteq> set rs" "length rs = 1 \<longrightarrow> ins = rs \<or> ins = []"
      using stmt Inr p by auto
    have "ids_in ((\<lambda>r. (t, col r (primary_key t))) ` set ins) d"
      by (auto simp: ids_in_def has_id_def d(1) list_ex_iff)
    then show ?thesis
      using Inr p d(2-5) sim_inv_db [OF inv d(2,3)] by (auto simp: wp_def exec_insert_def)
  qed
qed

lemma safe_insert:
  assumes "list_all (ready X t) rs"
  shows "safe X (exec_insert t oc rs) (\<lambda>ins. set ins \<subseteq> set rs \<and> (length rs = 1 \<longrightarrow> ins = rs \<or> ins = []))
    (\<lambda>ins. (\<lambda>r. (t, col r (primary_key t))) ` set ins)"
proof (rule safe_intro)
  fix s
  assume "sim_inv s" and "ids_in X (sm_db s)"
  then show "wp (exec_insert t oc rs) (\<lambda>ins u. sim_inv u \<and> grows (sm_db s) (sm_db u) \<and>
      (set ins \<subseteq> set rs \<and> (length rs = 1 \<longrightarrow> ins = rs \<or> ins = [])) \<and>
      ids_in ((\<lambda>r. (t, col r (primary_key t))) ` set ins) (sm_db u)) failed_safely s"
    using assms by (intro wp_mono [OF insert_wp]) (auto simp: list_all_iff intro: ready_safe)
qed

lemma safe_update:
  assumes keys: "keeps_keys t f" and valid: "\<And>r. row_valid t r \<Longrightarrow> p r \<Longrightarrow> row_valid t (f r)"
  shows "safe X (exec_update t p f) (\<lambda>_. True) (\<lambda>_. {})"
proof (rule safe_intro)
  fix s
  assume inv: "sim_inv s"
  then have ok: "db_ok (sm_db s)" by (simp add: sim_inv_def)
  have "row_valid t (f r)" if "r \<in> set (sm_db s t)" "p r" for r
    using ok that by (auto simp: db_ok_def intro: valid)
  from update_statement_safe [OF ok keys this, where p = p] obtain d where
    d: "update_statement (sm_db s) t p f = Inr (d, length (filter p (sm_db s t)))" "db_ok d" "grows (sm_db s) d"
    by blast
  then show "wp (exec_update t p f) (\<lambda>a u. sim_inv u \<and> grows (sm_db s) (sm_db u) \<and> True \<and> ids_in {} (sm_db u)) failed_safely s"
    using sim_inv_db [OF inv d(2,3)] by (simp add: wp_def exec_update_def)
qed

lemma safe_foldA:
  assumes "\<And>b x. x \<in> set xs \<Longrightarrow> Q b \<Longrightarrow> safe (X \<union> Y b) (f b x) Q Y" and "Q b" and "Y b \<subseteq> X"
  shows "safe X (foldA f b xs) Q Y"
proof -
  have "safe (X \<union> Y b) (foldA f b xs) Q Y" using assms(1,2)
  proof (induction xs arbitrary: b)
    case Nil
    then show ?case by (simp add: safe_ret)
  next
    case (Cons x xs)
    show ?case
      unfolding foldA.simps
    proof (rule safe_bind)
      show "safe (X \<union> Y b) (f b x) Q Y" using Cons.prems by simp
      show "safe (X \<union> Y b \<union> Y b') (foldA f b' xs) Q Y" if "Q b'" for b'
        by (rule safe_weaken [OF Cons.IH [OF _ that]]) (use Cons.prems(1) in auto)
    qed
  qed
  then show ?thesis using assms(3) by (simp add: Un_absorb2)
qed

lemma safe_repeatA: "safe X m (\<lambda>_. True) (\<lambda>_. {}) \<Longrightarrow> safe X (repeatA n m) (\<lambda>_. True) (\<lambda>_. {})"
  by (induction n) (auto intro: safe_ret safe_bind)

end
