(* ===== verification/Market_Rules.thy ===== *)
theory Market_Rules
  imports Market_Safety
begin

text \<open>
  The rules of \<open>safe\<close> for the simulator's operations, in the order of the code: the batch writer, unique
  inserts, customers and catalog, inventories, orders, and what is written for an order.
\<close>

section \<open>Rows of each table\<close>

lemma col_simps [simp]:
  "col [] c = SNull"
  "col ((k, v) # r) c = (if k = c then v else col r c)"
  by (simp_all add: col_def)

lemma col_update [simp]: "col (AList.update k v r) c = (if c = k then v else col r c)"
  by (simp add: col_def dict_simps)

lemma opt_null [simp]:
  "opt_text t = SNull \<longleftrightarrow> t = None" "opt_time i = SNull \<longleftrightarrow> i = None" "opt_id n = SNull \<longleftrightarrow> n = None"
  by (simp_all add: opt_text_def opt_time_def opt_id_def split: option.split)

lemmas table_defs = ready_def row_valid_def market_tables_def foreign_keys_def

lemma primary_key_simps [simp]:
  "primary_key ''customers'' = ''customer_id''" "primary_key ''sellers'' = ''seller_id''"
  "primary_key ''categories'' = ''category_id''" "primary_key ''products'' = ''product_id''"
  "primary_key ''warehouses'' = ''warehouse_id''" "primary_key ''inventories'' = ''inventory_id''"
  "primary_key ''orders'' = ''order_id''" "primary_key ''payment_methods'' = ''payment_method_id''"
  "primary_key ''carriers'' = ''carrier_id''"
  by (simp_all add: primary_key_def primary_keys_def)

lemma ready_customers:
  "ready X ''customers'' (customer_row c) \<longleftrightarrow> email_text (cu_email c)"
  by (simp add: table_defs customers_table_def customer_row_def email_like_def)

lemma ready_sellers:
  "ready X ''sellers'' (seller_row s) \<longleftrightarrow> email_text (se_email s)"
  by (simp add: table_defs sellers_table_def seller_row_def email_like_def)

lemma ready_products:
  "ready X ''products'' (product_row p) \<longleftrightarrow>
     0 \<le> pr_price p \<and> pr_state p \<in> {''ACTIVE'', ''INACTIVE'', ''OUT_OF_STOCK''} \<and>
     (''categories'', SId (pr_category_id p)) \<in> X \<and> (''sellers'', SId (pr_seller_id p)) \<in> X"
  by (simp add: table_defs products_table_def product_row_def nonneg_def one_of_def)

lemma ready_warehouses: "ready X ''warehouses'' (warehouse_row w)"
  by (simp add: table_defs warehouses_table_def warehouse_row_def)

lemma ready_inventories:
  "ready X ''inventories'' (inventory_row v) \<longleftrightarrow>
     0 \<le> iv_available_quantity v \<and> 0 \<le> iv_minimum_quantity v \<and> 0 \<le> iv_reserved_quantity v \<and>
     iv_warehouse_id v \<noteq> SNull \<and> (''products'', SId (iv_product_id v)) \<in> X \<and> (''warehouses'', iv_warehouse_id v) \<in> X"
  by (auto simp: table_defs inventories_table_def inventory_row_def nonneg_def)

lemma ready_orders:
  "ready X ''orders'' (order_row d) \<longleftrightarrow>
     0 \<le> od_shipping_amount d \<and> 0 \<le> od_total_amount d \<and> od_status d \<in> set order_statuses \<and>
     (''customers'', SId (od_customer_id d)) \<in> X"
  by (auto simp: table_defs orders_table_def order_row_def nonneg_def one_of_def)

lemma ready_payment_methods: "ready X ''payment_methods'' (payment_method_row m)"
  by (simp add: table_defs payment_methods_table_def payment_method_row_def)

lemma ready_carriers: "cr_email c = None \<Longrightarrow> ready X ''carriers'' (carrier_row c)"
  by (simp add: table_defs carriers_table_def carrier_row_def email_like_def opt_text_def)

lemma ready_categories: "ca_parent_category_id c = None \<Longrightarrow> ready X ''categories'' (category_row c)"
  by (simp add: table_defs categories_table_def category_row_def opt_id_def)

lemma ready_history:
  "ready X ''order_status_history'' (history_row i order_id a b now) \<longleftrightarrow>
     order_id \<noteq> SNull \<and> (''orders'', order_id) \<in> X"
  by (auto simp: table_defs order_status_history_table_def history_row_def)

section \<open>The batch writer\<close>

lemma lookup_rows_clear [simp]: "lookup_rows (clear_rows t w) t' = (if t' = t then [] else lookup_rows w t')"
  by (simp add: lookup_rows_def clear_rows_def dict_simps)

lemma lookup_columns_clear [simp]: "lookup_columns (clear_rows t w) t' = lookup_columns w t'"
  by (simp add: lookup_columns_def clear_rows_def)

lemma rows_registered: "lookup_rows w t \<noteq> [] \<Longrightarrow> map_of (bw_rows w) t \<noteq> None"
  by (cases "map_of (bw_rows w) t") (simp_all add: lookup_rows_def)

lemma registered_clear: "map_of (bw_rows (clear_rows t w)) t' \<noteq> None \<longleftrightarrow> t' = t \<or> map_of (bw_rows w) t' \<noteq> None"
  by (simp add: clear_rows_def dict_simps)

lemma writer_ok_clear:
  assumes ok: "writer_ok d w" and t: "lookup_rows w t \<noteq> []"
  shows "writer_ok d (clear_rows t w)"
  using ok rows_registered [OF t]
  unfolding writer_ok_def registered_clear lookup_rows_clear lookup_columns_clear by auto

lemma writer_ok_pending: "writer_ok d (w \<lparr> bw_pending := n \<rparr>) = writer_ok d w"
  by (simp add: writer_ok_def lookup_rows_def lookup_columns_def)

lemma lookup_rows_buffer:
  "lookup_rows (buffer_row t cs vs w) t' = (if t' = t then lookup_rows w t @ [vs] else lookup_rows w t')"
  by (simp add: buffer_row_def lookup_rows_def Let_def dict_simps)

lemma lookup_columns_buffer:
  "lookup_columns (buffer_row t cs vs w) t' =
     (if t' = t \<and> map_of (bw_rows w) t = None then cs else lookup_columns w t')"
  by (simp add: buffer_row_def lookup_columns_def Let_def dict_simps)

lemma registered_buffer:
  "map_of (bw_rows (buffer_row t cs vs w)) t' \<noteq> None \<longleftrightarrow> t' = t \<or> map_of (bw_rows w) t' \<noteq> None"
  by (simp add: buffer_row_def Let_def dict_simps)

lemma writer_ok_buffer:
  assumes ok: "writer_ok d w" and cols: "map_of writer_columns t = Some cs" and row: "row_safe d (bare t) (zip cs vs)"
  shows "writer_ok d (buffer_row t cs vs w)"
proof -
  have same: "lookup_columns (buffer_row t cs vs w) t' =
      (if t' = t then cs else lookup_columns w t')" for t'
    using ok cols by (auto simp: lookup_columns_buffer writer_ok_def)
  show ?thesis
    unfolding writer_ok_def registered_buffer same lookup_rows_buffer
  proof (intro conjI allI impI ballI)
    fix t'
    assume "t' = t \<or> map_of (bw_rows w) t' \<noteq> None"
    then show "map_of writer_columns t' = Some (if t' = t then cs else lookup_columns w t')"
      using ok cols by (auto simp: writer_ok_def)
  next
    fix t' vs'
    assume vs': "vs' \<in> set (if t' = t then lookup_rows w t @ [vs] else lookup_rows w t')"
    have old: "row_safe d (bare t) (zip cs x)" if "x \<in> set (lookup_rows w t)" for x
    proof -
      have "map_of (bw_rows w) t \<noteq> None" using that by (intro rows_registered) auto
      then have "lookup_columns w t = cs" using ok cols by (auto simp: writer_ok_def)
      then show ?thesis using ok that by (auto simp: writer_ok_def)
    qed
    show "row_safe d (bare t') (zip (if t' = t then cs else lookup_columns w t') vs')"
      using vs' row ok old by (auto simp: writer_ok_def split: if_splits)
  qed
qed

lemma sim_inv_writer: "sim_inv s \<Longrightarrow> writer_ok (sm_db s) w \<Longrightarrow> sim_inv ((s :: sim) \<lparr> sm_writer := w \<rparr>)"
  by (simp add: sim_inv_def)

lemma safe_flush_tables: "safe X (flush_tables ts) (\<lambda>_. True) (\<lambda>_. {})"
proof (induction ts)
  case Nil
  then show ?case by (simp add: safe_ret)
next
  case (Cons t ts)
  show ?case
  proof (rule safe_intro)
    fix s :: sim
    let ?w = "sm_writer s"
    let ?P = "\<lambda>a u. sim_inv u \<and> grows (sm_db s) (sm_db u) \<and> True \<and> ids_in {} (sm_db u)"
    assume inv: "sim_inv s" "ids_in X (sm_db s)"
    have rest: "wp (flush_tables ts) ?P failed_safely u" if "sim_inv u" "grows (sm_db s) (sm_db u)" for u
      using that Cons.IH ids_in_grows [OF inv(2)]
      by (auto simp: safe_def intro: grows_trans elim!: wp_mono)
    show "wp (flush_tables (t # ts)) ?P failed_safely s"
    proof (cases "lookup_rows ?w t = []")
      case True
      then show ?thesis using rest [OF inv(1)] by simp
    next
      case False
      have rows: "list_all (row_safe (sm_db s) (bare t)) (map (zip (lookup_columns ?w t)) (lookup_rows ?w t))"
        using inv(1) by (auto simp: sim_inv_def writer_ok_def list_all_iff)
      show ?thesis
        unfolding flush_tables.simps wp_bindA wp_get if_not_P [OF False]
      proof (rule wp_mono [OF insert_wp [OF inv(1) rows]])
        fix ins u
        assume "\<exists>d. u = s \<lparr> sm_db := d \<rparr> \<and> sim_inv u \<and> grows (sm_db s) d \<and>
          set ins \<subseteq> set (map (zip (lookup_columns ?w t)) (lookup_rows ?w t)) \<and>
          (length (map (zip (lookup_columns ?w t)) (lookup_rows ?w t)) = 1 \<longrightarrow>
            ins = map (zip (lookup_columns ?w t)) (lookup_rows ?w t) \<or> ins = []) \<and>
          ids_in ((\<lambda>r. (bare t, col r (primary_key (bare t)))) ` set ins) d"
        then obtain d where u: "u = s \<lparr> sm_db := d \<rparr>" "sim_inv u" "grows (sm_db s) d" by blast
        have "sim_inv (u \<lparr> sm_writer := clear_rows t (sm_writer u) \<rparr>)"
          using u False by (intro sim_inv_writer) (auto simp: sim_inv_def intro: writer_ok_clear)
        then show "wp (modify (\<lambda>s. s \<lparr> sm_writer := clear_rows t (sm_writer s) \<rparr>)) (\<lambda>_. wp (flush_tables ts) ?P failed_safely)
            failed_safely u"
          using rest u by simp
      qed
    qed
  qed
qed

lemma safe_modify_writer:
  "(\<And>d w. writer_ok d w \<Longrightarrow> ids_in X d \<Longrightarrow> writer_ok d (f w)) \<Longrightarrow>
   safe X (modify (\<lambda>s. s \<lparr> sm_writer := f (sm_writer s) \<rparr>)) (\<lambda>_. True) (\<lambda>_. {})"
  by (simp add: safe_def sim_inv_def)

lemma safe_flush: "safe X (writer_flush ch) (\<lambda>_. True) (\<lambda>_. {})"
  unfolding writer_flush_def
  by (rule safe_bind [OF safe_get [where Q = "\<lambda>_. True" and Y = "\<lambda>_. {}"]])
     (auto intro!: safe_if safe_ret safe_bind [OF safe_flush_tables] safe_bind [OF safe_commit] safe_modify_writer
       simp: writer_ok_pending)

lemma safe_writer_add:
  assumes "map_of writer_columns t = Some cs" and "ready X (bare t) (zip cs vs)"
  shows "safe X (writer_add ch t cs vs) (\<lambda>_. True) (\<lambda>_. {})"
  unfolding writer_add_def
  by (rule safe_bind [OF safe_modify_writer])
     (auto intro!: writer_ok_buffer assms ready_safe [OF assms(2)] safe_bind [OF safe_get [where Q = "\<lambda>_. True" and Y = "\<lambda>_. {}"]]
       safe_if safe_flush safe_ret)

section \<open>Unique values\<close>

lemma safe_unique_or_fallback:
  assumes "safe X generate (\<lambda>r. \<forall>v. r = Some v \<longrightarrow> Q v) (\<lambda>_. {})" and "safe X fallback Q (\<lambda>_. {})"
  shows "safe X (unique_or_fallback generate fallback) Q (\<lambda>_. {})"
  unfolding unique_or_fallback_def
  by (rule safe_bind [OF assms(1)]) (auto split: option.split intro: safe_ret assms(2))

lemma safe_insert_attempts:
  assumes gen: "safe X generate Q Y" and ins: "\<And>e. Q e \<Longrightarrow> safe (X \<union> Y e) (ins e) (\<lambda>_. True) (\<lambda>ok. if ok then Z e else {})"
    and err: "\<not> constraint_error err" and "Q e"
  shows "safe (X \<union> Y e) (insert_attempts err generate ins n e) Q Z"
  using assms(4)
proof (induction n arbitrary: e)
  case 0
  then show ?case using err by (simp add: safe_raise)
next
  case (Suc n)
  show ?case
    unfolding insert_attempts.simps
  proof (rule safe_bind [OF ins [OF Suc.prems]])
    fix ok
    show "safe (X \<union> Y e \<union> (if ok then Z e else {})) (if ok then ret e else bindA generate (insert_attempts err generate ins n)) Q Z"
    proof (cases ok)
      case True
      then show ?thesis using Suc.prems by (auto intro: safe_ret)
    next
      case False
      have "safe (X \<union> Y e) (bindA generate (insert_attempts err generate ins n)) Q Z"
        by (rule safe_weaken [OF safe_bind [OF gen Suc.IH]]) auto
      then show ?thesis using False by simp
    qed
  qed
qed

lemma safe_retry:
  assumes gen: "safe X generate Q Y" and ins: "\<And>e. Q e \<Longrightarrow> safe (X \<union> Y e) (ins e) (\<lambda>_. True) (\<lambda>ok. if ok then Z e else {})"
  shows "safe X (insert_with_unique_retry label generate ins n) Q Z"
  unfolding insert_with_unique_retry_def
  by (rule safe_bind [OF gen safe_insert_attempts [OF gen ins]])
     (auto simp: exhausted_error_def constraint_error_def)

lemma safe_insert_returning:
  assumes "ready X t r" and "col r (primary_key t) = v"
  shows "safe X (insert_returning t oc r) (\<lambda>_. True) (\<lambda>ok. if ok then {(t, v)} else {})"
  unfolding insert_returning_def
  by (rule safe_bind [OF safe_insert]) (auto simp: assms intro!: safe_ret)

end
