(* ===== verification/Market_Safe_Catalog.thy ===== *)
theory Market_Safe_Catalog
  imports Market_Rules
begin

text \<open>
  The rules of \<open>safe\<close> for the services of customers, sellers, products, warehouses and inventories, and
  for the choices from the reference pool.
\<close>

lemma value_error_safe [simp]: "\<not> constraint_error (value_error m)"
  by (simp add: value_error_def constraint_error_def)

lemma key_error_safe [simp]: "\<not> constraint_error (Exn ''KeyError'' m)"
  by (simp add: constraint_error_def)

lemma chance_float: "chance_ok ch \<Longrightarrow> a \<le> b \<Longrightarrow> a \<le> ch_float ch a b k"
  by (simp add: chance_ok_def)

lemma chance_randint: "chance_ok ch \<Longrightarrow> a \<le> b \<Longrightarrow> a \<le> ch_randint ch a b k \<and> ch_randint ch a b k \<le> b"
  by (simp add: chance_ok_def)

lemmas safe_steps = safe_bind [OF safe_draw_any] safe_ret safe_raise safe_if

lemma row_keys:
  "col (customer_row c) ''customer_id'' = SId (cu_customer_id c)" "col (seller_row s) ''seller_id'' = SId (se_seller_id s)"
  "col (product_row p) ''product_id'' = SId (pr_product_id p)" "col (order_row d) ''order_id'' = SId (od_order_id d)"
  by (simp_all add: customer_row_def seller_row_def product_row_def order_row_def)

text \<open>What a change of the pool adds to its references.\<close>

lemma pool_refs_add [simp]:
  "pool_refs (p \<lparr> rp_customer_ids := rp_customer_ids p @ [i] \<rparr>) = insert (''customers'', SId i) (pool_refs p)"
  "pool_refs (p \<lparr> rp_seller_ids := rp_seller_ids p @ [i] \<rparr>) = insert (''sellers'', SId i) (pool_refs p)"
  "pool_refs (p \<lparr> rp_product_ids := rp_product_ids p @ [i] \<rparr>) = insert (''products'', SId i) (pool_refs p)"
  by (simp_all add: pool_refs_def)

section \<open>Customers\<close>

lemma email_text_entropic:
  "CHR ''@'' \<notin> set h \<Longrightarrow> email_text (takeWhile (\<lambda>c. c \<noteq> CHR ''@'') e @ ''.'' @ h @ ''@'' @ d)"
proof -
  have "hd (takeWhile (\<lambda>c. c \<noteq> CHR ''@'') e @ ''.'' @ h @ ''@'' @ d) \<noteq> CHR ''@''"
    by (cases e) auto
  then show ?thesis by (simp add: email_text_def)
qed

lemma email_text_fallback:
  "CHR ''@'' \<notin> set h \<Longrightarrow> length h = 12 \<Longrightarrow> email_text (h @ ''@example.com'')"
  by (cases h) (auto simp: email_text_def)

lemma safe_customer_email:
  assumes "chance_ok ch"
  shows "safe X (unique_or_fallback (entropic_email ch) (bindA (draw (ch_hex ch 12)) (\<lambda>h. ret (h @ ''@example.com''))))
    email_text (\<lambda>_. {})"
proof (rule safe_unique_or_fallback)
  show "safe X (entropic_email ch) (\<lambda>r. \<forall>v. r = Some v \<longrightarrow> email_text v) (\<lambda>_. {})"
    unfolding entropic_email_def using assms email_text_entropic
    by (intro safe_steps) (auto simp: chance_ok_def split: option.split intro!: safe_steps)
  show "safe X (bindA (draw (ch_hex ch 12)) (\<lambda>h. ret (h @ ''@example.com''))) email_text (\<lambda>_. {})"
    using assms email_text_fallback by (intro safe_steps) (auto simp: chance_ok_def)
qed

lemma safe_generate_customer:
  assumes "chance_ok ch"
  shows "safe X (generate_customer ch) (\<lambda>c. email_text (cu_email c)) (\<lambda>_. {})"
  unfolding generate_customer_def new_customer_def
  by (intro safe_steps safe_bind [OF safe_customer_email [OF assms]]) simp_all

lemma safe_insert_customer:
  "email_text (cu_email c) \<Longrightarrow>
   safe X (insert_customer c) (\<lambda>_. True) (\<lambda>ok. if ok then {(''customers'', SId (cu_customer_id c))} else {})"
  unfolding insert_customer_def
  by (rule safe_insert_returning) (simp_all add: ready_customers row_keys)

lemma safe_generate_address:
  "safe X (generate_address ch i) (\<lambda>a. ad_customer_id a = i \<and> ad_address_type a = ''DELIVERY'') (\<lambda>_. {})"
proof -
  have opt: "safe Z (if b then bindA (draw f) (\<lambda>n. ret (Some (g n))) else ret None) (\<lambda>_. True) (\<lambda>_. {})"
    for Z b g and f :: "nat \<Rightarrow> 'a"
    by (intro safe_steps) simp_all
  show ?thesis
    unfolding generate_address_def new_address_def
    by (intro safe_steps safe_bind [OF opt]) simp_all
qed

lemma bare_full [simp]: "bare (''marketplace.'' @ t) = t"
  by (simp add: bare_def)

lemma safe_insert_address:
  assumes "(''customers'', SId (ad_customer_id a)) \<in> X" and "ad_address_type a = ''DELIVERY''"
  shows "safe X (insert_address ch a) (\<lambda>_. True) (\<lambda>_. {})"
  unfolding insert_address_def
  by (rule safe_writer_add)
     (simp_all add: writer_columns_def bare_def address_columns_def table_defs customer_addresses_table_def one_of_def assms)

lemma refs_sound_ids [simp]:
  "refs_sound (p \<lparr> rp_customer_ids := c \<rparr>) = refs_sound p" "refs_sound (p \<lparr> rp_seller_ids := c \<rparr>) = refs_sound p"
  "refs_sound (p \<lparr> rp_product_ids := c \<rparr>) = refs_sound p" "refs_sound (p \<lparr> rp_category_ids := c \<rparr>) = refs_sound p"
  "refs_sound (p \<lparr> rp_carrier_ids := c \<rparr>) = refs_sound p" "refs_sound (p \<lparr> rp_payment_method_ids := c \<rparr>) = refs_sound p"
  by (simp_all add: refs_sound_def)

lemma safe_create_customer:
  assumes "chance_ok ch"
  shows "safe X (create_customer ch) (\<lambda>_. True) (\<lambda>_. {})"
  unfolding create_customer_def
  by (intro safe_bind [OF safe_retry [OF safe_generate_customer [OF assms] safe_insert_customer]]
        safe_bind [OF safe_on_pool] safe_bind [OF safe_generate_address] safe_bind [OF safe_insert_address] safe_ret)
     auto

section \<open>Sellers, products, warehouses and inventories\<close>

lemma safe_generate_seller:
  assumes "chance_ok ch"
  shows "safe X (generate_seller ch) (\<lambda>s. email_text (se_email s)) (\<lambda>_. {})"
  unfolding generate_seller_def new_seller_def using assms
  by (intro safe_steps) (auto simp: chance_ok_def)

lemma safe_insert_seller:
  "email_text (se_email s) \<Longrightarrow>
   safe X (insert_seller s) (\<lambda>_. True) (\<lambda>ok. if ok then {(''sellers'', SId (se_seller_id s))} else {})"
  unfolding insert_seller_def
  by (rule safe_insert_returning) (simp_all add: ready_sellers row_keys)

lemma safe_create_seller:
  assumes "chance_ok ch"
  shows "safe X (create_seller ch) (\<lambda>_. True) (\<lambda>_. {})"
  unfolding create_seller_def
  by (intro safe_bind [OF safe_retry [OF safe_generate_seller [OF assms] safe_insert_seller]]
        safe_bind [OF safe_on_pool] safe_ret) auto

lemma safe_choice:
  assumes ch: "chance_ok ch" and refs: "\<And>p i. i \<in> set (sel p) \<Longrightarrow> R i \<subseteq> pool_refs p"
    and sound: "\<And>p i. refs_sound p \<Longrightarrow> i \<in> set (sel p) \<Longrightarrow> Q i"
  shows "safe X (choice_or_none ch sel) (\<lambda>r. \<forall>i. r = Some i \<longrightarrow> Q i)
    (\<lambda>r. case r of None \<Rightarrow> {} | Some i \<Rightarrow> R i)"
  unfolding choice_or_none_def
proof (rule safe_bind [OF safe_get])
  fix s
  assume "sim_inv s"
  then show "(\<forall>i \<in> set (sel (sm_pool s)). Q i) \<and>
      ids_in ((\<lambda>xs. \<Union>i \<in> set xs. R i) (sel (sm_pool s))) (sm_db s)"
    using refs sound by (fastforce simp: sim_inv_def ids_in_def)
next
  fix xs
  assume Q: "\<forall>i \<in> set xs. Q i"
  have at: "xs ! ch_index ch (length xs) k \<in> set xs" if "xs \<noteq> []" for k
    using ch that by (auto simp: chance_ok_def)
  show "safe (X \<union> (\<Union>i \<in> set xs. R i))
     (if xs = [] then ret None else bindA (draw (ch_index ch (length xs))) (\<lambda>i. ret (Some (xs ! i))))
     (\<lambda>r. \<forall>i. r = Some i \<longrightarrow> Q i) (\<lambda>r. case r of None \<Rightarrow> {} | Some i \<Rightarrow> R i)"
    using Q at by (intro safe_steps) auto
qed

lemma safe_random_seller:
  "chance_ok ch \<Longrightarrow> safe X (random_seller_id ch) (\<lambda>_. True) (\<lambda>r. case r of None \<Rightarrow> {} | Some i \<Rightarrow> {(''sellers'', SId i)})"
  unfolding random_seller_id_def
  by (rule safe_choice [where Q = "\<lambda>_. True", simplified]) (auto simp: pool_refs_def)

lemma safe_random_category:
  "chance_ok ch \<Longrightarrow> safe X (random_category_id ch) (\<lambda>_. True) (\<lambda>r. case r of None \<Rightarrow> {} | Some i \<Rightarrow> {(''categories'', SId i)})"
  unfolding random_category_id_def
  by (rule safe_choice [where Q = "\<lambda>_. True", simplified]) (auto simp: pool_refs_def)

lemma safe_random_customer:
  "chance_ok ch \<Longrightarrow> safe X (random_customer_id ch) (\<lambda>_. True) (\<lambda>r. case r of None \<Rightarrow> {} | Some i \<Rightarrow> {(''customers'', SId i)})"
  unfolding random_customer_id_def
  by (rule safe_choice [where Q = "\<lambda>_. True", simplified]) (auto simp: pool_refs_def)

lemma safe_random_product:
  "chance_ok ch \<Longrightarrow> safe X (random_product_id ch) (\<lambda>_. True) (\<lambda>r. case r of None \<Rightarrow> {} | Some i \<Rightarrow> {(''products'', SId i)})"
  unfolding random_product_id_def
  by (rule safe_choice [where Q = "\<lambda>_. True", simplified]) (auto simp: pool_refs_def)

lemma safe_random_payment_method:
  "chance_ok ch \<Longrightarrow>
   safe X (random_payment_method_id ch) (\<lambda>_. True) (\<lambda>r. case r of None \<Rightarrow> {} | Some i \<Rightarrow> {(''payment_methods'', SId i)})"
  unfolding random_payment_method_id_def
  by (rule safe_choice [where Q = "\<lambda>_. True", simplified]) (auto simp: pool_refs_def)

lemma safe_random_carrier:
  "chance_ok ch \<Longrightarrow> safe X (random_carrier_id ch) (\<lambda>_. True) (\<lambda>r. case r of None \<Rightarrow> {} | Some i \<Rightarrow> {(''carriers'', SId i)})"
  unfolding random_carrier_id_def
  by (rule safe_choice [where Q = "\<lambda>_. True", simplified]) (auto simp: pool_refs_def)

definition order_refs :: "order_ref \<Rightarrow> refs" where
  "order_refs r = {(''orders'', SId (or_order_id r)), (''customers'', SId (or_customer_id r)), (''products'', or_product_id r)}"

lemma safe_random_order:
  "chance_ok ch \<Longrightarrow>
   safe X (random_order ch) (\<lambda>r. \<forall>i. r = Some i \<longrightarrow> 0 \<le> or_total_amount i \<and> or_product_id i \<noteq> SNull)
     (\<lambda>r. case r of None \<Rightarrow> {} | Some i \<Rightarrow> order_refs i)"
  unfolding random_order_def
  by (rule safe_choice) (auto simp: pool_refs_def refs_sound_def order_refs_def)

lemma safe_unique_text:
  "safe X (unique_or_fallback (draw f) (bindA (draw g) (\<lambda>h. ret (k h)))) (\<lambda>_. True) (\<lambda>_. {})"
  by (rule safe_unique_or_fallback) (auto intro!: safe_draw safe_steps)

lemma safe_element: "safe X (random_element ch xs) (\<lambda>_. True) (\<lambda>_. {})"
  unfolding random_element_def by (intro safe_steps) simp_all

lemma safe_generate_product:
  assumes "chance_ok ch"
  shows "safe X (generate_product ch sid cid) (\<lambda>p. pr_seller_id p = sid \<and> pr_category_id p = cid \<and> 0 \<le> pr_price p \<and>
      pr_state p = ''ACTIVE'') (\<lambda>_. {})"
  unfolding generate_product_def
  using order_trans [OF _ chance_float [OF assms, of 500000 150000000], of 0]
  by (intro safe_steps safe_bind [OF safe_unique_text] safe_bind [OF safe_element]) auto

lemma safe_insert_product:
  "pr_seller_id p = sid \<and> pr_category_id p = cid \<and> 0 \<le> pr_price p \<and> pr_state p = ''ACTIVE'' \<Longrightarrow>
   (''sellers'', SId sid) \<in> X \<Longrightarrow> (''categories'', SId cid) \<in> X \<Longrightarrow>
   safe X (insert_product p) (\<lambda>_. True) (\<lambda>ok. if ok then {(''products'', SId (pr_product_id p))} else {})"
  unfolding insert_product_def
  by (rule safe_insert_returning) (auto simp: ready_products row_keys)

lemma safe_create_product:
  assumes "chance_ok ch"
  shows "safe X (create_product ch) (\<lambda>_. True) (\<lambda>_. {})"
  unfolding create_product_def
  by (intro safe_bind [OF safe_random_seller [OF assms]] safe_bind [OF safe_random_category [OF assms]])
     (auto split: option.split intro!: safe_raise safe_bind [OF safe_retry [OF safe_generate_product [OF assms] safe_insert_product]]
        safe_bind [OF safe_on_pool] safe_ret)

lemma safe_generate_warehouse: "safe X (generate_warehouse ch) (\<lambda>_. True) (\<lambda>_. {})"
  unfolding generate_warehouse_def by (intro safe_steps safe_bind [OF safe_unique_text]) simp_all

lemma safe_insert_warehouse: "safe X (insert_warehouse w) (\<lambda>_. True) (\<lambda>_. {})"
  unfolding insert_warehouse_def
  by (intro safe_bind [OF safe_insert] safe_ret) (simp_all add: ready_warehouses)

lemma safe_create_warehouse: "safe X (create_warehouse ch) (\<lambda>_. True) (\<lambda>_. {})"
  unfolding create_warehouse_def
  by (intro safe_bind [OF safe_generate_warehouse] safe_bind [OF safe_insert_warehouse] safe_ret) simp_all

lemma safe_random_row:
  assumes "chance_ok ch"
  shows "safe X (random_row ch rs) (\<lambda>r. \<forall>x. r = Some x \<longrightarrow> x \<in> set rs) (\<lambda>_. {})"
  unfolding random_row_def using assms by (intro safe_steps) (auto simp: chance_ok_def)

text \<open>A row picked from a table is valid, and what it references exists.\<close>

lemma safe_pick:
  assumes ch: "chance_ok ch" and sel: "\<And>rs r. r \<in> set (sel rs) \<Longrightarrow> r \<in> set rs \<and> P r"
    and k: "\<And>v. (\<forall>r. v = Some r \<longrightarrow> row_valid t r \<and> P r) \<Longrightarrow>
      safe (X \<union> (case v of None \<Rightarrow> {} | Some r \<Rightarrow> row_refs t r)) (k v) Q Y"
  shows "safe X (bindA (exec_select t) (\<lambda>rs. bindA (random_row ch (sel rs)) k)) Q Y"
proof (rule safe_bind [OF safe_select])
  fix rs
  assume rs: "\<forall>r \<in> set rs. row_valid t r"
  show "safe (X \<union> (\<Union>r \<in> set rs. row_refs t r)) (bindA (random_row ch (sel rs)) k) Q Y"
  proof (rule safe_bind [OF safe_random_row [OF ch]])
    fix v
    assume v: "\<forall>x. v = Some x \<longrightarrow> x \<in> set (sel rs)"
    have v': "\<forall>r. v = Some r \<longrightarrow> r \<in> set rs \<and> row_valid t r \<and> P r" using v sel rs by blast
    show "safe (X \<union> (\<Union>r \<in> set rs. row_refs t r) \<union> {}) (k v) Q Y"
      by (rule safe_weaken [OF k]) (use v' in \<open>auto split: option.splits\<close>)
  qed
qed

lemma not_null:
  "row_valid ''warehouses'' r \<Longrightarrow> col r ''warehouse_id'' \<noteq> SNull"
  "row_valid ''inventories'' r \<Longrightarrow> col r ''inventory_id'' \<noteq> SNull \<and> col r ''product_id'' \<noteq> SNull"
  by (simp_all add: row_valid_def market_tables_def warehouses_table_def inventories_table_def)

lemma row_refs_warehouses: "(''warehouses'', col r ''warehouse_id'') \<in> row_refs ''warehouses'' r"
  by (simp add: row_refs_def)

lemma row_refs_inventories:
  "(''inventories'', col r ''inventory_id'') \<in> row_refs ''inventories'' r"
  "col r ''product_id'' \<noteq> SNull \<Longrightarrow> (''products'', col r ''product_id'') \<in> row_refs ''inventories'' r"
  by (auto simp: row_refs_def foreign_keys_def)

lemma safe_random_warehouse:
  assumes "chance_ok ch"
  shows "safe X (random_warehouse_id ch) (\<lambda>r. \<forall>v. r = Some v \<longrightarrow> v \<noteq> SNull)
    (\<lambda>r. case r of None \<Rightarrow> {} | Some v \<Rightarrow> {(''warehouses'', v)})"
  unfolding random_warehouse_id_def
  by (rule safe_pick [OF assms, where P = "\<lambda>_. True"])
     (auto intro!: safe_ret row_refs_warehouses dest: not_null(1) split: option.splits)

lemma safe_generate_inventory:
  assumes "chance_ok ch"
  shows "safe X (generate_inventory ch wid pid) (\<lambda>v. 0 \<le> iv_available_quantity v \<and> 0 \<le> iv_minimum_quantity v \<and>
      0 \<le> iv_reserved_quantity v \<and> iv_warehouse_id v = wid \<and> iv_product_id v = pid) (\<lambda>_. {})"
proof -
  have pos: "0 \<le> ch_randint ch a b k" if "0 \<le> a" "a \<le> b" for a b k
    using chance_randint [OF assms that(2), of k] that(1) by linarith
  have low: "20 \<le> ch_randint ch 20 500 k" for k
    using chance_randint [OF assms, of 20 500 k] by simp
  then have "0 \<le> ch_randint ch 0 (min (ch_randint ch 20 500 k) 20) k'" for k k'
    by (intro pos) (simp_all add: order_trans [OF _ low])
  then show ?thesis
    unfolding generate_inventory_def by (intro safe_steps) (auto simp: pos)
qed

lemma safe_insert_inventory:
  "ready X ''inventories'' (inventory_row v) \<Longrightarrow> safe X (insert_inventory v) (\<lambda>_. True) (\<lambda>_. {})"
  unfolding insert_inventory_def
  by (intro safe_bind [OF safe_insert] safe_ret) simp_all

lemma safe_create_inventory:
  assumes "chance_ok ch"
  shows "safe X (create_inventory ch) (\<lambda>_. True) (\<lambda>_. {})"
  unfolding create_inventory_def
  by (intro safe_bind [OF safe_random_warehouse [OF assms]] safe_bind [OF safe_random_product [OF assms]])
     (auto split: option.split intro!: safe_raise safe_bind [OF safe_generate_inventory [OF assms]]
        safe_bind [OF safe_insert_inventory] safe_ret simp: ready_inventories)

end
