(* ===== verification/Market_Safe_Batch.thy ===== *)
theory Market_Safe_Batch
  imports Market_Safe_Catalog
begin

text \<open>
  The rules of \<open>safe\<close> for stock, orders, payments, shipments, reviews, seeding and status progression, and
  from them for a cycle and for a batch.
\<close>

section \<open>Stock\<close>

lemma keeps_keys_available: "keeps_keys ''inventories'' (set_available now q)"
  by (simp add: keeps_keys_def set_available_def set_col_def foreign_keys_def)

lemma valid_set_available:
  assumes "row_valid ''inventories'' r" and "0 \<le> int_of (col r ''available_quantity'') + q"
  shows "row_valid ''inventories'' (set_available now q r)"
  using assms by (simp add: row_valid_def market_tables_def inventories_table_def set_available_def set_col_def nonneg_def)

lemma valid_available: "row_valid ''inventories'' r \<Longrightarrow> 0 \<le> int_of (col r ''available_quantity'')"
  by (auto simp: row_valid_def market_tables_def inventories_table_def nonneg_def int_of_def split: sql_value.splits)

lemma safe_get_now: "safe X (get sm_now) (\<lambda>_. True) (\<lambda>_. {})"
  by (rule safe_get) simp

lemma safe_decrease: "safe X (decrease_available_quantity i q) (\<lambda>_. True) (\<lambda>_. {})"
  unfolding decrease_available_quantity_def
  by (intro safe_bind [OF safe_get_now] safe_bind [OF safe_update] safe_ret)
     (auto intro!: keeps_keys_available valid_set_available)

lemma safe_increase:
  assumes "0 \<le> q" shows "safe X (increase_available_quantity i q) (\<lambda>_. True) (\<lambda>_. {})"
  unfolding increase_available_quantity_def
  by (intro safe_bind [OF safe_get_now] safe_bind [OF safe_update] safe_ret)
     (use assms in \<open>auto intro!: keeps_keys_available valid_set_available add_nonneg_nonneg valid_available\<close>)

lemma safe_restock:
  assumes "chance_ok ch" shows "safe X (maybe_restock ch p) (\<lambda>_. True) (\<lambda>_. {})"
proof -
  have candidate: "safe Z (restock_candidate_id ch low_stock_threshold) (\<lambda>_. True) (\<lambda>_. {})" for Z
    unfolding restock_candidate_id_def Let_def
    by (rule safe_pick [OF assms, where P = "\<lambda>_. True"]) (auto intro: safe_ret split: if_splits)
  have "0 \<le> ch_randint ch 50 200 k" for k
    using chance_randint [OF assms, of 50 200 k] by simp
  then show ?thesis
    unfolding maybe_restock_def
    by (intro safe_steps safe_bind [OF candidate])
       (auto split: option.split intro!: safe_steps safe_increase)
qed

section \<open>Orders\<close>

lemma safe_random_inventory:
  assumes "chance_ok ch"
  shows "safe X (random_inventory ch) (\<lambda>r. \<forall>i p q. r = Some (i, p, q) \<longrightarrow> i \<noteq> SNull \<and> p \<noteq> SNull \<and> 0 < q)
    (\<lambda>r. case r of None \<Rightarrow> {} | Some (i, p, q) \<Rightarrow> {(''inventories'', i), (''products'', p)})"
  unfolding random_inventory_def
  by (rule safe_pick [OF assms, where P = "\<lambda>r. 0 < int_of (col r ''available_quantity'')"])
     (auto intro!: safe_ret row_refs_inventories dest: not_null(2) split: option.splits)

lemma valid_price: "row_valid ''products'' r \<Longrightarrow> 0 \<le> int_of (col r ''price'')"
  by (auto simp: row_valid_def market_tables_def products_table_def nonneg_def int_of_def split: sql_value.splits)

lemma safe_product_price:
  "safe X (product_price pid) (\<lambda>r. \<forall>p. r = Some p \<longrightarrow> 0 \<le> p) (\<lambda>_. {})"
  unfolding product_price_def
  by (intro safe_bind [OF safe_select] safe_ret)
     (auto simp: find_Some_iff intro!: valid_price)

definition reserved_ok :: "sql_value \<times> sql_value \<times> int \<times> int \<Rightarrow> bool" where
  "reserved_ok = (\<lambda>(i, p, price, q). i \<noteq> SNull \<and> p \<noteq> SNull \<and> 0 \<le> price \<and> 0 < q)"

definition reserved_refs :: "sql_value \<times> sql_value \<times> int \<times> int \<Rightarrow> refs" where
  "reserved_refs = (\<lambda>(i, p, price, q). {(''inventories'', i), (''products'', p)})"

lemma reserved_simps:
  "reserved_ok (i, p, price, q) \<longleftrightarrow> i \<noteq> SNull \<and> p \<noteq> SNull \<and> 0 \<le> price \<and> 0 < q"
  "reserved_refs (i, p, price, q) = {(''inventories'', i), (''products'', p)}"
  by (simp_all add: reserved_ok_def reserved_refs_def)

lemma safe_reserve:
  assumes ch: "chance_ok ch"
  shows "safe X (reserve_inventory ch n) reserved_ok reserved_refs"
proof (induction n arbitrary: X)
  case 0
  then show ?case by (simp add: safe_raise)
next
  case (Suc n)
  have roll: "1 \<le> ch_randint ch 1 5 k" for k using chance_randint [OF ch, of 1 5 k] by simp
  have pos: "0 < ch_randint ch 1 5 k" for k using roll [of k] by linarith
  show ?case
    unfolding reserve_inventory.simps Let_def
    by (rule safe_bind [OF safe_random_inventory [OF ch]])
       (auto split: option.split prod.split intro!: safe_raise safe_bind [OF safe_product_price] safe_steps
          safe_bind [OF safe_decrease] safe_ret Suc simp: reserved_simps pos)
qed


definition order_made :: "nat \<Rightarrow> sql_value \<Rightarrow> order \<times> order_item \<times> status_history \<Rightarrow> bool" where
  "order_made cid pid = (\<lambda>(d, i, h). od_customer_id d = cid \<and> od_status d = ''PENDING'' \<and> 0 \<le> od_total_amount d \<and>
     0 \<le> od_shipping_amount d \<and> oi_order_id i = od_order_id d \<and> oi_product_id i = pid \<and> 0 < oi_quantity i \<and>
     0 \<le> oi_unit_price i \<and> 0 \<le> oi_total_price i \<and> sh_order_id h = od_order_id d \<and> sh_current_status h = ''PENDING'')"

definition order_key :: "order \<times> order_item \<times> status_history \<Rightarrow> refs" where
  "order_key = (\<lambda>(d, i, h). {(''orders'', SId (od_order_id d))})"

lemma safe_generate_order:
  assumes ch: "chance_ok ch" and "0 \<le> price" and "0 < q"
  shows "safe X (generate_order ch cid pid price q) (order_made cid pid) (\<lambda>_. {})"
proof -
  have "0 \<le> ch_float ch 100000 600000 k" for k
    using order_trans [OF _ chance_float [OF ch, of 100000 600000], of 0] by simp
  then show ?thesis
    using assms unfolding generate_order_def order_number_def new_order_def new_order_item_def new_status_history_def
    by (simp only: bind_assoc bind_ret) (intro safe_steps safe_bind [OF safe_unique_text], auto simp: order_made_def)
qed

lemma safe_insert_order:
  assumes "order_made cid pid e" and "(''customers'', SId cid) \<in> X"
  shows "safe X (insert_order (fst e)) (\<lambda>_. True) (\<lambda>ok. if ok then order_key e else {})"
proof -
  obtain d i h where e: "e = (d, i, h)" by (cases e)
  show ?thesis
    using assms unfolding e order_key_def insert_order_def prod.case fst_conv
    by (intro safe_insert_returning) (simp_all add: ready_orders row_keys order_made_def order_statuses_def)
qed

lemma safe_insert_item:
  assumes "(''orders'', SId (oi_order_id i)) \<in> X" "(''products'', oi_product_id i) \<in> X" "oi_product_id i \<noteq> SNull"
    "0 < oi_quantity i" "0 \<le> oi_unit_price i" "0 \<le> oi_total_price i"
  shows "safe X (insert_order_item ch i) (\<lambda>_. True) (\<lambda>_. {})"
  unfolding insert_order_item_def
  by (rule safe_writer_add)
     (simp_all add: writer_columns_def bare_def table_defs order_items_table_def nonneg_def positive_def assms)

lemma safe_insert_history:
  assumes "(''orders'', SId (sh_order_id h)) \<in> X"
  shows "safe X (insert_order_status_history ch h) (\<lambda>_. True) (\<lambda>_. {})"
  unfolding insert_order_status_history_def
  by (rule safe_writer_add)
     (simp_all add: writer_columns_def bare_def table_defs order_status_history_table_def assms)

lemma safe_outbound:
  "safe X (outbound_movement ch i d q)
     (\<lambda>m. mv_inventory_id m = i \<and> mv_order_id m = d \<and> mv_quantity m = q \<and> mv_movement_type m = ''OUTBOUND'') (\<lambda>_. {})"
  unfolding outbound_movement_def by (intro safe_steps) simp_all

lemma safe_insert_movement:
  assumes "(''orders'', SId (mv_order_id m)) \<in> X" "(''inventories'', mv_inventory_id m) \<in> X" "mv_inventory_id m \<noteq> SNull"
    "0 < mv_quantity m" "mv_movement_type m = ''OUTBOUND''"
  shows "safe X (insert_movement ch m) (\<lambda>_. True) (\<lambda>_. {})"
  unfolding insert_movement_def
  by (rule safe_writer_add)
     (simp_all add: writer_columns_def bare_def table_defs inventory_movements_table_def positive_def one_of_def assms)

lemma safe_remember_order:
  assumes "(''orders'', SId (or_order_id r)) \<in> X" "(''customers'', SId (or_customer_id r)) \<in> X"
    "(''products'', or_product_id r) \<in> X" "or_product_id r \<noteq> SNull" "0 \<le> or_total_amount r"
  shows "safe X (on_pool (\<lambda>p. p \<lparr> rp_orders := rp_orders p @ [r] \<rparr>)) (\<lambda>_. True) (\<lambda>_. {})"
  using assms by (intro safe_on_pool) (auto simp: pool_refs_def refs_sound_def)

lemma safe_record_order:
  assumes "order_made cid pid e" "order_key e \<subseteq> X" "{(''inventories'', iid), (''products'', pid), (''customers'', SId cid)} \<subseteq> X"
    "iid \<noteq> SNull" "pid \<noteq> SNull"
  shows "safe X (record_order ch iid pid e) (\<lambda>_. True) (\<lambda>_. {})"
proof -
  obtain d i h where e: "e = (d, i, h)" by (cases e)
  show ?thesis
    using assms unfolding e record_order_def insert_order_details_def prod.case
    by (intro safe_bind [OF safe_bind [OF safe_insert_item safe_insert_history]] safe_bind [OF safe_outbound]
          safe_bind [OF safe_insert_movement] safe_bind [OF safe_remember_order] safe_ret)
       (auto simp: order_made_def order_key_def)
qed

lemma safe_place_order:
  assumes ch: "chance_ok ch" and r: "reserved_ok r" "reserved_refs r \<subseteq> X" and c: "(''customers'', SId cid) \<in> X"
  shows "safe X (place_order ch cid r) (\<lambda>_. True) (\<lambda>_. {})"
proof -
  obtain iid pid price q where e: "r = (iid, pid, price, q)" by (cases r)
  have ok: "0 \<le> price" "0 < q" "iid \<noteq> SNull" "pid \<noteq> SNull" "(''inventories'', iid) \<in> X" "(''products'', pid) \<in> X"
    using r by (simp_all add: e reserved_simps)
  show ?thesis
    unfolding e place_order_def prod.case
    by (rule safe_bind [OF safe_retry [OF safe_generate_order [OF ch ok(1,2)] safe_insert_order] safe_record_order])
       (use ok c in auto)
qed

lemma safe_create_order:
  assumes ch: "chance_ok ch"
  shows "safe X (create_order ch) (\<lambda>_. True) (\<lambda>_. {})"
  unfolding create_order_def
  by (rule safe_bind [OF safe_random_customer [OF ch]])
     (auto split: option.split intro!: safe_raise safe_bind [OF safe_reserve [OF ch]] safe_place_order [OF ch])

section \<open>Payments, shipments and reviews\<close>

lemma safe_weighted:
  assumes "chance_ok ch" and "ws \<noteq> []" and "length ws \<le> length xs"
  shows "safe X (weighted_choice ch xs ws) (\<lambda>x. x \<in> set xs) (\<lambda>_. {})"
proof -
  have "ch_weighted ch ws k < length xs" for k
    using assms unfolding chance_ok_def by (meson less_le_trans)
  then show ?thesis unfolding weighted_choice_def by (intro safe_steps) auto
qed

lemma safe_generate_payment:
  assumes ch: "chance_ok ch"
  shows "safe X (generate_payment ch d m a)
    (\<lambda>p. py_order_id p = d \<and> py_payment_method_id p = m \<and> py_amount p = a \<and> py_status p \<in> set payment_statuses) (\<lambda>_. {})"
  unfolding generate_payment_def transaction_code_def
  by (intro safe_bind [OF safe_weighted [OF ch]] safe_steps safe_bind [OF safe_unique_text])
     (simp_all add: payment_status_weights_def payment_statuses_def)

lemma safe_insert_payment:
  assumes "(''orders'', SId (py_order_id p)) \<in> X" "(''payment_methods'', SId (py_payment_method_id p)) \<in> X"
    "0 \<le> py_amount p" "py_status p \<in> set payment_statuses"
  shows "safe X (insert_payment ch p) (\<lambda>_. True) (\<lambda>_. {})"
  unfolding insert_payment_def
  using assms by (intro safe_writer_add)
     (auto simp: writer_columns_def bare_def table_defs payments_table_def nonneg_def one_of_def payment_statuses_def)

lemma safe_create_payment:
  assumes ch: "chance_ok ch" shows "safe X (create_payment ch) (\<lambda>_. True) (\<lambda>_. {})"
  unfolding create_payment_def
  by (rule safe_bind [OF safe_random_order [OF ch]])
     (auto split: option.split intro!: safe_raise safe_bind [OF safe_random_payment_method [OF ch]]
        safe_bind [OF safe_generate_payment [OF ch]] safe_bind [OF safe_insert_payment] safe_ret simp: order_refs_def)

lemma safe_generate_shipment:
  assumes ch: "chance_ok ch"
  shows "safe X (generate_shipment ch d c)
    (\<lambda>p. sp_order_id p = d \<and> sp_carrier_id p = c \<and> sp_status p \<in> set shipment_statuses) (\<lambda>_. {})"
proof -
  have days: "safe Z (if b then bindA (draw f) (\<lambda>n. ret (Some (g n))) else ret None) (\<lambda>_. True) (\<lambda>_. {})"
    for Z b and g :: "int \<Rightarrow> int" and f
    by (intro safe_steps) simp_all
  show ?thesis
    unfolding generate_shipment_def tracking_code_def new_shipment_def Let_def
    by (intro safe_steps safe_bind [OF safe_weighted [OF ch]] safe_bind [OF days] safe_bind [OF safe_unique_text])
       (simp_all add: shipment_status_weights_def shipment_statuses_def)
qed

lemma safe_insert_shipment:
  assumes "(''orders'', SId (sp_order_id p)) \<in> X" "(''carriers'', SId (sp_carrier_id p)) \<in> X"
    "sp_status p \<in> set shipment_statuses"
  shows "safe X (insert_shipment ch p) (\<lambda>_. True) (\<lambda>_. {})"
  unfolding insert_shipment_def
  using assms by (intro safe_writer_add)
     (auto simp: writer_columns_def bare_def table_defs shipments_table_def one_of_def shipment_statuses_def)

lemma safe_create_shipment:
  assumes ch: "chance_ok ch" shows "safe X (create_shipment ch) (\<lambda>_. True) (\<lambda>_. {})"
  unfolding create_shipment_def
  by (rule safe_bind [OF safe_random_order [OF ch]])
     (auto split: option.split intro!: safe_raise safe_bind [OF safe_random_carrier [OF ch]]
        safe_bind [OF safe_generate_shipment [OF ch]] safe_bind [OF safe_insert_shipment] safe_ret simp: order_refs_def)

lemma safe_generate_review:
  assumes ch: "chance_ok ch"
  shows "safe X (generate_review ch d c p)
    (\<lambda>r. rw_order_id r = d \<and> rw_customer_id r = c \<and> rw_product_id r = p \<and> 1 \<le> rw_rating r \<and> rw_rating r \<le> 5) (\<lambda>_. {})"
  unfolding generate_review_def new_review_def
  by (rule safe_bind [OF safe_weighted [OF ch]])
     (auto simp: review_weights_def review_ratings_def review_comments_def intro!: safe_steps)

lemma safe_insert_review:
  assumes "(''orders'', SId (rw_order_id r)) \<in> X" "(''customers'', SId (rw_customer_id r)) \<in> X"
    "(''products'', rw_product_id r) \<in> X" "rw_product_id r \<noteq> SNull" "1 \<le> rw_rating r" "rw_rating r \<le> 5"
  shows "safe X (insert_review ch r) (\<lambda>_. True) (\<lambda>_. {})"
  unfolding insert_review_def
  using assms by (intro safe_writer_add)
     (auto simp: writer_columns_def bare_def table_defs reviews_table_def rating_ok_def)

lemma safe_create_review:
  assumes ch: "chance_ok ch" shows "safe X (create_review ch) (\<lambda>_. True) (\<lambda>_. {})"
  unfolding create_review_def
  by (rule safe_bind [OF safe_random_order [OF ch]])
     (auto split: option.split intro!: safe_raise safe_bind [OF safe_generate_review [OF ch]]
        safe_bind [OF safe_insert_review] safe_ret simp: order_refs_def)

section \<open>Seeding and status progression\<close>

lemma has_id_nat_ids: "x \<in> set (nat_ids c rs) \<Longrightarrow> \<exists>r \<in> set rs. col r c = SId x"
  by (auto simp: nat_ids_def split: sql_value.splits)

lemma safe_ids_of:
  assumes "primary_key t = c" and "\<And>rs. set (sel rs) \<subseteq> set rs"
  shows "safe X (bindA (exec_select t) (\<lambda>rs. thenA (commit_tx ch) (ret (nat_ids c (sel rs))))) (\<lambda>_. True)
    (\<lambda>ids. (\<lambda>i. (t, SId i)) ` set ids)"
proof (rule safe_bind [OF safe_select], rule safe_bind [OF safe_commit], rule safe_ret)
  fix rs
  show "(\<lambda>i. (t, SId i)) ` set (nat_ids c (sel rs)) \<subseteq> X \<union> (\<Union>r \<in> set rs. row_refs t r) \<union> {}"
    using assms has_id_nat_ids [of _ c "sel rs"] by (fastforce simp: row_refs_def)
qed simp

lemma safe_seed_payment_method: "safe X (seed_payment_method ch u m) (\<lambda>_. True) (\<lambda>_. {})"
  unfolding seed_payment_method_def new_payment_method_def bind_assoc bind_ret
  by (intro safe_steps safe_bind [OF safe_insert]) (simp_all add: ready_payment_methods)

lemma safe_seed_payment_methods:
  "safe X (seed_payment_methods ch) (\<lambda>_. True) (\<lambda>ids. (\<lambda>i. (''payment_methods'', SId i)) ` set ids)"
  unfolding seed_payment_methods_def
  by (rule safe_bind [OF safe_foldA [where Q = "\<lambda>_. True" and Y = "\<lambda>_. {}"] safe_ids_of [where sel = "\<lambda>rs. rs"]])
     (auto intro: safe_weaken [OF safe_seed_payment_method])

lemma safe_seed_carrier: "safe X (seed_carrier ch u c) (\<lambda>_. True) (\<lambda>_. {})"
  unfolding seed_carrier_def new_carrier_def bind_assoc bind_ret
  by (intro safe_steps safe_bind [OF safe_insert]) (simp_all add: ready_carriers)

lemma safe_seed_carriers:
  "safe X (seed_carriers ch) (\<lambda>_. True) (\<lambda>ids. (\<lambda>i. (''carriers'', SId i)) ` set ids)"
  unfolding seed_carriers_def
  by (rule safe_bind [OF safe_foldA [where Q = "\<lambda>_. True" and Y = "\<lambda>_. {}"]
        safe_ids_of [where sel = "filter (\<lambda>r. col r ''is_active'' = SBool True)"]])
     (auto intro: safe_weaken [OF safe_seed_carrier])

definition category_refs :: "nat list \<Rightarrow> refs" where
  "category_refs ids = (\<lambda>i. (''categories'', SId i)) ` set ids"

lemma category_refs_simps [simp]:
  "category_refs [] = {}" "category_refs (a @ b) = category_refs a \<union> category_refs b"
  "category_refs (i # a) = insert (''categories'', SId i) (category_refs a)"
  by (auto simp: category_refs_def)

lemma safe_insert_category:
  assumes "ca_parent_category_id c = None"
  shows "safe X (exec_insert ''categories'' No_clause [category_row c]) (\<lambda>_. True) (\<lambda>_. {(''categories'', SId (ca_category_id c))})"
proof (rule safe_intro)
  fix s
  assume inv: "sim_inv s" and X: "ids_in X (sm_db s)"
  have row: "list_all (row_safe (sm_db s) ''categories'') [category_row c]"
    using ready_safe [OF ready_categories [OF assms] X] by simp
  have ins: "wp (exec_insert ''categories'' No_clause [category_row c]) (\<lambda>ins u. ins = [category_row c]) (\<lambda>e u. True) s"
    by (auto simp: wp_def exec_insert_def insert_statement_def insert_row_def split: sum.split if_splits)
  show "wp (exec_insert ''categories'' No_clause [category_row c]) (\<lambda>a t. sim_inv t \<and> grows (sm_db s) (sm_db t) \<and> True \<and>
      ids_in {(''categories'', SId (ca_category_id c))} (sm_db t)) failed_safely s"
    by (rule wp_mono [OF wp_conj [OF insert_wp [OF inv row] ins]]) (auto simp: category_row_def)
qed

lemma safe_seed_category: "safe (X \<union> category_refs ids) (seed_category ch ids name) (\<lambda>_. True) category_refs"
  unfolding seed_category_def new_category_def bind_assoc bind_ret
proof (rule safe_bind [OF safe_select], rule safe_option)
  fix rs r
  assume "find (\<lambda>r. col r ''name'' = SText name) rs = Some r"
  then have "r \<in> set rs" by (auto simp: find_Some_iff)
  then have "category_refs (nat_ids ''category_id'' [r]) \<subseteq> (\<Union>r \<in> set rs. row_refs ''categories'' r)"
    using has_id_nat_ids [of _ "''category_id''" "[r]"] by (force simp: category_refs_def row_refs_def)
  then show "safe (X \<union> category_refs ids \<union> (\<Union>r \<in> set rs. row_refs ''categories'' r))
      (ret (ids @ nat_ids ''category_id'' [r])) (\<lambda>_. True) category_refs"
    by (simp add: le_supI1 le_supI2 safe_ret)
qed (intro safe_steps safe_bind [OF safe_insert_category], auto)

lemma safe_seed_categories:
  "safe X (seed_categories ch) (\<lambda>_. True) category_refs"
  unfolding seed_categories_def
  by (rule safe_bind [OF safe_foldA [where Q = "\<lambda>_. True" and Y = category_refs]])
     (auto intro!: safe_seed_category safe_bind [OF safe_commit] safe_ret)

lemma keeps_keys_status: "keeps_keys ''orders'' (set_status now st)"
  by (simp add: keeps_keys_def set_status_def set_col_def foreign_keys_def)

lemma valid_set_status:
  "row_valid ''orders'' r \<Longrightarrow> st \<in> set order_statuses \<Longrightarrow> row_valid ''orders'' (set_status now st r)"
  by (simp add: row_valid_def market_tables_def orders_table_def set_status_def set_col_def one_of_def)

lemma safe_transition:
  assumes "(''orders'', v) \<in> X" "v \<noteq> SNull" "new_status \<in> set order_statuses"
  shows "safe X (transition ch v old new_status) (\<lambda>_. True) (\<lambda>_. {})"
  unfolding transition_def
  by (intro safe_bind [OF safe_get_now] safe_bind [OF safe_update] safe_steps safe_bind [OF safe_insert])
     (use assms in \<open>auto intro: keeps_keys_status valid_set_status simp: ready_history\<close>)

lemma eligible_ids:
  assumes "v \<in> set (map (\<lambda>r. col r ''order_id'') (take lim (sort_key k (filter P rs))))"
  obtains r where "r \<in> set rs" "v = col r ''order_id''" "P r"
  using assms by (auto dest!: in_set_takeD)

lemma safe_find_eligible:
  "safe X (find_eligible st age lim) (\<lambda>ids. \<forall>v \<in> set ids. v \<noteq> SNull) (\<lambda>ids. (\<lambda>v. (''orders'', v)) ` set ids)"
  unfolding find_eligible_def
proof (rule safe_bind [OF safe_get_now], rule safe_bind [OF safe_select], rule safe_ret)
  fix now rs
  assume rs: "\<forall>r \<in> set rs. row_valid ''orders'' r"
  let ?ids = "map (\<lambda>r. col r ''order_id'') (take lim (sort_key (\<lambda>r. int_of (col r ''updated_at''))
    (filter (eligible now st age) rs)))"
  have id: "col r ''order_id'' \<noteq> SNull" if "r \<in> set rs" for r
    using rs that by (auto simp: row_valid_def market_tables_def orders_table_def)
  show "\<forall>v \<in> set ?ids. v \<noteq> SNull" by (rule ballI, erule eligible_ids) (simp add: id)
  show "(\<lambda>v. (''orders'', v)) ` set ?ids \<subseteq> X \<union> {} \<union> (\<Union>r \<in> set rs. row_refs ''orders'' r)"
    by (rule image_subsetI, erule eligible_ids) (force simp: row_refs_def)
qed

lemma safe_progress_order:
  assumes "(''orders'', v) \<in> X" "v \<noteq> SNull" "next_status \<in> set order_statuses"
  shows "safe X (progress_order ch st next_status p c v) (\<lambda>_. True) (\<lambda>_. {})"
  unfolding progress_order_def
  by (intro safe_steps safe_bind [OF safe_transition]) (use assms in \<open>auto simp: order_statuses_def\<close>)

lemma rule_targets: "list_all (\<lambda>(st, nx, age, p). nx \<in> set order_statuses) forward_rules"
  by (simp add: forward_rules_def order_statuses_def)

lemma safe_progress_status:
  assumes "rule \<in> set forward_rules"
  shows "safe X (progress_status ch c rule) (\<lambda>_. True) (\<lambda>_. {})"
proof -
  obtain st nx age p where rule: "rule = (st, nx, age, p)" by (cases rule)
  have nx: "nx \<in> set order_statuses"
    using assms rule_targets by (force simp: rule list_all_iff)
  show ?thesis
    unfolding rule progress_status_def prod.case
    by (rule safe_bind [OF safe_find_eligible], rule safe_foldA [where Q = "\<lambda>_. True" and Y = "\<lambda>_. {}"],
        rule safe_progress_order) (use nx in simp_all)
qed

lemma safe_progress: "safe X (progress_eligible_orders ch) (\<lambda>_. True) (\<lambda>_. {})"
  unfolding progress_eligible_orders_def
  by (rule safe_foldA [where Q = "\<lambda>_. True" and Y = "\<lambda>_. {}"]) (simp_all add: safe_progress_status)

section \<open>A cycle and a batch\<close>

lemma safe_enabled:
  assumes "\<And>Z. safe Z m (\<lambda>_. True) (\<lambda>_. {})"
  shows "safe X (if b then thenA m (ret ()) else ret ()) (\<lambda>_. True) (\<lambda>_. {})"
  by (intro safe_if safe_bind [OF assms] safe_ret) simp_all

lemma safe_run_cycle:
  assumes ch: "chance_ok ch" shows "safe X (run_cycle ch st) (\<lambda>_. True) (\<lambda>_. {})"
  unfolding run_cycle_def
  by (intro safe_bind [OF safe_create_customer [OF ch]] safe_bind [OF safe_create_seller [OF ch]]
        safe_bind [OF safe_create_product [OF ch]] safe_bind [OF safe_create_warehouse]
        safe_bind [OF safe_create_inventory [OF ch]] safe_bind [OF safe_create_order [OF ch]]
        safe_bind [OF safe_enabled [OF safe_create_payment [OF ch]]]
        safe_bind [OF safe_enabled [OF safe_create_shipment [OF ch]]]
        safe_bind [OF safe_enabled [OF safe_create_review [OF ch]]] safe_restock [OF ch])

text \<open>The pool's references after the seeding.\<close>

lemma safe_seeded:
  "(\<lambda>i. (''payment_methods'', SId i)) ` set ids \<subseteq> X \<Longrightarrow>
     safe X (on_pool (\<lambda>p. p \<lparr> rp_payment_method_ids := ids \<rparr>)) (\<lambda>_. True) (\<lambda>_. {})"
  "(\<lambda>i. (''carriers'', SId i)) ` set ids \<subseteq> X \<Longrightarrow>
     safe X (on_pool (\<lambda>p. p \<lparr> rp_carrier_ids := ids \<rparr>)) (\<lambda>_. True) (\<lambda>_. {})"
  "category_refs ids \<subseteq> X \<Longrightarrow>
     safe X (on_pool (\<lambda>p. p \<lparr> rp_category_ids := ids \<rparr>)) (\<lambda>_. True) (\<lambda>_. {})"
  by (rule safe_on_pool, auto simp: pool_refs_def category_refs_def)+

lemma safe_seed_pool: "safe X (seed_pool ch) (\<lambda>_. True) (\<lambda>_. {})"
  unfolding seed_pool_def
  by (intro safe_bind [OF safe_seed_payment_methods] safe_bind [OF safe_seeded(1)] safe_bind [OF safe_seed_carriers]
        safe_bind [OF safe_seeded(2)] safe_bind [OF safe_seed_categories] safe_seeded(3)) auto

lemma safe_batch_body:
  assumes ch: "chance_ok ch" shows "safe X (batch_body ch st) (\<lambda>_. True) (\<lambda>_. {})"
  unfolding batch_body_def
  by (intro safe_bind [OF safe_seed_pool] safe_bind [OF safe_repeatA [OF safe_run_cycle [OF ch]]]
        safe_bind [OF safe_flush] safe_progress)

lemma start_batch_inv:
  assumes "db_ok (sm_db s)" and "db_ok (sm_committed s)"
  shows "wp (start_batch st) (\<lambda>_ t. sim_inv t) (\<lambda>_ _. False) s"
  using assms by (simp add: start_batch_def sim_inv_def new_writer_ok empty_pool_def pool_refs_def refs_sound_def)

lemma wp_with_connection:
  assumes "wp body (\<lambda>a t. Q a (t \<lparr> sm_draws := Suc (sm_draws t), sm_committed := sm_db t, sm_now := ch_now ch (sm_draws t) \<rparr>))
      (\<lambda>e t. E e (t \<lparr> sm_db := sm_committed t \<rparr>)) s"
  shows "wp (with_connection ch body) Q E s"
  using assms
  by (auto simp: wp_def with_connection_def bindA_def commit_tx_def draw_def modify_def ret_def
      split: option.splits sum.splits)

end
