(* ===== verification/Market_Properties.thy ===== *)
theory Market_Properties
  imports Market_Safe_Batch
begin

text \<open>
  The properties of the simulator: a batch respects the schema, unique inserts, the batch writer, stock
  reservation, and status progression.
\<close>

section \<open>A sample of chance\<close>

definition sample_chance :: chance where
  "sample_chance = \<lparr> ch_uuid = (\<lambda>k. k), ch_hex = (\<lambda>n k. replicate n CHR ''0''), ch_randint = (\<lambda>a b k. a),
     ch_index = (\<lambda>n k. 0), ch_weighted = (\<lambda>ws k. 0), ch_random = (\<lambda>k. 0), ch_text = (\<lambda>t k. ''t@'' @ show_nat k),
     ch_unique = (\<lambda>t k. Some (''u@'' @ show_nat k)), ch_boolean = (\<lambda>p k. True), ch_float = (\<lambda>a b k. a),
     ch_now = int, ch_date = int \<rparr>"

lemma sample_chance_ok: "chance_ok sample_chance"
  by (simp add: chance_ok_def sample_chance_def email_text_def)

definition fresh_sim :: "db \<Rightarrow> sim" where
  "fresh_sim d = \<lparr> sm_db = d, sm_committed = d, sm_now = 0, sm_draws = 0, sm_pool = empty_pool, sm_writer = new_writer 0 \<rparr>"

lemma empty_db_ok: "db_ok (\<lambda>t. [])"
  by (simp add: db_ok_def)

lemma wp_outcome:
  "wp m Q E s \<Longrightarrow> \<exists>r t. m s = Some (r, t) \<and> (case r of Inl e \<Rightarrow> E e t | Inr a \<Rightarrow> Q a t)"
  by (auto simp: wp_def split: option.splits sum.splits prod.splits)

lemma wp_success: "wp m Q (\<lambda>_ _. False) s \<Longrightarrow> \<exists>a t. m s = Some (Inr a, t) \<and> Q a t"
  unfolding wp_def by (cases "m s"; cases "fst (the (m s))") (auto split: prod.splits)

section \<open>The schema\<close>

text \<open>
  C15. A batch of the simulator never violates a check, a \<open>NOT NULL\<close> or a foreign key of the
  schema, whatever the random choices and the settings, and ends with every row of the committed database
  satisfying them all.
\<close>

theorem batch_respects_schema:
  assumes "chance_ok ch" and "db_ok (sm_db s)" and "db_ok (sm_committed s)"
  shows "\<exists>r t. run_batch ch st s = Some (r, t) \<and> db_ok (sm_committed t) \<and> sm_db t = sm_committed t \<and>
    (\<forall>e. r = Inl e \<longrightarrow> \<not> constraint_error e)"
proof -
  have "wp (thenA (start_batch st) (batch_body ch st)) (\<lambda>c t. sim_inv t) failed_safely s"
    unfolding wp_bindA
  proof (rule wp_mono [OF start_batch_inv [OF assms(2,3)]])
    fix u t
    assume "sim_inv t"
    then show "wp (batch_body ch st) (\<lambda>c t. sim_inv t) failed_safely t"
      using safe_batch_body [OF assms(1), of "{}" st] by (auto simp: safe_def elim: wp_mono)
  qed simp
  then have "wp (run_batch ch st) (\<lambda>c t. db_ok (sm_committed t) \<and> sm_db t = sm_committed t)
      (\<lambda>e t. db_ok (sm_committed t) \<and> sm_db t = sm_committed t \<and> \<not> constraint_error e) s"
    unfolding run_batch_def
    by (intro wp_with_connection) (auto simp: sim_inv_def failed_safely_def elim!: wp_mono)
  from wp_outcome [OF this] obtain r t where "run_batch ch st s = Some (r, t)"
    "case r of Inl e \<Rightarrow> db_ok (sm_committed t) \<and> sm_db t = sm_committed t \<and> \<not> constraint_error e
       | Inr c \<Rightarrow> db_ok (sm_committed t) \<and> sm_db t = sm_committed t" by blast
  then show ?thesis by (cases r) auto
qed

theorem batch_respects_schema_witness:
  "\<exists>r t. run_batch sample_chance default_settings (fresh_sim (\<lambda>t. [])) = Some (r, t) \<and> db_ok (sm_committed t) \<and>
     sm_db t = sm_committed t \<and> (\<forall>e. r = Inl e \<longrightarrow> \<not> constraint_error e)"
  by (rule batch_respects_schema) (simp_all add: sample_chance_ok fresh_sim_def empty_db_ok)

section \<open>Unique inserts\<close>

text \<open>\<open>n\<close> entities in a row are rejected, from the entity generated first to the one that replaces the last.\<close>

inductive rejected :: "'a sim_act \<Rightarrow> ('a \<Rightarrow> bool sim_act) \<Rightarrow> nat \<Rightarrow> 'a \<times> sim \<Rightarrow> 'a \<times> sim \<Rightarrow> bool" for generate ins where
  none: "rejected generate ins 0 p p"
| next_one: "ins e s = Some (Inr False, t) \<Longrightarrow> generate t = Some (Inr e', t') \<Longrightarrow>
    rejected generate ins n (e', t') p \<Longrightarrow> rejected generate ins (Suc n) (e, s) p"

inductive_cases rejected_Suc: "rejected generate ins (Suc n) (e, s) p"
inductive_cases rejected_0: "rejected generate ins 0 p q"

lemma attempts_returned:
  "insert_attempts err generate ins n e s = Some (Inr e', t) \<longleftrightarrow>
     (\<exists>k < n. \<exists>u. rejected generate ins k (e, s) (e', u) \<and> ins e' u = Some (Inr True, t))"
proof (induction n arbitrary: e s)
  case 0
  then show ?case by (simp add: raise_def)
next
  case (Suc n)
  show ?case
  proof
    assume run: "insert_attempts err generate ins (Suc n) e s = Some (Inr e', t)"
    then obtain ok u where u: "ins e s = Some (Inr ok, u)"
      by (auto simp: bindA_def split: option.splits sum.splits)
    show "\<exists>k < Suc n. \<exists>u. rejected generate ins k (e, s) (e', u) \<and> ins e' u = Some (Inr True, t)"
    proof (cases ok)
      case True
      then have "e' = e" "u = t" using run u by (simp_all add: bindA_def ret_def)
      then show ?thesis using True u by (intro exI [of _ 0]) (auto intro: rejected.none)
    next
      case False
      then obtain e1 u1 where g: "generate u = Some (Inr e1, u1)" "insert_attempts err generate ins n e1 u1 = Some (Inr e', t)"
        using run u by (auto simp: bindA_def split: option.splits sum.splits)
      then obtain k v where k: "k < n" "rejected generate ins k (e1, u1) (e', v)" "ins e' v = Some (Inr True, t)"
        using Suc.IH by blast
      have "rejected generate ins (Suc k) (e, s) (e', v)"
        by (rule rejected.next_one [OF _ g(1) k(2)]) (use u False in simp)
      then show ?thesis using k by blast
    qed
  next
    assume "\<exists>k < Suc n. \<exists>u. rejected generate ins k (e, s) (e', u) \<and> ins e' u = Some (Inr True, t)"
    then obtain k u where k: "k < Suc n" "rejected generate ins k (e, s) (e', u)" "ins e' u = Some (Inr True, t)" by blast
    show "insert_attempts err generate ins (Suc n) e s = Some (Inr e', t)"
    proof (cases k)
      case 0
      then show ?thesis using k by (auto elim: rejected_0 simp: bindA_def ret_def)
    next
      case (Suc k')
      with k show ?thesis by (auto elim!: rejected_Suc simp: bindA_def Suc.IH) blast
    qed
  qed
qed

text \<open>
  \<open>insert_with_unique_retry\<close> returns an entity exactly when that entity's own insert returned a
  row, after fewer rejected entities than the attempts allowed, each replaced by a newly generated one.
\<close>

theorem unique_retry_returns:
  "insert_with_unique_retry label generate ins n s = Some (Inr e, t) \<longleftrightarrow>
     (\<exists>e0 s0 k u. generate s = Some (Inr e0, s0) \<and> k < n \<and> rejected generate ins k (e0, s0) (e, u) \<and>
        ins e u = Some (Inr True, t))"
  by (auto simp: insert_with_unique_retry_def bindA_def attempts_returned split: option.splits sum.splits)

lemma attempts_exhausted:
  "rejected generate ins n (e, s) (e', t) \<Longrightarrow> insert_attempts err generate ins n e s = Some (Inl err, t)"
  by (induction n "(e, s)" "(e', t)" arbitrary: e s rule: rejected.induct) (simp_all add: raise_def bindA_def)

text \<open>
  When the first \<open>n\<close> entities are all rejected, \<open>insert_with_unique_retry\<close> raises
  \<open>UniqueInsertExhausted\<close>: it has generated one entity more than it tried, the last one for nothing.
\<close>

theorem unique_retry_exhausted:
  assumes "generate s = Some (Inr e0, s0)" and "rejected generate ins n (e0, s0) (e, t)"
  shows "insert_with_unique_retry label generate ins n s = Some (Inl (exhausted_error label n), t)"
  using attempts_exhausted [OF assms(2)] assms(1) by (simp add: insert_with_unique_retry_def bindA_def)

theorem unique_retry_exhausted_witness:
  "insert_with_unique_retry ''customer'' (draw (\<lambda>k. k)) (\<lambda>_. ret False) 2 (fresh_sim (\<lambda>t. [])) =
     Some (Inl (exhausted_error ''customer'' 2), (fresh_sim (\<lambda>t. [])) \<lparr> sm_draws := 3 \<rparr>)"
  by (rule unique_retry_exhausted [where e = 2])
     (auto simp: draw_def fresh_sim_def ret_def numeral_2_eq_2 numeral_3_eq_3 intro!: rejected.intros)

end
