(* ===== verification/Market_Progress.thy ===== *)
theory Market_Progress
  imports Market_Properties
begin

text \<open>
  What one run of the status progression does to the orders: which move, along which edges, and what the
  history records.
\<close>

section \<open>Edges\<close>

text \<open>The order \<open>r\<close> may move from status \<open>a\<close> to \<open>b\<close> now: one forward step, or a cancellation.\<close>

definition edge :: "int \<Rightarrow> row \<Rightarrow> string \<Rightarrow> string \<Rightarrow> bool" where
  "edge now r a b \<longleftrightarrow>
     list_ex (\<lambda>(st, nx, age, p). st = a \<and> eligible now a age r \<and>
       (b = nx \<or> b = ''CANCELLED'' \<and> 0 < cancel_probability a)) forward_rules"

lemma edge_intro:
  "(a, nx, age, p) \<in> set forward_rules \<Longrightarrow> eligible now a age r \<Longrightarrow>
   b = nx \<or> b = ''CANCELLED'' \<and> 0 < cancel_probability a \<Longrightarrow> edge now r a b"
  by (force simp: edge_def list_ex_iff)

lemma rules_move: "list_all (\<lambda>(st, nx, age, p). st \<noteq> nx \<and> st \<noteq> ''CANCELLED'' \<and> nx \<noteq> ''CANCELLED'' \<and> 0 < age) forward_rules"
  by (simp add: forward_rules_def)

lemma rule_facts:
  assumes "(st, nx, age, p) \<in> set forward_rules"
  shows "st \<noteq> nx" "st \<noteq> ''CANCELLED''" "nx \<noteq> ''CANCELLED''" "0 < age"
  using assms rules_move by (auto simp: list_all_iff)

lemma edge_status: "edge now r a b \<Longrightarrow> col r ''status'' = SText a \<and> a \<noteq> b"
  using rules_move by (fastforce simp: edge_def list_ex_iff list_all_iff eligible_def)

lemma set_status_cols [simp]:
  "col (set_status now b r) ''status'' = SText b" "col (set_status now b r) ''updated_at'' = STime now"
  "col (set_status now b r) ''order_id'' = col r ''order_id''"
  by (simp_all add: set_status_def set_col_def)

section \<open>The invariant\<close>

abbreviation orders_of :: "sim \<Rightarrow> row list" where
  "orders_of s \<equiv> sm_db s ''orders''"

abbreviation history_of :: "sim \<Rightarrow> row list" where
  "history_of s \<equiv> sm_db s ''order_status_history''"

text \<open>The order at position \<open>k\<close> moved, and \<open>h\<close> records it.\<close>

definition logged :: "sim \<Rightarrow> sim \<Rightarrow> nat \<Rightarrow> row \<Rightarrow> bool" where
  "logged s t k h \<longleftrightarrow> (\<exists>i a b. edge (sm_now s) (orders_of s ! k) a b \<and>
     orders_of t ! k = set_status (sm_now s) b (orders_of s ! k) \<and>
     h = history_row i (col (orders_of s ! k) ''order_id'') a b (sm_now s))"

definition cancellations :: "row list \<Rightarrow> nat" where
  "cancellations hs = length (filter (\<lambda>h. col h ''current_status'' = SText ''CANCELLED'') hs)"

definition progressed :: "sim \<Rightarrow> sim \<Rightarrow> counts \<Rightarrow> nat list \<Rightarrow> row list \<Rightarrow> bool" where
  "progressed s t c ks hs \<longleftrightarrow>
     sm_now t = sm_now s \<and> (\<forall>tb. tb \<noteq> ''orders'' \<and> tb \<noteq> ''order_status_history'' \<longrightarrow> sm_db t tb = sm_db s tb) \<and>
     length (orders_of t) = length (orders_of s) \<and> distinct ks \<and> set ks \<subseteq> {..<length (orders_of s)} \<and>
     (\<forall>k < length (orders_of s). k \<notin> set ks \<longrightarrow> orders_of t ! k = orders_of s ! k) \<and>
     history_of t = history_of s @ hs \<and> list_all2 (logged s t) ks hs \<and>
     ct_cancelled c = cancellations hs \<and> ct_advanced c + ct_cancelled c = length hs"

definition ids_distinct :: "sim \<Rightarrow> bool" where
  "ids_distinct s \<longleftrightarrow> distinct (map (\<lambda>r. col r ''order_id'') (orders_of s))"

text \<open>Position \<open>k\<close> was eligible when the progression began.\<close>

definition candidate :: "sim \<Rightarrow> string \<Rightarrow> int \<Rightarrow> sql_value \<Rightarrow> bool" where
  "candidate s st age v \<longleftrightarrow> (\<exists>k < length (orders_of s). col (orders_of s ! k) ''order_id'' = v \<and>
     eligible (sm_now s) st age (orders_of s ! k))"

lemma progressed_start: "progressed s s \<lparr> ct_advanced = 0, ct_cancelled = 0 \<rparr> [] []"
  by (simp add: progressed_def cancellations_def)

lemma progressedD:
  assumes "progressed s t c ks hs"
  shows "sm_now t = sm_now s" "length (orders_of t) = length (orders_of s)" "distinct ks"
    "set ks \<subseteq> {..<length (orders_of s)}" "history_of t = history_of s @ hs" "list_all2 (logged s t) ks hs"
    "ct_cancelled c = cancellations hs" "ct_advanced c + ct_cancelled c = length hs"
    "tb \<noteq> ''orders'' \<Longrightarrow> tb \<noteq> ''order_status_history'' \<Longrightarrow> sm_db t tb = sm_db s tb"
    "k < length (orders_of s) \<Longrightarrow> k \<notin> set ks \<Longrightarrow> orders_of t ! k = orders_of s ! k"
  using assms unfolding progressed_def by blast+

lemma list_all2_left: "list_all2 P xs ys \<Longrightarrow> x \<in> set xs \<Longrightarrow> \<exists>y. P x y"
  by (induction rule: list_all2_induct) auto

lemma progressed_moved:
  assumes "progressed s t c ks hs" and "k \<in> set ks"
  shows "\<exists>a b. edge (sm_now s) (orders_of s ! k) a b \<and> orders_of t ! k = set_status (sm_now s) b (orders_of s ! k)"
  using list_all2_left [OF progressedD(6) [OF assms(1)] assms(2)] unfolding logged_def by blast

lemma progressed_ids:
  assumes "progressed s t c ks hs" and "k < length (orders_of s)"
  shows "col (orders_of t ! k) ''order_id'' = col (orders_of s ! k) ''order_id''"
proof (cases "k \<in> set ks")
  case True
  with progressed_moved [OF assms(1)] obtain b where "orders_of t ! k = set_status (sm_now s) b (orders_of s ! k)"
    by blast
  then show ?thesis by simp
qed (simp add: progressedD(10) [OF assms])

lemma found_candidates:
  assumes P: "progressed s t c ks hs" and rule: "(st, nx, age, p) \<in> set forward_rules"
    and r: "r \<in> set (orders_of t)" "eligible (sm_now t) st age r"
  shows "candidate s st age (col r ''order_id'')"
proof -
  obtain k where k: "k < length (orders_of s)" "r = orders_of t ! k"
    using r(1) progressedD(2) [OF P] by (auto simp: in_set_conv_nth)
  have "k \<notin> set ks"
  proof
    assume "k \<in> set ks"
    with progressed_moved [OF P] obtain b where "r = set_status (sm_now s) b (orders_of s ! k)"
      using k by blast
    then show False
      using r(2) rule_facts(4) [OF rule] progressedD(1) [OF P] by (simp add: eligible_def int_of_def)
  qed
  then have "r = orders_of s ! k" using progressedD(10) [OF P] k by simp
  then show ?thesis using k r(2) progressedD(1) [OF P] unfolding candidate_def by auto
qed

lemma unique_position:
  assumes "ids_distinct s" and "j < length (orders_of s)" and "k < length (orders_of s)"
    and "col (orders_of s ! j) ''order_id'' = col (orders_of s ! k) ''order_id''"
  shows "j = k"
  using assms by (simp add: ids_distinct_def distinct_conv_nth) blast

lemma map_if_position:
  assumes "k < length xs" and "\<And>j. j < length xs \<Longrightarrow> p (xs ! j) \<longleftrightarrow> j = k"
  shows "map (\<lambda>r. if p r then f r else r) xs = xs [k := f (xs ! k)]"
  by (rule nth_equalityI) (auto simp: assms nth_list_update)

text \<open>What the conditional update of a candidate does: one position moves, or none.\<close>

lemma transition_update:
  assumes P: "progressed s t c ks hs" and ids: "ids_distinct s" and cand: "candidate s st age v"
    and rule: "(st, nx, age, p) \<in> set forward_rules"
  obtains (none) "filter (in_status v st) (orders_of t) = []"
    | (one) k where "k < length (orders_of s)" "k \<notin> set ks" "col (orders_of s ! k) ''order_id'' = v"
      "eligible (sm_now s) st age (orders_of s ! k)"
      "\<And>f. map (\<lambda>r. if in_status v st r then f r else r) (orders_of t) = (orders_of t) [k := f (orders_of s ! k)]"
      "filter (in_status v st) (orders_of t) \<noteq> []"
proof -
  obtain k where k: "k < length (orders_of s)" "col (orders_of s ! k) ''order_id'' = v"
    "eligible (sm_now s) st age (orders_of s ! k)"
    using cand by (auto simp: candidate_def)
  have len: "length (orders_of t) = length (orders_of s)" by (rule progressedD(2) [OF P])
  have only: "j = k" if "j < length (orders_of t)" "in_status v st (orders_of t ! j)" for j
    using unique_position [OF ids, of j k] progressed_ids [OF P, of j] that k len by (simp add: in_status_def)
  show thesis
  proof (cases "in_status v st (orders_of t ! k)")
    case False
    have "\<not> in_status v st r" if "r \<in> set (orders_of t)" for r
      using that False only by (auto simp: in_set_conv_nth)
    then have "filter (in_status v st) (orders_of t) = []" by (simp add: filter_empty_conv)
    then show thesis by (rule none)
  next
    case True
    have notin: "k \<notin> set ks"
    proof
      assume "k \<in> set ks"
      with progressed_moved [OF P] obtain a b where ab: "edge (sm_now s) (orders_of s ! k) a b"
        "orders_of t ! k = set_status (sm_now s) b (orders_of s ! k)" by blast
      then show False using edge_status [OF ab(1)] True k(3) by (simp add: in_status_def eligible_def)
    qed
    then have same: "orders_of t ! k = orders_of s ! k" using progressedD(10) [OF P] k by simp
    show thesis
    proof (rule one [OF k(1) notin k(2,3)])
      fix f :: "row \<Rightarrow> row"
      have "map (\<lambda>r. if in_status v st r then f r else r) (orders_of t) = (orders_of t) [k := f (orders_of t ! k)]"
      proof (rule map_if_position)
        show "k < length (orders_of t)" by (simp add: k len)
        show "in_status v st (orders_of t ! j) \<longleftrightarrow> j = k" if "j < length (orders_of t)" for j
          using only [OF that] True by blast
      qed
      then show "map (\<lambda>r. if in_status v st r then f r else r) (orders_of t) = (orders_of t) [k := f (orders_of s ! k)]"
        by (simp add: same)
    next
      show "filter (in_status v st) (orders_of t) \<noteq> []"
        using True k(1) len by (auto simp: filter_empty_conv intro: nth_mem)
    qed
  qed
qed

section \<open>Steps\<close>

lemma wlp_draw_any: "(\<And>a u. u = s \<lparr> sm_draws := Suc (sm_draws s) \<rparr> \<Longrightarrow> Q a u) \<Longrightarrow> wlp (draw f) Q E s"
  by simp

lemma progressed_same:
  assumes "progressed s t c ks hs" and "sm_db u = sm_db t" and "sm_now u = sm_now t"
  shows "progressed s u c ks hs"
proof -
  have "logged s u = logged s t" by (intro ext) (simp only: logged_def assms(2))
  then have "progressed s u c ks hs = progressed s t c ks hs" by (simp only: progressed_def assms(2,3))
  then show ?thesis using assms(1) by simp
qed

definition counted :: "counts \<Rightarrow> string \<Rightarrow> counts" where
  "counted c b = (if b = ''CANCELLED'' then c \<lparr> ct_cancelled := ct_cancelled c + 1 \<rparr>
     else c \<lparr> ct_advanced := ct_advanced c + 1 \<rparr>)"

lemma logged_cong:
  "orders_of u ! k = orders_of t ! k \<Longrightarrow> logged s u k h = logged s t k h"
  by (simp add: logged_def)

text \<open>One more order has moved.\<close>

lemma progressed_step:
  assumes P: "progressed s t c ks hs" and k: "k < length (orders_of s)" "k \<notin> set ks"
    and e: "edge (sm_now s) (orders_of s ! k) a b"
    and u: "sm_now u = sm_now t" "orders_of u = (orders_of t) [k := set_status (sm_now s) b (orders_of s ! k)]"
      "history_of u = history_of t @ [history_row i (col (orders_of s ! k) ''order_id'') a b (sm_now s)]"
      "\<And>tb. tb \<noteq> ''orders'' \<Longrightarrow> tb \<noteq> ''order_status_history'' \<Longrightarrow> sm_db u tb = sm_db t tb"
  shows "progressed s u (counted c b) (ks @ [k]) (hs @ [history_row i (col (orders_of s ! k) ''order_id'') a b (sm_now s)])"
proof -
  note D = progressedD [OF P]
  let ?h = "history_row i (col (orders_of s ! k) ''order_id'') a b (sm_now s)"
  have at: "orders_of u ! k = set_status (sm_now s) b (orders_of s ! k)" using k D(2) by (simp add: u(2))
  have off: "orders_of u ! j = orders_of t ! j" if "j \<noteq> k" for j using that by (simp add: u(2))
  have old: "list_all2 (logged s u) ks hs"
  proof (rule list.rel_mono_strong [OF D(6)])
    fix j h
    assume "j \<in> set ks" "logged s t j h"
    then show "logged s u j h" using k(2) logged_cong [OF off] by metis
  qed
  have new: "logged s u k ?h" unfolding logged_def using e at by blast
  have h: "col ?h ''current_status'' = SText b" by (simp add: history_row_def)
  show ?thesis
    unfolding progressed_def
  proof (intro conjI allI impI)
    show "list_all2 (logged s u) (ks @ [k]) (hs @ [?h])" by (intro list_all2_appendI old) (simp add: new)
    show "ct_cancelled (counted c b) = cancellations (hs @ [?h])"
      using D(7) h by (simp add: counted_def cancellations_def)
    show "ct_advanced (counted c b) + ct_cancelled (counted c b) = length (hs @ [?h])"
      using D(8) by (simp add: counted_def)
    show "distinct (ks @ [k])" using D(3) k by simp
    show "set (ks @ [k]) \<subseteq> {..<length (orders_of s)}" using D(4) k by simp
    show "orders_of u ! j = orders_of s ! j" if "j < length (orders_of s)" "j \<notin> set (ks @ [k])" for j
      using that D(10) off by simp
    show "length (orders_of u) = length (orders_of s)" using D(2) by (simp add: u(2))
    show "history_of u = history_of s @ hs @ [?h]" using D(5) by (simp add: u(3))
    show "sm_db u tb = sm_db s tb" if "tb \<noteq> ''orders'' \<and> tb \<noteq> ''order_status_history''" for tb
      using that u(4) D(9) by simp
    show "sm_now u = sm_now s" using D(1) u(1) by simp
  qed
qed

lemma wlp_exec_update:
  assumes "Q (length (filter p (sm_db s tb))) (s \<lparr> sm_db := (sm_db s)(tb := map (\<lambda>r. if p r then f r else r) (sm_db s tb)) \<rparr>)"
    and "\<And>e. E e s"
  shows "wlp (exec_update tb p f) Q E s"
  using assms by (simp add: wlp_def exec_update_def update_statement_def)

lemma wlp_plain_insert:
  assumes "Q [r] (s \<lparr> sm_db := (sm_db s)(tb := sm_db s tb @ [r]) \<rparr>)" and "\<And>e. E e s"
  shows "wlp (exec_insert tb No_clause [r]) Q E s"
  using assms by (auto simp: wlp_def exec_insert_def insert_statement_def insert_row_def split: sum.split if_splits)

text \<open>What a transition of a candidate does to the progress; \<open>ok\<close> is its result.\<close>

lemma transition_progress:
  assumes P: "progressed s t c ks hs" and ids: "ids_distinct s" and cand: "candidate s st age v"
    and rule: "(st, nx, age, p) \<in> set forward_rules" and b: "b = nx \<or> b = ''CANCELLED'' \<and> 0 < cancel_probability st"
  shows "wlp (transition ch v st b) (\<lambda>ok u. \<exists>ks' hs'. progressed s u (if ok then counted c b else c) ks' hs')
    (\<lambda>_ _. True) t"
  unfolding transition_def wlp_bindA wlp_get progressedD(1) [OF P]
proof (cases rule: transition_update [OF P ids cand rule, case_names none one])
  case none
  then have same: "map (\<lambda>r. if in_status v st r then f r else r) (orders_of t) = orders_of t" for f
    by (auto simp: filter_empty_conv intro: map_idI)
  show "wlp (exec_update ''orders'' (in_status v st) (set_status (sm_now s) b))
      (\<lambda>n. wlp (if n = 0 then ret False else bindA (draw (ch_uuid ch)) (\<lambda>i. thenA (exec_insert ''order_status_history''
          No_clause [history_row i v st b (sm_now s)]) (ret True)))
        (\<lambda>ok u. \<exists>ks' hs'. progressed s u (if ok then counted c b else c) ks' hs') (\<lambda>_ _. True)) (\<lambda>_ _. True) t"
    by (rule wlp_exec_update) (use progressed_same [OF P] none in \<open>auto simp: same\<close>)
next
  case (one k)
  have e: "edge (sm_now s) (orders_of s ! k) st b" by (rule edge_intro [OF rule one(4) b])
  let ?d = "(sm_db t)(''orders'' := (orders_of t) [k := set_status (sm_now s) b (orders_of s ! k)])"
  have step: "\<exists>ks' hs'. progressed s u (counted c b) ks' hs'"
    if "sm_now u = sm_now t" "sm_db u = ?d (''order_status_history'' := history_of t @ [history_row i v st b (sm_now s)])" for u i
    using progressed_step [OF P one(1,2) e that(1), of i] that(2) one(3) by auto
  show "wlp (exec_update ''orders'' (in_status v st) (set_status (sm_now s) b))
      (\<lambda>n. wlp (if n = 0 then ret False else bindA (draw (ch_uuid ch)) (\<lambda>i. thenA (exec_insert ''order_status_history''
          No_clause [history_row i v st b (sm_now s)]) (ret True)))
        (\<lambda>ok u. \<exists>ks' hs'. progressed s u (if ok then counted c b else c) ks' hs') (\<lambda>_ _. True)) (\<lambda>_ _. True) t"
  proof (rule wlp_exec_update)
    let ?t = "t \<lparr> sm_db := (sm_db t)(''orders'' := map (\<lambda>r. if in_status v st r then set_status (sm_now s) b r else r) (orders_of t)) \<rparr>"
    have n: "length (filter (in_status v st) (orders_of t)) \<noteq> 0" using one(6) by simp
    show "wlp (if length (filter (in_status v st) (orders_of t)) = 0 then ret False
        else bindA (draw (ch_uuid ch)) (\<lambda>i. thenA (exec_insert ''order_status_history''
          No_clause [history_row i v st b (sm_now s)]) (ret True)))
        (\<lambda>ok u. \<exists>ks' hs'. progressed s u (if ok then counted c b else c) ks' hs') (\<lambda>_ _. True) ?t"
      unfolding if_not_P [OF n] wlp_bindA wlp_draw one(5)
      by (rule wlp_plain_insert) (auto intro!: step)
  qed simp
qed

section \<open>The whole progression\<close>

lemma wlp_foldA:
  assumes "\<And>x n b t. x \<in> set xs \<Longrightarrow> I n b t \<Longrightarrow> wlp (f b x) (I (n + d)) E t" and "I n b s"
  shows "wlp (foldA f b xs) (I (n + d * length xs)) E s"
  using assms
proof (induction xs arbitrary: n b s)
  case Nil
  then show ?case by simp
next
  case (Cons x xs)
  have body: "wlp (f b x) (I (n + d)) E s" using Cons.prems by simp
  show ?case
    unfolding foldA.simps wlp_bindA
  proof (rule wlp_mono [OF body])
    fix b' t
    assume "I (n + d) b' t"
    then have "wlp (foldA f b' xs) (I (n + d + d * length xs)) E t" using Cons.prems(1) by (intro Cons.IH) auto
    then show "wlp (foldA f b' xs) (I (n + d * length (x # xs))) E t" by (simp add: ac_simps)
  qed simp
qed

definition progress_inv :: "sim \<Rightarrow> nat \<Rightarrow> counts \<Rightarrow> sim \<Rightarrow> bool" where
  "progress_inv s n c t \<longleftrightarrow> (\<exists>ks hs. progressed s t c ks hs \<and> length hs \<le> n)"

lemma progress_inv_counted:
  "progressed s u (counted c b) ks hs \<Longrightarrow> ct_advanced c + ct_cancelled c \<le> n \<Longrightarrow> progress_inv s (Suc n) (counted c b) u"
  unfolding progress_inv_def
  using progressedD(8) [of s u "counted c b" ks hs] by (intro exI [of _ ks] exI [of _ hs]) (auto simp: counted_def split: if_splits)

lemma progress_inv_mono: "progress_inv s n c t \<Longrightarrow> n \<le> m \<Longrightarrow> progress_inv s m c t"
  unfolding progress_inv_def by (meson order_trans)

lemma progress_order_step:
  assumes ch: "chance_ok ch" and ids: "ids_distinct s" and rule: "(st, nx, age, p) \<in> set forward_rules"
    and cand: "candidate s st age v" and I: "progress_inv s n c t"
  shows "wlp (progress_order ch st nx p c v) (progress_inv s (n + 1)) (\<lambda>_ _. True) t"
proof -
  let ?t = "t \<lparr> sm_draws := Suc (sm_draws t) \<rparr>"
  obtain ks hs where P: "progressed s t c ks hs" and n: "ct_advanced c + ct_cancelled c \<le> n"
    using I progressedD(8) unfolding progress_inv_def by metis
  have Pt: "progressed s ?t c ks hs" by (rule progressed_same [OF P]) simp_all
  have len: "length hs \<le> n" using n progressedD(8) [OF P] by simp
  have stay: "progress_inv s (Suc n) c u" if "progressed s u c ks' hs'" for u ks' hs'
    unfolding progress_inv_def using that progressedD(8) [OF that] n by (intro exI [of _ ks'] exI [of _ hs']) simp
  have move: "wlp (transition ch v st b) (\<lambda>ok u. progress_inv s (Suc n) (if ok then counted c b else c) u) (\<lambda>_ _. True) ?t"
    if "b = nx \<or> b = ''CANCELLED'' \<and> 0 < cancel_probability st" for b
    by (rule wlp_mono [OF transition_progress [OF Pt ids cand rule that]])
       (auto intro: stay progress_inv_counted [OF _ n])
  have roll: "0 \<le> ch_random ch k" for k using ch by (simp add: chance_ok_def)
  have cancel: "counted c ''CANCELLED'' = c \<lparr> ct_cancelled := ct_cancelled c + 1 \<rparr>" by (simp add: counted_def)
  have forward: "counted c nx = c \<lparr> ct_advanced := ct_advanced c + 1 \<rparr>"
    using rule_facts(3) [OF rule] by (simp add: counted_def)
  show ?thesis
    unfolding progress_order_def wlp_bindA wlp_draw
    using move [of "''CANCELLED''"] move [of nx] roll [of "sm_draws t"] stay [OF Pt]
    unfolding cancel forward by (auto elim: wlp_mono)
qed

lemma progress_status_step:
  assumes ch: "chance_ok ch" and ids: "ids_distinct s" and rule: "rule \<in> set forward_rules" and I: "progress_inv s n c t"
  shows "wlp (progress_status ch c rule) (progress_inv s (n + 15)) (\<lambda>_ _. True) t"
proof -
  obtain st nx age p where r: "rule = (st, nx, age, p)" by (cases rule)
  obtain ks hs where P: "progressed s t c ks hs" using I by (auto simp: progress_inv_def)
  let ?ids = "map (\<lambda>r. col r ''order_id'') (take candidates_per_status_per_tick
    (sort_key (\<lambda>r. int_of (col r ''updated_at'')) (filter (eligible (sm_now t) st age) (orders_of t))))"
  have cand: "candidate s st age v" if "v \<in> set ?ids" for v
    using that by (rule eligible_ids) (use found_candidates [OF P rule [unfolded r]] in simp)
  have "wlp (foldA (progress_order ch st nx p) c ?ids) (progress_inv s (n + 1 * length ?ids)) (\<lambda>_ _. True) t"
    by (rule wlp_foldA [where I = "progress_inv s"], rule progress_order_step [OF ch ids rule [unfolded r] cand])
       (simp_all add: I)
  then have "wlp (foldA (progress_order ch st nx p) c ?ids) (progress_inv s (n + 15)) (\<lambda>_ _. True) t"
    by (rule wlp_mono) (auto intro: progress_inv_mono simp: candidates_per_status_per_tick_def)
  then show ?thesis
    by (simp add: r progress_status_def find_eligible_def)
qed

text \<open>
  C16. One run of the status progression moves an order at most once, along an allowed edge (a
  forward step, or a cancellation where the status can be cancelled) and only when it was old enough; every
  move has its own history row with the old and the new status, the counts returned are the numbers of
  moves, at most 60 orders move, and nothing else in the database changes.
\<close>

theorem orders_progress_one_edge:
  assumes "chance_ok ch" and "ids_distinct s" and "progress_eligible_orders ch s = Some (Inr c, t)"
  shows "\<exists>ks hs. progressed s t c ks hs \<and> length ks \<le> 60"
proof -
  have "progress_inv s 0 \<lparr> ct_advanced = 0, ct_cancelled = 0 \<rparr> s"
    using progressed_start [of s] by (force simp: progress_inv_def)
  then have "wlp (progress_eligible_orders ch) (progress_inv s (0 + 15 * length forward_rules)) (\<lambda>_ _. True) s"
    unfolding progress_eligible_orders_def
    by (intro wlp_foldA [where I = "progress_inv s"] progress_status_step [OF assms(1,2)])
  from wlp_Inr [OF this assms(3)] obtain ks hs where P: "progressed s t c ks hs" "length hs \<le> 60"
    by (auto simp: progress_inv_def forward_rules_def)
  moreover have "length ks = length hs" using progressedD(6) [OF P(1)] by (rule list_all2_lengthD)
  ultimately show ?thesis by auto
qed

definition sample_order :: "nat \<Rightarrow> string \<Rightarrow> int \<Rightarrow> row" where
  "sample_order i st at =
     order_row \<lparr> od_order_id = i, od_order_number = ''ORD'' @ show_nat i, od_customer_id = 1, od_status = st,
       od_total_amount = 100, od_shipping_amount = 10, od_created_at = 0, od_updated_at = at \<rparr>"

definition sample_progress :: sim where
  "sample_progress = (fresh_sim ((\<lambda>t. [])(''orders'' := [sample_order 7 ''PENDING'' 0, sample_order 8 ''SHIPPED'' 0,
     sample_order 9 ''DELIVERED'' 0], ''customers'' := [[(''customer_id'', SId 1)]])) \<lparr> sm_now := 400000000 \<rparr>)"

lemma sample_progress_run:
  "map_option fst (progress_eligible_orders sample_chance sample_progress) = Some (Inr \<lparr> ct_advanced = 1, ct_cancelled = 1 \<rparr>)"
  by code_simp

theorem orders_progress_one_edge_witness:
  "\<exists>t ks hs. progress_eligible_orders sample_chance sample_progress = Some (Inr \<lparr> ct_advanced = 1, ct_cancelled = 1 \<rparr>, t) \<and>
     progressed sample_progress t \<lparr> ct_advanced = 1, ct_cancelled = 1 \<rparr> ks hs \<and> length ks \<le> 60"
proof -
  obtain t where t: "progress_eligible_orders sample_chance sample_progress = Some (Inr \<lparr> ct_advanced = 1, ct_cancelled = 1 \<rparr>, t)"
    using sample_progress_run by (auto simp: map_option_eq_Some)
  have "ids_distinct sample_progress"
    by (simp add: ids_distinct_def sample_progress_def fresh_sim_def sample_order_def row_keys)
  from orders_progress_one_edge [OF sample_chance_ok this t] t show ?thesis by blast
qed

end
