(* ===== verification/Market_Writer.thy ===== *)
theory Market_Writer
  imports Market_Progress
begin

text \<open>
  The batch writer: the number of pending rows, and what becomes of every buffered row.
\<close>

section \<open>Rows that made it\<close>

text \<open>The table holds the row, or a row with the same value of one of the table's keys.\<close>

definition covered :: "db \<Rightarrow> string \<Rightarrow> row \<Rightarrow> bool" where
  "covered d tb r \<longleftrightarrow> r \<in> set (d tb) \<or> list_ex (clashes d tb r) (keys_of tb)"

definition appends :: "db \<Rightarrow> db \<Rightarrow> bool" where
  "appends d d' \<longleftrightarrow> (\<forall>tb. \<exists>xs. d' tb = d tb @ xs)"

lemma appends_refl [simp]: "appends d d"
  by (simp add: appends_def)

lemma appends_trans: "appends d d' \<Longrightarrow> appends d' d'' \<Longrightarrow> appends d d''"
  unfolding appends_def by (metis append.assoc)

lemma appends_upd [simp]: "appends d (d(tb := d tb @ xs))"
  by (simp add: appends_def)

lemma covered_appends: "covered d tb r \<Longrightarrow> appends d d' \<Longrightarrow> covered d' tb r"
proof -
  assume c: "covered d tb r" and "appends d d'"
  then obtain xs where "d' tb = d tb @ xs" by (auto simp: appends_def)
  then show ?thesis using c by (auto simp: covered_def clashes_def list_ex_iff)
qed

lemma insert_rows_covers:
  "insert_rows d tb Any_conflict rs = Inr (d', ins) \<Longrightarrow>
   (\<exists>xs. d' = d(tb := d tb @ xs)) \<and> (\<forall>r \<in> set rs. covered d' tb r)"
proof (induction rs arbitrary: d ins)
  case Nil
  then have "d' = d(tb := d tb @ [])" by simp
  then show ?case by (metis empty_iff empty_set)
next
  case (Cons r rs)
  obtain d1 b where one: "insert_row d tb Any_conflict r = Inr (d1, b)"
    using Cons.prems by (auto simp: bindE_eq_Inr_iff)
  with Cons.prems obtain ins1 where rest: "insert_rows d1 tb Any_conflict rs = Inr (d', ins1)"
    by (auto simp: bindE_eq_Inr_iff)
  have d1: "(\<exists>xs. d1 = d(tb := d tb @ xs)) \<and> covered d1 tb r"
  proof -
    have "d1 = d(tb := d tb @ (if b then [r] else []))"
      using one by (auto simp: insert_row_def split: if_splits)
    moreover have "covered d1 tb r"
      using one by (auto simp: insert_row_def covered_def split: if_splits)
    ultimately show ?thesis by blast
  qed
  from Cons.IH [OF rest] obtain xs where xs: "d' = d1(tb := d1 tb @ xs)" "\<forall>r \<in> set rs. covered d' tb r" by blast
  then have "appends d1 d'" by simp
  then have "covered d' tb r" using d1 covered_appends by blast
  moreover have "\<exists>ys. d' = d(tb := d tb @ ys)" using d1 xs(1) by auto
  ultimately show ?case using xs(2) unfolding list.set by blast
qed

lemma wlp_insert_covers:
  "wlp (exec_insert tb Any_conflict rs) (\<lambda>ins u. \<exists>xs. u = s \<lparr> sm_db := (sm_db s)(tb := sm_db s tb @ xs) \<rparr> \<and>
     (\<forall>r \<in> set rs. covered (sm_db u) tb r)) (\<lambda>_ _. True) s"
  using insert_rows_covers
  by (fastforce simp: wlp_def exec_insert_def insert_statement_def bindE_eq_Inr_iff split: sum.splits prod.splits if_splits
      elim!: bindE.elims)

section \<open>Flushing\<close>

text \<open>The rows buffered for the tables, as the statement inserts them.\<close>

definition buffered :: "writer \<Rightarrow> string \<Rightarrow> row list" where
  "buffered w tb = map (zip (lookup_columns w tb)) (lookup_rows w tb)"

definition same_but_rows :: "sim \<Rightarrow> sim \<Rightarrow> bool" where
  "same_but_rows s u \<longleftrightarrow> bw_columns (sm_writer u) = bw_columns (sm_writer s) \<and> bw_pending (sm_writer u) = bw_pending (sm_writer s) \<and>
     bw_threshold (sm_writer u) = bw_threshold (sm_writer s) \<and> map fst (bw_rows (sm_writer u)) = map fst (bw_rows (sm_writer s))"

definition flushed :: "string set \<Rightarrow> sim \<Rightarrow> sim \<Rightarrow> bool" where
  "flushed T s u \<longleftrightarrow> same_but_rows s u \<and> appends (sm_db s) (sm_db u) \<and>
     (\<forall>tb \<in> T. lookup_rows (sm_writer u) tb = [] \<and> (\<forall>r \<in> set (buffered (sm_writer s) tb). covered (sm_db u) (bare tb) r)) \<and>
     (\<forall>tb. tb \<notin> T \<longrightarrow> lookup_rows (sm_writer u) tb = lookup_rows (sm_writer s) tb) \<and>
     (\<forall>tb. tb \<notin> bare ` T \<longrightarrow> sm_db u tb = sm_db s tb)"

lemma buffered_cong:
  "lookup_rows u tb = lookup_rows w tb \<Longrightarrow> bw_columns u = bw_columns w \<Longrightarrow> buffered u tb = buffered w tb"
  by (simp add: buffered_def lookup_columns_def)

lemma flushed_trans:
  assumes "flushed T s u" and "flushed T' u v"
  shows "flushed (T \<union> T') s v"
proof -
  have cols: "bw_columns (sm_writer u) = bw_columns (sm_writer s)" using assms(1) by (simp add: flushed_def same_but_rows_def)
  show ?thesis
    unfolding flushed_def
  proof (intro conjI ballI allI impI)
    show "same_but_rows s v" using assms by (simp add: flushed_def same_but_rows_def)
    show "appends (sm_db s) (sm_db v)" using assms by (auto simp: flushed_def intro: appends_trans)
    fix tb
    show "lookup_rows (sm_writer v) tb = lookup_rows (sm_writer s) tb" if "tb \<notin> T \<union> T'"
      using that assms by (simp add: flushed_def)
    show "sm_db v tb = sm_db s tb" if "tb \<notin> bare ` (T \<union> T')"
      using that assms by (auto simp: flushed_def image_Un)
    assume T: "tb \<in> T \<union> T'"
    show "lookup_rows (sm_writer v) tb = []" using T assms by (cases "tb \<in> T'") (auto simp: flushed_def)
    fix r
    assume r: "r \<in> set (buffered (sm_writer s) tb)"
    show "covered (sm_db v) (bare tb) r"
    proof (cases "tb \<in> T")
      case True
      then show ?thesis using assms r by (auto simp: flushed_def intro: covered_appends)
    next
      case False
      then have "buffered (sm_writer u) tb = buffered (sm_writer s) tb"
        using assms(1) cols by (intro buffered_cong) (simp_all add: flushed_def)
      then show ?thesis using assms(2) r T False by (auto simp: flushed_def)
    qed
  qed
qed

lemma keys_update_old: "k \<in> fst ` set xs \<Longrightarrow> map fst (AList.update k v xs) = map fst xs"
  by (induction xs) auto

lemma key_updated [simp]: "k \<in> fst ` set (AList.update k v xs)"
  by (metis dict_update_mem fst_conv image_eqI)

lemma wlp_flush_tables: "wlp (flush_tables ts) (\<lambda>_ u. flushed (set ts) s u) (\<lambda>_ _. True) s"
proof (induction ts arbitrary: s)
  case Nil
  then show ?case by (simp add: flushed_def same_but_rows_def)
next
  case (Cons t ts)
  have rest: "wlp (flush_tables ts) (\<lambda>_ v. flushed (set (t # ts)) s v) (\<lambda>_ _. True) u" if "flushed {t} s u" for u
    by (rule wlp_mono [OF Cons.IH]) (use flushed_trans [OF that] in simp_all)
  let ?w = "sm_writer s"
  show ?case
  proof (cases "lookup_rows ?w t = []")
    case True
    then have "flushed {t} s s" by (simp add: flushed_def same_but_rows_def buffered_def)
    then show ?thesis using rest True by simp
  next
    case False
    show ?thesis
      unfolding flush_tables.simps wlp_bindA wlp_get if_not_P [OF False]
    proof (rule wlp_mono [OF wlp_insert_covers])
      fix ins u
      assume "\<exists>xs. u = s \<lparr> sm_db := (sm_db s)(bare t := sm_db s (bare t) @ xs) \<rparr> \<and>
        (\<forall>r \<in> set (map (zip (lookup_columns ?w t)) (lookup_rows ?w t)). covered (sm_db u) (bare t) r)"
      then obtain xs where u: "u = s \<lparr> sm_db := (sm_db s)(bare t := sm_db s (bare t) @ xs) \<rparr>"
        "\<forall>r \<in> set (buffered ?w t). covered (sm_db u) (bare t) r"
        unfolding buffered_def by blast
      have "t \<in> fst ` set (bw_rows ?w)"
        using rows_registered [OF False] by (auto simp: map_of_eq_None_iff)
      then have "flushed {t} s (u \<lparr> sm_writer := clear_rows t (sm_writer u) \<rparr>)"
        using u by (auto simp: flushed_def same_but_rows_def clear_rows_def keys_update_old lookup_rows_def dict_simps)
      then show "wlp (modify (\<lambda>s. s \<lparr> sm_writer := clear_rows t (sm_writer s) \<rparr>)) (\<lambda>_. wlp (flush_tables ts)
          (\<lambda>_ v. flushed (set (t # ts)) s v) (\<lambda>_ _. True)) (\<lambda>_ _. True) u"
        by (simp only: wlp_modify rest)
    qed simp
  qed
qed

section \<open>The count of pending rows\<close>

definition buffered_rows :: "writer \<Rightarrow> nat" where
  "buffered_rows w = sum_list (map (\<lambda>t. length (lookup_rows w t)) (map fst (bw_rows w)))"

definition writer_counts :: "writer \<Rightarrow> bool" where
  "writer_counts w \<longleftrightarrow> distinct (map fst (bw_rows w)) \<and> bw_pending w = int (buffered_rows w)"

lemma buffered_rows_0: "buffered_rows w = 0 \<longleftrightarrow> (\<forall>t. lookup_rows w t = [])"
proof
  assume z: "buffered_rows w = 0"
  show "\<forall>t. lookup_rows w t = []"
  proof
    fix t
    show "lookup_rows w t = []"
    proof (rule ccontr)
      assume n: "lookup_rows w t \<noteq> []"
      then have "t \<in> set (map fst (bw_rows w))" using rows_registered [OF n] by (auto simp: map_of_eq_None_iff)
      then show False using z n by (auto simp: buffered_rows_def)
    qed
  qed
qed (simp add: buffered_rows_def)

lemma counts_flushed:
  assumes "writer_counts (sm_writer s)" and "flushed (set (map fst (bw_rows (sm_writer s)))) s u"
  shows "lookup_rows (sm_writer u) tb = []"
proof (cases "tb \<in> set (map fst (bw_rows (sm_writer s)))")
  case True
  then show ?thesis using assms(2) unfolding flushed_def by blast
next
  case False
  then have "lookup_rows (sm_writer s) tb = []"
    using rows_registered [of "sm_writer s" tb] by (auto simp: map_of_eq_None_iff)
  then show ?thesis using assms(2) False by (simp add: flushed_def)
qed

lemma lookup_rows_pending [simp]: "lookup_rows (w \<lparr> bw_pending := n \<rparr>) t = lookup_rows w t"
  by (simp add: lookup_rows_def)

text \<open>A flush, when it returns: nothing stays buffered, and every row is in the committed table or clashed.\<close>

lemma wlp_writer_flush:
  assumes "writer_counts (sm_writer s)"
  shows "wlp (writer_flush ch) (\<lambda>_ t. (\<forall>tb. lookup_rows (sm_writer t) tb = []) \<and> writer_counts (sm_writer t) \<and>
      bw_pending (sm_writer t) = 0 \<and> bw_threshold (sm_writer t) = bw_threshold (sm_writer s) \<and>
      bw_columns (sm_writer t) = bw_columns (sm_writer s) \<and> map fst (bw_rows (sm_writer t)) = map fst (bw_rows (sm_writer s)) \<and>
      (\<forall>tb. tb \<notin> bare ` set (map fst (bw_rows (sm_writer s))) \<longrightarrow> sm_db t tb = sm_db s tb) \<and>
      appends (sm_db s) (sm_db t) \<and> (bw_pending (sm_writer s) \<noteq> 0 \<longrightarrow> sm_committed t = sm_db t) \<and>
      (\<forall>tb. \<forall>r \<in> set (buffered (sm_writer s) tb). covered (sm_db t) (bare tb) r)) (\<lambda>_ _. True) s"
proof (cases "bw_pending (sm_writer s) = 0")
  case True
  then have none: "lookup_rows (sm_writer s) tb = []" for tb
    using assms buffered_rows_0 by (simp add: writer_counts_def)
  then show ?thesis using True assms by (simp add: writer_flush_def buffered_def)
next
  case False
  let ?T = "set (map fst (bw_rows (sm_writer s)))"
  show ?thesis
    unfolding writer_flush_def wlp_bindA wlp_get if_not_P [OF False]
  proof (rule wlp_mono [OF wlp_flush_tables])
    fix a u
    assume f: "flushed ?T s u"
    note empty = counts_flushed [OF assms f]
    have rows: "covered (sm_db u) (bare tb) r" if "r \<in> set (buffered (sm_writer s) tb)" for tb r
    proof (cases "tb \<in> ?T")
      case True
      then show ?thesis using f that unfolding flushed_def by blast
    next
      case False
      then have "lookup_rows (sm_writer s) tb = []"
        using rows_registered [of "sm_writer s" tb] by (auto simp: map_of_eq_None_iff)
      then show ?thesis using that by (simp add: buffered_def)
    qed
    have "distinct (map fst (bw_rows (sm_writer u)))" using f assms by (simp add: flushed_def same_but_rows_def writer_counts_def)
    then show "wlp (commit_tx ch) (\<lambda>_. wlp (modify (\<lambda>s. s \<lparr> sm_writer := (sm_writer s) \<lparr> bw_pending := 0 \<rparr> \<rparr>))
        (\<lambda>_ t. (\<forall>tb. lookup_rows (sm_writer t) tb = []) \<and> writer_counts (sm_writer t) \<and>
      bw_pending (sm_writer t) = 0 \<and> bw_threshold (sm_writer t) = bw_threshold (sm_writer s) \<and>
      bw_columns (sm_writer t) = bw_columns (sm_writer s) \<and> map fst (bw_rows (sm_writer t)) = map fst (bw_rows (sm_writer s)) \<and>
      (\<forall>tb. tb \<notin> bare ` set (map fst (bw_rows (sm_writer s))) \<longrightarrow> sm_db t tb = sm_db s tb) \<and>
      appends (sm_db s) (sm_db t) \<and> (bw_pending (sm_writer s) \<noteq> 0 \<longrightarrow> sm_committed t = sm_db t) \<and>
      (\<forall>tb. \<forall>r \<in> set (buffered (sm_writer s) tb). covered (sm_db t) (bare tb) r)) (\<lambda>_ _. True)) (\<lambda>_ _. True) u"
      using f rows empty
      by (simp add: commit_tx_def flushed_def same_but_rows_def writer_counts_def buffered_rows_def)
  qed simp
qed

text \<open>
  C18. A flush that returns leaves nothing buffered and commits: every buffered row is in its
  table of the committed database, unless that table holds a row with the same value of one of its keys (so a
  second payment of an order, say, is dropped without an error).
\<close>

theorem flush_writes_every_row:
  assumes "writer_counts (sm_writer s)" and "bw_pending (sm_writer s) \<noteq> 0" and "writer_flush ch s = Some (Inr (), t)"
    and "r \<in> set (buffered (sm_writer s) tb)"
  shows "covered (sm_committed t) (bare tb) r \<and> lookup_rows (sm_writer t) tb = [] \<and> bw_pending (sm_writer t) = 0"
  using wlp_Inr [OF wlp_writer_flush [OF assms(1)] assms(3)] assms(2,4) by simp

section \<open>Adding\<close>

lemma sum_absent:
  "t \<notin> set ks \<Longrightarrow> sum_list (map (\<lambda>k. length (if k = t then a else f k)) ks) = sum_list (map (\<lambda>k. length (f k)) ks)"
  by (induction ks) auto

lemma sum_present:
  "distinct ks \<Longrightarrow> t \<in> set ks \<Longrightarrow>
   sum_list (map (\<lambda>k. length (if k = t then f t @ [v] else f k)) ks) = Suc (sum_list (map (\<lambda>k. length (f k)) ks))"
  by (induction ks) (auto simp: sum_absent)

lemma buffered_rows_buffer:
  assumes "distinct (map fst (bw_rows w))"
  shows "buffered_rows (buffer_row t cs vs w) = Suc (buffered_rows w)" "distinct (map fst (bw_rows (buffer_row t cs vs w)))"
    "bw_pending (buffer_row t cs vs w) = bw_pending w + 1" "bw_threshold (buffer_row t cs vs w) = bw_threshold w"
proof -
  show "bw_pending (buffer_row t cs vs w) = bw_pending w + 1" "bw_threshold (buffer_row t cs vs w) = bw_threshold w"
    by (simp_all add: buffer_row_def Let_def)
  have keys: "map fst (bw_rows (buffer_row t cs vs w)) =
      (if map_of (bw_rows w) t = None then map fst (bw_rows w) @ [t] else map fst (bw_rows w))"
    by (auto simp: buffer_row_def Let_def update_keys map_of_eq_None_iff)
  show "distinct (map fst (bw_rows (buffer_row t cs vs w)))"
    using assms unfolding keys by (auto simp: map_of_eq_None_iff)
  show "buffered_rows (buffer_row t cs vs w) = Suc (buffered_rows w)"
  proof (cases "map_of (bw_rows w) t = None")
    case True
    then have none: "lookup_rows w t = []" "t \<notin> set (map fst (bw_rows w))"
      by (simp add: lookup_rows_def, use True in \<open>simp add: map_of_eq_None_iff\<close>)
    show ?thesis
      unfolding buffered_rows_def keys lookup_rows_buffer if_P [OF True] map_append sum_list_append sum_absent [OF none(2)]
      by (simp add: none)
  next
    case False
    then have t: "t \<in> set (map fst (bw_rows w))" by (auto simp: map_of_eq_None_iff)
    show ?thesis
      unfolding buffered_rows_def keys lookup_rows_buffer if_not_P [OF False]
      by (rule sum_present [OF assms t])
  qed
qed

text \<open>
  After \<open>BatchWriter.add\<close> the pending count is the number of buffered rows, and it stays
  below the flush threshold.
\<close>

theorem writer_add_bounded:
  assumes "writer_counts (sm_writer s)" and "0 < bw_threshold (sm_writer s)" and "writer_add ch tb cs vs s = Some (Inr (), t)"
  shows "writer_counts (sm_writer t) \<and> bw_pending (sm_writer t) < bw_threshold (sm_writer t)"
proof -
  let ?s = "s \<lparr> sm_writer := buffer_row tb cs vs (sm_writer s) \<rparr>"
  have counts: "writer_counts (sm_writer ?s)"
    using assms(1) buffered_rows_buffer [of "sm_writer s" tb cs vs] by (simp add: writer_counts_def)
  have "wlp (writer_add ch tb cs vs) (\<lambda>_ t. writer_counts (sm_writer t) \<and> bw_pending (sm_writer t) < bw_threshold (sm_writer t))
      (\<lambda>_ _. True) s"
    using wlp_writer_flush [OF counts, of ch] counts assms(1,2) buffered_rows_buffer(4) [of "sm_writer s" tb cs vs]
    by (auto simp: writer_add_def writer_counts_def elim!: wlp_mono)
  from wlp_Inr [OF this assms(3)] show ?thesis .
qed

definition sample_item :: "nat \<Rightarrow> sql_value list" where
  "sample_item i = [SId i, SId 7, SId 3, SInt 2, SNum 100, SNum 200, STime 0]"

definition item_columns :: "string list" where
  "item_columns = [''order_item_id'', ''order_id'', ''product_id'', ''quantity'', ''unit_price'', ''total_price'', ''created_at'']"

definition sample_buffering :: "int \<Rightarrow> sim" where
  "sample_buffering n = (fresh_sim ((\<lambda>t. [])(''orders'' := [[(''order_id'', SId 7)]], ''products'' := [[(''product_id'', SId 3)]])))
     \<lparr> sm_writer := buffer_row ''marketplace.order_items'' item_columns (sample_item 1) (new_writer n) \<rparr>"

lemma sample_buffering_counts: "writer_counts (sm_writer (sample_buffering n))"
  by (simp add: sample_buffering_def fresh_sim_def writer_counts_def buffered_rows_def buffer_row_def new_writer_def
      lookup_rows_def)

lemma sample_add_run:
  "map_option fst (writer_add sample_chance ''marketplace.order_items'' item_columns (sample_item 2) (sample_buffering 2)) = Some (Inr ())"
  by code_simp

theorem writer_add_bounded_witness:
  "\<exists>t. writer_add sample_chance ''marketplace.order_items'' item_columns (sample_item 2) (sample_buffering 2) = Some (Inr (), t) \<and>
     writer_counts (sm_writer t) \<and> bw_pending (sm_writer t) < bw_threshold (sm_writer t)"
proof -
  obtain t where t: "writer_add sample_chance ''marketplace.order_items'' item_columns (sample_item 2) (sample_buffering 2) = Some (Inr (), t)"
    using sample_add_run by auto
  have "0 < bw_threshold (sm_writer (sample_buffering 2))"
    by (simp add: sample_buffering_def buffer_row_def new_writer_def)
  from writer_add_bounded [OF sample_buffering_counts this t] t show ?thesis by blast
qed

lemma sample_flush_run: "map_option fst (writer_flush sample_chance (sample_buffering 9)) = Some (Inr ())"
  by code_simp

theorem flush_writes_every_row_witness:
  "\<exists>t. writer_flush sample_chance (sample_buffering 9) = Some (Inr (), t) \<and>
     covered (sm_committed t) ''order_items'' (zip item_columns (sample_item 1)) \<and> bw_pending (sm_writer t) = 0"
proof -
  obtain t where t: "writer_flush sample_chance (sample_buffering 9) = Some (Inr (), t)"
    using sample_flush_run by auto
  have "bw_pending (sm_writer (sample_buffering 9)) \<noteq> 0"
    "zip item_columns (sample_item 1) \<in> set (buffered (sm_writer (sample_buffering 9)) ''marketplace.order_items'')"
    by (simp_all add: sample_buffering_def buffer_row_def new_writer_def buffered_def lookup_rows_def lookup_columns_def)
  from flush_writes_every_row [OF sample_buffering_counts this(1) t this(2)] t show ?thesis
    by (simp add: bare_def)
qed

end
