(* ===== verification/Market_Stock.thy ===== *)
theory Market_Stock
  imports Market_Writer
begin

text \<open>
  Orders and stock: an order takes exactly its quantity from one inventory, and one item, one history row and
  one stock movement, its own, are new in their tables or in the writer's buffers.
\<close>

section \<open>Stock\<close>

definition available :: "row \<Rightarrow> int" where
  "available r = int_of (col r ''available_quantity'')"

definition stock :: "db \<Rightarrow> int" where
  "stock d = sum_list (map available (d ''inventories''))"

text \<open>The rows a reservation of \<open>q\<close> from an inventory changes.\<close>

definition takes :: "sql_value \<Rightarrow> int \<Rightarrow> row \<Rightarrow> bool" where
  "takes i q r \<longleftrightarrow> col r ''inventory_id'' = i \<and> i \<noteq> SNull \<and> col r ''available_quantity'' \<noteq> SNull \<and>
     q \<le> int_of (col r ''available_quantity'')"

definition taken :: "int \<Rightarrow> sql_value \<Rightarrow> int \<Rightarrow> db \<Rightarrow> db" where
  "taken now i q d = d(''inventories'' := map (\<lambda>r. if takes i q r then set_available now (- q) r else r) (d ''inventories''))"

lemma available_set [simp]: "available (set_available now q r) = available r + q"
  by (simp add: available_def set_available_def set_col_def int_of_def)

lemma wlp_decrease:
  "wlp (decrease_available_quantity i q)
     (\<lambda>ok t. if ok then t = s \<lparr> sm_db := taken (sm_now s) i q (sm_db s) \<rparr> \<and> (\<exists>r \<in> set (sm_db s ''inventories''). takes i q r)
       else t = s) (\<lambda>_ _. True) s"
proof -
  have p: "(\<lambda>r. col r ''inventory_id'' = i \<and> i \<noteq> SNull \<and> col r ''available_quantity'' \<noteq> SNull \<and>
      q \<le> int_of (col r ''available_quantity'')) = takes i q"
    by (rule ext) (simp add: takes_def)
  have none: "(sm_db s)(''inventories'' := map (\<lambda>r. if takes i q r then set_available (sm_now s) (- q) r else r)
      (sm_db s ''inventories'')) = sm_db s" if "filter (takes i q) (sm_db s ''inventories'') = []"
  proof -
    have "map (\<lambda>r. if takes i q r then set_available (sm_now s) (- q) r else r) (sm_db s ''inventories'') = sm_db s ''inventories''"
      by (rule map_idI) (use that in \<open>simp add: filter_empty_conv\<close>)
    then show ?thesis by (simp only: fun_upd_triv)
  qed
  show ?thesis
    unfolding decrease_available_quantity_def wlp_bindA wlp_get p
    by (rule wlp_exec_update) (auto simp: none taken_def filter_empty_conv)
qed

section \<open>Reservation\<close>

definition reserved :: "sim \<Rightarrow> sql_value \<times> sql_value \<times> int \<times> int \<Rightarrow> sim \<Rightarrow> bool" where
  "reserved s = (\<lambda>(i, p, price, q) t. 1 \<le> q \<and> q \<le> 5 \<and> sm_db t = taken (sm_now s) i q (sm_db s) \<and>
     (\<exists>r \<in> set (sm_db s ''inventories''). takes i q r) \<and>
     (\<exists>r \<in> set (sm_db s ''inventories''). col r ''inventory_id'' = i \<and> col r ''product_id'' = p) \<and>
     (\<exists>r \<in> set (sm_db s ''products''). col r ''product_id'' = p \<and> int_of (col r ''price'') = price) \<and>
     sm_writer t = sm_writer s \<and> sm_now t = sm_now s \<and> sm_draws s \<le> sm_draws t)"

definition unmoved :: "sim \<Rightarrow> sim \<Rightarrow> bool" where
  "unmoved s t \<longleftrightarrow> sm_db t = sm_db s \<and> sm_writer t = sm_writer s \<and> sm_now t = sm_now s \<and> sm_draws s \<le> sm_draws t"

lemma reserved_unmoved: "reserved u x t \<Longrightarrow> unmoved s u \<Longrightarrow> reserved s x t"
  by (auto simp: reserved_def unmoved_def split: prod.splits)

lemma wlp_random_row:
  assumes "chance_ok ch" and "unmoved s0 s"
  shows "wlp (random_row ch rs) (\<lambda>r t. unmoved s0 t \<and> (\<forall>x. r = Some x \<longrightarrow> x \<in> set rs)) (\<lambda>_ _. True) s"
  using assms by (auto simp: random_row_def unmoved_def chance_ok_def)

lemma wlp_random_inventory:
  assumes "chance_ok ch"
  shows "wlp (random_inventory ch) (\<lambda>r t. unmoved s t \<and> (\<forall>i p a. r = Some (i, p, a) \<longrightarrow>
      0 < a \<and> (\<exists>x \<in> set (sm_db s ''inventories''). col x ''inventory_id'' = i \<and> col x ''product_id'' = p))) (\<lambda>_ _. True) s"
  unfolding random_inventory_def wlp_bindA wlp_exec_select
  by (rule wlp_mono [OF wlp_random_row [OF assms, of s]]) (auto simp: unmoved_def)

lemma wlp_product_price:
  "wlp (product_price p) (\<lambda>r t. t = s \<and> (\<forall>x. r = Some x \<longrightarrow>
      (\<exists>r \<in> set (sm_db s ''products''). col r ''product_id'' = p \<and> int_of (col r ''price'') = x))) (\<lambda>_ _. True) s"
  by (auto simp: product_price_def find_Some_iff)

lemma wlp_reserve:
  assumes ch: "chance_ok ch"
  shows "wlp (reserve_inventory ch n) (reserved s) (\<lambda>_ _. True) s"
proof (induction n arbitrary: s)
  case 0
  then show ?case by simp
next
  case (Suc n)
  show ?case
    unfolding reserve_inventory.simps wlp_bindA Let_def
  proof (rule wlp_mono [OF wlp_random_inventory [OF ch]])
    fix inv :: "(sql_value \<times> sql_value \<times> int) option" and t
    assume t: "unmoved s t \<and> (\<forall>i p a. inv = Some (i, p, a) \<longrightarrow>
      0 < a \<and> (\<exists>x \<in> set (sm_db s ''inventories''). col x ''inventory_id'' = i \<and> col x ''product_id'' = p))"
    show "wlp (case inv of None \<Rightarrow> raise (value_error ''No inventory found.'')
       | Some (i, p, a) \<Rightarrow> bindA (product_price p) (\<lambda>price. case price of
           None \<Rightarrow> raise (value_error ''No product price found.'')
         | Some unit_price \<Rightarrow> bindA (draw (ch_randint ch 1 5)) (\<lambda>roll.
             bindA (decrease_available_quantity i (min roll a)) (\<lambda>updated.
                    if updated then ret (i, p, unit_price, min roll a) else reserve_inventory ch n))))
        (reserved s) (\<lambda>_ _. True) t"
    proof (cases inv)
      case None
      then show ?thesis by simp
    next
      case (Some x)
      obtain i p a where x: "x = (i, p, a)" by (cases x)
      have inv: "0 < a" "\<exists>x \<in> set (sm_db s ''inventories''). col x ''inventory_id'' = i \<and> col x ''product_id'' = p"
        using t Some x by auto
      have db: "sm_db t = sm_db s" "sm_writer t = sm_writer s" "sm_now t = sm_now s" "sm_draws s \<le> sm_draws t"
        using t by (auto simp: unmoved_def)
      show ?thesis
        unfolding Some x option.case prod.case wlp_bindA
      proof (rule wlp_mono [OF wlp_product_price])
        fix price u
        assume u: "u = t \<and> (\<forall>x. price = Some x \<longrightarrow>
          (\<exists>r \<in> set (sm_db t ''products''). col r ''product_id'' = p \<and> int_of (col r ''price'') = x))"
        show "wlp (case price of None \<Rightarrow> raise (value_error ''No product price found.'')
          | Some unit_price \<Rightarrow> bindA (draw (ch_randint ch 1 5)) (\<lambda>roll.
             bindA (decrease_available_quantity i (min roll a)) (\<lambda>updated.
                    if updated then ret (i, p, unit_price, min roll a) else reserve_inventory ch n)))
          (reserved s) (\<lambda>_ _. True) u"
        proof (cases price)
          case None
          then show ?thesis by simp
        next
          case price: (Some c)
          have roll: "1 \<le> ch_randint ch 1 5 k \<and> ch_randint ch 1 5 k \<le> 5" for k
            using chance_randint [OF ch, of 1 5] by simp
          let ?q = "min (ch_randint ch 1 5 (sm_draws u)) a"
          have q: "1 \<le> ?q" "?q \<le> 5" using roll [of "sm_draws u"] inv(1) by (simp_all add: min_le_iff_disj)
          have again: "wlp (reserve_inventory ch n) (reserved s) (\<lambda>_ _. True) (u \<lparr> sm_draws := k \<rparr>)" if "sm_draws u \<le> k" for k
            by (rule wlp_mono [OF Suc.IH]) (use u db that in \<open>auto intro: reserved_unmoved simp: unmoved_def\<close>)
          show ?thesis
            unfolding price option.case wlp_bindA wlp_draw
            by (rule wlp_mono [OF wlp_decrease])
               (use u db inv(2) q price again in \<open>auto simp: reserved_def split: if_splits\<close>)
        qed
      qed simp
    qed
  qed simp
qed

section \<open>What the writer has been given\<close>

definition writer_tables :: "writer \<Rightarrow> bool" where
  "writer_tables w \<longleftrightarrow> writer_counts w \<and>
     (\<forall>tb. map_of (bw_rows w) tb \<noteq> None \<longrightarrow> map_of writer_columns tb = Some (lookup_columns w tb))"

text \<open>
  The rows of a table: those the transaction sees in it and those still buffered for it. A row stands
  alone if no other of them has its primary key.
\<close>

definition held :: "sim \<Rightarrow> string \<Rightarrow> row set" where
  "held s n = set (buffered (sm_writer s) (full_table n)) \<union> set (sm_db s n)"

definition sole :: "sim \<Rightarrow> string \<Rightarrow> row \<Rightarrow> bool" where
  "sole s n r \<longleftrightarrow> r \<in> held s n \<and> (\<forall>r' \<in> held s n. col r' (primary_key n) = col r (primary_key n) \<longrightarrow> r' = r)"

text \<open>The tables the details of an order go to, through the writer; their only key is the primary one.\<close>

definition order_tables :: "string set" where
  "order_tables = {''order_items'', ''order_status_history'', ''inventory_movements''}"

lemma order_tables_keys: "n \<in> order_tables \<Longrightarrow> keys_of n = [[primary_key n]]"
proof -
  have "keys_of ''order_items'' = [[primary_key ''order_items'']]"
    "keys_of ''order_status_history'' = [[primary_key ''order_status_history'']]"
    "keys_of ''inventory_movements'' = [[primary_key ''inventory_movements'']]"
    by (simp_all add: keys_of_def unique_keys_def)
  then show "n \<in> order_tables \<Longrightarrow> keys_of n = [[primary_key n]]" unfolding order_tables_def by blast
qed

lemma order_tables_others: "n \<in> order_tables \<Longrightarrow> n \<noteq> ''orders'' \<and> n \<noteq> ''inventories''"
  by (auto simp: order_tables_def)

text \<open>
  What a step of an order keeps, once the stock is taken: it adds no row to the tables outside \<open>A\<close>,
  and loses none of theirs that stands alone.
\<close>

definition follows :: "string set \<Rightarrow> sim \<Rightarrow> sim \<Rightarrow> bool" where
  "follows A s t \<longleftrightarrow> writer_tables (sm_writer t) \<and> appends (sm_db s) (sm_db t) \<and>
     sm_db t ''inventories'' = sm_db s ''inventories'' \<and> sm_draws s \<le> sm_draws t \<and>
     (\<forall>n \<in> order_tables - A. held t n \<subseteq> held s n \<and> (\<forall>r. sole s n r \<longrightarrow> sole t n r))"

lemma follows_refl: "writer_tables (sm_writer s) \<Longrightarrow> follows A s s"
  by (simp add: follows_def)

lemma follows_trans: "follows A s t \<Longrightarrow> follows B t u \<Longrightarrow> follows (A \<union> B) s u"
  unfolding follows_def by (fastforce intro: appends_trans)

lemma follows_same:
  assumes "writer_tables (sm_writer s)" and "sm_writer t = sm_writer s" and "appends (sm_db s) (sm_db t)"
    and "\<And>n. n \<noteq> ''orders'' \<Longrightarrow> sm_db t n = sm_db s n" and "sm_draws s \<le> sm_draws t"
  shows "follows {} s t"
proof -
  have "held t n = held s n" if "n \<in> order_tables" for n
    using assms(2,4) order_tables_others [OF that] by (simp add: held_def)
  then show ?thesis using assms by (simp add: follows_def sole_def)
qed

text \<open>The step gave one new row to a table.\<close>

definition adds :: "sim \<Rightarrow> sim \<Rightarrow> string \<Rightarrow> row \<Rightarrow> bool" where
  "adds s t n r \<longleftrightarrow> sole t n r \<and> held t n \<subseteq> insert r (held s n)"

lemma adds_follows: "adds s t n r \<Longrightarrow> follows A t u \<Longrightarrow> n \<in> order_tables - A \<Longrightarrow> adds s u n r"
  unfolding adds_def follows_def by blast

lemma follows_adds: "follows A s t \<Longrightarrow> adds t u n r \<Longrightarrow> n \<in> order_tables - A \<Longrightarrow> adds s u n r"
  unfolding adds_def follows_def by blast

lemma buffered_buffer:
  assumes "writer_tables w" and "map_of writer_columns tb = Some cs"
  shows "buffered (buffer_row tb cs vs w) t = (if t = tb then buffered w tb @ [zip cs vs] else buffered w t)"
proof (cases "map_of (bw_rows w) tb = None")
  case True
  then have "lookup_rows w tb = []" by (simp add: lookup_rows_def)
  then show ?thesis using True by (simp add: buffered_def lookup_rows_buffer lookup_columns_buffer)
next
  case False
  then have "lookup_columns w tb = cs" using assms by (auto simp: writer_tables_def)
  then show ?thesis using False by (simp add: buffered_def lookup_rows_buffer lookup_columns_buffer)
qed

lemma writer_tables_buffer:
  assumes "writer_tables w" and "map_of writer_columns tb = Some cs"
  shows "writer_tables (buffer_row tb cs vs w)"
proof -
  have "writer_counts (buffer_row tb cs vs w)"
    using assms(1) buffered_rows_buffer [of w tb cs vs] by (simp add: writer_tables_def writer_counts_def)
  moreover have "map_of writer_columns t = Some (lookup_columns (buffer_row tb cs vs w) t)"
    if "map_of (bw_rows (buffer_row tb cs vs w)) t \<noteq> None" for t
    using that assms unfolding registered_buffer lookup_columns_buffer by (auto simp: writer_tables_def)
  ultimately show ?thesis by (simp add: writer_tables_def)
qed

lemma buffered_tables: "list_all (\<lambda>(tb, cs). bare tb \<noteq> ''inventories'') writer_columns"
  by (simp add: writer_columns_def bare_def)

lemma registered_iff: "map_of (bw_rows w) tb \<noteq> None \<longleftrightarrow> tb \<in> set (map fst (bw_rows w))"
  by (simp add: map_of_eq_None_iff)

lemma not_inventories:
  assumes "writer_tables w"
  shows "''inventories'' \<notin> bare ` set (map fst (bw_rows w))"
proof
  assume "''inventories'' \<in> bare ` set (map fst (bw_rows w))"
  then show False
  proof (rule imageE)
    fix tb
    assume tb: "''inventories'' = bare tb" "tb \<in> set (map fst (bw_rows w))"
    then have "map_of (bw_rows w) tb \<noteq> None" by (simp only: registered_iff)
    then have "map_of writer_columns tb = Some (lookup_columns w tb)" using assms unfolding writer_tables_def by blast
    then have "(tb, lookup_columns w tb) \<in> set writer_columns" by (rule map_of_SomeD)
    then show False using buffered_tables tb(1) by (fastforce simp: list_all_iff)
  qed
qed

text \<open>A flush moves rows from the buffers to their tables, and makes up none.\<close>

definition drains :: "string set \<Rightarrow> sim \<Rightarrow> sim \<Rightarrow> bool" where
  "drains T s t \<longleftrightarrow> sm_draws t = sm_draws s \<and> (\<forall>tb. set (buffered (sm_writer t) tb) \<subseteq> set (buffered (sm_writer s) tb)) \<and>
     (\<forall>n. \<forall>r \<in> set (sm_db t n). r \<in> set (sm_db s n) \<or> (\<exists>tb \<in> T. bare tb = n \<and> r \<in> set (buffered (sm_writer s) tb)))"

lemma drains_refl: "drains T s s"
  by (simp add: drains_def)

lemma drains_trans: "drains T s t \<Longrightarrow> drains T t u \<Longrightarrow> drains T s u"
  unfolding drains_def subset_eq by (elim conjE; intro conjI) (simp, blast, blast)

lemma insert_rows_only: "insert_rows d tb oc rs = Inr (d', ins) \<Longrightarrow> set (d' n) \<subseteq> set (d n) \<union> (if n = tb then set rs else {})"
proof (induction rs arbitrary: d ins)
  case (Cons r rs)
  obtain d1 b where one: "insert_row d tb oc r = Inr (d1, b)" using Cons.prems by (auto simp: bindE_eq_Inr_iff)
  with Cons.prems obtain ins1 where "insert_rows d1 tb oc rs = Inr (d', ins1)" by (auto simp: bindE_eq_Inr_iff)
  note Cons.IH [OF this]
  moreover have "set (d1 n) \<subseteq> set (d n) \<union> (if n = tb then {r} else {})"
    using one by (auto simp: insert_row_def split: if_splits)
  ultimately show ?case by (auto split: if_splits)
qed simp

lemma wlp_insert_only:
  "wlp (exec_insert tb Any_conflict rs) (\<lambda>ins u. \<exists>d. u = s \<lparr> sm_db := d \<rparr> \<and>
     (\<forall>n. set (d n) \<subseteq> set (sm_db s n) \<union> (if n = tb then set rs else {}))) (\<lambda>_ _. True) s"
proof -
  have "\<forall>n. set (d n) \<subseteq> set (sm_db s n) \<union> (if n = tb then set rs else {})"
    if ok: "insert_statement (sm_db s) tb Any_conflict rs = Inr (d, ins)" for d ins
  proof -
    obtain ins' where "insert_rows (sm_db s) tb Any_conflict rs = Inr (d, ins')"
      using ok by (cases "insert_rows (sm_db s) tb Any_conflict rs") (auto simp: insert_statement_def split: prod.splits if_splits)
    from insert_rows_only [OF this] show ?thesis by blast
  qed
  then have ok: "\<exists>d'. s \<lparr> sm_db := d \<rparr> = s \<lparr> sm_db := d' \<rparr> \<and>
      (\<forall>n. set (d' n) \<subseteq> set (sm_db s n) \<union> (if n = tb then set rs else {}))"
    if "insert_statement (sm_db s) tb Any_conflict rs = Inr (d, ins)" for d ins
    using that by blast
  show ?thesis
  proof (cases "insert_statement (sm_db s) tb Any_conflict rs")
    case (Inl e)
    then show ?thesis by (simp add: wlp_def exec_insert_def)
  next
    case (Inr x)
    obtain d ins where x: "x = (d, ins)" by (cases x)
    show ?thesis
      using ok [OF Inr [unfolded x]] by (simp only: wlp_def exec_insert_def Inr x sum.case prod.case option.case)
  qed
qed

lemma buffered_clear: "buffered (clear_rows t w) tb = (if tb = t then [] else buffered w tb)"
  by (simp add: buffered_def clear_rows_def lookup_rows_def lookup_columns_def dict_simps)

lemma wlp_flush_drains: "wlp (flush_tables ts) (\<lambda>_ u. drains (set ts) s u) (\<lambda>_ _. True) s"
proof -
  have "wlp (flush_tables ts) (\<lambda>_ u. drains T s u) (\<lambda>_ _. True) s" if "set ts \<subseteq> T" for T
    using that
  proof (induction ts arbitrary: s)
    case Nil
    then show ?case by (simp add: drains_refl)
  next
    case (Cons t ts)
    show ?case
    proof (cases "lookup_rows (sm_writer s) t = []")
      case True
      then show ?thesis using Cons by simp
    next
      case False
      show ?thesis
        unfolding flush_tables.simps wlp_bindA wlp_get if_not_P [OF False]
      proof (rule wlp_mono [OF wlp_insert_only])
        fix ins u
        assume "\<exists>d. u = s \<lparr> sm_db := d \<rparr> \<and> (\<forall>n. set (d n) \<subseteq> set (sm_db s n) \<union> (if n = bare t then
          set (map (zip (lookup_columns (sm_writer s) t)) (lookup_rows (sm_writer s) t)) else {}))"
        then obtain d where u: "u = s \<lparr> sm_db := d \<rparr>"
          and d: "\<And>n. set (d n) \<subseteq> set (sm_db s n) \<union> (if n = bare t then set (buffered (sm_writer s) t) else {})"
          unfolding buffered_def by blast
        have "t \<in> T" using Cons.prems by simp
        then have "r \<in> set (sm_db s n) \<or> (\<exists>tb \<in> T. bare tb = n \<and> r \<in> set (buffered (sm_writer s) tb))"
          if "r \<in> set (d n)" for r n
          using d [of n] that by (cases "n = bare t") auto
        then have one: "drains T s (u \<lparr> sm_writer := clear_rows t (sm_writer u) \<rparr>)"
          by (simp add: drains_def buffered_clear u)
        have "wlp (flush_tables ts) (\<lambda>_ v. drains T s v) (\<lambda>_ _. True) (u \<lparr> sm_writer := clear_rows t (sm_writer u) \<rparr>)"
          by (rule wlp_mono [OF Cons.IH]) (use Cons.prems drains_trans [OF one] in auto)
        then show "wlp (modify (\<lambda>s. s \<lparr> sm_writer := clear_rows t (sm_writer s) \<rparr>)) (\<lambda>_. wlp (flush_tables ts)
            (\<lambda>_ v. drains T s v) (\<lambda>_ _. True)) (\<lambda>_ _. True) u"
          by (simp only: wlp_modify)
      qed simp
    qed
  qed
  then show ?thesis by blast
qed

lemma bare_full_table: "bare (full_table n) = n"
  by (simp add: bare_def full_table_def)

lemma full_tables: "map_of writer_columns tb = Some cs \<Longrightarrow> tb = full_table (bare tb)"
proof -
  have "list_all (\<lambda>(tb, cs). tb = full_table (bare tb)) writer_columns"
    by (simp add: writer_columns_def full_table_def bare_def)
  then show "map_of writer_columns tb = Some cs \<Longrightarrow> tb = full_table (bare tb)"
    by (auto simp: list_all_iff dest: map_of_SomeD)
qed

lemma buffered_pending [simp]: "buffered (w \<lparr> bw_pending := n \<rparr>) tb = buffered w tb"
  by (simp add: buffered_def lookup_columns_def)

lemma wlp_flush_held:
  assumes w: "writer_tables (sm_writer s)"
  shows "wlp (writer_flush ch) (\<lambda>_ t. sm_draws s \<le> sm_draws t \<and> (\<forall>n. held t n \<subseteq> held s n)) (\<lambda>_ _. True) s"
proof -
  let ?T = "set (map fst (bw_rows (sm_writer s)))"
  have "held u n \<subseteq> held s n" if d: "drains ?T s u" for u n
  proof
    fix r
    assume "r \<in> held u n"
    then consider "r \<in> set (buffered (sm_writer s) (full_table n))" | "r \<in> set (sm_db s n)"
      | tb where "tb \<in> ?T" "bare tb = n" "r \<in> set (buffered (sm_writer s) tb)"
      using d unfolding held_def drains_def by blast
    then show "r \<in> held s n"
    proof cases
      case 3
      then have "map_of (bw_rows (sm_writer s)) tb \<noteq> None" by (simp only: registered_iff)
      then have "map_of writer_columns tb \<noteq> None" using w by (simp add: writer_tables_def)
      then have "tb = full_table n" using full_tables 3(2) by blast
      then show ?thesis using 3(3) by (simp add: held_def)
    qed (simp_all add: held_def)
  qed
  then show ?thesis
    unfolding writer_flush_def wlp_bindA wlp_get
    by (auto intro!: wlp_mono [OF wlp_flush_drains] simp: commit_tx_def held_def drains_def)
qed

lemma sole_flushed:
  assumes n: "n \<in> order_tables" and r: "sole s n r" and kept: "held t n \<subseteq> held s n"
    and rows: "\<And>r. r \<in> set (buffered (sm_writer s) (full_table n)) \<Longrightarrow> covered (sm_db t) n r"
    and more: "appends (sm_db s) (sm_db t)"
  shows "sole t n r"
proof -
  have "covered (sm_db t) n r"
  proof (cases "r \<in> set (sm_db s n)")
    case True
    then have "covered (sm_db s) n r" by (simp add: covered_def)
    then show ?thesis using more by (rule covered_appends)
  next
    case False
    then show ?thesis using r rows by (simp add: sole_def held_def)
  qed
  then consider "r \<in> set (sm_db t n)" | r' where "r' \<in> set (sm_db t n)" "col r' (primary_key n) = col r (primary_key n)"
    by (auto simp: covered_def order_tables_keys [OF n] clashes_def same_key_def list_ex_iff)
  then have "r \<in> held t n"
  proof cases
    case 2
    then have "r' \<in> held s n" using kept by (auto simp: held_def)
    then have "r' = r" using r 2(2) by (simp add: sole_def)
    then show ?thesis using 2(1) by (simp add: held_def)
  qed (simp add: held_def)
  then show ?thesis using r kept unfolding sole_def by blast
qed

lemma wlp_flush_follows:
  assumes w: "writer_tables (sm_writer s)"
  shows "wlp (writer_flush ch) (\<lambda>_ t. follows {} s t) (\<lambda>_ _. True) s"
proof -
  have counts: "writer_counts (sm_writer s)" using w by (simp add: writer_tables_def)
  show ?thesis
  proof (rule wlp_mono [OF wlp_conj [OF wlp_writer_flush [OF counts] wlp_flush_held [OF w]]])
    fix a and t :: sim
    assume "((\<forall>tb. lookup_rows (sm_writer t) tb = []) \<and> writer_counts (sm_writer t) \<and>
      bw_pending (sm_writer t) = 0 \<and> bw_threshold (sm_writer t) = bw_threshold (sm_writer s) \<and>
      bw_columns (sm_writer t) = bw_columns (sm_writer s) \<and> map fst (bw_rows (sm_writer t)) = map fst (bw_rows (sm_writer s)) \<and>
      (\<forall>tb. tb \<notin> bare ` set (map fst (bw_rows (sm_writer s))) \<longrightarrow> sm_db t tb = sm_db s tb) \<and>
      appends (sm_db s) (sm_db t) \<and> (bw_pending (sm_writer s) \<noteq> 0 \<longrightarrow> sm_committed t = sm_db t) \<and>
      (\<forall>tb. \<forall>r \<in> set (buffered (sm_writer s) tb). covered (sm_db t) (bare tb) r)) \<and>
      sm_draws s \<le> sm_draws t \<and> (\<forall>n. held t n \<subseteq> held s n)"
    then have t: "bw_columns (sm_writer t) = bw_columns (sm_writer s) \<and> map fst (bw_rows (sm_writer t)) = map fst (bw_rows (sm_writer s))"
      "writer_counts (sm_writer t)" "\<forall>tb. tb \<notin> bare ` set (map fst (bw_rows (sm_writer s))) \<longrightarrow> sm_db t tb = sm_db s tb"
      "appends (sm_db s) (sm_db t)" "\<forall>tb. \<forall>r \<in> set (buffered (sm_writer s) tb). covered (sm_db t) (bare tb) r"
      "sm_draws s \<le> sm_draws t" "\<And>n. held t n \<subseteq> held s n"
      by blast+
    have same: "map_of (bw_rows (sm_writer t)) tb \<noteq> None \<longleftrightarrow> map_of (bw_rows (sm_writer s)) tb \<noteq> None"
      "lookup_columns (sm_writer t) tb = lookup_columns (sm_writer s) tb" for tb
    proof -
      have "map fst (bw_rows (sm_writer t)) = map fst (bw_rows (sm_writer s))" "bw_columns (sm_writer t) = bw_columns (sm_writer s)"
        using t by blast+
      then show "map_of (bw_rows (sm_writer t)) tb \<noteq> None \<longleftrightarrow> map_of (bw_rows (sm_writer s)) tb \<noteq> None"
        "lookup_columns (sm_writer t) tb = lookup_columns (sm_writer s) tb"
        by (simp_all only: registered_iff lookup_columns_def)
    qed
    have "writer_tables (sm_writer t)" using w t unfolding writer_tables_def same by blast
    moreover have "sole t n r" if "n \<in> order_tables" "sole s n r" for n r
    proof (rule sole_flushed [OF that t(7) _ t(4)])
      fix r
      assume "r \<in> set (buffered (sm_writer s) (full_table n))"
      then have "covered (sm_db t) (bare (full_table n)) r" using t(5) by blast
      then show "covered (sm_db t) n r" by (simp only: bare_full_table)
    qed
    moreover have "sm_db t ''inventories'' = sm_db s ''inventories''" using t(3) not_inventories [OF w] by blast
    ultimately show "follows {} s t" using t(4,6,7) unfolding follows_def by blast
  qed simp
qed

text \<open>Handing a row with an unused primary key to the writer gives it to its table.\<close>

lemma wlp_add:
  assumes w: "writer_tables (sm_writer s)" and n: "n \<in> order_tables"
    and cs: "map_of writer_columns (full_table n) = Some cs"
    and unused: "\<And>r. r \<in> held s n \<Longrightarrow> col r (primary_key n) \<noteq> col (zip cs vs) (primary_key n)"
  shows "wlp (writer_add ch (full_table n) cs vs) (\<lambda>_ t. follows {n} s t \<and> adds s t n (zip cs vs)) (\<lambda>_ _. True) s"
proof -
  let ?s = "s \<lparr> sm_writer := buffer_row (full_table n) cs vs (sm_writer s) \<rparr>"
  have ws: "writer_tables (sm_writer ?s)" using writer_tables_buffer [OF w cs] by simp
  have held: "held ?s m = (if m = n then insert (zip cs vs) (held s n) else held s m)" for m
    using buffered_buffer [OF w cs] by (auto simp: held_def full_table_def)
  have f: "follows {n} s ?s" using ws unfolding follows_def sole_def held by simp
  have a: "adds s ?s n (zip cs vs)" using unused unfolding adds_def sole_def held by auto
  have flushed: "follows {n} s t \<and> adds s t n (zip cs vs)" if "follows {} ?s t" for t
    using follows_trans [OF f that] adds_follows [OF a that] n by simp
  have "wlp (writer_flush ch) (\<lambda>_ t. follows {n} s t \<and> adds s t n (zip cs vs)) (\<lambda>_ _. True) ?s"
    by (rule wlp_mono [OF wlp_flush_follows [OF ws]]) (use flushed in auto)
  then show ?thesis using f a by (simp add: writer_add_def)
qed

section \<open>Placing an order\<close>

text \<open>
  No row held for the tables of an order has, as its primary key, an identifier that \<open>uuid4\<close> is
  still to give.
\<close>

definition ids_unused :: "chance \<Rightarrow> sim \<Rightarrow> bool" where
  "ids_unused ch s \<longleftrightarrow>
     (\<forall>n \<in> order_tables. \<forall>r \<in> held s n. \<forall>k. sm_draws s \<le> k \<longrightarrow> col r (primary_key n) \<noteq> SId (ch_uuid ch k))"

lemma ids_unused_follows:
  "ids_unused ch s \<Longrightarrow> follows A s t \<Longrightarrow> n \<in> order_tables - A \<Longrightarrow> r \<in> held t n \<Longrightarrow> sm_draws s \<le> k \<Longrightarrow>
     col r (primary_key n) \<noteq> SId (ch_uuid ch k)"
  unfolding ids_unused_def follows_def by blast

lemma follows_unmoved: "follows A s t \<Longrightarrow> unmoved t u \<Longrightarrow> follows A s u"
  unfolding follows_def unmoved_def sole_def held_def by auto

text \<open>The rows of the details of an order.\<close>

definition order_item_row :: "order_item \<Rightarrow> row" where
  "order_item_row i =
     [(''order_item_id'', SId (oi_order_item_id i)), (''order_id'', SId (oi_order_id i)), (''product_id'', oi_product_id i),
      (''quantity'', SInt (oi_quantity i)), (''unit_price'', SNum (oi_unit_price i)),
      (''total_price'', SNum (oi_total_price i)), (''created_at'', STime (oi_created_at i))]"

definition order_history_row :: "status_history \<Rightarrow> row" where
  "order_history_row h =
     [(''history_id'', SId (sh_history_id h)), (''order_id'', SId (sh_order_id h)),
      (''previous_status'', opt_text (sh_previous_status h)), (''current_status'', SText (sh_current_status h)),
      (''changed_at'', STime (sh_changed_at h))]"

definition order_movement_row :: "movement \<Rightarrow> row" where
  "order_movement_row m =
     [(''movement_id'', SId (mv_movement_id m)), (''inventory_id'', mv_inventory_id m),
      (''movement_type'', SText (mv_movement_type m)), (''quantity'', SInt (mv_quantity m)),
      (''reason'', SText (mv_reason m)), (''created_at'', STime (mv_created_at m)), (''order_id'', SId (mv_order_id m))]"

definition made :: "chance \<Rightarrow> nat \<Rightarrow> sql_value \<Rightarrow> int \<Rightarrow> int \<Rightarrow> order \<times> order_item \<times> status_history \<Rightarrow> bool" where
  "made ch k pid price q = (\<lambda>(d, i, h). od_status d = ''PENDING'' \<and> od_total_amount d = price * q \<and>
     oi_order_id i = od_order_id d \<and> oi_product_id i = pid \<and> oi_quantity i = q \<and> oi_unit_price i = price \<and>
     oi_total_price i = price * q \<and>
     sh_order_id h = od_order_id d \<and> sh_previous_status h = None \<and> sh_current_status h = ''PENDING'' \<and>
     oi_order_item_id i \<in> ch_uuid ch ` {k..} \<and> sh_history_id h \<in> ch_uuid ch ` {k..})"

lemma wlp_generate_order:
  "k \<le> sm_draws s \<Longrightarrow> wlp (generate_order ch cid pid price q) (\<lambda>e t. made ch k pid price q e \<and> unmoved s t) (\<lambda>_ _. True) s"
  by (auto simp: generate_order_def order_number_def unique_or_fallback_def new_order_def new_order_item_def
      new_status_history_def made_def unmoved_def split: option.split)

lemma insert_statement_appends:
  "insert_statement d tb Any_conflict rs = Inr (d', ins) \<Longrightarrow> \<exists>xs. d' = d(tb := d tb @ xs)"
  using insert_rows_covers [of d tb rs] by (auto simp: insert_statement_def bindE_eq_Inr_iff split: if_splits)

lemma insert_statement_one:
  "insert_statement d tb Any_conflict [r] = Inr (d', ins) \<Longrightarrow> ins \<noteq> [] \<Longrightarrow> r \<in> set (d' tb)"
  by (auto simp: insert_statement_def insert_row_def bindE_eq_Inr_iff split: if_splits)

lemma wlp_insert_order:
  assumes "follows A s t"
  shows "wlp (insert_order d) (\<lambda>ok u. follows A s u \<and> (ok \<longrightarrow> order_row d \<in> set (sm_db u ''orders''))) (\<lambda>_ _. True) t"
proof -
  have "follows {} t (t \<lparr> sm_db := (sm_db t)(''orders'' := sm_db t ''orders'' @ xs) \<rparr>)" for xs
    by (rule follows_same) (use assms in \<open>auto simp: follows_def\<close>)
  then have "follows A s (t \<lparr> sm_db := (sm_db t)(''orders'' := sm_db t ''orders'' @ xs) \<rparr>)" for xs
    using follows_trans [OF assms] by fastforce
  then show ?thesis
    by (auto simp: insert_order_def insert_returning_def wlp_def bindA_def exec_insert_def ret_def
        dest: insert_statement_appends insert_statement_one split: sum.split prod.split)
qed

lemma wlp_attempts:
  assumes gen: "\<And>t. I t \<Longrightarrow> wlp generate (\<lambda>e u. I u \<and> Q e) (\<lambda>_ _. True) t"
    and ins: "\<And>e t. I t \<Longrightarrow> Q e \<Longrightarrow> wlp (ins e) (\<lambda>ok u. I u \<and> (ok \<longrightarrow> R e u)) (\<lambda>_ _. True) t"
    and "I s" and "Q e"
  shows "wlp (insert_attempts err generate ins n e) (\<lambda>e u. I u \<and> Q e \<and> R e u) (\<lambda>_ _. True) s"
  using assms(3,4)
proof (induction n arbitrary: e s)
  case 0
  then show ?case by simp
next
  case (Suc n)
  show ?case
    unfolding insert_attempts.simps wlp_bindA
  proof (rule wlp_mono [OF ins [OF Suc.prems]])
    fix ok u
    assume u: "I u \<and> (ok \<longrightarrow> R e u)"
    show "wlp (if ok then ret e else bindA generate (insert_attempts err generate ins n))
        (\<lambda>e u. I u \<and> Q e \<and> R e u) (\<lambda>_ _. True) u"
    proof (cases ok)
      case True
      then show ?thesis using u Suc.prems by simp
    next
      case False
      have "wlp (bindA generate (insert_attempts err generate ins n)) (\<lambda>e u. I u \<and> Q e \<and> R e u) (\<lambda>_ _. True) u"
        unfolding wlp_bindA by (rule wlp_mono [OF gen]) (use u Suc.IH in auto)
      then show ?thesis using False by simp
    qed
  qed simp
qed

lemma wlp_retry:
  assumes gen: "\<And>t. I t \<Longrightarrow> wlp generate (\<lambda>e u. I u \<and> Q e) (\<lambda>_ _. True) t"
    and ins: "\<And>e t. I t \<Longrightarrow> Q e \<Longrightarrow> wlp (ins e) (\<lambda>ok u. I u \<and> (ok \<longrightarrow> R e u)) (\<lambda>_ _. True) t"
    and "I s"
  shows "wlp (insert_with_unique_retry label generate ins n) (\<lambda>e u. I u \<and> Q e \<and> R e u) (\<lambda>_ _. True) s"
  unfolding insert_with_unique_retry_def wlp_bindA
  by (rule wlp_mono [OF gen [OF assms(3)]]) (auto intro: wlp_attempts [OF gen ins])

text \<open>
  The three rows of the details of an order \<open>d\<close> for \<open>q\<close> units of the product \<open>pid\<close> at \<open>price\<close>, taken from the
  inventory \<open>iid\<close>.
\<close>

definition details_of ::
  "order \<Rightarrow> sql_value \<Rightarrow> sql_value \<Rightarrow> int \<Rightarrow> int \<Rightarrow> order_item \<Rightarrow> status_history \<Rightarrow> movement \<Rightarrow> bool" where
  "details_of d iid pid price q i h m \<longleftrightarrow>
     oi_order_id i = od_order_id d \<and> oi_product_id i = pid \<and> oi_quantity i = q \<and> oi_unit_price i = price \<and>
     oi_total_price i = price * q \<and>
     sh_order_id h = od_order_id d \<and> sh_previous_status h = None \<and> sh_current_status h = ''PENDING'' \<and>
     mv_order_id m = od_order_id d \<and> mv_inventory_id m = iid \<and> mv_quantity m = q \<and> mv_movement_type m = ''OUTBOUND''"

lemma wlp_funs:
  "wlp (bindA m f) Q E = wlp m (\<lambda>a. wlp (f a) Q E) E"
  "wlp (on_pool g) R E = (\<lambda>s. R () (s \<lparr> sm_pool := g (sm_pool s) \<rparr>))"
  by (rule ext, simp)+

lemma columns_of:
  "map_of writer_columns ''marketplace.order_items'' =
     Some [''order_item_id'', ''order_id'', ''product_id'', ''quantity'', ''unit_price'', ''total_price'', ''created_at'']"
  "map_of writer_columns ''marketplace.order_status_history'' =
     Some [''history_id'', ''order_id'', ''previous_status'', ''current_status'', ''changed_at'']"
  "map_of writer_columns ''marketplace.inventory_movements'' =
     Some [''movement_id'', ''inventory_id'', ''movement_type'', ''quantity'', ''reason'', ''created_at'', ''order_id'']"
  by (simp_all add: writer_columns_def)

text \<open>After the tables \<open>A\<close> have been given their rows, another one is given a row with a fresh identifier.\<close>

lemma wlp_add_new:
  assumes f: "follows A s t" and n: "n \<in> order_tables - A" and unused: "ids_unused ch s"
    and cs: "map_of writer_columns (full_table n) = Some cs"
    and i: "col (zip cs vs) (primary_key n) = SId i" "i \<in> ch_uuid ch ` {sm_draws s..}"
  shows "wlp (writer_add ch (full_table n) cs vs)
    (\<lambda>_ u. follows (insert n A) s u \<and> appends (sm_db t) (sm_db u) \<and> adds s u n (zip cs vs) \<and> (\<forall>m \<in> A. \<forall>r. m \<in> order_tables \<and> adds s t m r \<longrightarrow> adds s u m r))
    (\<lambda>_ _. True) t"
proof -
  have w: "writer_tables (sm_writer t)" using f by (simp add: follows_def)
  have fresh: "col r (primary_key n) \<noteq> col (zip cs vs) (primary_key n)" if "r \<in> held t n" for r
    using ids_unused_follows [OF unused f n that] i by auto
  have "n \<in> order_tables" using n by blast
  show ?thesis
  proof (rule wlp_mono [OF wlp_add [OF w \<open>n \<in> order_tables\<close> cs fresh]])
    fix a u
    assume u: "follows {n} t u \<and> adds t u n (zip cs vs)"
    have "follows (A \<union> {n}) s u" using follows_trans [OF f] u by blast
    moreover have "adds s u n (zip cs vs)" using follows_adds [OF f _ n] u by blast
    moreover have "adds s u m r" if "m \<in> A" "m \<in> order_tables" "adds s t m r" for m r
      using adds_follows [OF that(3), of "{n}" u] u that(1,2) n by blast
    ultimately show "follows (insert n A) s u \<and> appends (sm_db t) (sm_db u) \<and> adds s u n (zip cs vs) \<and>
        (\<forall>m \<in> A. \<forall>r. m \<in> order_tables \<and> adds s t m r \<longrightarrow> adds s u m r)" using u by (simp add: follows_def)
  qed simp_all
qed

lemma wlp_item:
  assumes f: "follows {} s t" and unused: "ids_unused ch s" and i: "oi_order_item_id i \<in> ch_uuid ch ` {sm_draws s..}"
  shows "wlp (insert_order_item ch i) (\<lambda>_ u. follows {''order_items''} s u \<and>
    appends (sm_db t) (sm_db u) \<and> adds s u ''order_items'' (order_item_row i)) (\<lambda>_ _. True) t"
proof -
  have t: "''marketplace.order_items'' = full_table ''order_items''" by (simp add: full_table_def)
  have r: "order_item_row i = zip [''order_item_id'', ''order_id'', ''product_id'', ''quantity'', ''unit_price'', ''total_price'', ''created_at'']
      [SId (oi_order_item_id i), SId (oi_order_id i), oi_product_id i, SInt (oi_quantity i), SNum (oi_unit_price i),
        SNum (oi_total_price i), STime (oi_created_at i)]" by (simp add: order_item_row_def)
  show ?thesis
    unfolding insert_order_item_def t r
    by (rule wlp_mono [OF wlp_add_new [OF f _ unused columns_of(1) [unfolded t] _ i]])
       (simp_all add: order_tables_def primary_key_def primary_keys_def)
qed

lemma wlp_history:
  assumes f: "follows {''order_items''} s t" and a: "adds s t ''order_items'' ri" and unused: "ids_unused ch s"
    and h: "sh_history_id h \<in> ch_uuid ch ` {sm_draws s..}"
  shows "wlp (insert_order_status_history ch h) (\<lambda>_ u. follows {''order_status_history'', ''order_items''} s u \<and>
    appends (sm_db t) (sm_db u) \<and> adds s u ''order_items'' ri \<and> adds s u ''order_status_history'' (order_history_row h)) (\<lambda>_ _. True) t"
proof -
  have t: "''marketplace.order_status_history'' = full_table ''order_status_history''" by (simp add: full_table_def)
  have r: "order_history_row h = zip [''history_id'', ''order_id'', ''previous_status'', ''current_status'', ''changed_at'']
      [SId (sh_history_id h), SId (sh_order_id h), opt_text (sh_previous_status h), SText (sh_current_status h),
        STime (sh_changed_at h)]" by (simp add: order_history_row_def)
  show ?thesis
    unfolding insert_order_status_history_def t r
    by (rule wlp_mono [OF wlp_add_new [OF f _ unused columns_of(2) [unfolded t] _ h]])
       (use a in \<open>simp_all add: order_tables_def primary_key_def primary_keys_def\<close>)
qed

lemma wlp_movement:
  assumes f: "follows {''order_status_history'', ''order_items''} s t" and a: "adds s t ''order_items'' ri"
    "adds s t ''order_status_history'' rh" and unused: "ids_unused ch s"
    and m: "mv_movement_id m \<in> ch_uuid ch ` {sm_draws s..}"
  shows "wlp (insert_movement ch m) (\<lambda>_ u. follows order_tables s u \<and> appends (sm_db t) (sm_db u) \<and> adds s u ''order_items'' ri \<and>
    adds s u ''order_status_history'' rh \<and> adds s u ''inventory_movements'' (order_movement_row m)) (\<lambda>_ _. True) t"
proof -
  have t: "''marketplace.inventory_movements'' = full_table ''inventory_movements''" by (simp add: full_table_def)
  have r: "order_movement_row m = zip [''movement_id'', ''inventory_id'', ''movement_type'', ''quantity'', ''reason'', ''created_at'', ''order_id'']
      [SId (mv_movement_id m), mv_inventory_id m, SText (mv_movement_type m), SInt (mv_quantity m), SText (mv_reason m),
        STime (mv_created_at m), SId (mv_order_id m)]" by (simp add: order_movement_row_def)
  have all: "{''inventory_movements'', ''order_status_history'', ''order_items''} = order_tables"
    by (auto simp: order_tables_def)
  show ?thesis
    unfolding insert_movement_def t r
    by (rule wlp_mono [OF wlp_add_new [OF f _ unused columns_of(3) [unfolded t] _ m]])
       (use a all in \<open>simp_all add: order_tables_def primary_key_def primary_keys_def\<close>)
qed

text \<open>Against a state in which the identifiers to come are unused, a row that was added is the one new row.\<close>

lemma adds_new:
  assumes "adds s t n r" and "n \<in> order_tables" and "ids_unused ch s" and "col r (primary_key n) = SId i"
    and "i \<in> ch_uuid ch ` {sm_draws s..}"
  shows "held t n - held s n = {r}"
proof -
  have "r \<notin> held s n" using assms unfolding ids_unused_def by auto
  then show ?thesis using assms(1) by (auto simp: adds_def sole_def)
qed

definition detailed :: "sim \<Rightarrow> sim \<Rightarrow> order \<Rightarrow> sql_value \<Rightarrow> sql_value \<Rightarrow> int \<Rightarrow> int \<Rightarrow> bool" where
  "detailed s t d iid pid price q \<longleftrightarrow>
     (\<exists>i h m. details_of d iid pid price q i h m \<and>
        held t ''order_items'' - held s ''order_items'' = {order_item_row i} \<and>
        held t ''order_status_history'' - held s ''order_status_history'' = {order_history_row h} \<and>
        held t ''inventory_movements'' - held s ''inventory_movements'' = {order_movement_row m})"

lemma detailed_adds:
  assumes "details_of d iid pid price q i h m" and unused: "ids_unused ch s"
    and a: "adds s t ''order_items'' (order_item_row i)" "adds s t ''order_status_history'' (order_history_row h)"
      "adds s t ''inventory_movements'' (order_movement_row m)"
    and i: "oi_order_item_id i \<in> ch_uuid ch ` {sm_draws s..}" "sh_history_id h \<in> ch_uuid ch ` {sm_draws s..}"
      "mv_movement_id m \<in> ch_uuid ch ` {sm_draws s..}"
  shows "detailed s t d iid pid price q"
proof -
  have "held t ''order_items'' - held s ''order_items'' = {order_item_row i}"
    by (rule adds_new [OF a(1) _ unused _ i(1)]) (simp_all add: order_tables_def order_item_row_def primary_key_def primary_keys_def)
  moreover have "held t ''order_status_history'' - held s ''order_status_history'' = {order_history_row h}"
    by (rule adds_new [OF a(2) _ unused _ i(2)]) (simp_all add: order_tables_def order_history_row_def primary_key_def primary_keys_def)
  moreover have "held t ''inventory_movements'' - held s ''inventory_movements'' = {order_movement_row m}"
    by (rule adds_new [OF a(3) _ unused _ i(3)]) (simp_all add: order_tables_def order_movement_row_def primary_key_def primary_keys_def)
  ultimately show ?thesis using assms(1) unfolding detailed_def by blast
qed

lemma pool_same [simp]:
  "held (t \<lparr> sm_pool := p \<rparr>) = held t" "sole (t \<lparr> sm_pool := p \<rparr>) = sole t" "adds s (t \<lparr> sm_pool := p \<rparr>) = adds s t"
  "detailed s (t \<lparr> sm_pool := p \<rparr>) = detailed s t" "follows A s (t \<lparr> sm_pool := p \<rparr>) = follows A s t"
proof -
  show held: "held (t \<lparr> sm_pool := p \<rparr>) = held t" by (simp add: held_def fun_eq_iff)
  show sole: "sole (t \<lparr> sm_pool := p \<rparr>) = sole t" by (simp add: sole_def held fun_eq_iff)
  show adds: "adds s (t \<lparr> sm_pool := p \<rparr>) = adds s t" by (simp add: adds_def held sole fun_eq_iff)
  show "detailed s (t \<lparr> sm_pool := p \<rparr>) = detailed s t" by (simp add: detailed_def held fun_eq_iff)
  show "follows A s (t \<lparr> sm_pool := p \<rparr>) = follows A s t" by (simp add: follows_def held sole)
qed

lemma wlp_record_order:
  assumes m: "made ch (sm_draws s) pid price q e" and f: "follows {} s t" and unused: "ids_unused ch s"
  shows "wlp (record_order ch iid pid e) (\<lambda>d u. d = fst e \<and> follows order_tables s u \<and> appends (sm_db t) (sm_db u) \<and>
    detailed s u d iid pid price q) (\<lambda>_ _. True) t"
proof -
  obtain d i h where e: "e = (d, i, h)" by (cases e)
  have made: "oi_order_id i = od_order_id d" "oi_product_id i = pid" "oi_quantity i = q" "oi_unit_price i = price"
    "oi_total_price i = price * q" "sh_order_id h = od_order_id d" "sh_previous_status h = None"
    "sh_current_status h = ''PENDING''" and ids: "oi_order_item_id i \<in> ch_uuid ch ` {sm_draws s..}"
    "sh_history_id h \<in> ch_uuid ch ` {sm_draws s..}"
    using m by (auto simp: made_def e)
  let ?P = "\<lambda>_ u. follows order_tables s u \<and> appends (sm_db t) (sm_db u) \<and> detailed s u d iid pid price q"
  have part3: "wlp (bindA (outbound_movement ch iid (od_order_id d) q) (insert_movement ch)) ?P (\<lambda>_ _. True) u"
    if u: "follows {''order_status_history'', ''order_items''} s u" "appends (sm_db t) (sm_db u)"
      "adds s u ''order_items'' (order_item_row i)" "adds s u ''order_status_history'' (order_history_row h)" for u
  proof -
    have "wlp (insert_movement ch mv) ?P (\<lambda>_ _. True) (u \<lparr> sm_draws := Suc (Suc (sm_draws u)) \<rparr>)"
      if mv: "mv_inventory_id mv = iid" "mv_order_id mv = od_order_id d" "mv_quantity mv = q"
        "mv_movement_type mv = ''OUTBOUND''" "mv_movement_id mv = ch_uuid ch (sm_draws u)" for mv
    proof -
      let ?u = "u \<lparr> sm_draws := Suc (Suc (sm_draws u)) \<rparr>"
      have same: "follows {''order_status_history'', ''order_items''} s ?u"
        by (rule follows_unmoved [OF u(1)]) (simp add: unmoved_def)
      have "sm_draws s \<le> sm_draws u" using u(1) by (simp add: follows_def)
      then have id: "mv_movement_id mv \<in> ch_uuid ch ` {sm_draws s..}" by (simp add: mv(5))
      have "adds s ?u ''order_items'' (order_item_row i)" "adds s ?u ''order_status_history'' (order_history_row h)"
        using u(3,4) by (simp_all add: adds_def sole_def held_def)
      note rule = wlp_movement [OF same this unused id]
      have "details_of d iid pid price q i h mv" by (simp add: details_of_def made mv)
      then have "detailed s v d iid pid price q" if "adds s v ''order_items'' (order_item_row i)"
          "adds s v ''order_status_history'' (order_history_row h)" "adds s v ''inventory_movements'' (order_movement_row mv)" for v
        using that by (intro detailed_adds [OF _ unused _ _ _ ids id])
      moreover have "appends (sm_db t) (sm_db v)" if "appends (sm_db ?u) (sm_db v)" for v :: sim
        using appends_trans [OF u(2)] that by simp
      ultimately show ?thesis by (intro wlp_mono [OF rule]) simp_all
    qed
    then show ?thesis unfolding outbound_movement_def by simp
  qed
  have part2: "wlp (insert_order_status_history ch h) (\<lambda>_. wlp (bindA (outbound_movement ch iid (od_order_id d) q)
      (insert_movement ch)) ?P (\<lambda>_ _. True)) (\<lambda>_ _. True) u"
    if u: "follows {''order_items''} s u" "appends (sm_db t) (sm_db u)" "adds s u ''order_items'' (order_item_row i)" for u
    by (rule wlp_mono [OF wlp_history [OF u(1,3) unused ids(2)]]) (use u(2) appends_trans part3 in blast)+
  have "wlp (insert_order_item ch i) (\<lambda>_. wlp (insert_order_status_history ch h) (\<lambda>_. wlp (bindA
      (outbound_movement ch iid (od_order_id d) q) (insert_movement ch)) ?P (\<lambda>_ _. True)) (\<lambda>_ _. True)) (\<lambda>_ _. True) t"
    by (rule wlp_mono [OF wlp_item [OF f unused ids(1)]]) (use part2 in blast)+
  then show ?thesis
    unfolding e record_order_def prod.case insert_order_details_def made(3) fst_conv by (simp add: wlp_funs)
qed

text \<open>Taking \<open>q\<close> from an inventory lowers the stock by \<open>q\<close> when no two inventories share an identifier.\<close>

definition inventory_ids_distinct :: "db \<Rightarrow> bool" where
  "inventory_ids_distinct d \<longleftrightarrow> distinct (map (\<lambda>r. col r ''inventory_id'') (d ''inventories''))"

lemma sum_taken:
  assumes "distinct (map (\<lambda>r. col r ''inventory_id'') rs)" and "\<exists>r \<in> set rs. takes i q r"
  shows "sum_list (map available (map (\<lambda>r. if takes i q r then set_available now (- q) r else r) rs)) =
    sum_list (map available rs) - q"
  using assms
proof (induction rs)
  case Nil
  then show ?case by simp
next
  case (Cons r rs)
  show ?case
  proof (cases "takes i q r")
    case True
    have "\<not> takes i q r'" if "r' \<in> set rs" for r'
      using that True Cons.prems(1) by (auto simp: takes_def image_iff)
    then have "map (\<lambda>r. if takes i q r then set_available now (- q) r else r) rs = rs" by (intro map_idI) simp
    then show ?thesis using True by (simp del: map_map)
  next
    case False
    then show ?thesis using Cons by (simp del: map_map)
  qed
qed

lemma stock_taken:
  assumes "inventory_ids_distinct d" and "\<exists>r \<in> set (d ''inventories''). takes i q r"
  shows "stock (taken now i q d) = stock d - q"
  using sum_taken [OF assms(1) [unfolded inventory_ids_distinct_def] assms(2), of now]
  by (simp only: stock_def taken_def fun_upd_same)

lemma wlp_place_order:
  assumes w: "writer_tables (sm_writer s)" and unused: "ids_unused ch s"
  shows "wlp (place_order ch cid (iid, pid, price, q))
    (\<lambda>d t. follows order_tables s t \<and> order_row d \<in> set (sm_db t ''orders'') \<and> od_status d = ''PENDING'' \<and>
       od_total_amount d = price * q \<and> detailed s t d iid pid price q) (\<lambda>_ _. True) s"
  unfolding place_order_def prod.case wlp_bindA
proof (rule wlp_mono [OF wlp_retry [where I = "follows {} s" and Q = "made ch (sm_draws s) pid price q" and
      R = "\<lambda>e u. order_row (fst e) \<in> set (sm_db u ''orders'')"]])
  show "follows {} s s" by (rule follows_refl [OF w])
  show "wlp (generate_order ch cid pid price q) (\<lambda>e u. follows {} s u \<and> made ch (sm_draws s) pid price q e) (\<lambda>_ _. True) t"
    if "follows {} s t" for t
    by (rule wlp_mono [OF wlp_generate_order [of "sm_draws s"]])
       (use that follows_unmoved [OF that] in \<open>auto simp: follows_def\<close>)
  show "wlp (insert_order (fst e)) (\<lambda>ok u. follows {} s u \<and> (ok \<longrightarrow> order_row (fst e) \<in> set (sm_db u ''orders''))) (\<lambda>_ _. True) t"
    if "follows {} s t" for e t
    by (rule wlp_insert_order [OF that])
  fix e t
  assume e: "follows {} s t \<and> made ch (sm_draws s) pid price q e \<and> order_row (fst e) \<in> set (sm_db t ''orders'')"
  have "od_status (fst e) = ''PENDING'' \<and> od_total_amount (fst e) = price * q" using e by (auto simp: made_def)
  moreover have "order_row (fst e) \<in> set (sm_db u ''orders'')" if more: "appends (sm_db t) (sm_db u)" for u :: sim
  proof -
    obtain xs where "sm_db u ''orders'' = sm_db t ''orders'' @ xs" using more unfolding appends_def by blast
    then show ?thesis using e by simp
  qed
  ultimately show "wlp (record_order ch iid pid e) (\<lambda>d t. follows order_tables s t \<and> order_row d \<in> set (sm_db t ''orders'') \<and>
      od_status d = ''PENDING'' \<and> od_total_amount d = price * q \<and> detailed s t d iid pid price q) (\<lambda>_ _. True) t"
    using e by (intro wlp_mono [OF wlp_record_order [of ch s pid price q e t, OF _ _ unused]]) auto
qed simp_all

lemma wlp_random_customer: "wlp (random_customer_id ch) (\<lambda>_ t. unmoved s t) (\<lambda>_ _. True) s"
  by (simp add: random_customer_id_def choice_or_none_def unmoved_def)

lemma reserved_held:
  assumes "reserved s (iid, pid, price, q) u" and "n \<in> order_tables"
  shows "held u n = held s n"
  using assms order_tables_others [OF assms(2)] by (simp add: reserved_def held_def taken_def)

lemma reserved_ids: "reserved s (iid, pid, price, q) u \<Longrightarrow> ids_unused ch s \<Longrightarrow> ids_unused ch u"
  using reserved_held unfolding ids_unused_def reserved_def by fastforce

lemma reserved_row:
  assumes "reserved s (iid, pid, price, q) u" and "inventory_ids_distinct (sm_db s)"
  shows "\<exists>r \<in> set (sm_db s ''inventories''). takes iid q r \<and> col r ''product_id'' = pid"
proof -
  obtain r r' where r: "r \<in> set (sm_db s ''inventories'')" "takes iid q r"
    and r': "r' \<in> set (sm_db s ''inventories'')" "col r' ''inventory_id'' = iid" "col r' ''product_id'' = pid"
    using assms(1) by (auto simp: reserved_def)
  have "col r ''inventory_id'' = iid" using r(2) by (simp add: takes_def)
  then have "r = r'" using assms(2) r(1) r'(1,2) by (auto simp: inventory_ids_distinct_def distinct_map dest: inj_onD)
  then show ?thesis using r r' by blast
qed

lemma stock_placed:
  assumes r: "reserved s (iid, pid, price, q) u" and inv: "inventory_ids_distinct (sm_db s)" and f: "follows A u t"
  shows "sm_db t ''inventories'' = taken (sm_now s) iid q (sm_db s) ''inventories'' \<and> stock (sm_db t) = stock (sm_db s) - q"
proof -
  have t: "sm_db t ''inventories'' = taken (sm_now s) iid q (sm_db s) ''inventories''"
    using r f by (simp add: follows_def reserved_def)
  then have "stock (sm_db t) = stock (taken (sm_now s) iid q (sm_db s))" by (simp add: stock_def)
  also have "\<dots> = stock (sm_db s) - q" using r by (intro stock_taken inv) (simp add: reserved_def)
  finally show ?thesis using t by blast
qed

lemma detailed_reserved:
  assumes "reserved s (iid, pid, price, q) u"
  shows "detailed u t d iid pid price q = detailed s t d iid pid price q"
proof -
  have "held u ''order_items'' = held s ''order_items''" "held u ''order_status_history'' = held s ''order_status_history''"
    "held u ''inventory_movements'' = held s ''inventory_movements''"
    by (rule reserved_held [OF assms], simp add: order_tables_def)+
  then show ?thesis by (simp add: detailed_def)
qed

text \<open>
  C17. An order that is created takes its quantity, from one to five units, out of one inventory
  row of its product that had that many, and out of nothing else; its total is the product's price times the quantity;
  it is in the table of orders; and exactly one item, one history row and one outbound movement are new in their tables
  or in the writer's buffers for them: those of this order, with that product, price, quantity and inventory. The
  identifiers \<open>uuid4\<close> is still to give are assumed not to be in use in those three tables.
\<close>

theorem order_takes_its_stock:
  assumes "chance_ok ch" and "writer_tables (sm_writer s)" and "inventory_ids_distinct (sm_db s)" and "ids_unused ch s"
    and "create_order ch s = Some (Inr d, t)"
  shows "\<exists>iid pid price q i h m. 1 \<le> q \<and> q \<le> 5 \<and> stock (sm_db t) = stock (sm_db s) - q \<and>
    sm_db t ''inventories'' = taken (sm_now s) iid q (sm_db s) ''inventories'' \<and>
    (\<exists>r \<in> set (sm_db s ''inventories''). takes iid q r \<and> col r ''product_id'' = pid) \<and>
    (\<exists>r \<in> set (sm_db s ''products''). col r ''product_id'' = pid \<and> int_of (col r ''price'') = price) \<and>
    od_total_amount d = price * q \<and> od_status d = ''PENDING'' \<and> order_row d \<in> set (sm_db t ''orders'') \<and>
    details_of d iid pid price q i h m \<and>
    held t ''order_items'' - held s ''order_items'' = {order_item_row i} \<and>
    held t ''order_status_history'' - held s ''order_status_history'' = {order_history_row h} \<and>
    held t ''inventory_movements'' - held s ''inventory_movements'' = {order_movement_row m}" (is "?P d t")
proof -
  have "wlp (create_order ch) ?P (\<lambda>_ _. True) s"
    unfolding create_order_def wlp_bindA
  proof (rule wlp_mono [OF wlp_random_customer])
    fix customer and v :: sim
    assume v: "unmoved s v"
    have "wlp (reserve_inventory ch max_inventory_reserve_attempts) (\<lambda>x. wlp (place_order ch cid x) ?P (\<lambda>_ _. True)) (\<lambda>_ _. True) v" for cid
    proof (rule wlp_mono [OF wlp_reserve [OF assms(1)]])
      fix x and u :: sim
      assume "reserved v x u"
      then have r: "reserved s x u" using v by (rule reserved_unmoved)
      obtain iid pid price q where x: "x = (iid, pid, price, q)" by (cases x)
      note r = r [unfolded x]
      have u: "writer_tables (sm_writer u)" "ids_unused ch u" "1 \<le> q" "q \<le> 5"
        "\<exists>r \<in> set (sm_db s ''products''). col r ''product_id'' = pid \<and> int_of (col r ''price'') = price"
        using r assms(2) reserved_ids [OF r assms(4)] by (simp_all add: reserved_def)
      show "wlp (place_order ch cid x) ?P (\<lambda>_ _. True) u"
        unfolding x
      proof (rule wlp_mono [OF wlp_place_order [OF u(1,2)]])
        fix d t
        assume p: "follows order_tables u t \<and> order_row d \<in> set (sm_db t ''orders'') \<and> od_status d = ''PENDING'' \<and>
          od_total_amount d = price * q \<and> detailed u t d iid pid price q"
        then have "detailed s t d iid pid price q" by (simp only: detailed_reserved [OF r])
        then obtain i h m where rows: "details_of d iid pid price q i h m"
          "held t ''order_items'' - held s ''order_items'' = {order_item_row i}"
          "held t ''order_status_history'' - held s ''order_status_history'' = {order_history_row h}"
          "held t ''inventory_movements'' - held s ''inventory_movements'' = {order_movement_row m}"
          unfolding detailed_def by (elim exE conjE) (rule that)
        have f: "follows order_tables u t" and o: "order_row d \<in> set (sm_db t ''orders'')" "od_status d = ''PENDING''"
            "od_total_amount d = price * q"
          using p by blast+
        note inv = stock_placed [OF r assms(3) f] and row = reserved_row [OF r assms(3)]
        show "?P d t"
          by (rule exI [of _ iid], rule exI [of _ pid], rule exI [of _ price], rule exI [of _ q], rule exI [of _ i],
              rule exI [of _ h], rule exI [of _ m])
             (intro conjI u(3-5) o rows row inv [THEN conjunct1] inv [THEN conjunct2])
      qed simp
    qed simp
    then show "wlp (case customer of None \<Rightarrow> raise (value_error ''No customer found.'')
       | Some customer_id \<Rightarrow> bindA (reserve_inventory ch max_inventory_reserve_attempts) (place_order ch customer_id)) ?P (\<lambda>_ _. True) v"
      by (simp split: option.split)
  qed simp
  from wlp_Inr [OF this assms(5)] show ?thesis .
qed

text \<open>A movement of an earlier order is in its table already.\<close>

definition old_movement :: row where
  "old_movement = [(''movement_id'', SText ''m-0''), (''inventory_id'', SId 5), (''movement_type'', SText ''OUTBOUND''),
     (''quantity'', SInt 1), (''order_id'', SText ''o-0'')]"

definition sample_market :: sim where
  "sample_market = (fresh_sim ((\<lambda>t. [])(
     ''customers'' := [[(''customer_id'', SId 1)]],
     ''products'' := [[(''product_id'', SId 3), (''price'', SNum 100)]],
     ''inventories'' := [inventory_row \<lparr> iv_inventory_id = 5, iv_warehouse_id = SId 4, iv_product_id = 3,
        iv_available_quantity = 30, iv_reserved_quantity = 0, iv_minimum_quantity = 5, iv_updated_at = 0 \<rparr>],
     ''inventory_movements'' := [old_movement])))
     \<lparr> sm_writer := new_writer 9, sm_pool := empty_pool \<lparr> rp_customer_ids := [1] \<rparr> \<rparr>"

text \<open>The order is created: a run of the rules of \<open>wp\<close> over the whole service.\<close>

lemma sample_order_run: "wp (create_order sample_chance) (\<lambda>d t. True) (\<lambda>_ _. False) sample_market"
  by (simp add: sample_market_def fresh_sim_def sample_chance_def empty_pool_def new_writer_def numeral_eq_Suc
      create_order_def random_customer_id_def choice_or_none_def max_inventory_reserve_attempts_def
      random_inventory_def random_row_def product_price_def decrease_available_quantity_def wp_exec_update
      update_statement_def inventory_row_def int_of_def set_available_def set_col_def row_valid_def market_tables_def
      inventories_table_def nonneg_def place_order_def insert_with_unique_retry_def default_insert_attempts_def
      generate_order_def order_number_def unique_or_fallback_def new_order_def new_order_item_def new_status_history_def
      insert_order_def insert_returning_def wp_exec_insert insert_statement_def insert_row_def order_row_def
      orders_table_def one_of_def order_statuses_def keys_of_def unique_keys_def clashes_def refs_ok_def foreign_keys_def
      has_id_def record_order_def insert_order_details_def insert_order_item_def insert_order_status_history_def
      outbound_movement_def insert_movement_def writer_add_def buffer_row_def lookup_rows_def Let_def)

lemma sample_market_ready:
  "writer_tables (sm_writer sample_market)" "inventory_ids_distinct (sm_db sample_market)" "ids_unused sample_chance sample_market"
proof -
  show "writer_tables (sm_writer sample_market)"
    by (simp add: sample_market_def writer_tables_def writer_counts_def new_writer_def buffered_rows_def)
  show "inventory_ids_distinct (sm_db sample_market)"
    by (simp add: sample_market_def fresh_sim_def inventory_ids_distinct_def)
  show "ids_unused sample_chance sample_market"
    by (simp add: ids_unused_def order_tables_def held_def sample_market_def fresh_sim_def new_writer_def buffered_def
        lookup_rows_def old_movement_def primary_key_def primary_keys_def)
qed

theorem order_takes_its_stock_witness:
  "\<exists>d t iid pid price q i h m. create_order sample_chance sample_market = Some (Inr d, t) \<and> 1 \<le> q \<and> q \<le> 5 \<and>
     stock (sm_db t) = stock (sm_db sample_market) - q \<and> details_of d iid pid price q i h m \<and>
     old_movement \<in> held sample_market ''inventory_movements'' \<and>
     held t ''inventory_movements'' - held sample_market ''inventory_movements'' = {order_movement_row m}"
proof -
  obtain d t where t: "create_order sample_chance sample_market = Some (Inr d, t)"
    using wp_success [OF sample_order_run] by blast
  have "old_movement \<in> held sample_market ''inventory_movements''"
    by (simp add: held_def sample_market_def fresh_sim_def)
  note old = this
  obtain iid pid price q i h m where "1 \<le> q" "q \<le> 5" "stock (sm_db t) = stock (sm_db sample_market) - q"
    "details_of d iid pid price q i h m"
    "held t ''inventory_movements'' - held sample_market ''inventory_movements'' = {order_movement_row m}"
    using order_takes_its_stock [OF sample_chance_ok sample_market_ready t] by (elim exE conjE) (rule that)
  with t old show ?thesis by (intro exI conjI)
qed

end
