(* ===== verification/Stage_Properties.thy ===== *)
theory Stage_Properties
  imports Postgres_Extraction Glue_Contract
begin

text \<open>
  The properties of object storage and of the concrete stages, given what S3 documents
  (\<open>s3_laws\<close>), with an object store in memory for the witnesses.
\<close>

section \<open>What S3 documents\<close>

text \<open>
  The observer gives the content of an object. A copy needs its source and is refused onto itself;
  a request that fails may still have had its effect.
\<close>

type_synonym 'w object_view = "'w \<Rightarrow> string \<times> string \<Rightarrow> string option"

definition copied :: "'w object_view \<Rightarrow> string \<times> string \<Rightarrow> string \<times> string \<Rightarrow> 'w \<Rightarrow> 'w \<Rightarrow> bool" where
  "copied V src dst w w' \<longleftrightarrow> (\<exists>c. V w src = Some c \<and> V w' = (V w)(dst := Some c))"

definition removed :: "'w object_view \<Rightarrow> string \<times> string \<Rightarrow> 'w \<Rightarrow> 'w \<Rightarrow> bool" where
  "removed V obj w w' \<longleftrightarrow> V w' = (V w)(obj := None)"

definition same_objects :: "'w object_view \<Rightarrow> 'w \<Rightarrow> 'w \<Rightarrow> bool" where
  "same_objects V w w' \<longleftrightarrow> V w' = V w"

definition s3_laws :: "'w s3_api \<Rightarrow> 'w object_view \<Rightarrow> bool" where
  "s3_laws api V \<longleftrightarrow>
     (\<forall>b k src. request (sa_copy_object api b k src) (\<lambda>w. src \<noteq> (b, k)) (copied V src (b, k)) (same_objects V)) \<and>
     (\<forall>b k. request (sa_delete_object api b k) (\<lambda>_. True) (removed V (b, k)) (same_objects V))"

definition object_of :: "storage_location \<Rightarrow> string \<times> string" where
  "object_of l = (sl_bucket l, sl_key l)"

text \<open>Where the content can be while an object moves.\<close>

definition moving :: "'w object_view \<Rightarrow> string \<times> string \<Rightarrow> string \<times> string \<Rightarrow> 'w \<Rightarrow> 'w \<Rightarrow> bool" where
  "moving V src dst w w' \<longleftrightarrow>
     (V w' src = V w src \<or> V w' dst = V w src) \<and> (\<forall>obj. obj \<noteq> src \<longrightarrow> obj \<noteq> dst \<longrightarrow> V w' obj = V w obj)"

lemma s3_move_wlp:
  assumes "s3_laws api V"
  shows "wlp (s3_move api src dst)
    (\<lambda>_ w'. V w' = (V w)(object_of dst := V w (object_of src), object_of src := None) \<and>
       object_of src \<noteq> object_of dst)
    (\<lambda>_ w'. moving V (object_of src) (object_of dst) w w') w"
proof -
  have copy: "request (sa_copy_object api (sl_bucket dst) (sl_key dst) (sl_bucket src, sl_key src))
      (\<lambda>w. object_of src \<noteq> object_of dst) (copied V (object_of src) (object_of dst)) (same_objects V)"
    and delete: "request (sa_delete_object api (sl_bucket src) (sl_key src)) (\<lambda>_. True)
      (removed V (object_of src)) (same_objects V)"
    using assms by (simp_all add: s3_laws_def object_of_def)
  show ?thesis
    unfolding s3_move_def s3_copy_def s3_delete_def wlp_bindA
    by (rule request_wlp [OF copy], rule request_wlp [OF delete])
       (auto simp: copied_def removed_def same_objects_def moving_def)
qed

section \<open>An object store in memory\<close>

record mem_store_state =
  m3_objects :: "(string \<times> string, string) dict"
  m3_files :: "(string, string) dict"

definition no_such_key :: exn where
  "no_such_key = Exn ''ClientError'' ''NoSuchKey''"

definition mem_s3_api :: "mem_store_state s3_api" where
  "mem_s3_api =
     \<lparr> sa_head_object = (\<lambda>b k w.
         (case map_of (m3_objects w) (b, k) of
            None \<Rightarrow> Inl no_such_key
          | Some c \<Rightarrow> Inr \<lparr> hr_content_type = None, hr_content_length = int (length c), hr_etag = [],
              hr_last_modified = 0, hr_metadata = None \<rparr>, w)),
       sa_upload_file = (\<lambda>path b k w.
         case map_of (m3_files w) path of
           None \<Rightarrow> (Inl (Exn ''FileNotFoundError'' path), w)
         | Some c \<Rightarrow> (Inr (), w \<lparr> m3_objects := AList.update (b, k) c (m3_objects w) \<rparr>)),
       sa_upload_fileobj = (\<lambda>c b k w. (Inr (), w \<lparr> m3_objects := AList.update (b, k) c (m3_objects w) \<rparr>)),
       sa_download_file = (\<lambda>b k path w.
         case map_of (m3_objects w) (b, k) of
           None \<Rightarrow> (Inl no_such_key, w)
         | Some c \<Rightarrow> (Inr (), w \<lparr> m3_files := AList.update path c (m3_files w) \<rparr>)),
       sa_delete_object = (\<lambda>b k w. (Inr (), w \<lparr> m3_objects := AList.delete (b, k) (m3_objects w) \<rparr>)),
       sa_copy_object = (\<lambda>b k src w.
         case map_of (m3_objects w) src of
           None \<Rightarrow> (Inl no_such_key, w)
         | Some c \<Rightarrow>
             if src = (b, k) then (Inl (Exn ''ClientError'' ''InvalidRequest''), w)
             else (Inr (), w \<lparr> m3_objects := AList.update (b, k) c (m3_objects w) \<rparr>)),
       sa_list_objects = (\<lambda>b pre w.
         (([map (\<lambda>((_, k), c). \<lparr> s3_key = k, s3_size = int (length c), s3_etag = [], s3_last_modified = 0 \<rparr>)
              (filter (\<lambda>((b', k), _). b' = b \<and> prefix pre k) (m3_objects w))], None), w)),
       sa_make_parents = (\<lambda>_ w. (Inr (), w)),
       sa_error_code = (\<lambda>e. if exn_class e = ''ClientError'' then Some (exn_text e) else None) \<rparr>"

definition mem_objects :: "mem_store_state object_view" where
  "mem_objects w = map_of (m3_objects w)"

lemma mem_s3_laws: "s3_laws mem_s3_api mem_objects"
  by (auto simp: s3_laws_def request_def mem_s3_api_def mem_objects_def copied_def removed_def
      same_objects_def fun_eq_iff dict_simps split: option.split)

section \<open>Moving an object\<close>

text \<open>
  C23. A move in the data lake never loses the object: if it returns, the content of the source is
  at the destination, the source is gone and nothing else changed; if it raises, at whatever
  request, the content is still at the source or already at the destination, and nothing else
  changed.
\<close>

theorem lake_move_never_loses:
  assumes "s3_laws api V" and "ls_storage lake = s3_provider api"
    and "lake_move lake src dst w = Some (r, w')" and "V w (object_of src) = Some c"
  shows "(r = Inr () \<longrightarrow> V w' (object_of dst) = Some c \<and> V w' (object_of src) = None) \<and>
    (V w' (object_of src) = Some c \<or> V w' (object_of dst) = Some c) \<and>
    (\<forall>obj. obj \<noteq> object_of src \<longrightarrow> obj \<noteq> object_of dst \<longrightarrow> V w' obj = V w obj)"
proof -
  have "s3_move api src dst w = Some (r, w')"
    using assms(2,3) by (simp add: lake_move_def s3_provider_def)
  with s3_move_wlp [OF assms(1), of src dst w] assms(4) show ?thesis
    by (cases r) (auto simp: wlp_def moving_def)
qed

definition sample_lake :: "mem_store_state lake_service" where
  "sample_lake = \<lparr> ls_storage = s3_provider mem_s3_api, ls_lake = \<lparr> lake_scheme = ''s3'', lake_bucket = ''lake'' \<rparr> \<rparr>"

definition at_key :: "string \<Rightarrow> storage_location" where
  "at_key k = \<lparr> sl_scheme = ''s3'', sl_bucket = ''lake'', sl_key = k \<rparr>"

lemma lake_move_never_loses_witness:
  "\<exists>w'. lake_move sample_lake (at_key ''a'') (at_key ''b'')
      \<lparr> m3_objects = [((''lake'', ''a''), ''rows'')], m3_files = [] \<rparr> = Some (Inr (), w') \<and>
    mem_objects w' (''lake'', ''b'') = Some ''rows'' \<and> mem_objects w' (''lake'', ''a'') = None"
proof -
  let ?w = "\<lparr> m3_objects = [((''lake'', ''a''), ''rows'')], m3_files = [] \<rparr>"
  obtain w' where w': "lake_move sample_lake (at_key ''a'') (at_key ''b'') ?w = Some (Inr (), w')"
    by (simp add: lake_move_def sample_lake_def s3_provider_def s3_move_def s3_copy_def s3_delete_def
        mem_s3_api_def bindA_def call_def at_key_def)
  have "ls_storage sample_lake = s3_provider mem_s3_api" by (simp add: sample_lake_def)
  from lake_move_never_loses [OF mem_s3_laws this w', of "''rows''"] w' show ?thesis
    by (auto simp: mem_objects_def object_of_def at_key_def)
qed

section \<open>The schema of a Delta table\<close>

text \<open>
  What reading the log relies on: a downloaded object is read back as its content, and neither
  listing, downloading, reading nor the temporary directory changes the objects.
\<close>

definition delivers :: "'w provider \<Rightarrow> 'w delta_env \<Rightarrow> ('w \<Rightarrow> storage_location \<Rightarrow> string option) \<Rightarrow> bool" where
  "delivers provider v obj \<longleftrightarrow>
     (\<forall>l dest w. wlp (thenA (pv_download provider l dest) (call (dv_read_text v dest)))
        (\<lambda>text w'. obj w l = Some text \<and> obj w' = obj w) (\<lambda>_ w'. obj w' = obj w) w) \<and>
     (\<forall>l w. wlp (pv_list provider l) (\<lambda>_ w'. obj w' = obj w) (\<lambda>_ w'. obj w' = obj w) w) \<and>
     (\<forall>w. obj (snd (dv_make_tmp v w)) = obj w) \<and> (\<forall>tmp w. obj (snd (dv_remove_tmp v tmp w)) = obj w)"

definition schema_of_commit ::
  "'w delta_env \<Rightarrow> (storage_location \<Rightarrow> string option) \<Rightarrow> storage_location \<Rightarrow> json option \<Rightarrow> bool" where
  "schema_of_commit v contents l schema \<longleftrightarrow>
     (\<exists>text. contents l = Some text \<and> schema_in (dv_loads v) (splitlines text) = Inr schema)"

text \<open>The first commit of the list with a schema, none of those before it having one.\<close>

fun first_schema ::
  "'w delta_env \<Rightarrow> (storage_location \<Rightarrow> string option) \<Rightarrow> storage_location list \<Rightarrow> json \<Rightarrow> bool" where
  "first_schema v contents [] schema = False"
| "first_schema v contents (c # commits) schema \<longleftrightarrow>
     schema_of_commit v contents c (Some schema) \<or>
     schema_of_commit v contents c None \<and> first_schema v contents commits schema"

lemma scan_commits_wlp:
  assumes "delivers provider v obj"
  shows "wlp (scan_commits v provider tmp none commits)
    (\<lambda>schema w'. first_schema v (obj w) commits schema) (\<lambda>_ _. True) w"
proof (induction commits arbitrary: w)
  case Nil
  then show ?case by simp
next
  case (Cons c commits)
  let ?dest = "tmp @ ''/'' @ location_name c"
  let ?Q = "\<lambda>schema w'. first_schema v (obj w) (c # commits) schema"
  have read: "wlp (pv_download provider c ?dest) (\<lambda>_. wlp (call (dv_read_text v ?dest))
      (\<lambda>text w'. obj w c = Some text \<and> obj w' = obj w) (\<lambda>_ w'. obj w' = obj w)) (\<lambda>_ w'. obj w' = obj w) w"
    using assms unfolding delivers_def wlp_bindA by blast
  have rest: "wlp (bindA (lift (schema_in (dv_loads v) (splitlines content))) (\<lambda>found. case found of
        Some schema \<Rightarrow> ret schema | None \<Rightarrow> scan_commits v provider tmp none commits)) ?Q (\<lambda>_ _. True) w'"
    if "obj w c = Some content" "obj w' = obj w" for content w'
  proof (cases "schema_in (dv_loads v) (splitlines content)")
    case (Inr found)
    then have "schema_of_commit v (obj w) c found"
      using that(1) by (simp add: schema_of_commit_def)
    then show ?thesis
      using Cons.IH [of w'] that(2) by (cases found) (auto simp: Inr elim: wlp_mono)
  qed simp
  show ?case
    unfolding scan_commits.simps Let_def wlp_bindA [of "pv_download _ _ _"] wlp_bindA [of "call _"]
    by (rule wlp_mono [OF read]) (use rest in \<open>auto elim!: wlp_mono\<close>)
qed

text \<open>A commit that comes first in the log is one no other commit is newer than, unless it has no schema.\<close>

lemma first_schema_newest:
  assumes "first_schema v contents commits schema"
    and "sorted (map location_name (rev commits))"
  shows "\<exists>c \<in> set commits. schema_of_commit v contents c (Some schema) \<and>
    (\<forall>c' \<in> set commits. location_name c < location_name c' \<longrightarrow> schema_of_commit v contents c' None)"
  using assms
proof (induction commits)
  case (Cons c commits)
  have below: "\<forall>c' \<in> set commits. location_name c' \<le> location_name c"
    using Cons.prems(2) by (auto simp: sorted_append)
  show ?case
  proof (cases "schema_of_commit v contents c (Some schema)")
    case True
    with below show ?thesis by (auto simp: not_less [symmetric])
  next
    case False
    with Cons.prems have "schema_of_commit v contents c None" "first_schema v contents commits schema"
      by auto
    with Cons.IH Cons.prems(2) show ?thesis by (auto simp: sorted_append)
  qed
qed simp

lemma newest_first_sorted: "sorted (map location_name (rev (newest_first ls)))"
  by (simp add: newest_first_def)

lemma set_newest_first [simp]: "set (newest_first ls) = set ls"
  by (simp add: newest_first_def)

text \<open>The commits a listing of the log holds.\<close>

definition log_commits :: "storage_object list \<Rightarrow> storage_location set" where
  "log_commits objects = {l \<in> so_location ` set objects. ends_with ''.json'' (location_name l)}"

lemma with_tmp_wlp:
  assumes "\<And>tmp w'. dv_make_tmp v w = (Inr tmp, w') \<Longrightarrow> wlp (body tmp) (\<lambda>a _. Q a) (\<lambda>_ _. True) w'"
  shows "wlp (with_tmp v body) (\<lambda>a _. Q a) (\<lambda>_ _. True) w"
proof (cases "dv_make_tmp v w")
  case (Pair r w')
  show ?thesis
  proof (cases r)
    case (Inl e)
    with Pair show ?thesis by (simp add: with_tmp_def wlp_def bindA_def call_def)
  next
    case (Inr tmp)
    with Pair assms [of tmp w'] show ?thesis
      by (auto simp: with_tmp_def wlp_def bindA_def call_def split: option.split sum.split prod.split sum.splits)
  qed
qed

text \<open>
  C24. The schema registered for a Silver table is the newest one of its Delta log. If reading it
  returns, the log was listed, and either there are no commits and there is no schema, or the schema is
  in a commit such that every commit with a greater name was read and has none.
\<close>

theorem delta_schema_is_newest:
  assumes "delivers provider v obj" and "read_delta_schema v provider table w = Some (Inr res, w')"
  shows "\<exists>log objects w1. new_location (sl_scheme table) (sl_bucket table) (sl_key table @ ''/_delta_log/'') = Inr log \<and>
    pv_list provider log w = Some (Inr objects, w1) \<and>
    (case res of
       None \<Rightarrow> log_commits objects = {}
     | Some schema \<Rightarrow> \<exists>c \<in> log_commits objects. schema_of_commit v (obj w) c (Some schema) \<and>
         (\<forall>c' \<in> log_commits objects. location_name c < location_name c' \<longrightarrow>
            schema_of_commit v (obj w) c' None))"
proof -
  obtain log where log: "new_location (sl_scheme table) (sl_bucket table) (sl_key table @ ''/_delta_log/'') = Inr log"
    using assms(2) by (cases "new_location (sl_scheme table) (sl_bucket table) (sl_key table @ ''/_delta_log/'')")
      (auto simp: read_delta_schema_def bindA_def lift_def)
  obtain objects w1 where objects: "pv_list provider log w = Some (Inr objects, w1)"
    using assms(2) by (auto simp: read_delta_schema_def bindA_def lift_def log split: option.splits prod.splits sum.splits)
  let ?commits = "newest_first (filter (\<lambda>l. ends_with ''.json'' (location_name l)) (map so_location objects))"
  have commits: "set ?commits = log_commits objects" by (auto simp: log_commits_def)
  have "wlp (pv_list provider log) (\<lambda>_ w'. obj w' = obj w) (\<lambda>_ w'. obj w' = obj w) w"
    using assms(1) unfolding delivers_def by blast
  then have w1: "obj w1 = obj w" using objects by (rule wlp_Inr)
  have res: "case res of None \<Rightarrow> ?commits = [] | Some schema \<Rightarrow> first_schema v (obj w) ?commits schema"
  proof (cases "?commits = []")
    case True
    then show ?thesis
      using assms(2) by (simp add: read_delta_schema_def bindA_def lift_def log objects ret_def Let_def)
  next
    case False
    then have ret: "with_tmp v (\<lambda>tmp. bindA (scan_commits v provider tmp (no_metadata_error log) ?commits)
        (\<lambda>schema. ret (Some schema))) w1 = Some (Inr res, w')"
      using assms(2) by (simp add: read_delta_schema_def bindA_def lift_def log objects Let_def)
    have "wlp (with_tmp v (\<lambda>tmp. bindA (scan_commits v provider tmp (no_metadata_error log) ?commits)
        (\<lambda>schema. ret (Some schema))))
      (\<lambda>res _. \<exists>schema. res = Some schema \<and> first_schema v (obj w) ?commits schema) (\<lambda>_ _. True) w1"
    proof (rule with_tmp_wlp)
      fix tmp w2
      assume "dv_make_tmp v w1 = (Inr tmp, w2)"
      then have "obj w2 = obj w"
        using assms(1) w1 unfolding delivers_def by (metis snd_conv)
      then show "wlp (bindA (scan_commits v provider tmp (no_metadata_error log) ?commits)
          (\<lambda>schema. ret (Some schema)))
        (\<lambda>res _. \<exists>schema. res = Some schema \<and> first_schema v (obj w) ?commits schema) (\<lambda>_ _. True) w2"
        using scan_commits_wlp [OF assms(1), of tmp "no_metadata_error log" ?commits w2]
        by (auto elim: wlp_mono)
    qed
    from wlp_Inr [OF this ret] show ?thesis by auto
  qed
  have "case res of None \<Rightarrow> log_commits objects = {} | Some schema \<Rightarrow>
      \<exists>c \<in> log_commits objects. schema_of_commit v (obj w) c (Some schema) \<and>
        (\<forall>c' \<in> log_commits objects. location_name c < location_name c' \<longrightarrow> schema_of_commit v (obj w) c' None)"
  proof (cases res)
    case None
    with res have "?commits = []" by simp
    then have "set ?commits = {}" by (simp only: list.set)
    with commits None show ?thesis by (simp only: option.case)
  next
    case (Some schema)
    with res have "first_schema v (obj w) ?commits schema" by simp
    from first_schema_newest [OF this newest_first_sorted] commits Some show ?thesis
      by (simp only: option.case)
  qed
  with log objects show ?thesis by blast
qed

text \<open>A log of two commits in memory: the newest says nothing of the schema.\<close>

definition sample_loads :: "string \<Rightarrow> json outcome" where
  "sample_loads s =
     (if s = ''schema'' then Inr (JObj [(''metaData'', JObj [(''schemaString'', JStr ''struct'')])])
      else if s = ''add'' then Inr (JObj [(''add'', JNull)])
      else Inr (JStr s))"

definition sample_delta :: "mem_store_state delta_env" where
  "sample_delta =
     \<lparr> dv_make_tmp = (\<lambda>w. (Inr ''/tmp/d'', w)), dv_remove_tmp = (\<lambda>_ w. (Inr (), w)),
       dv_read_text = (\<lambda>path w.
         (case map_of (m3_files w) path of None \<Rightarrow> Inl no_such_key | Some c \<Rightarrow> Inr c, w)),
       dv_loads = sample_loads, dv_repr = (\<lambda>_. []), dv_check_netloc = (\<lambda>_. Inr ()) \<rparr>"

definition mem_contents :: "mem_store_state \<Rightarrow> storage_location \<Rightarrow> string option" where
  "mem_contents w l = mem_objects w (object_of l)"

lemma mem_delivers: "delivers (s3_provider mem_s3_api) sample_delta mem_contents"
  by (auto simp: delivers_def s3_provider_def s3_download_def s3_list_def paged_def mem_s3_api_def
      sample_delta_def wlp_call wlp_def bindA_def call_def mem_contents_def mem_objects_def
      object_of_def dict_simps fun_eq_iff split: option.split sum.split)

definition two_commits :: mem_store_state where
  "two_commits =
     \<lparr> m3_objects = [((''lake'', ''t/_delta_log/0.json''), ''add'' @ [CHR 0x0A] @ ''schema''),
                     ((''lake'', ''t/_delta_log/1.json''), ''add'')],
       m3_files = [] \<rparr>"

lemma delta_schema_is_newest_witness:
  "\<exists>w' log objects w1.
     read_delta_schema sample_delta (s3_provider mem_s3_api) (at_key ''t'') two_commits =
       Some (Inr (Some (JStr ''struct'')), w') \<and>
     pv_list (s3_provider mem_s3_api) log two_commits = Some (Inr objects, w1) \<and>
     (\<exists>c \<in> log_commits objects.
        schema_of_commit sample_delta (mem_contents two_commits) c (Some (JStr ''struct'')))"
proof -
  have "map_option fst (read_delta_schema sample_delta (s3_provider mem_s3_api) (at_key ''t'') two_commits) =
      Some (Inr (Some (JStr ''struct'')))"
    by code_simp
  then obtain w' where w': "read_delta_schema sample_delta (s3_provider mem_s3_api) (at_key ''t'') two_commits =
      Some (Inr (Some (JStr ''struct'')), w')"
    by auto
  from delta_schema_is_newest [OF mem_delivers w'] w' show ?thesis by auto
qed

end
