(* ===== verification/Extraction_Properties.thy ===== *)
theory Extraction_Properties
  imports Postgres_Extraction
begin

text \<open>
  The properties of the extraction of a PostgreSQL table: the table built from the fetched rows, and
  the agreement of its schema with the one the streaming path resolves from \<open>information_schema\<close>.
\<close>

section \<open>The table extracted\<close>

text \<open>What a cell of a column becomes: a uuid is written as its text, \<open>NULL\<close> stays \<open>NULL\<close>.\<close>

definition cell_of :: "('w, 'v, 't) pg_env \<Rightarrow> pg_column \<Rightarrow> 'v option \<Rightarrow> 'v option" where
  "cell_of env c x = (if pg_type_code c = uuid_oid then map_option (pe_str env) x else x)"

lemma column_values_eq:
  assumes "\<forall>row \<in> set rows. i < length row"
  shows "column_values env c i rows = Inr (map (\<lambda>row. cell_of env c (row ! i)) rows)"
proof -
  have "mapE (cell i) rows = Inr (map (\<lambda>row. row ! i) rows)"
    using assms by (intro mapE_cong_Inr) (simp add: cell_def)
  then show ?thesis by (simp add: column_values_def cell_of_def)
qed

definition columns_from :: "('w, 'v, 't) pg_env \<Rightarrow> nat \<Rightarrow> pg_column list \<Rightarrow> 'v option list list \<Rightarrow>
    (string, 'v option list) dict" where
  "columns_from env i cs rows =
     map (\<lambda>(j, c). (pg_name c, map (\<lambda>row. cell_of env c (row ! j)) rows)) (enumerate i cs)"

lemma columns_from_Cons:
  "columns_from env i (c # cs) rows =
     (pg_name c, map (\<lambda>row. cell_of env c (row ! i)) rows) # columns_from env (Suc i) cs rows"
  by (simp add: columns_from_def)

lemma columns_from_names: "map fst (columns_from env i cs rows) = map pg_name cs"
  by (induction cs arbitrary: i) (simp_all add: columns_from_Cons, simp add: columns_from_def)

lemma dict_append: "k \<notin> fst ` set d \<Longrightarrow> AList.update k x d = d @ [(k, x)]"
  by (induction d) auto

lemma table_columns_eq:
  assumes "distinct (map pg_name cs)" and "\<forall>row \<in> set rows. i + length cs \<le> length row"
    and "\<forall>c \<in> set cs. pg_name c \<notin> fst ` set d"
  shows "table_columns env i cs rows d = Inr (d @ columns_from env i cs rows)"
  using assms
proof (induction cs arbitrary: i d)
  case Nil
  then show ?case by (simp add: columns_from_def)
next
  case (Cons c cs)
  have "column_values env c i rows = Inr (map (\<lambda>row. cell_of env c (row ! i)) rows)"
    by (rule column_values_eq) (use Cons.prems(2) in fastforce)
  moreover have "table_columns env (Suc i) cs rows (d @ [(pg_name c, vs)]) =
      Inr ((d @ [(pg_name c, vs)]) @ columns_from env (Suc i) cs rows)" for vs
    by (rule Cons.IH) (use Cons.prems in \<open>force simp: image_iff\<close>)+
  ultimately show ?case
    using Cons.prems(3) by (simp add: dict_append columns_from_Cons)
qed

text \<open>
  C35. Whatever the driver fetches, the table handed to pyarrow has the columns of the result, in their
  order and under the names of the schema, and its cells are those of the rows: the value in row
  \<open>r\<close> of the \<open>j\<close>-th column is cell \<open>j\<close> of row \<open>r\<close>, with uuids as text and \<open>NULL\<close> kept.
\<close>

theorem extracted_table_holds_rows:
  assumes "distinct (map pg_name cs)" and "\<forall>row \<in> set rows. length row = length cs"
    and "query_schema env cs = Inr schema"
  shows "\<exists>d. table_columns env 0 cs rows [] = Inr d \<and> map fst d = map fst schema \<and>
    (\<forall>j < length cs. \<forall>r < length rows. snd (d ! j) ! r = cell_of env (cs ! j) (rows ! r ! j)) \<and>
    (\<forall>(n, column) \<in> set d. length column = length rows)"
proof -
  let ?d = "columns_from env 0 cs rows"
  have "table_columns env 0 cs rows [] = Inr ?d"
    using assms(1,2) by (simp add: table_columns_eq)
  moreover have "map fst schema = map pg_name cs"
    using assms(3) unfolding query_schema_def
    by (induction cs arbitrary: schema) (auto simp: bindE_eq_Inr_iff)
  moreover have "map fst ?d = map pg_name cs"
    by (rule columns_from_names)
  ultimately show ?thesis
    by (intro exI [of _ ?d]) (auto simp: columns_from_def nth_enumerate_eq)
qed

definition sample_pg :: "(unit, string, unit) pg_env" where
  "sample_pg =
     \<lparr> pe_select = (\<lambda>ids w. (Inr [], w)), pe_fetchall = (\<lambda>w. (Inr [], w)), pe_leave = (\<lambda>ok w. (Inr (), w)),
       pe_str = (\<lambda>u. ''uuid:'' @ u), pe_decimal128 = (\<lambda>p s. Inr (ArrowDecimal128 p s)),
       pe_table = (\<lambda>d s. Inr ()), pe_write_parquet = (\<lambda>t. Inr []), pe_uuid4 = (\<lambda>w. (Inr ''u'', w)),
       pe_check_netloc = (\<lambda>s. Inr ()), pe_undefined_table = (\<lambda>e. False) \<rparr>"

definition pg_sample_columns :: "pg_column list" where
  "pg_sample_columns =
     [\<lparr> pg_name = ''id'', pg_type_code = 2950, pg_precision = None, pg_scale = None \<rparr>,
      \<lparr> pg_name = ''price'', pg_type_code = 1700, pg_precision = Some 12, pg_scale = Some 2 \<rparr>]"

definition pg_sample_schema :: arrow_schema where
  "pg_sample_schema = [(''id'', ArrowString), (''price'', ArrowDecimal128 12 2)]"

lemma sample_query_schema: "query_schema sample_pg pg_sample_columns = Inr pg_sample_schema"
  by code_simp

lemma extracted_table_holds_rows_witness:
  "\<exists>d. table_columns sample_pg 0 pg_sample_columns [[Some ''a'', Some ''1.50''], [None, Some ''2.00'']] [] = Inr d \<and>
    map fst d = [''id'', ''price''] \<and> snd (d ! 0) ! 0 = Some ''uuid:a'' \<and> snd (d ! 1) ! 1 = Some ''2.00''"
proof -
  have "distinct (map pg_name pg_sample_columns)"
    and "\<forall>row \<in> set [[Some ''a'', Some ''1.50''], [None, Some ''2.00'']]. length row = length pg_sample_columns"
    by (simp_all add: pg_sample_columns_def)
  from extracted_table_holds_rows [OF this sample_query_schema] show ?thesis
    by (auto simp: pg_sample_columns_def pg_sample_schema_def sample_pg_def cell_of_def uuid_oid_def All_less_Suc
        numeral_2_eq_2 split: if_splits)
qed

section \<open>The schema of the two paths\<close>

text \<open>
  The object identifiers PostgreSQL gives its built-in types, and the names \<open>information_schema\<close>
  writes for them.
\<close>

definition pg_type_names :: "(int \<times> string) list" where
  "pg_type_names =
     [(16, ''boolean''), (21, ''smallint''), (23, ''integer''), (25, ''text''), (1043, ''character varying''),
      (1082, ''date''), (1184, ''timestamp with time zone''), (2950, ''uuid''), (1700, ''numeric'')]"

text \<open>A column of a result and a row of \<open>information_schema.columns\<close> that describe the same column.\<close>

definition same_column :: "pg_column \<Rightarrow> column_row \<Rightarrow> bool" where
  "same_column c row \<longleftrightarrow>
     (case row of (n, data_type, precision, scale) \<Rightarrow>
        pg_name c = n \<and> list_all (\<lambda>(oid, type_name). pg_type_code c = oid \<longleftrightarrow> data_type = type_name) pg_type_names \<and>
        (data_type = ''numeric'' \<longrightarrow> pg_precision c = precision \<and> pg_scale c = scale))"

lemma same_column_type:
  assumes "same_column c (n, data_type, precision, scale)"
  shows "arrow_type_for_column dec c = Inr t \<longleftrightarrow> arrow_type_of dec n data_type precision scale = Inr t"
proof -
  have codes: "pg_type_code c = 16 \<longleftrightarrow> data_type = ''boolean''" "pg_type_code c = 21 \<longleftrightarrow> data_type = ''smallint''"
      "pg_type_code c = 23 \<longleftrightarrow> data_type = ''integer''" "pg_type_code c = 25 \<longleftrightarrow> data_type = ''text''"
      "pg_type_code c = 1043 \<longleftrightarrow> data_type = ''character varying''" "pg_type_code c = 1082 \<longleftrightarrow> data_type = ''date''"
      "pg_type_code c = 1184 \<longleftrightarrow> data_type = ''timestamp with time zone''"
      "pg_type_code c = 2950 \<longleftrightarrow> data_type = ''uuid''" "pg_type_code c = 1700 \<longleftrightarrow> data_type = ''numeric''"
    using assms by (simp_all add: same_column_def pg_type_names_def)
  show ?thesis
  proof (cases "data_type = ''numeric''")
    case True
    with assms show ?thesis
      using codes(9) by (auto simp: arrow_type_for_column_def arrow_type_of_def numeric_oid_def same_column_def
          split: option.splits)
  next
    case False
    have "map_of postgres_oid_to_arrow (pg_type_code c) = map_of data_type_to_arrow data_type"
      by (simp only: postgres_oid_to_arrow_def data_type_to_arrow_def uuid_oid_def map_of.simps fun_upd_apply
          fst_conv snd_conv codes)
    with False codes(9) show ?thesis
      by (simp add: arrow_type_for_column_def arrow_type_of_def numeric_oid_def split: option.split)
  qed
qed

lemma mapE_agree:
  assumes "list_all2 (\<lambda>x y. \<forall>z. f x = Inr z \<longleftrightarrow> g y = Inr z) xs ys"
  shows "mapE f xs = Inr zs \<longleftrightarrow> mapE g ys = Inr zs"
  using assms
proof (induction arbitrary: zs rule: list_all2_induct)
  case (Cons x xs y ys)
  then show ?case by (auto simp: bindE_eq_Inr_iff)
qed simp

text \<open>
  C34. The streaming path's schema of a table is the batch path's, with one column appended. When the result of
  \<open>SELECT *\<close> and \<open>information_schema.columns\<close> describe the same columns, what the Bronze consumer
  resolves (always with CDC metadata) is exactly the schema the extraction stage computes followed by the int64
  column \<open>_cdc_ts_ms\<close>, and one of them is undefined only if the other is. So the two Bronze tables differ by that
  column, as \<open>compute/bronze_schema.py\<close> says they are meant to, and by nothing else.
\<close>

theorem stream_schema_extends_batch_schema:
  assumes "list_all2 same_column cs (query schema_name entity)" and "cs \<noteq> []"
  shows "resolve_bronze_schema (pe_decimal128 env) query entity schema_name True = Inr bronze \<longleftrightarrow>
    (\<exists>schema. query_schema env cs = Inr schema \<and> bronze = schema @ [(''_cdc_ts_ms'', ArrowInt64)])"
proof -
  have "list_all2 (\<lambda>c row. \<forall>z.
      bindE (arrow_type_for_column (pe_decimal128 env) c) (\<lambda>t. Inr (pg_name c, t)) = Inr z \<longleftrightarrow>
      (case row of (n, data_type, precision, scale) \<Rightarrow>
         bindE (arrow_type_of (pe_decimal128 env) n data_type precision scale) (\<lambda>t. Inr (n, t))) = Inr z)
      cs (query schema_name entity)"
    using assms(1)
  proof (rule list_all2_mono)
    fix c :: pg_column and row :: column_row
    assume same: "same_column c row"
    obtain n data_type precision scale where row: "row = (n, data_type, precision, scale)" by (cases row)
    have "pg_name c = n" using same by (simp add: row same_column_def)
    with same_column_type [OF same [unfolded row]]
    show "\<forall>z. bindE (arrow_type_for_column (pe_decimal128 env) c) (\<lambda>t. Inr (pg_name c, t)) = Inr z \<longleftrightarrow>
      (case row of (n, data_type, precision, scale) \<Rightarrow>
         bindE (arrow_type_of (pe_decimal128 env) n data_type precision scale) (\<lambda>t. Inr (n, t))) = Inr z"
      by (simp add: row bindE_eq_Inr_iff)
  qed
  note agree = mapE_agree [OF this]
  have "query schema_name entity \<noteq> []" using assms by auto
  then have "resolve_bronze_schema (pe_decimal128 env) query entity schema_name True =
      bindE (mapE (\<lambda>(n, data_type, precision, scale).
          bindE (arrow_type_of (pe_decimal128 env) n data_type precision scale) (\<lambda>t. Inr (n, t)))
        (query schema_name entity)) (\<lambda>f. Inr (f @ [(''_cdc_ts_ms'', ArrowInt64)]))"
    by (simp add: resolve_bronze_schema_def)
  then show ?thesis
    unfolding query_schema_def agree
    by (auto simp only: bindE_eq_Inr_iff [of "mapE _ _"] sum.inject)
qed

definition information_rows :: "string \<Rightarrow> string \<Rightarrow> column_row list" where
  "information_rows schema_name entity =
     (if entity = ''products'' then [(''id'', ''uuid'', None, None), (''price'', ''numeric'', Some 12, Some 2)] else [])"

lemma stream_schema_extends_batch_schema_witness:
  "resolve_bronze_schema (pe_decimal128 sample_pg) information_rows ''products'' ''marketplace'' True =
     Inr (pg_sample_schema @ [(''_cdc_ts_ms'', ArrowInt64)])"
proof -
  have "list_all2 same_column pg_sample_columns (information_rows ''marketplace'' ''products'')"
    by (simp add: pg_sample_columns_def information_rows_def same_column_def pg_type_names_def)
  moreover have "pg_sample_columns \<noteq> []" by (simp add: pg_sample_columns_def)
  ultimately show ?thesis
    using stream_schema_extends_batch_schema [of pg_sample_columns information_rows "''marketplace''" "''products''" sample_pg
        "pg_sample_schema @ [(''_cdc_ts_ms'', ArrowInt64)]"] sample_query_schema by blast
qed

end
