(* ===== verification/Workflow_Properties.thy ===== *)
theory Workflow_Properties
  imports Workflow
begin

text \<open>
  The properties of the Airflow client and provider: how often a request is sent and with which
  token (over a client that logs its calls), and how many runs a trigger starts (over what Airflow
  documents of its endpoint).
\<close>

section \<open>Rules for the client\<close>

lemma wlp_send [simp]:
  "wlp (send f) Q E c = (case f (ac_world c) of (r, w) \<Rightarrow> Q r (c \<lparr> ac_world := w \<rparr>))"
  by (simp add: wlp_def send_def split: prod.split)

definition token_call :: "'w airflow_env \<Rightarrow> http_call" where
  "token_call v = (bare_call ''POST'' ''/auth/token'')
     \<lparr> hq_json := Some (JObj [(''username'', JStr (av_username v)), (''password'', JStr (av_password v))]),
       hq_headers := None \<rparr>"

lemma http_post_token:
  "http_post hc ''/auth/token''
     (Some (JObj [(''username'', JStr (av_username v)), (''password'', JStr (av_password v))])) None =
   http_request hc (token_call v)"
  by (simp add: http_post_def token_call_def)

text \<open>What one exchange with the service comes to.\<close>

lemma http_request_eq:
  "http_request hc q w = (http_result hc (fst (hc_send hc q w)), snd (hc_send hc q w))"
  by (simp add: http_request_def http_request_inner_def split: prod.split)

section \<open>A client that logs\<close>

type_synonym exchange = "http_call \<times> httpx_response outcome"

definition logged_http :: "'w httpx_client \<Rightarrow> ('w \<times> exchange list) httpx_client" where
  "logged_http hc =
     \<lparr> hc_send = (\<lambda>q (w, log). case hc_send hc q w of (a, w') \<Rightarrow> (a, (w', log @ [(q, a)]))),
       hc_close = (\<lambda>(w, log). case hc_close hc w of (r, w') \<Rightarrow> (r, (w', log))),
       hc_request_error = hc_request_error hc \<rparr>"

definition logged :: "'w airflow_env \<Rightarrow> ('w \<times> exchange list) airflow_env" where
  "logged v =
     \<lparr> av_http = logged_http (av_http v), av_username = av_username v, av_password = av_password v,
       av_format = av_format v, av_fromisoformat = av_fromisoformat v \<rparr>"

definition log_of :: "('w \<times> exchange list) airflow_client \<Rightarrow> exchange list" where
  "log_of c = snd (ac_world c)"

lemma logged_result: "http_result (logged_http hc) a = http_result hc a"
  by (cases a) (simp_all add: http_result_def logged_http_def)

lemma logged_request:
  "http_request (logged_http hc) q wl =
     (case hc_send hc q (fst wl) of (a, w') \<Rightarrow> (http_result hc a, (w', snd wl @ [(q, a)])))"
  by (cases wl; cases "hc_send hc q (fst wl)")
     (simp add: http_request_def http_request_inner_def logged_result, simp add: logged_http_def)

definition unauthorized :: "httpx_response outcome \<Rightarrow> bool" where
  "unauthorized a \<longleftrightarrow> (case a of Inr r \<Rightarrow> hx_is_error r \<and> hx_status r = 401 | Inl e \<Rightarrow> False)"

lemma unauthorized_iff: "unauthorized a \<longleftrightarrow> (\<exists>t. http_result hc a = Inl (Error_response 401 t))"
  by (auto simp: http_result_def unauthorized_def split: sum.splits if_splits)

definition sent_with :: "'w airflow_env \<Rightarrow> http_call \<Rightarrow> json \<Rightarrow> http_call" where
  "sent_with v q token = q \<lparr> hq_headers := Some (bearer v token) \<rparr>"

text \<open>
  What the answer to a request for a token comes to: the token it grants, or the exception, which is not
  translated. And what the answer to a request comes to.
\<close>

definition granted :: "'w airflow_env \<Rightarrow> httpx_response outcome \<Rightarrow> json outcome" where
  "granted v a =
     (case http_result (av_http v) a of
        Inl f \<Rightarrow> Inl (http_exn f)
      | Inr response \<Rightarrow> json_sub (rp_body response) ''access_token'')"

definition answered :: "'w airflow_env \<Rightarrow> httpx_response outcome \<Rightarrow> http_response outcome" where
  "answered v a = (case http_result (av_http v) a of Inl f \<Rightarrow> Inl (translate_http f) | Inr response \<Rightarrow> Inr response)"

text \<open>
  The exchanges of getting a token, and the token got: the one held, without an exchange, or, when there is
  none, what one request to \<open>/auth/token\<close> grants.
\<close>

definition token_part :: "'w airflow_env \<Rightarrow> json \<Rightarrow> exchange list \<Rightarrow> json outcome \<Rightarrow> bool" where
  "token_part v held part got \<longleftrightarrow>
     (if held \<noteq> JNull then part = [] \<and> got = Inr held else \<exists>a. part = [(token_call v, a)] \<and> got = granted v a)"

lemma authorization_headers_wlp:
  "wlp (authorization_headers (logged v))
     (\<lambda>h c'. \<exists>part. log_of c' = log_of c @ part \<and> token_part v (ac_token c) part (Inr (ac_token c')) \<and>
        h = bearer v (ac_token c'))
     (\<lambda>e c'. \<exists>part. log_of c' = log_of c @ part \<and> token_part v (ac_token c) part (Inl e) \<and> ac_token c' = JNull) c"
proof (cases "ac_token c = JNull")
  case False
  then show ?thesis
    by (simp add: authorization_headers_def authenticate_def token_part_def bearer_def logged_def)
next
  case True
  obtain a w' where answer: "hc_send (av_http v) (token_call v) (fst (ac_world c)) = (a, w')"
    by fastforce
  have call: "token_call (logged v) = token_call v" by (simp add: token_call_def logged_def)
  have http: "av_http (logged v) = logged_http (av_http v)" by (simp add: logged_def)
  show ?thesis
    using True answer
    by (auto simp: authorization_headers_def authenticate_def token_part_def granted_def log_of_def bearer_def http_post_token
        call http logged_request logged_def split: sum.split)
qed

text \<open>
  The exchanges of a request for the token \<open>held\<close>, its outcome \<open>r\<close>, and the token held after it. The
  request carries the token got; if it is answered 401, one new token is asked for and the request sent once more
  with the token that answer grants.
\<close>

definition request_part ::
  "'w airflow_env \<Rightarrow> http_call \<Rightarrow> json \<Rightarrow> exchange list \<Rightarrow> http_response outcome \<Rightarrow> json \<Rightarrow> bool" where
  "request_part v q held log r held' \<longleftrightarrow>
     (\<exists>part got. token_part v held part got \<and>
       ((\<exists>e. got = Inl e \<and> log = part \<and> r = Inl e \<and> held' = JNull) \<or>
        (\<exists>t first. got = Inr t \<and> \<not> unauthorized first \<and>
           log = part @ [(sent_with v q t, first)] \<and> r = answered v first \<and> held' = t) \<or>
        (\<exists>t first again e. got = Inr t \<and> unauthorized first \<and> granted v again = Inl e \<and>
           log = part @ [(sent_with v q t, first), (token_call v, again)] \<and> r = Inl e \<and> held' = JNull) \<or>
        (\<exists>t first again t' second. got = Inr t \<and> unauthorized first \<and> granted v again = Inr t' \<and>
           log = part @ [(sent_with v q t, first), (token_call v, again), (sent_with v q t', second)] \<and>
           r = answered v second \<and> held' = t')))"

lemma request_part_first:
  "token_part v held part (Inr t) \<Longrightarrow> \<not> unauthorized first \<Longrightarrow>
     request_part v q held (part @ [(sent_with v q t, first)]) (answered v first) t"
  unfolding request_part_def by blast

lemma request_part_no_token: "token_part v held part (Inl e) \<Longrightarrow> request_part v q held part (Inl e) JNull"
  unfolding request_part_def by blast

lemma request_part_refused:
  "token_part v held part (Inr t) \<Longrightarrow> unauthorized first \<Longrightarrow> granted v again = Inl e \<Longrightarrow>
     request_part v q held (part @ [(sent_with v q t, first), (token_call v, again)]) (Inl e) JNull"
  unfolding request_part_def by blast

lemma request_part_again:
  "token_part v held part (Inr t) \<Longrightarrow> unauthorized first \<Longrightarrow> granted v again = Inr t' \<Longrightarrow>
     request_part v q held (part @ [(sent_with v q t, first), (token_call v, again), (sent_with v q t', second)])
       (answered v second) t'"
  unfolding request_part_def by blast

lemma translate_remote: "is_remote_error (translate_http f) \<or> f = Other_failure (translate_http f)"
  by (cases f) (simp_all add: is_remote_error_def remote_error_of_status_def remote_service_errors_def)

lemma send_logged_wlp:
  "wlp (send (http_request (av_http (logged v)) (q \<lparr> hq_headers := Some (bearer v t) \<rparr>))) Q E c \<longleftrightarrow>
     (case hc_send (av_http v) (sent_with v q t) (fst (ac_world c)) of (a, w') \<Rightarrow>
        Q (http_result (av_http v) a)
          (c \<lparr> ac_world := (w', log_of c @ [(sent_with v q t, a)]) \<rparr>))"
  by (simp add: logged_request logged_def sent_with_def log_of_def split: prod.split)

text \<open>The whole request, as a predicate of its log.\<close>

definition requested ::
  "'w airflow_env \<Rightarrow> http_call \<Rightarrow> ('w \<times> exchange list) airflow_client \<Rightarrow> http_response outcome \<Rightarrow>
     ('w \<times> exchange list) airflow_client \<Rightarrow> bool" where
  "requested v q c r c' \<longleftrightarrow>
     (\<exists>part. log_of c' = log_of c @ part \<and> request_part v q (ac_token c) part r (ac_token c'))"

lemma airflow_request_wlp:
  "wlp (airflow_request (logged v) q) (\<lambda>response. requested v q c (Inr response)) (\<lambda>e. requested v q c (Inl e)) c"
  (is "wlp _ ?Q ?E c")
  unfolding airflow_request_def wlp_bindA [of "authorization_headers (logged v)"]
proof (rule wlp_mono [OF authorization_headers_wlp], goal_cases)
  case (1 h c1)
  then obtain part where part: "log_of c1 = log_of c @ part" "token_part v (ac_token c) part (Inr (ac_token c1))"
      and h: "h = bearer v (ac_token c1)" by blast
  let ?q = "sent_with v q (ac_token c1)"
  obtain a w1 where a: "hc_send (av_http v) ?q (fst (ac_world c1)) = (a, w1)" by fastforce
  let ?c2 = "c1 \<lparr> ac_world := (w1, log_of c1 @ [(?q, a)]) \<rparr>"
  have log2: "log_of ?c2 = log_of c @ part @ [(?q, a)]"
    using part(1) by (simp add: log_of_def)
  show ?case
  proof (cases "unauthorized a")
    case False
    have first: "requested v q c (answered v a) ?c2"
      unfolding requested_def using log2 request_part_first [OF part(2) False] by auto
    have f: "http_result (av_http v) a \<noteq> Inl (Error_response 401 t)" for t
      using False unauthorized_iff [of a "av_http v"] by auto
    show ?thesis
      unfolding h wlp_bindA [of "send _"] send_logged_wlp a
      using first f by (auto simp: answered_def split: sum.split http_failure.split)
  next
    case True
    then obtain t where refused: "http_result (av_http v) a = Inl (Error_response 401 t)"
      using unauthorized_iff by blast
    let ?c3 = "?c2 \<lparr> ac_token := JNull \<rparr>"
    have log3: "log_of ?c3 = log_of c @ part @ [(?q, a)]" using log2 by (simp add: log_of_def)
    have "wlp (bindA (authorization_headers (logged v)) (\<lambda>headers.
            bindA (send (http_request (av_http (logged v)) (q \<lparr> hq_headers := Some headers \<rparr>))) (\<lambda>r.
              case r of Inr response \<Rightarrow> ret response | Inl f \<Rightarrow> raise (translate_http f)))) ?Q ?E ?c3"
      unfolding wlp_bindA [of "authorization_headers (logged v)"]
    proof (rule wlp_mono [OF authorization_headers_wlp], goal_cases)
      case (1 h' c4)
      then obtain b where b: "log_of c4 = log_of c @ part @ [(?q, a), (token_call v, b)]"
          "granted v b = Inr (ac_token c4)" and h': "h' = bearer v (ac_token c4)"
        by (auto simp: log3 token_part_def)
      let ?q' = "sent_with v q (ac_token c4)"
      obtain a' w4 where a': "hc_send (av_http v) ?q' (fst (ac_world c4)) = (a', w4)" by fastforce
      let ?c5 = "c4 \<lparr> ac_world := (w4, log_of c4 @ [(?q', a')]) \<rparr>"
      have "log_of ?c5 = log_of c @ part @ [(?q, a), (token_call v, b), (?q', a')]"
        using b(1) by (simp add: log_of_def)
      then have "requested v q c (answered v a') ?c5"
        unfolding requested_def using request_part_again [OF part(2) True b(2)] by auto
      then show ?case
        unfolding h' wlp_bindA [of "send _"] send_logged_wlp a' by (auto simp: answered_def split: sum.split)
    next
      case (2 e c4)
      then obtain b where "log_of c4 = log_of c @ part @ [(?q, a), (token_call v, b)]" "granted v b = Inl e" "ac_token c4 = JNull"
        by (auto simp: log3 token_part_def)
      then show ?case unfolding requested_def using request_part_refused [OF part(2) True] by auto
    qed
    then show ?thesis
      unfolding h wlp_bindA [of "send _"] send_logged_wlp a using refused
      by (auto simp: clear_authentication_def simp del: wlp_send)
  qed
next
  case (2 e c1)
  then show ?case unfolding requested_def using request_part_no_token by auto
qed

section \<open>A request is retried once\<close>

lemma request_part_length: "request_part v q held log r held' \<Longrightarrow> length log \<le> 4"
  by (auto simp: request_part_def token_part_def split: if_splits)

text \<open>
  C39. A request to Airflow is sent with the token held, or with the one just granted if there is none. Only a
  401 makes the client ask for a new token and send the request once more, with the token that answer grants, which
  it then holds; so four exchanges suffice. The outcome is that of the last answer: its response; for an answer to the
  request, a \<open>RemoteServiceError\<close> unless the exception is not one of httpx's request errors; for a failed
  authentication, the HTTP error as it is, which is not translated.
\<close>

theorem airflow_retries_once:
  assumes "airflow_request (logged v) q \<lparr> ac_token = token, ac_world = (w, []) \<rparr> = Some (r, c)"
  shows "request_part v q token (log_of c) r (ac_token c) \<and> length (log_of c) \<le> 4 \<and>
    (\<forall>a f. answered v a = Inl f \<longrightarrow> is_remote_error f \<or> http_result (av_http v) a = Inl (Other_failure f))"
proof -
  let ?c = "\<lparr> ac_token = token, ac_world = (w, []) \<rparr>"
  have "requested v q ?c r c"
    using assms airflow_request_wlp [of v q ?c] by (cases r) (auto simp: wlp_def)
  then have part: "request_part v q token (log_of c) r (ac_token c)" by (simp add: requested_def log_of_def)
  have "answered v a = Inl f \<longrightarrow> is_remote_error f \<or> http_result (av_http v) a = Inl (Other_failure f)" for a f
    using translate_remote by (auto simp: answered_def split: sum.splits)
  with part request_part_length [OF part] show ?thesis by blast
qed

text \<open>A service whose only valid token is the one it gives.\<close>

definition ok_response :: "json \<Rightarrow> httpx_response" where
  "ok_response b = \<lparr> hx_status = 200, hx_is_error = False, hx_headers = [], hx_text = [], hx_json = Some b \<rparr>"

definition refusal :: httpx_response where
  "refusal = \<lparr> hx_status = 401, hx_is_error = True, hx_headers = [], hx_text = ''expired'', hx_json = None \<rparr>"

fun json_text :: "json \<Rightarrow> string" where
  "json_text (JStr s) = s"
| "json_text v = []"

definition sample_http :: "nat httpx_client" where
  "sample_http =
     \<lparr> hc_send = (\<lambda>q runs.
         if hq_path q = ''/auth/token'' then (Inr (ok_response (JObj [(''access_token'', JStr ''new'')])), runs)
         else if hq_headers q \<noteq> Some [(''Authorization'', ''Bearer new'')] then (Inr refusal, runs)
         else (Inr (ok_response (JObj [(''dag_id'', JStr ''etl''), (''dag_run_id'', JStr ''r1'')])),
           if hq_method q = ''POST'' \<and> hq_path q = ''/api/v2/dags/etl/dagRuns'' then Suc runs else runs)),
       hc_close = (\<lambda>runs. (Inr (), runs)), hc_request_error = (\<lambda>e. False) \<rparr>"

definition sample_airflow :: "nat airflow_env" where
  "sample_airflow =
     \<lparr> av_http = sample_http, av_username = ''airflow'', av_password = ''secret'', av_format = json_text,
       av_fromisoformat = (\<lambda>s. Inr 0) \<rparr>"

text \<open>The token \<open>old\<close> is refused; the request is sent again with \<open>new\<close>, which the service gave, and answered.\<close>

lemma airflow_retries_once_witness:
  "\<exists>c response first again second. airflow_request (logged sample_airflow) (bare_call ''GET'' ''/api/v2/dags'')
      \<lparr> ac_token = JStr ''old'', ac_world = (0, []) \<rparr> = Some (Inr response, c) \<and>
    rp_status response = 200 \<and> granted sample_airflow again = Inr (JStr ''new'') \<and>
    log_of c = [(sent_with sample_airflow (bare_call ''GET'' ''/api/v2/dags'') (JStr ''old''), first),
      (token_call sample_airflow, again),
      (sent_with sample_airflow (bare_call ''GET'' ''/api/v2/dags'') (JStr ''new''), second)]"
proof -
  let ?run = "airflow_request (logged sample_airflow) (bare_call ''GET'' ''/api/v2/dags'')
      \<lparr> ac_token = JStr ''old'', ac_world = (0, []) \<rparr>"
  have "map_option (\<lambda>(r, c). (case r of Inl e \<Rightarrow> None | Inr x \<Rightarrow> Some (rp_status x), length (log_of c), ac_token c)) ?run =
      Some (Some 200, 3, JStr ''new'')"
    by code_simp
  then obtain r c where run: "?run = Some (r, c)"
      and r: "(case r of Inl e \<Rightarrow> None | Inr x \<Rightarrow> Some (rp_status x)) = Some 200"
      and c: "length (log_of c) = 3" "ac_token c = JStr ''new''"
    by auto
  moreover obtain response where "r = Inr response" "rp_status response = 200"
    using r by (cases r) auto
  ultimately have "request_part sample_airflow (bare_call ''GET'' ''/api/v2/dags'') (JStr ''old'') (log_of c) (Inr response)
      (JStr ''new'')"
    using airflow_retries_once [OF run] by simp
  then show ?thesis
    using run \<open>r = Inr response\<close> \<open>rp_status response = 200\<close> c by (auto simp: request_part_def token_part_def)
qed

section \<open>A trigger starts one run\<close>

text \<open>
  What Airflow documents of its runs, over an observer that counts those of a DAG ever started: only a
  POST to its \<open>dagRuns\<close> starts one; it does when the answer is a success and does not when it is
  401; when the answer is another error or is lost, it may have.
\<close>

definition starts_run :: "string \<Rightarrow> http_call \<Rightarrow> bool" where
  "starts_run dag_id q \<longleftrightarrow> hq_method q = ''POST'' \<and> hq_path q = runs_path dag_id"

definition runs_laws :: "'w httpx_client \<Rightarrow> ('w \<Rightarrow> nat) \<Rightarrow> string \<Rightarrow> bool" where
  "runs_laws hc N dag_id \<longleftrightarrow>
     (\<forall>q w. case hc_send hc q w of (a, w') \<Rightarrow>
        (if \<not> starts_run dag_id q then N w' = N w
         else case http_result hc a of
                Inr _ \<Rightarrow> N w' = Suc (N w)
              | Inl _ \<Rightarrow> N w' = N w \<or> N w' = Suc (N w) \<and> \<not> unauthorized a))"

lemma quiet_request:
  assumes "runs_laws hc N dag_id" and "\<not> starts_run dag_id q" and "http_request hc q w = (r, w')"
  shows "N w' = N w"
  using assms unfolding runs_laws_def http_request_eq
  by (metis (mono_tags, lifting) case_prod_unfold Pair_inject)

lemma run_request:
  assumes "runs_laws hc N dag_id" and "starts_run dag_id q" and "http_request hc q w = (r, w')"
  shows "case r of Inr _ \<Rightarrow> N w' = Suc (N w)
    | Inl f \<Rightarrow> N w' = N w \<or> N w' = Suc (N w) \<and> (\<forall>t. f \<noteq> Error_response 401 t)"
proof -
  obtain a where a: "hc_send hc q w = (a, w')" and r: "r = http_result hc a"
    using assms(3) by (cases "hc_send hc q w") (auto simp: http_request_eq)
  have "case hc_send hc q w of (a, w') \<Rightarrow>
      (if \<not> starts_run dag_id q then N w' = N w
       else case http_result hc a of
              Inr _ \<Rightarrow> N w' = Suc (N w)
            | Inl _ \<Rightarrow> N w' = N w \<or> N w' = Suc (N w) \<and> \<not> unauthorized a)"
    by (rule spec [OF spec [OF assms(1) [unfolded runs_laws_def]]])
  with a assms(2) unauthorized_iff [of a hc] show ?thesis
    unfolding r by (cases "http_result hc a") auto
qed

text \<open>
  A rule for a request: \<open>J\<close> holds of the world until it is answered, \<open>Q\<close> after a success, \<open>E\<close> after
  an error.
\<close>

lemma airflow_request_rule:
  assumes auth: "\<And>c. J (ac_world c) \<Longrightarrow>
      wlp (authorization_headers v) (\<lambda>_ c'. J (ac_world c')) (\<lambda>_ c'. E (ac_world c')) c"
    and sent: "\<And>h w r w'. http_request (av_http v) (q \<lparr> hq_headers := Some h \<rparr>) w = (r, w') \<Longrightarrow> J w \<Longrightarrow>
      case r of Inr x \<Rightarrow> Q x w' | Inl f \<Rightarrow> E w' \<and> (\<forall>t. f = Error_response 401 t \<longrightarrow> J w')"
    and start: "J (ac_world c)"
  shows "wlp (airflow_request v q) (\<lambda>x c'. Q x (ac_world c')) (\<lambda>_ c'. E (ac_world c')) c"
proof -
  have second: "wlp (bindA (authorization_headers v) (\<lambda>headers.
      bindA (send (http_request (av_http v) (q \<lparr> hq_headers := Some headers \<rparr>))) (\<lambda>r.
        case r of Inr response \<Rightarrow> ret response | Inl f \<Rightarrow> raise (translate_http f))))
      (\<lambda>x c'. Q x (ac_world c')) (\<lambda>_ c'. E (ac_world c')) c'" if "J (ac_world c')" for c'
    unfolding wlp_bindA [of "authorization_headers v"]
    by (rule wlp_mono [OF auth [OF that]]) (auto split: sum.split prod.split dest: sent)
  show ?thesis
    unfolding airflow_request_def wlp_bindA [of "authorization_headers v"]
  proof (rule wlp_mono [OF auth [OF start]], goal_cases)
    case (1 h c1)
    obtain r w' where r: "http_request (av_http v) (q \<lparr> hq_headers := Some h \<rparr>) (ac_world c1) = (r, w')"
      by fastforce
    from sent [OF this 1] second [of "c1 \<lparr> ac_world := w', ac_token := JNull \<rparr>"] show ?case
      by (cases r) (auto simp: r clear_authentication_def split: http_failure.split)
  qed
qed

definition runs_of :: "('w \<Rightarrow> nat) \<Rightarrow> 'w airflow_client \<Rightarrow> nat" where
  "runs_of N c = N (ac_world c)"

lemma token_no_run: "\<not> starts_run dag_id (token_call v)"
  by (simp add: starts_run_def token_call_def bare_call_def runs_path_def api_prefix_def)

lemma authorization_no_run:
  assumes "runs_laws (av_http v) N dag_id" and "N (ac_world c) = n"
  shows "wlp (authorization_headers v) (\<lambda>_ c'. N (ac_world c') = n) (\<lambda>_ c'. N (ac_world c') = n) c"
  using quiet_request [OF assms(1) token_no_run] assms(2)
  by (auto simp: authorization_headers_def authenticate_def http_post_token split: sum.split prod.split)

lemma quiet_airflow_request:
  assumes laws: "runs_laws (av_http v) N dag_id" and quiet: "\<not> starts_run dag_id q" and "N (ac_world c) = n"
  shows "wlp (airflow_request v q) (\<lambda>_ c'. N (ac_world c') = n) (\<lambda>_ c'. N (ac_world c') = n) c"
proof (rule airflow_request_rule [where J = "\<lambda>w. N w = n"])
  fix h w r w'
  assume "http_request (av_http v) (q \<lparr> hq_headers := Some h \<rparr>) w = (r, w')" and "N w = n"
  moreover have "\<not> starts_run dag_id (q \<lparr> hq_headers := Some h \<rparr>)"
    using quiet by (simp add: starts_run_def)
  ultimately have "N w' = n" using quiet_request [OF laws] by blast
  then show "case r of Inr x \<Rightarrow> N w' = n | Inl f \<Rightarrow> N w' = n \<and> (\<forall>t. f = Error_response 401 t \<longrightarrow> N w' = n)"
    by (cases r) auto
qed (use authorization_no_run [OF laws] assms(3) in auto)

lemma run_airflow_request:
  fixes v :: "'w airflow_env"
  assumes laws: "runs_laws (av_http v) N dag_id" and starts: "starts_run dag_id q" and "N (ac_world c) = n"
  shows "wlp (airflow_request v q) (\<lambda>_ c'. N (ac_world c') = Suc n) (\<lambda>_ c'. N (ac_world c') \<in> {n, Suc n}) c"
proof (rule airflow_request_rule [where J = "\<lambda>w. N w = n"])
  fix h w r w'
  assume "http_request (av_http v) (q \<lparr> hq_headers := Some h \<rparr>) w = (r, w')" and "N w = n"
  moreover have "starts_run dag_id (q \<lparr> hq_headers := Some h \<rparr>)"
    using starts by (simp add: starts_run_def)
  ultimately show "case r of Inr x \<Rightarrow> N w' = Suc n
      | Inl f \<Rightarrow> N w' \<in> {n, Suc n} \<and> (\<forall>t. f = Error_response 401 t \<longrightarrow> N w' = n)"
    using run_request [OF laws, of "q \<lparr> hq_headers := Some h \<rparr>" w r w'] by (cases r) auto
next
  fix c :: "'w airflow_client"
  assume "N (ac_world c) = n"
  from authorization_no_run [OF laws this]
  show "wlp (authorization_headers v) (\<lambda>_ c'. N (ac_world c') = n) (\<lambda>_ c'. N (ac_world c') \<in> {n, Suc n}) c"
    by (auto elim: wlp_mono)
qed (rule assms(3))

text \<open>
  C38. One trigger starts at most one run: exactly one if it returns, even if the token had expired
  and the request was sent twice. If it raises, the run may have been started (its description is
  fetched only afterwards).
\<close>

theorem trigger_starts_one_run:
  assumes "runs_laws (av_http v) N dag_id" and "trigger_workflow v dag_id parameters c = Some (r, c')"
  shows "runs_of N c' \<le> Suc (runs_of N c) \<and> runs_of N c \<le> runs_of N c' \<and>
    (\<forall>run. r = Inr run \<longrightarrow> runs_of N c' = Suc (runs_of N c))"
proof -
  let ?n = "N (ac_world c)"
  have post: "wlp (trigger_dag v dag_id (or_empty parameters))
      (\<lambda>_ c'. N (ac_world c') = Suc ?n) (\<lambda>_ c'. N (ac_world c') \<in> {?n, Suc ?n}) c"
    unfolding trigger_dag_def
    by (rule run_airflow_request [OF assms(1)]) (simp_all add: starts_run_def bare_call_def)
  have fetch: "wlp (get_workflow v dag_id) (\<lambda>_ c'. N (ac_world c') = n) (\<lambda>_ c'. N (ac_world c') = n) c1"
    if "N (ac_world c1) = n" for c1 n
    unfolding get_workflow_def get_dag_def wlp_bindA
    by (rule wlp_mono [OF quiet_airflow_request [OF assms(1) _ that]])
       (auto simp: starts_run_def bare_call_def split: sum.split)
  have "wlp (trigger_workflow v dag_id parameters)
      (\<lambda>_ c'. N (ac_world c') = Suc ?n) (\<lambda>_ c'. N (ac_world c') \<in> {?n, Suc ?n}) c"
    unfolding trigger_workflow_def wlp_bindA
  proof (rule wlp_mono [OF post], goal_cases)
    case (1 x c1)
    show ?case
      by (rule wlp_mono [OF fetch [OF 1]]) (auto split: sum.split)
  qed simp
  with assms(2) show ?thesis
    by (cases r) (auto simp: wlp_def runs_of_def)
qed

text \<open>The sample service counts its runs itself.\<close>

lemma sample_runs_laws: "runs_laws sample_http (\<lambda>runs. runs) ''etl''"
  by (auto simp: runs_laws_def sample_http_def http_result_def ok_response_def refusal_def unauthorized_def
      starts_run_def runs_path_def api_prefix_def)

lemma trigger_starts_one_run_witness:
  "\<exists>run c'. trigger_workflow sample_airflow ''etl'' None \<lparr> ac_token = JStr ''old'', ac_world = 0 \<rparr> =
      Some (Inr run, c') \<and> runs_of (\<lambda>runs. runs) c' = 1"
proof -
  let ?run = "trigger_workflow sample_airflow ''etl'' None \<lparr> ac_token = JStr ''old'', ac_world = 0 \<rparr>"
  have laws: "runs_laws (av_http sample_airflow) (\<lambda>runs. runs) ''etl''"
    using sample_runs_laws by (simp add: sample_airflow_def)
  have "map_option (\<lambda>(r, c). isl r) ?run = Some False"
    by code_simp
  then obtain r c' where run: "?run = Some (r, c')" and "\<not> isl r" by auto
  then obtain x where "r = Inr x" by (cases r) auto
  with run trigger_starts_one_run [OF laws run] show ?thesis by (auto simp: runs_of_def)
qed

end
