(* ===== verification/Databricks_Properties.thy ===== *)
theory Databricks_Properties
  imports Databricks
begin

text \<open>
  The property of the Databricks provider: what a result of \<open>execute\<close> says of the job that ran, and
  which exceptions leave it.
\<close>

lemma wlp_on_dbx:
  "wlp (on_dbx f) Q E s =
     (case f (ds_world s) of (Inl e, w) \<Rightarrow> E e (s \<lparr> ds_world := w \<rparr>) | (Inr a, w) \<Rightarrow> Q a (s \<lparr> ds_world := w \<rparr>))"
  by (simp add: wlp_def on_dbx_def split: prod.split sum.split)

lemma dbx_error_platform: "(c, platform) \<in> set dbx_error_classes \<Longrightarrow> platform \<in> set remote_service_errors"
  by (auto simp: dbx_error_classes_def remote_service_errors_def)

lemma translate_dbx_remote: "is_remote_error (translate_dbx api e)"
proof (cases "find (\<lambda>(c, _). da_is_a api e c) dbx_error_classes")
  case None
  then show ?thesis by (simp add: translate_dbx_def is_remote_error_def remote_service_errors_def)
next
  case (Some p)
  then have "p \<in> set dbx_error_classes" by (metis find_Some_iff nth_mem)
  then have "snd p \<in> set remote_service_errors" using dbx_error_platform [of "fst p" "snd p"] by simp
  with Some show ?thesis by (cases p) (simp add: translate_dbx_def is_remote_error_def)
qed

text \<open>The exceptions a translated block lets through.\<close>

definition not_sdk :: "'w dbx_api \<Rightarrow> exn \<Rightarrow> bool" where
  "not_sdk api e \<longleftrightarrow> is_remote_error e \<or> \<not> da_is_a api e ''DatabricksError'' \<or> \<not> is_Exn e"

lemma translating_wlp:
  assumes "wlp m Q (\<lambda>_ _. True) s"
  shows "wlp (translating api m) Q (\<lambda>e _. not_sdk api e) s"
  unfolding translating_def wlp_try_except
  by (rule wlp_mono [OF assms]) (auto simp: not_sdk_def translate_dbx_remote split: exn.split)

lemma workspace_wlp: "wlp (workspace api) (\<lambda>_ s'. ds_jobs s' = ds_jobs s) (\<lambda>_ _. True) s"
  by (simp add: workspace_def wlp_on_dbx split: prod.split sum.split)

text \<open>The job is the one the list, fetched now or before, has under the name.\<close>

lemma resolve_job_wlp:
  "wlp (resolve_job api n) (\<lambda>i s'. \<exists>d. ds_jobs s' = Some d \<and> map_of d n = Some i) (\<lambda>_ _. True) s"
proof -
  have "wlp (jobs_of api) (\<lambda>d s'. ds_jobs s' = Some d) (\<lambda>_ _. True) s"
    by (auto simp: jobs_of_def list_jobs_def wlp_on_dbx split: option.split prod.split sum.split
        intro!: wlp_mono [OF workspace_wlp])
  then show ?thesis
    unfolding resolve_job_def wlp_bindA by (rule wlp_mono) (auto split: option.split)
qed

definition ended_in_success :: "dbx_run \<Rightarrow> bool" where
  "ended_in_success run \<longleftrightarrow>
     (\<exists>st. dr_state run = Some st \<and> rs_life_cycle st = Some ''TERMINATED'' \<and> rs_result st = Some ''SUCCESS'')"

lemma succeeded_iff: "xe_status (to_execution run) = Compute_SUCCEEDED \<longleftrightarrow> ended_in_success run"
  by (auto simp: to_execution_def status_of_state_def ended_in_success_def split: option.split)

definition ran_job :: "'w dbx_api \<Rightarrow> workload \<Rightarrow> (string, int) dict \<Rightarrow> dbx_run \<Rightarrow> bool" where
  "ran_job api load d run \<longleftrightarrow>
     (\<exists>job completed i w w1 w2 w3. map_of d (wl_identifier load) = Some job \<and>
        da_run api job (wl_parameters load) w = (Inr completed, w1) \<and> dr_run_id completed = Some i \<and>
        da_get_run api i w2 = (Inr run, w3))"

lemma client_run_wlp:
  "wlp (client_run api load) (\<lambda>run s'. \<exists>d. ds_jobs s' = Some d \<and> ran_job api load d run)
     (\<lambda>e _. not_sdk api e \<or> e = no_run_id) s"
proof -
  let ?first = "bindA (resolve_job api (wl_identifier load)) (\<lambda>job_id.
    thenA (workspace api) (on_dbx (da_run api job_id (wl_parameters load))))"
  let ?ran = "\<lambda>completed s'. \<exists>d job w w1. ds_jobs s' = Some d \<and> map_of d (wl_identifier load) = Some job \<and>
    da_run api job (wl_parameters load) w = (Inr completed, w1)"
  have first: "wlp ?first ?ran (\<lambda>_ _. True) s"
    unfolding wlp_bindA
    by (rule wlp_mono [OF resolve_job_wlp])
       (auto simp: wlp_on_dbx split: prod.split sum.split intro!: wlp_mono [OF workspace_wlp], blast)
  have second: "wlp (thenA (workspace api) (on_dbx (da_get_run api i)))
      (\<lambda>run s'. ds_jobs s' = ds_jobs s1 \<and> (\<exists>w2 w3. da_get_run api i w2 = (Inr run, w3))) (\<lambda>_ _. True) s1" for i s1
    unfolding wlp_bindA
    by (rule wlp_mono [OF workspace_wlp]) (auto simp: wlp_on_dbx split: prod.split sum.split)
  show ?thesis
    unfolding client_run_def wlp_bindA [of "translating api ?first"]
  proof (rule wlp_mono [OF translating_wlp [OF first]], goal_cases)
    case (1 completed s1)
    show ?case
    proof (cases "dr_run_id completed")
      case (Some i)
      then show ?thesis
        using 1 unfolding ran_job_def
        by simp (rule wlp_mono [OF translating_wlp [OF second]], metis, simp)
    qed simp
  qed simp
qed

text \<open>
  C40. A workload that returns ran the job listed under its name, with its parameters, and reports the
  run the service had for it: \<open>SUCCEEDED\<close> exactly when that run terminated with \<open>SUCCESS\<close>. No
  exception of the SDK leaves the provider untranslated.
\<close>

theorem workload_outcomes:
  assumes "execute_workload api load s = Some (r, s')"
  shows "case r of
      Inr x \<Rightarrow> \<exists>d run. ds_jobs s' = Some d \<and> ran_job api load d run \<and> x = to_execution run \<and>
        (xe_status x = Compute_SUCCEEDED \<longleftrightarrow> ended_in_success run)
    | Inl e \<Rightarrow> not_sdk api e \<or> e = no_run_id"
proof -
  have "wlp (execute_workload api load)
      (\<lambda>x s'. \<exists>d run. ds_jobs s' = Some d \<and> ran_job api load d run \<and> x = to_execution run \<and>
        (xe_status x = Compute_SUCCEEDED \<longleftrightarrow> ended_in_success run))
      (\<lambda>e _. not_sdk api e \<or> e = no_run_id) s"
    unfolding execute_workload_def wlp_bindA
    by (rule wlp_mono [OF client_run_wlp]) (auto simp: succeeded_iff)
  with assms show ?thesis by (cases r) (simp_all add: wlp_def)
qed

definition sample_dbx :: "unit dbx_api" where
  "sample_dbx =
     \<lparr> da_workspace = (\<lambda>w. (Inr (), w)),
       da_jobs = (\<lambda>w. (([\<lparr> dj_job_id = Some 7, dj_settings_name = Some (Some ''bronze'') \<rparr>], None), w)),
       da_run = (\<lambda>job ps w. (Inr \<lparr> dr_run_id = Some 42, dr_state = None, dr_tasks = None \<rparr>, w)),
       da_get_run = (\<lambda>i w. (Inr \<lparr> dr_run_id = Some i,
         dr_state = Some \<lparr> rs_life_cycle = Some ''TERMINATED'', rs_result = Some ''SUCCESS'' \<rparr>, dr_tasks = None \<rparr>, w)),
       da_get_run_output = (\<lambda>i w. (Inl no_run_id, w)), da_is_a = (\<lambda>e c. False) \<rparr>"

lemma workload_outcomes_witness:
  "\<exists>x s' d run. execute_workload sample_dbx \<lparr> wl_identifier = ''bronze'', wl_parameters = [] \<rparr>
      \<lparr> ds_workspace = False, ds_jobs = None, ds_world = () \<rparr> = Some (Inr x, s') \<and>
    xe_execution_id x = ''42'' \<and> ds_jobs s' = Some d \<and>
    ran_job sample_dbx \<lparr> wl_identifier = ''bronze'', wl_parameters = [] \<rparr> d run \<and> ended_in_success run"
proof -
  let ?run = "execute_workload sample_dbx \<lparr> wl_identifier = ''bronze'', wl_parameters = [] \<rparr>
      \<lparr> ds_workspace = False, ds_jobs = None, ds_world = () \<rparr>"
  have "?run = Some (Inr \<lparr> xe_execution_id = ''42'', xe_status = Compute_SUCCEEDED \<rparr>,
      \<lparr> ds_workspace = True, ds_jobs = Some [(''bronze'', 7)], ds_world = () \<rparr>)"
    by code_simp
  from this workload_outcomes [OF this] show ?thesis by auto
qed

end
