(* ===== verification/Spec2Isabelle.thy ===== *)
theory Spec2Isabelle
  imports Batch_Run Logging_Setup Notebook_Properties Airflow_Setup_Properties Dag_Properties Job_Properties Bronze_Properties Market_Stock Stage_Properties Extraction_Properties
    Workflow_Properties Databricks_Properties Silver_Rows
begin

text \<open>
  A model of the modern data platform. The program is a set of Python packages around a data lake
  with the layers raw, Bronze, Silver and Gold:

    \<^item> \<open>src/src/data_platform/processing\<close>, a framework: a pipeline of stages is run by an executor,
      which asks policies what to do about each outcome, emits lifecycle events to hooks, and keeps
      what is current in a processing context and in context variables;
    \<^item> \<open>src/src/data_platform\<close> and \<open>src/src/integrations\<close>: the providers the stages use (object
      storage on S3, the catalog on AWS Glue, messages on Kafka, workflows on Airflow, compute on
      Databricks), built by name by a factory, and the concrete stages: extraction of a PostgreSQL
      table, Bronze ingestion, Silver transformations, registration of a Silver table;
    \<^item> \<open>src/src/streaming\<close>: the Bronze consumer, a loop that reads the change events of sixteen tables
      from Kafka, decodes them and appends them to Delta tables;
    \<^item> \<open>src/src/simulator\<close>: a simulator that writes a marketplace's data to the PostgreSQL database
      the platform reads, whose schema is \<open>src/alembic\<close>;
    \<^item> \<open>src/airflow\<close>, \<open>src/scripts\<close> and \<open>src/notebooks\<close>: the DAGs, the one-off scripts and the notebooks
      that put these together.

  Everything is a HOL function of its arguments. An exception is a value, \<open>Inl e\<close> against \<open>Inr a\<close> for a
  return; code with state is an action, \<open>'s \<Rightarrow> ((exn + 'a) \<times> 's) option\<close>, where \<open>None\<close> says that the
  code does not return. Code outside the repository (the client of Kafka, boto3, httpx, the
  Databricks SDK, Spark, \<open>json.loads\<close>, clocks, randomness) is a record of functions on a world \<open>'w\<close>,
  and what a property relies on of it is a named hypothesis (\<open>kafka_laws\<close>, \<open>glue_laws\<close>, \<open>s3_laws\<close>,
  and so on), which an instance in memory satisfies.
\<close>

text \<open>
  \<^bold>\<open>Shared.\<close> \<open>Prelude\<close>: exceptions, actions with their rules \<open>wp\<close> (returns, and then) and \<open>wlp\<close> (if
  it returns, then), dictionaries as association lists in insertion order, the locale \<open>keyed_store\<close>.
  \<open>Py_Strings\<close>: the operations of \<open>str\<close> and \<open>pathlib\<close> on 8-bit characters.

  \<^bold>\<open>Processing framework.\<close> \<open>Core_Model\<close> (\<open>processing/core\<close>: statuses, metadata, results, context keys),
  \<open>Pipelines\<close> (\<open>stage.py\<close>, \<open>pipeline.py\<close>, \<open>pipeline_builder.py\<close>), \<open>Runtime_State\<close>
  (\<open>runtime/execution_runtime.py\<close>), \<open>Policies\<close> (\<open>policies\<close>; the locale \<open>bounded_retry\<close> is what the
  executors need of them), \<open>Hooks\<close> (\<open>events\<close>, \<open>hooks\<close>), \<open>Executor_Base\<close>, \<open>Executor_Sequential\<close> and
  \<open>Executor_Parallel\<close> (\<open>executor\<close>). \<open>Executor_Spec\<close> says what running a pipeline means without any of
  that machinery, and that the sequential executor refines it; \<open>Executor_Bounds\<close> that it returns,
  within the attempts of each stage; \<open>Parallel_Facts\<close> and \<open>Parallel_Safety\<close> the same kind of facts for a
  parallel group under any schedule; \<open>Executor_Properties\<close> collects the properties. \<open>Observers\<close> are the
  logging, tracing and metrics hooks; \<open>Observed\<close> is the locale of invariants every event keeps, and
  \<open>Observer_Properties\<close> what the three hooks report, right or wrong.

  \<^bold>\<open>Streaming.\<close> \<open>Debezium\<close> (\<open>integrations/kafka/messaging/debezium_envelope.py\<close>, \<open>data_platform/compute/bronze_schema.py\<close>), \<open>Kafka\<close>
  (\<open>integrations/kafka/messaging\<close>), \<open>Bronze_Consumer\<close> (\<open>streaming/consumers/bronze_consumer.py\<close>).
  \<open>Bronze_Safety\<close> proves at-least-once delivery over the locales \<open>messaging_contract\<close> and \<open>table_sink\<close>,
  \<open>Kafka_Contract\<close> that the Kafka provider keeps the first for any client with \<open>kafka_laws\<close>,
  \<open>Memory_Broker\<close> is such a client, \<open>Bronze_Bounds\<close> has the bounds, \<open>Bronze_Properties\<close> the properties of
  the composition.

  \<^bold>\<open>Storage, catalog and stages.\<close> \<open>Storage\<close> (locations, URIs, layer paths), \<open>Glue\<close> with \<open>Glue_Contract\<close>
  and \<open>Glue_Properties\<close> (\<open>integrations/aws/catalog\<close>), \<open>Lake\<close> (\<open>integrations/aws/storage\<close>,
  \<open>datalake/services\<close>, \<open>providers\<close>), \<open>Stages\<close> (\<open>context_writers\<close>, \<open>bronze\<close>, \<open>catalog\<close> of
  \<open>processing\<close>) with \<open>Stage_Properties\<close>, \<open>Registration\<close>, which composes the stage of Silver tables, a
  store, the factory and the Glue provider, \<open>Postgres_Extraction\<close> with \<open>Extraction_Properties\<close>,
  \<open>Silver\<close> and \<open>Silver_Rows\<close> (\<open>processing/silver\<close>).

  \<^bold>\<open>Remote services.\<close> \<open>Workflow\<close> with \<open>Workflow_Properties\<close> (\<open>http\<close>, \<open>integrations/airflow\<close>),
  \<open>Databricks\<close> with \<open>Databricks_Properties\<close> (\<open>integrations/databricks\<close>).

  \<^bold>\<open>Programs.\<close> \<open>Dags\<close> with \<open>Dag_Properties\<close> (the lag watcher and the Bronze maintenance of
  \<open>airflow/dags\<close>), \<open>Jobs\<close> with \<open>Job_Properties\<close> (\<open>scripts\<close>: what the registration script publishes,
  through the executor, its retries and its hooks), \<open>Batch_Dag\<close> with \<open>Batch_Properties\<close> (the tasks of
  the batch DAG) and \<open>Batch_Run\<close>, which says what the counts of its extraction mean and runs it once;
  \<open>Airflow_Setup\<close> with \<open>Airflow_Setup_Properties\<close> (\<open>airflow/config\<close>: connections, variables, pools);
  \<open>Notebooks\<close> with \<open>Notebook_Properties\<close> (\<open>notebooks\<close>, run by the Databricks job \<open>Full Pipeline\<close>): how
  the raw layer becomes Bronze and Silver; \<open>Logging_Setup\<close> (\<open>observability\<close> and the wrapper of Terraform).

  \<^bold>\<open>Simulator.\<close> \<open>Market_DB\<close> (the schema and its statements), \<open>Market_Core\<close> (\<open>simulator/core\<close>),
  \<open>Market_Catalog\<close>, \<open>Market_Orders\<close>, \<open>Market_Services\<close>, \<open>Market_Status\<close> (\<open>simulator/domain\<close>),
  \<open>Market_Scheduler\<close> (\<open>scheduler.py\<close>, \<open>core/seed.py\<close>). \<open>Market_Safety\<close> is a logic in which a reference to
  a row travels from the statement that made it true to the one that needs it; \<open>Market_Rules\<close>,
  \<open>Market_Safe_Catalog\<close> and \<open>Market_Safe_Batch\<close> are its rules, operation by operation;
  \<open>Market_Properties\<close>, \<open>Market_Progress\<close>, \<open>Market_Writer\<close> and \<open>Market_Stock\<close> have the properties.
\<close>

text \<open>
  \<^bold>\<open>Termination, schedules and bounds.\<close> The retry loop of the sequential executor is a
  \<open>partial_function\<close>: nothing in the code bounds it, the policies do, and that it returns is proved
  from \<open>bounded_retry\<close>. The event loop of a parallel group is a schedule, any list of task numbers;
  one that leaves a task unfinished is a \<open>gather\<close> that waits, \<open>None\<close>, and one that gives every task
  its turns is proved to finish it. The Bronze consumer runs a given number of turns, each with
  the workers that finish before it; its properties hold for every number and every choice. A
  flush runs at one point of the schedule: while it is in flight the loop leaves its entity alone.
  The simulator's endless loop is its first \<open>n\<close> batches. Loops over a list are recursion on it, so
  nothing else needs fuel. Python's integers are \<open>int\<close>, and nothing wraps.
  That the details of an order are new rows rests on \<open>ids_unused\<close>: \<open>uuid4\<close> gives no identifier already in use.

  \<^bold>\<open>Not modelled.\<close> What is printed and logged by the back ends, with the processors of structlog and
  the CloudWatch handler; settings, sessions, builders of SDK clients and abstract interfaces, which
  have no behaviour of their own; the validation DAGs of \<open>dags/foundation\<close>, the operators and the
  scheduling of the others; the environment of alembic; \<open>dbt\<close>, Terraform, dashboards and tests, which
  are not the platform's Python. A commit of Kafka that times out and
  takes effect later; a database connection that drops; the length of character columns, the
  precision of numeric ones, defaults, indexes and \<open>ON DELETE\<close>; the downgrade of a migration. Sleeping.
  Floats are kept apart: probabilities and jitter are in millionths, JSON floats are their
  literals. Characters are 8-bit. Glue folds names to lower case, so what is created has a
  lower-case name by hypothesis. The unused \<open>Payment.create\<close> and the duplicates of
  \<open>catalog/types.py\<close> are left out.
\<close>

end
